(* ===== verification/Newth_Prelude.thy ===== *)
theory Newth_Prelude
  imports Main "HOL-Library.Sublist" "HOL-Library.Word"
begin

text \<open>
  Shared vocabulary of the development: the C string library the sources of Newth call
  (\<open>string.h\<close>, \<open>ctype.h\<close> in the C locale), the type of undefined behaviours, and the lemma
  collections the component theories add to.

  A NUL terminated string is the HOL \<open>string\<close> of its characters before the NUL. A pointer into
  a string is an index into it, and a function that returns a pointer or \<open>NULL\<close> returns
  \<open>nat option\<close>. Memory allocation is assumed to succeed, except in the containers whose
  operations take the answer of the allocator as an argument.
\<close>

named_theorems cstr \<open>facts about the C string functions\<close>
named_theorems res_simps \<open>unfolding of computations that may run into undefined behaviour\<close>

section \<open>Undefined behaviour as a value\<close>

text \<open>
  A computation of the source that reads or writes outside an object, uses freed memory or never
  returns is not silently given a HOL value: its result is \<open>Inl\<close> of the fault.
\<close>

datatype fault = OutOfBounds | BufferOverflow | UseAfterFree | NullDereference | Uninitialised | EndlessLoop

type_synonym 'a res = "fault + 'a"

fun bindr :: "'a res \<Rightarrow> ('a \<Rightarrow> 'b res) \<Rightarrow> 'b res" where
  "bindr (Inl e) f = Inl e"
| "bindr (Inr x) f = f x"

lemma bindr_eq_Inr [res_simps]: "bindr m f = Inr y \<longleftrightarrow> (\<exists>x. m = Inr x \<and> f x = Inr y)"
  by (cases m) auto

lemma bindr_eq_Inl [res_simps]: "bindr m f = Inl e \<longleftrightarrow> m = Inl e \<or> (\<exists>x. m = Inr x \<and> f x = Inl e)"
  by (cases m) auto

lemma bindr_assoc: "bindr (bindr m f) g = bindr m (\<lambda>x. bindr (f x) g)"
  by (cases m) auto

lemma bindr_return [simp]: "bindr m Inr = m"
  by (cases m) auto

text \<open>Taking a computation apart that had a result, with the case splits on what it found.\<close>

lemma bindrE: "bindr m f = Inr y \<Longrightarrow> (\<And>x. m = Inr x \<Longrightarrow> f x = Inr y \<Longrightarrow> P) \<Longrightarrow> P"
  by (cases m) auto

text \<open>Declared as a congruence rule where a recursion runs inside a computation.\<close>

lemma bindr_cong: "m = m' \<Longrightarrow> (\<And>x. m' = Inr x \<Longrightarrow> f x = f' x) \<Longrightarrow> bindr m f = bindr m' f'"
  by (cases m') auto

lemmas splits_asm = option.split_asm prod.split_asm if_split_asm sum.split_asm

section \<open>Characters\<close>

abbreviation code :: "char \<Rightarrow> nat" where
  "code c \<equiv> of_char c"

abbreviation NUL :: char where "NUL \<equiv> CHR 0x00"
abbreviation CR :: char where "CR \<equiv> CHR 0x0D"
abbreviation LF :: char where "LF \<equiv> CHR 0x0A"
abbreviation TAB :: char where "TAB \<equiv> CHR 0x09"
abbreviation DQUOTE :: char where "DQUOTE \<equiv> CHR 0x22"
abbreviation SQUOTE :: char where "SQUOTE \<equiv> CHR 0x27"
abbreviation BACKSLASH :: char where "BACKSLASH \<equiv> CHR 0x5C"

text \<open>\<open>HTTP_EOL\<close> and \<open>HTTP_RES\<close> of \<open>src/common/defines.h\<close>.\<close>

abbreviation HTTP_EOL :: string where "HTTP_EOL \<equiv> [CR, LF]"

definition HTTP_RES :: string where
  "HTTP_RES = ''HTTP/1.1''"

definition isdigitC :: "char \<Rightarrow> bool" where
  "isdigitC c \<longleftrightarrow> 48 \<le> code c \<and> code c \<le> 57"

definition isupperC :: "char \<Rightarrow> bool" where
  "isupperC c \<longleftrightarrow> 65 \<le> code c \<and> code c \<le> 90"

definition islowerC :: "char \<Rightarrow> bool" where
  "islowerC c \<longleftrightarrow> 97 \<le> code c \<and> code c \<le> 122"

definition isalnumC :: "char \<Rightarrow> bool" where
  "isalnumC c \<longleftrightarrow> isdigitC c \<or> isupperC c \<or> islowerC c"

definition isspaceC :: "char \<Rightarrow> bool" where
  "isspaceC c \<longleftrightarrow> code c = 32 \<or> (9 \<le> code c \<and> code c \<le> 13)"

definition toupperC :: "char \<Rightarrow> char" where
  "toupperC c = (if islowerC c then char_of (code c - 32) else c)"

abbreviation digit_val :: "char \<Rightarrow> nat" where
  "digit_val c \<equiv> code c - 48"

lemma toupperC_idem [simp]: "toupperC (toupperC c) = toupperC c"
  by (auto simp: toupperC_def islowerC_def)

lemma isdigitC_digit_val: "isdigitC c \<Longrightarrow> digit_val c < 10"
  by (auto simp: isdigitC_def)

section \<open>Strings\<close>

text \<open>\<open>s[i]\<close> of a NUL terminated string, for \<open>i \<le> strlen (s)\<close>; \<open>rdC\<close> reports a read beyond.\<close>

definition chC :: "string \<Rightarrow> nat \<Rightarrow> char" where
  "chC s i = (if i < length s then s ! i else NUL)"

definition rdC :: "string \<Rightarrow> nat \<Rightarrow> char res" where
  "rdC s i = (if i \<le> length s then Inr (chC s i) else Inl OutOfBounds)"

fun strchr :: "string \<Rightarrow> char \<Rightarrow> nat option" where
  "strchr [] c = None"
| "strchr (x # xs) c = (if x = c then Some 0 else map_option Suc (strchr xs c))"

fun strrchr :: "string \<Rightarrow> char \<Rightarrow> nat option" where
  "strrchr [] c = None"
| "strrchr (x # xs) c =
     (case strrchr xs c of Some i \<Rightarrow> Some (Suc i) | None \<Rightarrow> if x = c then Some 0 else None)"

fun strstr :: "string \<Rightarrow> string \<Rightarrow> nat option" where
  "strstr [] n = (if n = [] then Some 0 else None)"
| "strstr (x # xs) n = (if prefix n (x # xs) then Some 0 else map_option Suc (strstr xs n))"

text \<open>Pointers produced by a search that starts at offset \<open>k\<close> of the string.\<close>

definition strchr_from :: "string \<Rightarrow> nat \<Rightarrow> char \<Rightarrow> nat option" where
  "strchr_from s k c = map_option ((+) k) (strchr (drop k s) c)"

definition strstr_from :: "string \<Rightarrow> nat \<Rightarrow> string \<Rightarrow> nat option" where
  "strstr_from s k n = map_option ((+) k) (strstr (drop k s) n)"

text \<open>The bytes \<open>s[a], \<dots>, s[b - 1]\<close>.\<close>

definition substr :: "string \<Rightarrow> nat \<Rightarrow> nat \<Rightarrow> string" where
  "substr s a b = take (b - a) (drop a s)"

text \<open>Comparison of strings after \<open>toupper\<close>, as the code does it character by character.\<close>

definition upperS :: "string \<Rightarrow> string" where
  "upperS s = map toupperC s"

lemma length_upperS [simp]: "length (upperS s) = length s"
  by (simp add: upperS_def)

lemma upperS_append [simp]: "upperS (a @ b) = upperS a @ upperS b"
  by (simp add: upperS_def)

lemma chC_less [simp]: "i < length s \<Longrightarrow> chC s i = s ! i"
  by (simp add: chC_def)

lemma chC_beyond [simp]: "length s \<le> i \<Longrightarrow> chC s i = NUL"
  by (simp add: chC_def)

lemma strchr_Some [cstr]:
  "strchr s c = Some i \<Longrightarrow> i < length s \<and> s ! i = c \<and> c \<notin> set (take i s)"
  by (induction s c arbitrary: i rule: strchr.induct) (auto split: if_splits)

lemma strchr_None [cstr]: "strchr s c = None \<longleftrightarrow> c \<notin> set s"
  by (induction s c rule: strchr.induct) auto

lemma strchr_append [cstr]: "c \<notin> set a \<Longrightarrow> strchr (a @ c # b) c = Some (length a)"
  by (induction a) auto

lemma strchr_append_notin [cstr]:
  "c \<notin> set a \<Longrightarrow> strchr (a @ b) c = map_option ((+) (length a)) (strchr b c)"
proof (induction a)
  case (Cons x a)
  then have "strchr (a @ b) c = map_option ((+) (length a)) (strchr b c)" by simp
  with Cons.prems show ?case by (cases "strchr b c") auto
qed (cases "strchr b c"; simp)

lemma strchr_split: "strchr s c = Some i \<Longrightarrow> s = take i s @ c # drop (Suc i) s"
  using strchr_Some [of s c i] id_take_nth_drop [of i s] by auto

lemma strrchr_Some [cstr]:
  "strrchr s c = Some i \<Longrightarrow> i < length s \<and> s ! i = c \<and> c \<notin> set (drop (Suc i) s)"
proof (induction s c arbitrary: i rule: strrchr.induct)
  case (2 x xs c)
  have "strrchr xs c = None \<Longrightarrow> c \<notin> set xs"
    by (induction xs) (auto split: option.splits if_splits)
  with 2 show ?case by (auto split: option.splits if_splits)
qed simp

lemma strrchr_None [cstr]: "strrchr s c = None \<longleftrightarrow> c \<notin> set s"
  by (induction s c rule: strrchr.induct) (auto split: option.splits)

lemma strrchr_append [cstr]: "c \<notin> set b \<Longrightarrow> strrchr (a @ c # b) c = Some (length a)"
  by (induction a) (auto simp: strrchr_None split: option.splits)

lemma strstr_Some [cstr]:
  "strstr s n = Some i \<Longrightarrow>
     i + length n \<le> length s \<and> prefix n (drop i s) \<and> (\<forall>j<i. \<not> prefix n (drop j s))"
proof (induction s n arbitrary: i rule: strstr.induct)
  case (2 x xs n)
  show ?case
  proof (cases "prefix n (x # xs)")
    case True
    with "2.prems" show ?thesis by (auto dest: prefix_length_le)
  next
    case False
    with "2.prems" obtain k where k: "strstr xs n = Some k" "i = Suc k" by auto
    from "2.IH" [OF False k(1)] k(2) False show ?thesis
      by (auto simp: less_Suc_eq_0_disj)
  qed
qed (auto split: if_splits)

lemma strstr_None [cstr]: "strstr s n = None \<longleftrightarrow> \<not> sublist n s"
  by (induction s n rule: strstr.induct) (auto simp: sublist_Cons_right)

lemma strstr_SomeI [cstr]:
  assumes "prefix n (drop i s)" "\<And>j. j < i \<Longrightarrow> \<not> prefix n (drop j s)"
  shows "strstr s n = Some i"
proof (cases "strstr s n")
  case None
  then have "\<not> sublist n s" by (simp add: strstr_None)
  moreover have "sublist n (drop i s)" using assms(1) by (rule prefix_imp_sublist)
  ultimately show ?thesis using sublist_drop sublist_order.order_trans by blast
next
  case (Some k)
  from strstr_Some [OF this] assms Some show ?thesis by (metis linorder_neqE_nat)
qed

lemma strstr_hit: "prefix n s \<Longrightarrow> strstr s n = Some 0"
  by (cases s) auto

lemma length_substr [simp]: "length (substr s a b) = min (b - a) (length s - a)"
  by (simp add: substr_def)

lemma substr_append_right [simp]: "substr (a @ b) (length a) (length a + length b) = b"
  by (simp add: substr_def)

lemma upperS_prefix_nth:
  "prefix (upperS n) (upperS (drop i h)) \<Longrightarrow> k < length n \<Longrightarrow> i + k < length h \<and> toupperC (h ! (i + k)) = toupperC (n ! k)"
proof -
  assume p: "prefix (upperS n) (upperS (drop i h))" and k: "k < length n"
  from p obtain z where z: "upperS (drop i h) = upperS n @ z" by (auto simp: prefix_def)
  from arg_cong [OF z, of length] k have l: "i + k < length h" by simp
  have "upperS (drop i h) ! k = upperS n ! k" using k by (simp add: z nth_append)
  then show ?thesis using k l by (simp add: upperS_def)
qed

section \<open>Numbers in decimal and hexadecimal\<close>

text \<open>The conversions \<open>%lu\<close> and \<open>%lx\<close> of \<open>printf\<close>, and \<open>strtol\<close> in base ten on 64 bit longs.\<close>

definition dec_digit :: "nat \<Rightarrow> char" where
  "dec_digit d = char_of (48 + d)"

definition hex_digit :: "nat \<Rightarrow> char" where
  "hex_digit d = (if d < 10 then char_of (48 + d) else char_of (87 + d))"

fun show_nat :: "nat \<Rightarrow> string" where
  "show_nat n = (if n < 10 then [dec_digit n] else show_nat (n div 10) @ [dec_digit (n mod 10)])"

fun show_hex :: "nat \<Rightarrow> string" where
  "show_hex n = (if n < 16 then [hex_digit n] else show_hex (n div 16) @ [hex_digit (n mod 16)])"

declare show_nat.simps [simp del] show_hex.simps [simp del]

lemma isdigit_dec_digit: "d < 10 \<Longrightarrow> isdigitC (dec_digit d)"
  by (simp add: isdigitC_def dec_digit_def)

lemma show_nat_digits: "\<forall>c \<in> set (show_nat n). isdigitC c"
proof (induction n rule: show_nat.induct)
  case (1 n)
  then show ?case by (subst show_nat.simps) (auto simp: isdigit_dec_digit)
qed

lemma show_nat_ne [simp]: "show_nat n \<noteq> []"
  by (subst show_nat.simps) simp

definition LONG_MAX :: int where "LONG_MAX = 2 ^ 63 - 1"
definition LONG_MIN :: int where "LONG_MIN = - (2 ^ 63)"

definition digits_val :: "nat \<Rightarrow> string \<Rightarrow> nat" where
  "digits_val = foldl (\<lambda>r c. 10 * r + digit_val c)"

text \<open>
  The result of \<open>strtol (s, &end, 10)\<close>: the value saturated to the range of \<open>long\<close>, whether the
  range was exceeded (\<open>errno = ERANGE\<close>), and the number of characters consumed.
\<close>

definition strtol :: "string \<Rightarrow> int \<times> bool \<times> nat" where
  "strtol s =
     (let s1 = dropWhile isspaceC s;
          neg = (case s1 of c # _ \<Rightarrow> c = CHR ''-'' | [] \<Rightarrow> False);
          s2 = (case s1 of c # r \<Rightarrow> if c = CHR ''-'' \<or> c = CHR ''+'' then r else s1 | [] \<Rightarrow> []);
          ds = takeWhile isdigitC s2;
          v = (if neg then - int (digits_val 0 ds) else int (digits_val 0 ds))
      in if ds = [] then (0, False, 0)
         else (max LONG_MIN (min LONG_MAX v), v < LONG_MIN \<or> LONG_MAX < v,
               length s - length s2 + length ds))"

definition atol :: "string \<Rightarrow> int" where
  "atol s = fst (strtol s)"

lemma digits_val_append: "digits_val k (a @ b) = digits_val (digits_val k a) b"
  by (simp add: digits_val_def)

lemma digits_val_show_nat [simp]: "digits_val 0 (show_nat n) = n"
proof (induction n rule: show_nat.induct)
  case (1 n)
  then show ?case
    by (subst show_nat.simps) (auto simp: digits_val_append, auto simp: digits_val_def dec_digit_def)
qed

lemma strtol_range: "LONG_MIN \<le> fst (strtol s) \<and> fst (strtol s) \<le> LONG_MAX"
  by (auto simp: strtol_def Let_def LONG_MIN_def LONG_MAX_def)

lemma sint_size: "n < 2 ^ 63 \<Longrightarrow> sint (word_of_nat n :: 64 word) = int n"
  by transfer (simp add: signed_take_bit_int_eq_self)

end
