(* ===== verification/Hex_Codec.thy ===== *)
theory Hex_Codec
  imports Newth_Prelude
begin

text \<open>
  \<open>src/common/hex.c\<close>: percent decoding of the path of a request (\<open>hexConvertStringToAscii\<close>, used
  by the server on every request line and by the client on every link) and the length of a number
  in hexadecimal. The decoder also removes every \<open>/..\<close>; that no \<open>/..\<close> survives is what keeps a
  request inside the served directory.
\<close>

unbundle bit_operations_syntax

section \<open>HexToAscii\<close>

text \<open>One turn of the loop: \<open>ch\<close> is an \<open>unsigned char\<close>, \<open>value\<close> a \<open>char\<close>.\<close>

definition hexNibble :: "8 word \<Rightarrow> 8 word" where
  "hexNibble ch =
     (if 48 \<le> ch \<and> ch \<le> 57 then ch - 48
      else if 97 \<le> ch \<and> ch \<le> 102 then ch - 97 + 10
      else if 65 \<le> ch \<and> ch \<le> 70 then ch - 65 + 10
      else ch)"

definition HexToAscii :: "char \<Rightarrow> char \<Rightarrow> char" where
  "HexToAscii a b =
     char_of (unat (foldl (\<lambda>value hex. push_bit 4 value OR (hexNibble (word_of_nat (code hex)) AND 0xF))
                      (0 :: 8 word) [a, b]))"

section \<open>hexConvertStringToAscii\<close>

text \<open>
  The first loop, as a function of what lies ahead of the pointer. After \<open>*i = HexToAscii (&i[1])\<close>
  the length given to \<open>memmove\<close> is \<open>strlen (i) - 2\<close>; when the decoded character is NUL that is
  \<open>0 - 2\<close> in \<open>size_t\<close>, and the move runs over the whole address space.
\<close>

fun hexDecode :: "string \<Rightarrow> string res" where
  "hexDecode [] = Inr []"
| "hexDecode (c # a # b # r) =
     (if c = CHR ''%'' then
        (if HexToAscii a b = NUL then Inl BufferOverflow
         else bindr (hexDecode r) (\<lambda>t. Inr (HexToAscii a b # t)))
      else bindr (hexDecode (a # b # r)) (\<lambda>t. Inr (c # t)))"
| "hexDecode (c # r) = bindr (hexDecode r) (\<lambda>t. Inr (c # t))"

text \<open>The second loop: \<open>memmove (&i[1], &i[3], \<dots>)\<close> until \<open>strstr\<close> finds no more \<open>/..\<close>.\<close>

function hexStripUp :: "string \<Rightarrow> string" where
  "hexStripUp url =
     (case strstr url ''/..'' of
        None \<Rightarrow> url
      | Some i \<Rightarrow> hexStripUp (take (i + 1) url @ drop (i + 3) url))"
  by pat_completeness auto
termination
  by (relation "measure length") (auto dest!: strstr_Some)

declare hexStripUp.simps [simp del]

definition hexConvertStringToAscii :: "string \<Rightarrow> string res" where
  "hexConvertStringToAscii url = bindr (hexDecode url) (\<lambda>u. Inr (hexStripUp u))"

section \<open>hexGetStringLength\<close>

fun hexLengthLoop :: "nat \<Rightarrow> nat \<Rightarrow> nat" where
  "hexLengthLoop number r = (if number \<noteq> 0 then hexLengthLoop (number div 16) (Suc r) else r)"

declare hexLengthLoop.simps [simp del]

definition hexGetStringLength :: "nat \<Rightarrow> nat" where
  "hexGetStringLength number = (if number = 0 then 1 else hexLengthLoop number 0)"

section \<open>Lemmas\<close>

definition hexVal :: "char \<Rightarrow> nat" where
  "hexVal c = unat (hexNibble (word_of_nat (code c)) AND 0xF)"

lemma hexVal_less: "hexVal c < 16"
proof -
  have "hexNibble (word_of_nat (code c)) AND 0xF = take_bit 4 (hexNibble (word_of_nat (code c)))"
    by (simp add: take_bit_eq_mask mask_eq_exp_minus_1)
  then show ?thesis by (simp add: hexVal_def unsigned_take_bit_eq take_bit_nat_def)
qed

lemma HexToAscii_eq: "HexToAscii a b = char_of (16 * hexVal a + hexVal b)"
proof -
  let ?x = "hexNibble (word_of_nat (code a)) AND 0xF" and ?y = "hexNibble (word_of_nat (code b)) AND 0xF"
  have y: "?y = take_bit 4 ?y" by (simp add: take_bit_eq_mask mask_eq_exp_minus_1 and.assoc)
  have "push_bit 4 ?x OR ?y = push_bit 4 ?x + ?y"
    by (rule disjunctive_add [symmetric]) (subst y, auto simp: bit_simps)
  also have "unat \<dots> = 16 * hexVal a + hexVal b"
    using hexVal_less [of a] hexVal_less [of b]
    by (simp add: hexVal_def push_bit_eq_mult unat_word_ariths)
  finally show ?thesis by (simp add: HexToAscii_def)
qed

lemma HexToAscii_nonNUL_iff: "HexToAscii a b = NUL \<longleftrightarrow> hexVal a = 0 \<and> hexVal b = 0"
proof -
  have "16 * hexVal a + hexVal b < 256" using hexVal_less [of a] hexVal_less [of b] by simp
  then have "code (HexToAscii a b) = 16 * hexVal a + hexVal b"
    by (simp add: HexToAscii_eq)
  moreover have "HexToAscii a b = NUL \<longleftrightarrow> code (HexToAscii a b) = code NUL"
    by (simp only: of_char_eq_iff)
  ultimately show ?thesis by simp
qed

lemma hexDecode_plain: "CHR ''%'' \<notin> set s \<Longrightarrow> hexDecode s = Inr s"
  by (induction s rule: hexDecode.induct) auto

lemma hexDecode_skip: "c \<noteq> CHR ''%'' \<Longrightarrow> hexDecode (c # s) = bindr (hexDecode s) (\<lambda>t. Inr (c # t))"
  by (cases s rule: hexDecode.cases) auto

lemma hexDecode_append_plain:
  "CHR ''%'' \<notin> set a \<Longrightarrow> hexDecode (a @ s) = bindr (hexDecode s) (\<lambda>t. Inr (a @ t))"
  by (induction a) (auto simp: hexDecode_skip bindr_assoc)

lemma hexDecode_escape:
  "hexDecode (CHR ''%'' # a # b # r) =
     (if HexToAscii a b = NUL then Inl BufferOverflow
      else bindr (hexDecode r) (\<lambda>t. Inr (HexToAscii a b # t)))"
  by simp

lemma hexDecode_length: "hexDecode s = Inr r \<Longrightarrow> length r \<le> length s"
  by (induction s arbitrary: r rule: hexDecode.induct) (fastforce simp: res_simps split: if_splits)+

lemma hexDecode_NUL: "hexDecode s = Inr r \<Longrightarrow> NUL \<notin> set s \<Longrightarrow> NUL \<notin> set r"
  by (induction s arbitrary: r rule: hexDecode.induct) (fastforce simp: res_simps split: if_splits)+

lemma hexStripUp_safe: "\<not> sublist ''/..'' (hexStripUp s)"
proof (induction s rule: hexStripUp.induct)
  case (1 url)
  then show ?case by (subst hexStripUp.simps) (auto simp: strstr_None split: option.splits)
qed

lemma hexStripUp_id: "\<not> sublist ''/..'' s \<Longrightarrow> hexStripUp s = s"
  by (subst hexStripUp.simps) (auto simp: strstr_None [symmetric])

lemma hexStripUp_subset: "set (hexStripUp s) \<subseteq> set s"
proof (induction s rule: hexStripUp.induct)
  case (1 url)
  then show ?case
    by (subst hexStripUp.simps) (fastforce split: option.splits dest: in_set_takeD in_set_dropD)
qed

lemma hexStripUp_length: "length (hexStripUp s) \<le> length s"
proof (induction s rule: hexStripUp.induct)
  case (1 url)
  then show ?case
    by (subst hexStripUp.simps) (fastforce split: option.splits dest: strstr_Some)
qed

lemma hexStripUp_first: "hexStripUp (CHR ''/'' # s) \<noteq> [] \<and> hd (hexStripUp (CHR ''/'' # s)) = CHR ''/''"
proof -
  have "u \<noteq> [] \<Longrightarrow> hd u = CHR ''/'' \<Longrightarrow> hexStripUp u \<noteq> [] \<and> hd (hexStripUp u) = CHR ''/''" for u
  proof (induction u rule: hexStripUp.induct)
    case (1 url)
    show ?case
    proof (cases "strstr url ''/..''")
      case None
      with 1 show ?thesis by (subst (1 2) hexStripUp.simps) simp
    next
      case (Some i)
      from "1.prems" have "take (i + 1) url @ drop (i + 3) url \<noteq> []"
        and "hd (take (i + 1) url @ drop (i + 3) url) = CHR ''/''"
        by (cases url; simp)+
      from "1.IH" [OF Some this] Some show ?thesis by (subst (1 2) hexStripUp.simps) simp
    qed
  qed
  then show ?thesis by simp
qed

lemma hexLengthLoop_eq: "0 < n \<Longrightarrow> hexLengthLoop n r = r + length (show_hex n)"
proof (induction n arbitrary: r rule: less_induct)
  case (less n)
  show ?case
  proof (cases "n < 16")
    case True
    with less.prems show ?thesis
      by (subst show_hex.simps) (simp add: hexLengthLoop.simps [of n] hexLengthLoop.simps [of 0])
  next
    case False
    then have "0 < n div 16" "n div 16 < n" by (simp_all add: div_greater_zero_iff)
    from less.IH [OF this(2,1)] False less.prems show ?thesis
      by (subst show_hex.simps) (simp add: hexLengthLoop.simps [of n])
  qed
qed

section \<open>Properties\<close>



text \<open>
  An escape that decodes to NUL (\<open>%00\<close>, but also \<open>%pP\<close>, since a character that is no
  hexadecimal digit contributes its low four bits) makes the decoder move memory without bound,
  wherever it stands behind plain text.
\<close>

theorem hexConvertStringToAscii_NUL_escape:
  assumes "CHR ''%'' \<notin> set a" and "hexVal x = 0" and "hexVal y = 0"
  shows "hexConvertStringToAscii (a @ [CHR ''%'', x, y] @ b) = Inl BufferOverflow"
  using assms by (simp add: hexConvertStringToAscii_def hexDecode_append_plain HexToAscii_nonNUL_iff)

theorem hexConvertStringToAscii_NUL_escape_witness:
  "hexConvertStringToAscii (''/'' @ [CHR ''%'', CHR ''0'', CHR ''0''] @ ''x'') = Inl BufferOverflow"
  by (rule hexConvertStringToAscii_NUL_escape) (simp_all add: hexVal_def hexNibble_def)

text \<open>
  \<open>hexGetStringLength\<close> is the number of characters \<open>%lx\<close> prints.
\<close>

theorem hexGetStringLength_correct: "hexGetStringLength n = length (show_hex n)"
proof (cases "n = 0")
  case True
  then show ?thesis by (subst show_hex.simps) (simp add: hexGetStringLength_def)
next
  case False
  then show ?thesis by (simp add: hexGetStringLength_def hexLengthLoop_eq)
qed

end
