(* ===== verification/Platform_Str.thy ===== *)
theory Platform_Str
  imports Newth_Prelude
begin

text \<open>
  The portable part of \<open>src/platform/platform.c\<close>: case insensitive searching, the splitting of a
  command line into arguments, command line flags, growing heap strings, the list of ports and the
  table of network adapters.
\<close>

section \<open>platformStringFindNeedle, platformStringFindNeedleRaw\<close>

text \<open>The inner loop: how far \<open>haystack\<close> and \<open>needle\<close> agree, at most to the end of the needle.\<close>

fun needleRun :: "string \<Rightarrow> string \<Rightarrow> nat" where
  "needleRun (h # hs) (n # ns) = (if toupperC h = toupperC n then Suc (needleRun hs ns) else 0)"
| "needleRun _ _ = 0"

definition platformStringFindNeedleRaw :: "string \<Rightarrow> string \<Rightarrow> nat \<Rightarrow> nat \<Rightarrow> nat option" where
  "platformStringFindNeedleRaw haystack needle haystackLen needleLen =
     (if haystackLen = 0 \<or> needleLen = 0 \<or> haystackLen < needleLen then None
      else find (\<lambda>i. toupperC (chC haystack i) = toupperC (chC needle 0) \<and>
                     needleRun (drop i haystack) needle = needleLen)
             [0..<(haystackLen - needleLen) + 1])"

definition platformStringFindNeedle :: "string \<Rightarrow> string \<Rightarrow> nat option" where
  "platformStringFindNeedle haystack needle =
     platformStringFindNeedleRaw haystack needle (length haystack) (length needle)"

definition wordDelimiter :: "char \<Rightarrow> bool" where
  "wordDelimiter c \<longleftrightarrow> c \<in> set ([TAB, LF, NUL, BACKSLASH, SQUOTE, DQUOTE] @ '' /!?.=+-<>'')"

definition platformStringFindWord :: "string \<Rightarrow> string \<Rightarrow> nat option" where
  "platformStringFindWord haystack needle =
     (case platformStringFindNeedle haystack needle of
        None \<Rightarrow> None
      | Some r \<Rightarrow>
          let t0 = (if r = 0 then NUL else chC haystack (r - 1));
              t1 = chC haystack (r + length needle)
          in if wordDelimiter t0 \<and> wordDelimiter t1 then Some r else None)"

lemma needleRun_le: "needleRun h n \<le> length n"
  by (induction h n rule: needleRun.induct) auto

lemma needleRun_full: "needleRun h n = length n \<longleftrightarrow> prefix (upperS n) (upperS h)"
  by (induction h n rule: needleRun.induct) (auto simp: upperS_def)

lemma strstr_find:
  "strstr s n = find (\<lambda>i. prefix n (drop i s)) [0..<length s - length n + 1]" if "length n \<le> length s"
proof (cases "strstr s n")
  case None
  have "prefix n (drop i s) \<Longrightarrow> sublist n s" for i
    by (metis append_take_drop_id prefix_imp_sublist sublist_append_leftI sublist_order.order_trans sublist_appendI)
  then have "find (\<lambda>i. prefix n (drop i s)) [0..<length s - length n + 1] = None"
    using None by (auto simp: find_None_iff strstr_None)
  with None show ?thesis by simp
next
  case (Some i)
  from strstr_Some [OF this] that show ?thesis
    unfolding Some by (intro sym [OF find_Some_iff [THEN iffD2]] exI [of _ i])
      (auto simp del: upt_Suc)
qed

lemma strstr_longer: "length s < length n \<Longrightarrow> strstr s n = None"
  by (auto simp: strstr_None dest: sublist_length_le)

lemma platformStringFindNeedle_upper:
  "platformStringFindNeedle h n = (if n = [] then None else strstr (upperS h) (upperS n))"
proof (cases "n = [] \<or> length h < length n")
  case True
  then show ?thesis
    by (auto simp: platformStringFindNeedle_def platformStringFindNeedleRaw_def strstr_longer)
next
  case False
  then have *: "toupperC (chC h i) = toupperC (chC n 0) \<and> needleRun (drop i h) n = length n \<longleftrightarrow>
      prefix (upperS n) (drop i (upperS h))" if "i \<le> length h - length n" for i
    using that upperS_prefix_nth [of n i h 0] by (auto simp: needleRun_full upperS_def drop_map)
  then have "find (\<lambda>i. toupperC (chC h i) = toupperC (chC n 0) \<and> needleRun (drop i h) n = length n)
       [0..<length h - length n + 1] = find (\<lambda>i. prefix (upperS n) (drop i (upperS h))) [0..<length h - length n + 1]"
    by (rule find_cong [OF refl]) (auto simp del: upt_Suc)
  with False show ?thesis
    by (auto simp: platformStringFindNeedle_def platformStringFindNeedleRaw_def strstr_find)
qed

text \<open>
  The case insensitive search is \<open>strstr\<close> on the upper-cased strings: it returns the first
  occurrence whenever there is one (and nothing for an empty needle).
\<close>

theorem platformStringFindNeedle_strstr:
  "platformStringFindNeedle h n = (if n = [] then None else strstr (upperS h) (upperS n))"
  by (rule platformStringFindNeedle_upper)

section \<open>platformArgvConvertString\<close>

abbreviation isQuote :: "char \<Rightarrow> bool" where
  "isQuote c \<equiv> c = DQUOTE \<or> c = SQUOTE"

text \<open>
  The first pass counts the unquoted runs of spaces and shortens them in place. The argument
  \<open>start\<close> says whether \<open>p\<close> still is the beginning of the buffer: there the run is removed
  altogether, and \<open>++p\<close> then steps over the first character that is left without looking at it.
\<close>

function argvCount :: "bool \<Rightarrow> char option \<Rightarrow> string \<Rightarrow> string \<times> nat" where
  "argvCount start esc [] = ([], 0)"
| "argvCount start esc (c # r) =
     (if isQuote c \<and> esc = None then apfst (Cons c) (argvCount False (Some c) r)
      else if isQuote c \<and> esc = Some c then apfst (Cons c) (argvCount False None r)
      else if c = CHR '' '' \<and> esc = None then
        (case dropWhile (\<lambda>x. x = CHR '' '') r of
           [] \<Rightarrow> ([], 1)
         | x # xs \<Rightarrow>
             if start then apfst (Cons x) (apsnd Suc (argvCount False None xs))
             else apfst (Cons c) (apsnd Suc (argvCount False None (x # xs))))
      else apfst (Cons c) (argvCount False esc r))"
  by pat_completeness auto
termination
proof (relation "measure (\<lambda>(start, esc, s). length s)", goal_cases)
  case (4 start esc c r x xs)
  then show ?case using length_dropWhile_le [of "\<lambda>x. x = CHR '' ''" r] by simp
next
  case (5 start esc c r x xs)
  then show ?case using length_dropWhile_le [of "\<lambda>x. x = CHR '' ''" r] by simp
qed auto

text \<open>
  The second pass removes the quotes, cuts the buffer at the unquoted spaces and stores the
  pointers; a \<open>NULL\<close> pointer is \<open>None\<close>. \<open>cur\<close> holds the current argument, reversed.
\<close>

fun argvSplit :: "char option \<Rightarrow> string \<Rightarrow> string \<Rightarrow> string option list" where
  "argvSplit esc [] cur = [Some (rev cur)]"
| "argvSplit esc (c # r) cur =
     (if isQuote c \<and> esc = None then argvSplit (Some c) r cur
      else if isQuote c \<and> esc = Some c then argvSplit None r cur
      else if c = CHR '' '' \<and> esc = None then
        Some (rev cur) # (if r \<noteq> [] then argvSplit None r [] else [None])
      else argvSplit esc r (c # cur))"

text \<open>The pointer array has room for \<open>s + 2\<close> entries; the last one written is the \<open>NULL\<close> that ends it.\<close>

definition platformArgvConvertString :: "string option \<Rightarrow> string option list option res" where
  "platformArgvConvertString str =
     (case str of
        None \<Rightarrow> Inr None
      | Some st \<Rightarrow>
          if st = [] then Inr None
          else
            let (a, s) = argvCount True None st;
                r = argvSplit None a [] @ [None]
            in if length r \<le> s + 2 then Inr (Some r) else Inl BufferOverflow)"

text \<open>The arguments separated by runs of spaces.\<close>

function tokens :: "string \<Rightarrow> string list" where
  "tokens s =
     (case dropWhile (\<lambda>x. x = CHR '' '') s of
        [] \<Rightarrow> []
      | c # r \<Rightarrow> (c # takeWhile (\<lambda>x. x \<noteq> CHR '' '') r) # tokens (dropWhile (\<lambda>x. x \<noteq> CHR '' '') r))"
  by pat_completeness auto
termination
proof (relation "measure length", goal_cases)
  case (2 s c r)
  then show ?case
    using length_dropWhile_le [of "\<lambda>x. x = CHR '' ''" s] length_dropWhile_le [of "\<lambda>x. x \<noteq> CHR '' ''" r]
    by simp
qed simp

declare tokens.simps [simp del]

section \<open>platformArgvGetFlag\<close>

fun argvFlagLoop :: "string list \<Rightarrow> char \<Rightarrow> string option \<Rightarrow> nat list \<Rightarrow> nat \<times> string option" where
  "argvFlagLoop argv shortFlag longFlag [] = (0, None)"
| "argvFlagLoop argv shortFlag longFlag (i # is) =
     (let a = argv ! i;
          next = (if i + 1 < length argv \<and> chC (argv ! (i + 1)) 0 \<noteq> CHR ''-'' then Some (argv ! (i + 1)) else None)
      in if chC a 0 \<noteq> CHR ''-'' then argvFlagLoop argv shortFlag longFlag is
         else if chC a 1 = CHR ''-'' then
           (case longFlag of
              Some l \<Rightarrow>
                if prefix l (drop 2 a) then
                  (i, case strchr a (CHR ''='') of Some e \<Rightarrow> Some (drop (e + 1) a) | None \<Rightarrow> next)
                else argvFlagLoop argv shortFlag longFlag is
            | None \<Rightarrow> argvFlagLoop argv shortFlag longFlag is)
         else if chC a 1 = NUL then argvFlagLoop argv shortFlag longFlag is
         else if shortFlag \<noteq> NUL \<and> chC a 1 = shortFlag then
           (i, if chC a 2 = NUL then next else Some (drop 2 a))
         else argvFlagLoop argv shortFlag longFlag is)"

text \<open>The position of the flag (0 when absent) and what is stored through \<open>optArg\<close>, if anything is.\<close>

definition platformArgvGetFlag :: "string list \<Rightarrow> char \<Rightarrow> string option \<Rightarrow> nat \<times> string option" where
  "platformArgvGetFlag argv shortFlag longFlag = argvFlagLoop argv shortFlag longFlag [1..<length argv]"

section \<open>platformHeapStringAppend\<close>

definition platformHeapStringAppend :: "string option \<Rightarrow> string \<Rightarrow> string option" where
  "platformHeapStringAppend alloc app = (case alloc of Some a \<Rightarrow> Some (a @ app) | None \<Rightarrow> Some app)"

section \<open>platformBindPort\<close>

definition ULONG_MAX :: nat where "ULONG_MAX = 2 ^ 64 - 1"
definition USHRT_MAX :: nat where "USHRT_MAX = 65535"
definition PORT_SIZE_MAX :: nat where "PORT_SIZE_MAX = 2048"

text \<open>\<open>strtoul\<close> in base ten: the value and whether \<open>errno\<close> is set to \<open>ERANGE\<close>.\<close>

definition strtoul :: "string \<Rightarrow> nat \<times> bool" where
  "strtoul s =
     (let s1 = dropWhile isspaceC s;
          neg = (case s1 of c # _ \<Rightarrow> c = CHR ''-'' | [] \<Rightarrow> False);
          s2 = (case s1 of c # r \<Rightarrow> if c = CHR ''-'' \<or> c = CHR ''+'' then r else s1 | [] \<Rightarrow> []);
          v = digits_val 0 (takeWhile isdigitC s2)
      in if ULONG_MAX < v then (ULONG_MAX, True)
         else (if neg \<and> v \<noteq> 0 then ULONG_MAX + 1 - v else v, False))"

definition portAppend :: "string \<Rightarrow> nat list \<Rightarrow> nat list" where
  "portAppend portStr portList =
     (let (out, err) = strtoul portStr
      in if \<not> err \<and> out < USHRT_MAX \<and> length portList < PORT_SIZE_MAX then portList @ [out] else portList)"

text \<open>
  The scan of the list. A divider moves \<open>port\<close> twice: by \<open>last = port += 1\<close> and by the \<open>++port\<close>
  that ends the turn. The result is \<open>None\<close> for the early \<open>return 1\<close>, otherwise \<open>last\<close> and the list.
\<close>

function bindPortScan :: "string \<Rightarrow> nat \<Rightarrow> nat \<Rightarrow> nat list \<Rightarrow> (nat \<times> nat list) option res" where
  "bindPortScan s port lst portList =
     (if length s < port then Inl OutOfBounds
      else if port = length s then Inr (Some (lst, portList))
      else if s ! port = CHR '','' then
        (if port - lst + 1 > 6 then bindPortScan s (port + 2) (port + 1) portList
         else bindPortScan s (port + 2) (port + 1) (portAppend (substr s lst port) portList))
      else if isdigitC (s ! port) then bindPortScan s (port + 1) lst portList
      else Inr None)"
  by pat_completeness auto
termination
  by (relation "measure (\<lambda>(s, port, lst, portList). length s + 2 - port)") auto

declare bindPortScan.simps [simp del]

text \<open>The ports that will be tried, in order; \<open>None\<close> when the list holds a character that is no digit.\<close>

definition bindPortList :: "string \<Rightarrow> nat list option res" where
  "bindPortList s =
     bindr (bindPortScan s 0 0 [])
       (\<lambda>r. Inr (case r of
               None \<Rightarrow> None
             | Some (lst, portList) \<Rightarrow>
                 Some (if portList = [] then portAppend (drop lst s) portList else portList)))"

datatype sa_family = AF_INET | AF_INET6 | AF_UNSPEC

text \<open>\<open>binds p\<close> is the answer of \<open>bind (2)\<close> for port \<open>p\<close>; the result is the return code and the port bound.\<close>

definition platformBindPort :: "(nat \<Rightarrow> bool) \<Rightarrow> sa_family \<Rightarrow> string \<Rightarrow> (int \<times> nat option) res" where
  "platformBindPort binds family s =
     bindr (bindPortList s)
       (\<lambda>r. Inr (case r of
               None \<Rightarrow> (1, None)
             | Some ports \<Rightarrow>
                 if family = AF_INET \<or> family = AF_INET6 then
                   (case find binds ports of Some p \<Rightarrow> (0, Some p) | None \<Rightarrow> (-1, None))
                 else (-1, None)))"

section \<open>platformFindOrCreateAdapterIp\<close>

record NetworkAdapter =
  adapterName :: string
  adapterAddresses :: "(nat \<times> string) list"

definition ADAPTER_NAME_LENGTH :: nat where "ADAPTER_NAME_LENGTH = 512"
definition INET6_ADDRSTRLEN :: nat where "INET6_ADDRSTRLEN = 46"

definition adapterFind :: "NetworkAdapter list \<Rightarrow> string \<Rightarrow> nat" where
  "adapterFind arr name = length (takeWhile (\<lambda>a. adapterName a \<noteq> name) arr)"

definition platformFindOrCreateAdapterIp ::
    "NetworkAdapter list \<Rightarrow> string \<Rightarrow> nat \<Rightarrow> string \<Rightarrow> NetworkAdapter list" where
  "platformFindOrCreateAdapterIp arr adapter type ip =
     (let i = adapterFind arr adapter;
          arr1 = (if i = length arr
                  then arr @ [\<lparr>adapterName = take (ADAPTER_NAME_LENGTH - 1) adapter, adapterAddresses = []\<rparr>]
                  else arr);
          a = arr1 ! i
      in arr1[i := a\<lparr>adapterAddresses := adapterAddresses a @ [(type, take INET6_ADDRSTRLEN ip)]\<rparr>])"

section \<open>Properties of the argument vector, the port list and the word search\<close>

lemma argvCount_space:
  "argvCount False None (CHR '' '' # r) =
     (case dropWhile (\<lambda>x. x = CHR '' '') r of
        [] \<Rightarrow> ([], 1)
      | x # xs \<Rightarrow> apfst (Cons (CHR '' '')) (apsnd Suc (argvCount False None (x # xs))))"
  by (simp split: list.split del: dropWhile_eq_Nil_conv)

lemma argvCount_other:
  assumes "c \<noteq> CHR '' '' \<or> esc \<noteq> None"
  obtains esc' where "argvCount False esc (c # r) = apfst (Cons c) (argvCount False esc' r)"
    and "\<And>t cur. \<exists>cur'. argvSplit esc (c # t) cur = argvSplit esc' t cur'"
proof (cases "isQuote c \<and> esc = None")
  case True
  then show thesis by (intro that [of "Some c"]) auto
next
  case nq: False
  show thesis
  proof (cases "isQuote c \<and> esc = Some c")
    case True
    then show thesis by (intro that [of None]) auto
  next
    case False
    with nq assms have "argvSplit esc (c # t) cur = argvSplit esc t (c # cur)" for t cur by auto
    with False nq assms show thesis by (intro that [of esc]) (auto simp del: argvSplit.simps)
  qed
qed

lemma argvSplit_bound:
  "length (argvSplit esc (fst (argvCount False esc s)) cur) \<le> snd (argvCount False esc s) + 1"
proof (induction "length s" arbitrary: s esc cur rule: less_induct)
  case less
  show ?case
  proof (cases s)
    case (Cons c r)
    show ?thesis
    proof (cases "c = CHR '' '' \<and> esc = None")
      case True
      show ?thesis
      proof (cases "dropWhile (\<lambda>x. x = CHR '' '') r")
        case (Cons x xs)
        have "length (x # xs) < length s"
          using Cons length_dropWhile_le [of "\<lambda>x. x = CHR '' ''" r] \<open>s = c # r\<close> by simp
        from less [OF this, of None "[]"] show ?thesis
          using True Cons \<open>s = c # r\<close> by (simp add: argvCount_space del: argvCount.simps)
      qed (use True Cons in \<open>simp add: argvCount_space del: argvCount.simps dropWhile_eq_Nil_conv\<close>)
    next
      case False
      then obtain esc' where e: "argvCount False esc (c # r) = apfst (Cons c) (argvCount False esc' r)"
        and sp: "\<And>t cur. \<exists>cur'. argvSplit esc (c # t) cur = argvSplit esc' t cur'"
        by (auto intro: argvCount_other [of c esc r])
      obtain cur' where "argvSplit esc (c # fst (argvCount False esc' r)) cur = argvSplit esc' (fst (argvCount False esc' r)) cur'"
        using sp by blast
      with less [of r esc' cur'] show ?thesis unfolding Cons e by (simp add: Cons)
    qed
  qed simp
qed

text \<open>
  A line that does not start with a space, quotation marks or not, never overruns
  the array of pointers, and the arguments are ended by \<open>NULL\<close>.
\<close>

theorem platformArgvConvertString_fits:
  assumes "hd st \<noteq> CHR '' ''" and "st \<noteq> []"
  shows "\<exists>args. platformArgvConvertString (Some st) = Inr (Some (args @ [None]))"
proof -
  obtain c r where st: "st = c # r" using assms(2) by (cases st) auto
  have "argvCount True None st = argvCount False None st" using assms(1) by (simp add: st)
  then show ?thesis using argvSplit_bound [of None st "[]"] assms(2)
    by (auto simp: platformArgvConvertString_def split: prod.split)
qed

theorem platformArgvConvertString_fits_witness:
  "\<exists>args. platformArgvConvertString (Some ''cp a b'') = Inr (Some (args @ [None]))"
  by (rule platformArgvConvertString_fits) simp_all

lemma argvSplit_plain:
  "\<lbrakk>DQUOTE \<notin> set w; SQUOTE \<notin> set w; CHR '' '' \<notin> set w\<rbrakk> \<Longrightarrow>
   argvSplit None (w @ s) cur = argvSplit None s (rev w @ cur)"
  by (induction w arbitrary: cur) auto

lemma argvCount_plain:
  "\<lbrakk>DQUOTE \<notin> set w; SQUOTE \<notin> set w; CHR '' '' \<notin> set w\<rbrakk> \<Longrightarrow>
   argvCount False None (w @ s) = apfst ((@) w) (argvCount False None s)"
  by (induction w) (auto simp: apfst_def map_prod_def split: prod.splits)

lemma takeWhile_dropWhile_plain:
  "set (takeWhile (\<lambda>x. x \<noteq> c) t) \<subseteq> set t - {c}"
  "set (dropWhile (\<lambda>x. x \<noteq> c) t) \<subseteq> set t"
  "dropWhile (\<lambda>x. x \<noteq> c) t = [] \<or> hd (dropWhile (\<lambda>x. x \<noteq> c) t) = c"
  by (induction t) auto

lemma argvCount_tokens:
  assumes "DQUOTE \<notin> set s" "SQUOTE \<notin> set s" "s = [] \<or> hd s = CHR '' ''"
  shows "argvSplit None (fst (argvCount False None s)) cur = map Some (rev cur # tokens s) \<and>
         length (tokens s) \<le> snd (argvCount False None s)"
  using assms
proof (induction s arbitrary: cur rule: tokens.induct)
  case (1 s)
  show ?case
  proof (cases s)
    case Nil
    then show ?thesis by (simp add: tokens.simps [of "[]"])
  next
    case (Cons c r)
    with "1.prems" have c: "c = CHR '' ''" by simp
    show ?thesis
    proof (cases "dropWhile (\<lambda>x. x = CHR '' '') s")
      case Nil
      then have "tokens s = []" by (subst tokens.simps) (simp del: dropWhile_eq_Nil_conv)
      then show ?thesis using Nil Cons c
        by (simp add: argvCount_space del: argvCount.simps dropWhile_eq_Nil_conv)
    next
      case (Cons d t)
      define w where "w = takeWhile (\<lambda>x. x \<noteq> CHR '' '') t"
      define u where "u = dropWhile (\<lambda>x. x \<noteq> CHR '' '') t"
      have t: "t = w @ u" by (simp add: w_def u_def)
      have ss: "set (d # t) \<subseteq> set s" using Cons by (metis set_dropWhileD subsetI)
      have d: "d \<noteq> CHR '' ''" using Cons by (simp add: dropWhile_eq_Cons_conv)
      have w: "DQUOTE \<notin> set (d # w)" "SQUOTE \<notin> set (d # w)" "CHR '' '' \<notin> set (d # w)"
        using ss d "1.prems" takeWhile_dropWhile_plain [of "CHR '' ''" t] unfolding w_def by auto
      have u: "DQUOTE \<notin> set u" "SQUOTE \<notin> set u" "u = [] \<or> hd u = CHR '' ''"
        using ss "1.prems" takeWhile_dropWhile_plain [of "CHR '' ''" t] unfolding u_def by auto
      have dr: "dropWhile (\<lambda>x. x = CHR '' '') r = (d # w) @ u"
        using Cons \<open>s = c # r\<close> c by (simp add: t)
      have tok: "tokens s = (d # w) # tokens u"
        by (subst tokens.simps) (simp add: Cons w_def u_def)
      have cnt: "argvCount False None s = (CHR '' '' # (d # w) @ fst (argvCount False None u), Suc (snd (argvCount False None u)))"
        using argvCount_plain [OF w, of u] w dr by (simp add: \<open>s = c # r\<close> c apfst_def apsnd_def map_prod_def split: prod.splits)
      note ih = "1.IH" [OF Cons, folded u_def, OF u]
      show ?thesis unfolding cnt tok using ih [of "rev (d # w)"] argvSplit_plain [OF w, of "fst (argvCount False None u)" "[]"]
        by simp
    qed
  qed
qed


text \<open>
  On a line without quotation marks that holds at least one argument, the
  arguments are the maximal runs of characters other than the space, and they fit the array.
\<close>

theorem platformArgvConvertString_tokens:
  assumes "DQUOTE \<notin> set st" and "SQUOTE \<notin> set st" and "tokens st \<noteq> []"
  shows "platformArgvConvertString (Some st) = Inr (Some (map Some (tokens st) @ [None]))"
proof -
  define s where "s = dropWhile (\<lambda>x. x = CHR '' '') st"
  have "dropWhile (\<lambda>x. x = CHR '' '') s = s" by (simp add: s_def)
  then have ts: "tokens st = tokens s"
    using tokens.simps [of st, folded s_def] tokens.simps [of s] by simp
  obtain c r where s: "s = c # r"
    using assms(3) unfolding ts by (cases s) (auto simp: tokens.simps [of "[]"])
  have c: "c \<noteq> CHR '' ''" using s unfolding s_def by (simp add: dropWhile_eq_Cons_conv)
  have sub: "set s \<subseteq> set st" unfolding s_def by (auto dest: set_dropWhileD)
  define w where "w = takeWhile (\<lambda>x. x \<noteq> CHR '' '') r"
  define u where "u = dropWhile (\<lambda>x. x \<noteq> CHR '' '') r"
  have r: "r = w @ u" by (simp add: w_def u_def)
  have w: "DQUOTE \<notin> set w" "SQUOTE \<notin> set w" "CHR '' '' \<notin> set w" "\<not> isQuote c"
    using sub assms takeWhile_dropWhile_plain [of "CHR '' ''" r] unfolding w_def s by auto
  have u: "DQUOTE \<notin> set u" "SQUOTE \<notin> set u" "u = [] \<or> hd u = CHR '' ''"
    using sub assms takeWhile_dropWhile_plain [of "CHR '' ''" r] unfolding u_def s by auto
  have tok: "tokens st = (c # w) # tokens u"
    unfolding ts by (subst tokens.simps) (simp add: s c w_def u_def)
  have cnt: "\<exists>n. argvCount True None st = (c # w @ fst (argvCount False None u), n + snd (argvCount False None u))"
  proof (cases "st = s")
    case True
    then show ?thesis
      using argvCount_plain [OF w(1,2,3), of u] w(4) c 
      by (cases "argvCount False None u") (simp add: s r)
  next
    case False
    then obtain t where st: "st = CHR '' '' # t" unfolding s_def by (cases st) (auto split: if_splits)
    then have "dropWhile (\<lambda>x. x = CHR '' '') t = c # r" using s unfolding s_def by simp
    then have "argvCount True None st = apfst (Cons c) (apsnd Suc (argvCount False None r))"
      unfolding st by simp
    also have "\<dots> = (c # w @ fst (argvCount False None u), 1 + snd (argvCount False None u))"
      using argvCount_plain [OF w(1,2,3), of u] 
      by (cases "argvCount False None u") (simp add: r)
    finally show ?thesis by blast
  qed
  then obtain n where n: "argvCount True None st = (c # w @ fst (argvCount False None u), n + snd (argvCount False None u))"
    by blast
  note spl = argvCount_tokens [OF u, of "rev w @ [c]"]
  have "argvSplit None (c # w @ fst (argvCount False None u)) [] = map Some (tokens st)"
    using argvSplit_plain [OF w(1,2,3), of "fst (argvCount False None u)" "[c]"] w(4) c spl tok by simp
  moreover have "st \<noteq> []" using assms(3) by (auto simp: tokens.simps [of "[]"])
  ultimately show ?thesis using n spl tok by (simp add: platformArgvConvertString_def)
qed

theorem platformArgvConvertString_tokens_witness:
  "platformArgvConvertString (Some ''  copy  a b '') = Inr (Some (map Some (tokens ''  copy  a b '') @ [None]))"
  by (rule platformArgvConvertString_tokens) (simp_all add: tokens.simps)

text \<open>
  A line that starts with a space followed by a quotation mark can overrun it: the
  first pass steps over the opening mark and takes the closing one for an opening one, so it does
  not count the spaces that follow.
\<close>

theorem platformArgvConvertString_overflow:
  "platformArgvConvertString (Some ([CHR '' '', DQUOTE] @ ''ab'' @ [DQUOTE] @ '' c d e'')) = Inl BufferOverflow"
  by (simp add: platformArgvConvertString_def)

lemma digits_no_comma: "\<forall>c\<in>set d. isdigitC c \<Longrightarrow> CHR '','' \<notin> set d"
  by (auto simp: isdigitC_def)

lemma isdigit_not_space: "isdigitC c \<Longrightarrow> \<not> isspaceC c"
  by (auto simp: isdigitC_def isspaceC_def)

lemma strtoul_digits:
  assumes "\<forall>c\<in>set d. isdigitC c"
  shows "strtoul d = (if ULONG_MAX < digits_val 0 d then (ULONG_MAX, True) else (digits_val 0 d, False))"
proof (cases d)
  case (Cons a l)
  with assms have "isdigitC a" "\<not> isspaceC a" "a \<noteq> CHR ''-''" "a \<noteq> CHR ''+''" "takeWhile isdigitC l = l"
    by (auto simp: isdigit_not_space takeWhile_eq_all_conv) (auto simp: isdigitC_def)
  with Cons show ?thesis by (simp add: strtoul_def Let_def del: takeWhile_eq_all_conv)
qed (simp add: strtoul_def)

lemma bindPortScan_digits:
  assumes "\<forall>c\<in>set d. isdigitC c" and "port + length d \<le> length s" and "substr s port (port + length d) = d"
  shows "bindPortScan s port lst ps = bindPortScan s (port + length d) lst ps"
  using assms
proof (induction d arbitrary: port)
  case (Cons c d)
  from Cons.prems have c: "s ! port = c" and d: "substr s (Suc port) (Suc port + length d) = d"
    by (auto simp: substr_def drop_Suc nth_append take_Suc_conv_app_nth Cons_nth_drop_Suc [symmetric] split: if_splits)
  have nc: "c \<noteq> CHR '',''" using Cons.prems(1) by (auto simp: isdigitC_def)
  have "bindPortScan s port lst ps = bindPortScan s (Suc port) lst ps"
    using Cons.prems c nc by (subst bindPortScan.simps) auto
  also have "\<dots> = bindPortScan s (Suc port + length d) lst ps"
    using Cons.prems d by (intro Cons.IH) auto
  finally show ?case by simp
qed simp

lemma show_nat_length: "n < 10 ^ k \<Longrightarrow> 0 < k \<Longrightarrow> length (show_nat n) \<le> k"
proof (induction n arbitrary: k rule: show_nat.induct)
  case (1 n)
  show ?case
  proof (cases "n < 10")
    case True
    then show ?thesis using "1.prems" by (subst show_nat.simps) simp
  next
    case False
    then obtain j where j: "k = Suc j" "0 < j" using "1.prems" by (cases k; cases "k - 1") auto
    then have "n div 10 < 10 ^ j" using "1.prems" by (simp add: less_mult_imp_div_less mult.commute)
    from "1.IH" [OF False this j(2)] j show ?thesis by (subst show_nat.simps) simp
  qed
qed

lemma portAppend_show_nat:
  assumes "p < USHRT_MAX" and "length ps < PORT_SIZE_MAX"
  shows "portAppend (show_nat p) ps = ps @ [p]"
  using assms strtoul_digits [OF show_nat_digits, of p]
  by (simp add: portAppend_def USHRT_MAX_def ULONG_MAX_def)

lemma bindPortScan_first:
  assumes "p < USHRT_MAX"
  shows "bindPortScan (show_nat p @ CHR '','' # r) 0 0 [] =
           bindPortScan (show_nat p @ CHR '','' # r) (length (show_nat p) + 2) (length (show_nat p) + 1) [p]"
proof -
  have l: "length (show_nat p) \<le> 5" using assms by (intro show_nat_length) (auto simp: USHRT_MAX_def)
  have "bindPortScan (show_nat p @ CHR '','' # r) 0 0 [] =
      bindPortScan (show_nat p @ CHR '','' # r) (length (show_nat p)) 0 []"
    using bindPortScan_digits [OF show_nat_digits, of 0 p "show_nat p @ CHR '','' # r" 0 "[]"]
    by (simp add: substr_def)
  then show ?thesis
    using l portAppend_show_nat [OF assms, of "[]"]
    by (subst (asm) (2) bindPortScan.simps) (simp add: substr_def PORT_SIZE_MAX_def)
qed

text \<open>
  One port in decimal is the port that will be tried.
\<close>

theorem bindPortList_single:
  assumes "p < USHRT_MAX"
  shows "bindPortList (show_nat p) = Inr (Some [p])"
proof -
  have "bindPortScan (show_nat p) 0 0 [] = bindPortScan (show_nat p) (length (show_nat p)) 0 []"
    using bindPortScan_digits [OF show_nat_digits, of 0 p "show_nat p" 0 "[]"] by (simp add: substr_def)
  then show ?thesis
    using portAppend_show_nat [OF assms, of "[]"]
    by (simp add: bindPortList_def bindPortScan.simps [of _ "length _"] PORT_SIZE_MAX_def)
qed

theorem bindPortList_single_witness: "bindPortList (show_nat 8080) = Inr (Some [8080])"
  by (rule bindPortList_single) (simp add: USHRT_MAX_def)

text \<open>
  The last port of a list of two is never tried, although any port of the
  string is meant to be one the server may bind.
\<close>

theorem bindPortList_last_ignored:
  assumes "p < USHRT_MAX" and "q < USHRT_MAX"
  shows "bindPortList (show_nat p @ CHR '','' # show_nat q) = Inr (Some [p])"
proof -
  let ?s = "show_nat p @ CHR '','' # show_nat q"
  obtain c d where q: "show_nat q = c # d" by (cases "show_nat q") auto
  have "bindPortScan ?s (length (show_nat p) + 2) (length (show_nat p) + 1) [p] =
      bindPortScan ?s (length ?s) (length (show_nat p) + 1) [p]"
    using bindPortScan_digits [of d "length (show_nat p) + 2" ?s "length (show_nat p) + 1" "[p]"]
      show_nat_digits [of q] by (simp add: q substr_def)
  then show ?thesis
    using bindPortScan_first [OF assms(1), of "show_nat q"]
    by (simp add: bindPortList_def bindPortScan.simps [of _ "length _"] del: length_append)
qed

theorem bindPortList_last_ignored_witness:
  "bindPortList (show_nat 80 @ CHR '','' # show_nat 8080) = Inr (Some [80])"
  by (rule bindPortList_last_ignored) (simp_all add: USHRT_MAX_def)

text \<open>
  A list that ends in a divider is read past its terminating NUL.
\<close>

theorem bindPortList_trailing_divider:
  assumes "p < USHRT_MAX"
  shows "platformBindPort binds family (show_nat p @ '','') = Inl OutOfBounds"
  using bindPortScan_first [OF assms, of "[]"]
  by (simp add: platformBindPort_def bindPortList_def bindPortScan.simps [of _ "Suc (Suc (length _))"])

theorem bindPortList_trailing_divider_witness:
  "platformBindPort (\<lambda>p. True) AF_INET (show_nat 80 @ '','') = Inl OutOfBounds"
  by (rule bindPortList_trailing_divider) (simp add: USHRT_MAX_def)

text \<open>
  A word is found at the first occurrence of the needle, and only there: it must
  be delimited on both sides.
\<close>

theorem platformStringFindWord_iff:
  "platformStringFindWord h n = Some r \<longleftrightarrow>
     n \<noteq> [] \<and> strstr (upperS h) (upperS n) = Some r \<and>
     (r = 0 \<or> wordDelimiter (h ! (r - 1))) \<and>
     (r + length n = length h \<or> wordDelimiter (h ! (r + length n)))"
proof (cases "platformStringFindNeedle h n")
  case None
  then show ?thesis
    by (auto simp: platformStringFindWord_def platformStringFindNeedle_upper split: if_splits)
next
  case (Some i)
  then have i: "n \<noteq> []" "strstr (upperS h) (upperS n) = Some i"
    by (auto simp: platformStringFindNeedle_upper split: if_splits)
  from strstr_Some [OF i(2)] have "i + length n \<le> length h" by simp
  with i Some show ?thesis
    by (auto simp: platformStringFindWord_def Let_def chC_def wordDelimiter_def [of NUL])
qed

theorem platformStringFindWord_first_only:
  "platformStringFindWord ''xa a'' ''a'' = None"
  by (simp add: platformStringFindWord_def platformStringFindNeedle_upper upperS_def toupperC_def
      islowerC_def chC_def wordDelimiter_def)

end
