(* ===== verification/Uri.thy ===== *)
theory Uri
  imports Platform_Str
begin

text \<open>
  \<open>src/client/uri.c\<close>: splitting an address into scheme, host, port, path and query, printing it
  again, and the arithmetic of paths (combining, last element, absolute path of a relative one).
\<close>

section \<open>Types\<close>

datatype UriScheme = SCHEME_FILE | SCHEME_HTTP | SCHEME_HTTPS | SCHEME_FTP | SCHEME_FTPS | SCHEME_UNKNOWN

text \<open>The values of the enumeration, which double as default ports.\<close>

fun schemeValue :: "UriScheme \<Rightarrow> nat" where
  "schemeValue SCHEME_FILE = 1"
| "schemeValue SCHEME_HTTP = 80"
| "schemeValue SCHEME_HTTPS = 443"
| "schemeValue SCHEME_FTP = 21"
| "schemeValue SCHEME_FTPS = 990"
| "schemeValue SCHEME_UNKNOWN = 0"

record UriDetails =
  uScheme :: "string option"
  uHost :: "string option"
  uPath :: "string option"
  uPort :: "string option"
  uQuery :: "string option"

section \<open>isValidIpv4Str\<close>

text \<open>The loop, with the digit sum \<open>j\<close> of the current group and the number \<open>k\<close> of dots.\<close>

fun ipv4Loop :: "nat \<Rightarrow> nat \<Rightarrow> string \<Rightarrow> bool" where
  "ipv4Loop j k [] \<longleftrightarrow> k = 3"
| "ipv4Loop j k (c # s) \<longleftrightarrow>
     (if isdigitC c then ipv4Loop (j + digit_val c) k s
      else if c = CHR ''.'' then (if 12 < j then False else ipv4Loop 0 (k + 1) s)
      else False)"

definition isValidIpv4Str :: "string \<Rightarrow> bool" where
  "isValidIpv4Str str = ipv4Loop 0 0 str"

section \<open>Scheme and port\<close>

text \<open>The \<open>switch\<close> with its missing \<open>break\<close>s: the cases fall from \<open>I\<close> to \<open>T\<close> and from \<open>F\<close> to \<open>H\<close>.\<close>

definition schemeOf :: "string \<Rightarrow> UriScheme" where
  "schemeOf s =
     (let u = (\<lambda>i. toupperC (chC s i));
          caseH = (if u 1 = CHR ''T'' \<and> u 2 = CHR ''T'' \<and> u 3 = CHR ''P'' then SCHEME_HTTP else SCHEME_UNKNOWN);
          caseT = (if u 2 = CHR ''P'' \<and> u 3 = CHR ''S'' then SCHEME_FTPS else caseH);
          caseI = (if u 2 = CHR ''L'' \<and> u 3 = CHR ''E'' then SCHEME_FILE else caseT)
      in if length s = 3 then
           (if u 0 = CHR ''F'' \<and> u 1 = CHR ''T'' \<and> u 2 = CHR ''P'' then SCHEME_FTP else SCHEME_UNKNOWN)
         else if length s = 4 then
           (if u 0 = CHR ''F'' then
              (if u 1 = CHR ''I'' then caseI else if u 1 = CHR ''T'' then caseT else caseH)
            else if u 0 = CHR ''H'' then caseH
            else SCHEME_UNKNOWN)
         else if length s = 5 then
           (if u 0 = CHR ''H'' \<and> u 1 = CHR ''T'' \<and> u 2 = CHR ''T'' \<and> u 3 = CHR ''P'' \<and> u 4 = CHR ''S''
            then SCHEME_HTTPS else SCHEME_UNKNOWN)
         else SCHEME_UNKNOWN)"

definition uriDetailsGetScheme :: "UriDetails \<Rightarrow> UriScheme" where
  "uriDetailsGetScheme details = (case uScheme details of None \<Rightarrow> SCHEME_UNKNOWN | Some s \<Rightarrow> schemeOf s)"

fun portLoop :: "nat \<Rightarrow> string \<Rightarrow> nat" where
  "portLoop r [] = r"
| "portLoop r (c # s) =
     (if isdigitC c then
        (let r' = r * 10 + digit_val c in if r' \<le> USHRT_MAX then portLoop r' s else 0)
      else 0)"

definition uriDetailsGetPort :: "UriDetails \<Rightarrow> nat" where
  "uriDetailsGetPort details =
     (case uPort details of
        None \<Rightarrow> schemeValue (uriDetailsGetScheme details)
      | Some p \<Rightarrow> portLoop 0 p)"

definition uriDetailsSetScheme :: "UriDetails \<Rightarrow> UriScheme \<Rightarrow> UriDetails" where
  "uriDetailsSetScheme self scheme =
     (case scheme of
        SCHEME_UNKNOWN \<Rightarrow> self\<lparr>uScheme := None\<rparr>
      | SCHEME_HTTP \<Rightarrow> self\<lparr>uScheme := Some ''http''\<rparr>
      | SCHEME_HTTPS \<Rightarrow> self\<lparr>uScheme := Some ''https''\<rparr>
      | SCHEME_FTP \<Rightarrow> self\<lparr>uScheme := Some ''ftp''\<rparr>
      | SCHEME_FTPS \<Rightarrow> self\<lparr>uScheme := Some ''ftps''\<rparr>
      | SCHEME_FILE \<Rightarrow> self\<lparr>uScheme := Some ''file''\<rparr>)"

text \<open>\<open>ntoa\<close> is \<open>inet_ntoa\<close> applied to the address; \<open>port\<close> is the port in host byte order.\<close>

definition uriDetailsSetAddress :: "UriDetails \<Rightarrow> sa_family \<Rightarrow> string \<Rightarrow> nat \<Rightarrow> UriDetails" where
  "uriDetailsSetAddress self family ntoa port =
     (if family = AF_INET then self\<lparr>uHost := Some ntoa, uPort := Some (show_nat port)\<rparr> else self)"

section \<open>Resolving the host\<close>

text \<open>
  \<open>resolve\<close> is \<open>gethostbyname (3)\<close>: the family of the answer and the address in text form. The
  text conversions \<open>inet_addr\<close> and \<open>inet_pton\<close> are parameters as well; \<open>ipv6\<close> says whether the
  program was built with \<open>ENABLE_IPV6\<close>.
\<close>

record resolver =
  resolve :: "string \<Rightarrow> (sa_family \<times> string) option"
  inet_addr :: "string \<Rightarrow> nat"
  inet_pton6 :: "string \<Rightarrow> nat option"
  ipv6 :: bool

definition uriDetailsGetHostAddr :: "resolver \<Rightarrow> UriDetails \<Rightarrow> string option" where
  "uriDetailsGetHostAddr env details =
     (case uHost details of
        None \<Rightarrow> None
      | Some host \<Rightarrow>
          (case resolve env host of
             None \<Rightarrow> None
           | Some (family, addr) \<Rightarrow>
               if family = AF_INET \<or> (family = AF_INET6 \<and> ipv6 env) then Some addr else None))"

datatype SocketAddressState =
  SA_STATE_QUEUED | SA_STATE_CONNECTED | SA_STATE_FAILED | SA_STATE_FINISHED | SA_STATE_TRY_LATER

record SocketAddress =
  saFamily :: sa_family
  saAddress :: nat
  saPort :: nat
  saScheme :: nat
  saState :: SocketAddressState

definition GetAddressFamily :: "string \<Rightarrow> sa_family" where
  "GetAddressFamily address = (if strchr address (CHR '':'') \<noteq> None then AF_INET6 else AF_INET)"

text \<open>The result is whether the call failed (its one error message) and the structure it fills.\<close>

definition uriDetailsCreateSocketAddress ::
    "resolver \<Rightarrow> UriDetails \<Rightarrow> SocketAddress \<Rightarrow> nat \<Rightarrow> bool \<times> SocketAddress" where
  "uriDetailsCreateSocketAddress env self sa scheme0 =
     (let address = uriDetailsGetHostAddr env self;
          scheme = (if scheme0 = 0 then schemeValue (uriDetailsGetScheme self) else scheme0);
          port = (if uPort self \<noteq> None then uriDetailsGetPort self
                  else if scheme \<noteq> 0 then scheme else uriDetailsGetPort self)
      in case address of
           None \<Rightarrow> (True, sa)
         | Some a \<Rightarrow>
             if port = 0 then (True, sa)
             else
               let fam = GetAddressFamily a;
                   sa1 = sa\<lparr>saFamily := fam\<rparr>;
                   failed = (True, sa1\<lparr>saState := SA_STATE_FAILED\<rparr>);
                   done = (\<lambda>v. (False, sa1\<lparr>saAddress := v, saPort := port, saScheme := scheme,
                                              saState := SA_STATE_QUEUED\<rparr>))
               in if fam = AF_INET6 then
                    (if ipv6 env then (case inet_pton6 env a of Some v \<Rightarrow> done v | None \<Rightarrow> failed) else failed)
                  else if inet_addr env a \<noteq> 0 then done (inet_addr env a) else failed)"

section \<open>Taking an address apart and printing it\<close>

definition pathQuery :: "string \<Rightarrow> string option \<times> string option" where
  "pathQuery t =
     (case strchr t (CHR ''?'') of
        Some k \<Rightarrow> (Some (take k t), Some (drop (k + 1) t))
      | None \<Rightarrow> (Some t, None))"

definition uriDetailsNewFrom :: "string option \<Rightarrow> UriDetails" where
  "uriDetailsNewFrom u =
     (case u of
        None \<Rightarrow> \<lparr>uScheme = None, uHost = None, uPath = None, uPort = None, uQuery = None\<rparr>
      | Some uri \<Rightarrow>
          let (sch, q) = (case strstr uri ''://'' of
                            Some p \<Rightarrow> (Some (take p uri), drop (p + 3) uri)
                          | None \<Rightarrow> (None, uri))
          in case (strchr q (CHR ''/''), strchr q (CHR '':'')) of
               (Some p, Some i) \<Rightarrow>
                 \<lparr>uScheme = sch,
                  uHost = Some (if i < p then take i q else take p q),
                  uPath = fst (pathQuery (drop p q)),
                  uPort = (if i < p then Some (substr q (i + 1) p) else None),
                  uQuery = snd (pathQuery (drop p q))\<rparr>
             | (Some p, None) \<Rightarrow>
                 \<lparr>uScheme = sch, uHost = Some (take p q), uPath = fst (pathQuery (drop p q)),
                  uPort = None, uQuery = snd (pathQuery (drop p q))\<rparr>
             | (None, Some i) \<Rightarrow>
                 \<lparr>uScheme = sch, uHost = Some (take i q), uPath = None,
                  uPort = Some (drop (i + 1) q), uQuery = None\<rparr>
             | (None, None) \<Rightarrow>
                 \<lparr>uScheme = sch, uHost = (if q \<noteq> [] then Some q else None), uPath = None,
                  uPort = None, uQuery = None\<rparr>)"

definition uriDetailsCreateString :: "UriDetails \<Rightarrow> string option" where
  "uriDetailsCreateString details =
     (case (uScheme details, uHost details, uPath details) of
        (Some sch, Some host, Some path) \<Rightarrow>
          Some (sch @ ''://'' @ host @
                (case uPort details of Some p \<Rightarrow> CHR '':'' # p | None \<Rightarrow> []) @ path @
                (case uQuery details of Some q \<Rightarrow> CHR ''?'' # q | None \<Rightarrow> []))
      | _ \<Rightarrow> None)"

definition uriDetailsCreateStringBase :: "UriDetails \<Rightarrow> string option" where
  "uriDetailsCreateStringBase details =
     (case uScheme details of
        None \<Rightarrow> None
      | Some sch \<Rightarrow>
          if uriDetailsGetScheme details = SCHEME_FILE then Some ''file:///''
          else (case uHost details of
                  None \<Rightarrow> None
                | Some host \<Rightarrow>
                    Some (sch @ ''://'' @ host @
                          (case uPort details of Some p \<Rightarrow> CHR '':'' # p | None \<Rightarrow> []) @ ''/'')))"

section \<open>Paths\<close>

text \<open>\<open>while (output[idx] == '/' && idx) --idx;\<close>\<close>

fun stripIdx :: "string \<Rightarrow> nat \<Rightarrow> nat" where
  "stripIdx s 0 = 0"
| "stripIdx s (Suc k) = (if s ! Suc k = CHR ''/'' then stripIdx s k else Suc k)"

text \<open>For an empty first path \<open>idx\<close> is \<open>0 - 1\<close> in \<open>size_t\<close>, and the first read is out of bounds.\<close>

definition uriPathCombine :: "string \<Rightarrow> string \<Rightarrow> string res" where
  "uriPathCombine path1 path2 =
     (if path1 = [] then Inl OutOfBounds
      else
        let idx = stripIdx path1 (length path1 - 1);
            out = (if idx \<noteq> 0 then take (idx + 1) path1 @ ''/''
                   else if chC path1 0 = CHR ''/'' \<and> chC path1 1 = CHR ''/'' then take 1 path1
                   else path1)
        in Inr (out @ dropWhile (\<lambda>c. c = CHR ''/'') path2))"

text \<open>The rest of the path to look at, and the element that starts behind the last divider seen.\<close>

fun pathLastLoop :: "string option \<Rightarrow> nat \<Rightarrow> string \<Rightarrow> string option" where
  "pathLastLoop p i [] = p"
| "pathLastLoop p i (c # s) =
     (if c = CHR ''/'' then
        (if s = [] then (case p of Some e \<Rightarrow> if i \<noteq> 0 then Some (butlast e) else None | None \<Rightarrow> None)
         else pathLastLoop (Some s) (i + 1) s)
      else pathLastLoop p (i + 1) s)"

definition uriPathLast :: "string \<Rightarrow> string option" where
  "uriPathLast path = pathLastLoop None 0 path"

fun JumpOverDotPaths :: "char \<Rightarrow> string \<Rightarrow> nat" where
  "JumpOverDotPaths skip [] = 0"
| "JumpOverDotPaths skip (c # s) =
     (if c \<noteq> skip then 0
      else Suc (JumpOverDotPaths (if skip = CHR ''.'' then CHR ''/'' else CHR ''.'') s))"

lemma chC_nonNUL: "chC s i = c \<Longrightarrow> c \<noteq> NUL \<Longrightarrow> i < length s"
  by (auto simp: chC_def split: if_splits)

lemma JumpOverDotPaths_ge:
  assumes "i < length c" "c ! i = CHR ''/''" "chC c (i + 1) = CHR ''.''" "chC c (i + 2) = CHR ''/''"
  shows "3 \<le> JumpOverDotPaths (CHR ''/'') (drop i c)"
proof -
  have l: "i + 2 < length c" using chC_nonNUL [OF assms(4)] by simp
  then have "drop i c = c ! i # c ! (i + 1) # c ! (i + 2) # drop (i + 3) c"
    by (simp add: Cons_nth_drop_Suc numeral_3_eq_3)
  with assms l show ?thesis by simp
qed

text \<open>\<open>do --j; while (j && r[j] != '/');\<close> on the part of \<open>r\<close> before \<open>j\<close>.\<close>

definition backUp :: "string \<Rightarrow> string" where
  "backUp out = (case strrchr out (CHR ''/'') of Some k \<Rightarrow> take k out | None \<Rightarrow> [])"

text \<open>
  One turn of the copying loop of \<open>uriPathAbsoluteAppend\<close>, where \<open>out\<close> is \<open>r[0], \<dots>, r[j - 1]\<close>. Every
  turn that does not leave the loop ends in the \<open>default\<close> of the outermost \<open>switch\<close>, which stores
  the character at the index the inner ones left in \<open>i\<close>: \<open>Store k out\<close>.
\<close>

datatype absTurn = Finished string | Store nat string | Undefined fault

definition absDot :: "string \<Rightarrow> nat \<Rightarrow> string \<Rightarrow> absTurn" where
  "absDot c i out =
     (let k = i + JumpOverDotPaths (CHR ''/'') (drop i c) in
      if chC c k = NUL then Finished out
      else if chC c k = CHR ''.'' \<and> 3 < k \<and> chC c (k - 1) = CHR ''.'' \<and> chC c (k - 2) = CHR ''/''
      then Store (k - 2 - 1) out
      else Store (k - 1) out)"

definition absDotDot :: "string \<Rightarrow> nat \<Rightarrow> string \<Rightarrow> absTurn" where
  "absDotDot c i out =
     (let k = i + 3; out1 = backUp out in
      if out1 = [] then (if out = [] then Undefined Uninitialised else Finished (take 1 out))
      else if chC c k = CHR ''/'' \<and> chC c (k + 1) = CHR ''.'' then
        Store ((if chC c (k + 2) = CHR ''/'' then k + JumpOverDotPaths (CHR ''/'') (drop k c) else k) - 1) out1
      else if chC c k = NUL then Finished out1
      else Store k out1)"

definition absStep :: "string \<Rightarrow> nat \<Rightarrow> string \<Rightarrow> absTurn" where
  "absStep c i out =
     (if chC c i = CHR ''/'' \<and> chC c (i + 1) = CHR ''.'' then
        (if chC c (i + 2) = CHR ''/'' then absDot c i out
         else if chC c (i + 2) = NUL then Finished out
         else if chC c (i + 2) = CHR ''.'' \<and> (chC c (i + 3) = CHR ''/'' \<or> chC c (i + 3) = NUL)
         then absDotDot c i out
         else Store i out)
      else Store i out)"

lemma absStep_progress: "absStep c i out = Store k out1 \<Longrightarrow> i < length c \<Longrightarrow> i \<le> k"
proof -
  have "absDot c i out = Store k out1 \<Longrightarrow> i < length c \<Longrightarrow> chC c i = CHR ''/'' \<Longrightarrow> chC c (i + 1) = CHR ''.''
      \<Longrightarrow> chC c (i + 2) = CHR ''/'' \<Longrightarrow> i \<le> k"
    using JumpOverDotPaths_ge [of i c] by (auto simp: absDot_def Let_def split: if_splits)
  moreover have "absDotDot c i out = Store k out1 \<Longrightarrow> i \<le> k"
    by (auto simp: absDotDot_def Let_def split: if_splits)
  ultimately show "absStep c i out = Store k out1 \<Longrightarrow> i < length c \<Longrightarrow> i \<le> k"
    by (auto simp: absStep_def split: if_splits)
qed

function absLoop :: "string \<Rightarrow> nat \<Rightarrow> string \<Rightarrow> string res" where
  "absLoop c i out =
     (if length c \<le> i then Inr out
      else (case absStep c i out of
              Finished r \<Rightarrow> Inr r
            | Store k out1 \<Rightarrow> absLoop c (k + 1) (out1 @ [chC c k])
            | Undefined e \<Rightarrow> Inl e))"
  by pat_completeness auto
termination
  by (relation "measure (\<lambda>(c, i, out). length c - i)") (auto dest: absStep_progress)

declare absLoop.simps [simp del]

text \<open>
  The result is \<open>None\<close> for \<open>NULL\<close>. For \<open>append = ".."\<close> the code reads \<open>append[3]\<close>, one byte behind
  the terminating NUL; what it finds there matters when the current path is the root.
\<close>

definition uriPathAbsoluteAppend :: "string \<Rightarrow> string \<Rightarrow> string option res" where
  "uriPathAbsoluteAppend currentPath app =
     (if chC app 0 = CHR ''/'' then Inr (Some app)
      else if app = ''.'' then Inr (Some currentPath)
      else if take 2 app = ''..'' \<and> currentPath = ''/'' \<and> length app = 2 then Inl OutOfBounds
      else if take 2 app = ''..'' \<and> currentPath = ''/'' \<and> (length app = 3 \<or> chC app 3 = CHR ''/'') then
        Inr (Some ''/'')
      else if chC currentPath 0 \<noteq> CHR ''/'' then Inr None
      else bindr (uriPathCombine currentPath app)
             (\<lambda>c. bindr (absLoop c 0 []) (\<lambda>r. Inr (Some r))))"

section \<open>Round trips\<close>

definition wfUri :: "UriDetails \<Rightarrow> bool" where
  "wfUri d \<longleftrightarrow>
     (case uScheme d of Some s \<Rightarrow> CHR '':'' \<notin> set s | None \<Rightarrow> False) \<and>
     (case uHost d of Some h \<Rightarrow> CHR ''/'' \<notin> set h \<and> CHR '':'' \<notin> set h | None \<Rightarrow> False) \<and>
     (case uPort d of Some p \<Rightarrow> CHR ''/'' \<notin> set p | None \<Rightarrow> True) \<and>
     (case uPath d of Some (c # t) \<Rightarrow> c = CHR ''/'' \<and> CHR ''?'' \<notin> set t | _ \<Rightarrow> False)"

lemma strstr_scheme:
  "CHR '':'' \<notin> set s \<Longrightarrow> strstr (s @ CHR '':'' # CHR ''/'' # CHR ''/'' # t) ''://'' = Some (length s)"
  by (induction s) auto

lemma pathQuery_plain [simp]: "CHR ''?'' \<notin> set t \<Longrightarrow> pathQuery t = (Some t, None)"
  by (simp add: pathQuery_def strchr_None [THEN iffD2])

lemma pathQuery_query [simp]:
  "CHR ''?'' \<notin> set t \<Longrightarrow> pathQuery (t @ CHR ''?'' # q) = (Some t, Some q)"
  by (simp add: pathQuery_def strchr_append)

lemma pathQuery_parts:
  "CHR ''?'' \<notin> set t \<Longrightarrow>
     pathQuery (CHR ''/'' # t @ (case qu of Some q \<Rightarrow> CHR ''?'' # q | None \<Rightarrow> [])) = (Some (CHR ''/'' # t), qu)"
  using pathQuery_query [of "CHR ''/'' # t"] by (cases qu) auto

text \<open>The part behind the scheme, with and without a port.\<close>

lemma NewFrom_port:
  assumes "CHR '':'' \<notin> set s" "CHR ''/'' \<notin> set h" "CHR '':'' \<notin> set h" "CHR ''/'' \<notin> set p" "CHR ''?'' \<notin> set t"
  shows "uriDetailsNewFrom (Some (s @ ''://'' @ h @ (CHR '':'' # p) @ (CHR ''/'' # t) @
            (case qu of Some q \<Rightarrow> CHR ''?'' # q | None \<Rightarrow> []))) =
         \<lparr>uScheme = Some s, uHost = Some h, uPath = Some (CHR ''/'' # t), uPort = Some p, uQuery = qu\<rparr>"
proof -
  let ?r = "t @ (case qu of Some q \<Rightarrow> CHR ''?'' # q | None \<Rightarrow> [])"
  let ?q = "h @ CHR '':'' # p @ CHR ''/'' # ?r"
  have c: "strchr ?q (CHR '':'') = Some (length h)" using assms by (intro strchr_append)
  have "strchr ((h @ CHR '':'' # p) @ CHR ''/'' # ?r) (CHR ''/'') = Some (length (h @ CHR '':'' # p))"
    using assms by (intro strchr_append) auto
  then have d: "strchr ?q (CHR ''/'') = Some (Suc (length h + length p))" by simp
  show ?thesis
    using assms by (simp add: uriDetailsNewFrom_def strstr_scheme c d substr_def pathQuery_parts)
qed

lemma NewFrom_no_port:
  assumes "CHR '':'' \<notin> set s" "CHR ''/'' \<notin> set h" "CHR '':'' \<notin> set h" "CHR ''?'' \<notin> set t"
  shows "uriDetailsNewFrom (Some (s @ ''://'' @ h @ [] @ (CHR ''/'' # t) @
            (case qu of Some q \<Rightarrow> CHR ''?'' # q | None \<Rightarrow> []))) =
         \<lparr>uScheme = Some s, uHost = Some h, uPath = Some (CHR ''/'' # t), uPort = None, uQuery = qu\<rparr>"
proof -
  let ?r = "t @ (case qu of Some q \<Rightarrow> CHR ''?'' # q | None \<Rightarrow> [])"
  let ?q = "h @ CHR ''/'' # ?r"
  have d: "strchr ?q (CHR ''/'') = Some (length h)" using assms by (intro strchr_append)
  have c: "\<forall>i<length h. strchr ?q (CHR '':'') \<noteq> Some i"
    using assms(3) by (auto simp: strchr_append_notin)
  show ?thesis
    using assms c
    by (simp add: uriDetailsNewFrom_def strstr_scheme d pathQuery_parts split: option.splits)
qed

text \<open>
  C26. Printing the parts of an address with \<open>uriDetailsCreateString\<close> and taking the text apart again with
  \<open>uriDetailsNewFrom\<close> gives the same scheme, host, port, path and query back, for parts that contain
  none of the dividers behind which the parser looks for the next part.
\<close>

theorem uriDetails_roundtrip:
  assumes "wfUri d"
  shows "uriDetailsCreateString d \<noteq> None \<and> uriDetailsNewFrom (uriDetailsCreateString d) = d"
proof -
  obtain sch host path port qu where d: "d = \<lparr>uScheme = sch, uHost = host, uPath = path, uPort = port, uQuery = qu\<rparr>"
    by (cases d)
  from assms d obtain s h t where p: "sch = Some s" "host = Some h" "path = Some (CHR ''/'' # t)"
    "CHR '':'' \<notin> set s" "CHR ''/'' \<notin> set h" "CHR '':'' \<notin> set h" "CHR ''?'' \<notin> set t"
    by (auto simp: wfUri_def split: option.splits list.splits)
  have "uriDetailsNewFrom (uriDetailsCreateString d) = d"
  proof (cases port)
    case None
    with NewFrom_no_port [OF p(4,5,6,7), of qu] p d show ?thesis by (simp add: uriDetailsCreateString_def)
  next
    case (Some n)
    with assms d have n: "CHR ''/'' \<notin> set n" by (simp add: wfUri_def)
    from NewFrom_port [OF p(4,5,6) n p(7), of qu] p d Some show ?thesis by (simp add: uriDetailsCreateString_def)
  qed
  with p d show ?thesis by (simp add: uriDetailsCreateString_def)
qed

lemma uriDetails_roundtrip_witness:
  "uriDetailsNewFrom (uriDetailsCreateString
      \<lparr>uScheme = Some ''http'', uHost = Some ''localhost'', uPath = Some ''/a/b'', uPort = Some ''8080'', uQuery = Some ''x=/:?''\<rparr>) =
      \<lparr>uScheme = Some ''http'', uHost = Some ''localhost'', uPath = Some ''/a/b'', uPort = Some ''8080'', uQuery = Some ''x=/:?''\<rparr>"
  using uriDetails_roundtrip [of "\<lparr>uScheme = Some ''http'', uHost = Some ''localhost'', uPath = Some ''/a/b'', uPort = Some ''8080'', uQuery = Some ''x=/:?''\<rparr>"]
  by (simp add: wfUri_def)

lemma digits_val_mono: "k \<le> digits_val k s"
proof (induction s arbitrary: k)
  case (Cons c s)
  have "k \<le> 10 * k + digit_val c" by simp
  also have "\<dots> \<le> digits_val (10 * k + digit_val c) s" by (rule Cons.IH)
  finally show ?case by (simp add: digits_val_def)
qed (simp add: digits_val_def)

lemma portLoop_value:
  "r \<le> USHRT_MAX \<Longrightarrow>
   portLoop r s = (if (\<forall>c\<in>set s. isdigitC c) \<and> digits_val r s \<le> USHRT_MAX then digits_val r s else 0)"
proof (induction s arbitrary: r)
  case (Cons c s)
  have m: "10 * r + digit_val c \<le> digits_val r (c # s)"
    using digits_val_mono [of "10 * r + digit_val c" s] by (simp add: digits_val_def)
  show ?case
  proof (cases "isdigitC c \<and> 10 * r + digit_val c \<le> USHRT_MAX")
    case True
    with Cons.IH [of "10 * r + digit_val c"] show ?thesis
      by (simp add: digits_val_def Let_def mult.commute)
  next
    case False
    with m show ?thesis by (auto simp: Let_def mult.commute)
  qed
qed (simp add: digits_val_def)

text \<open>
  \<open>uriDetailsGetPort\<close> returns the number a port of decimal digits denotes when it is at most 65535 and
  0 for every other text, however long, without wrapping around; with no port it is the default port
  of the scheme.
\<close>

theorem uriDetailsGetPort_value:
  "uriDetailsGetPort d =
     (case uPort d of
        None \<Rightarrow> schemeValue (uriDetailsGetScheme d)
      | Some p \<Rightarrow> if list_all isdigitC p \<and> digits_val 0 p \<le> 65535 then digits_val 0 p else 0)"
  by (simp add: uriDetailsGetPort_def portLoop_value [of 0] USHRT_MAX_def list_all_iff split: option.splits)

lemma schemeOf_names:
  "schemeOf ''http'' = SCHEME_HTTP" "schemeOf ''https'' = SCHEME_HTTPS" "schemeOf ''ftp'' = SCHEME_FTP"
  "schemeOf ''ftps'' = SCHEME_FTPS" "schemeOf ''file'' = SCHEME_FILE"
  by code_simp+

text \<open>
  The scheme read back after \<open>uriDetailsSetScheme\<close> is the one that was set, for every scheme.
\<close>

theorem uriDetailsSetScheme_GetScheme: "uriDetailsGetScheme (uriDetailsSetScheme d s) = s"
  by (cases s) (simp_all add: uriDetailsSetScheme_def uriDetailsGetScheme_def schemeOf_names)

theorem schemeOf_accepts_misspelled:
  "schemeOf ''fttp'' = SCHEME_HTTP \<and> schemeOf ''fips'' = SCHEME_FTPS"
  by code_simp

theorem isValidIpv4Str_digit_sum:
  "\<not> isValidIpv4Str ''192.168.0.199'' \<and> isValidIpv4Str ''930.0.0.0''"
  by code_simp

section \<open>Absolute paths\<close>

text \<open>The path of a list of elements, and the elements that need no normalisation.\<close>

fun pathOf :: "string list \<Rightarrow> string" where
  "pathOf [] = []"
| "pathOf (c # cs) = CHR ''/'' # c @ pathOf cs"

definition dirOf :: "string list \<Rightarrow> string" where
  "dirOf cs = (if cs = [] then ''/'' else pathOf cs)"

definition segOk :: "string \<Rightarrow> bool" where
  "segOk c \<longleftrightarrow> c \<noteq> [] \<and> CHR ''/'' \<notin> set c \<and> NUL \<notin> set c \<and> hd c \<noteq> CHR ''.''"

lemma chC_append_plus: "chC (a @ b) (length a + i) = chC b i"
  by (simp add: chC_def nth_append)

lemma chC_Cons_Suc: "chC (x # s) (Suc i) = chC s i"
  by (simp add: chC_def)

lemma pathOf_append [simp]: "pathOf (a @ b) = pathOf a @ pathOf b"
  by (induction a) auto

lemma pathOf_eq_Nil [simp]: "pathOf cs = [] \<longleftrightarrow> cs = []"
  by (cases cs) auto

subsection \<open>Combining\<close>

lemma uriPathCombine_plain:
  assumes "2 \<le> length p" "last p \<noteq> CHR ''/''" "chC q 0 \<noteq> CHR ''/''"
  shows "uriPathCombine p q = Inr (p @ ''/'' @ q)"
proof -
  obtain n where l: "length p = Suc (Suc n)" using assms(1) by (metis add_2_eq_Suc le_Suc_ex)
  then have n: "length p - 1 = Suc n" and ne: "p \<noteq> []" by auto
  have s: "stripIdx p (length p - 1) = Suc n"
    using assms(2) ne by (simp add: l last_conv_nth)
  have "dropWhile (\<lambda>c. c = CHR ''/'') q = q" using assms(3) by (cases q) auto
  then show ?thesis using s n by (simp add: uriPathCombine_def l ne)
qed

lemma uriPathCombine_pathOf:
  assumes "cs \<noteq> []" "\<forall>c\<in>set cs. segOk c" "chC q 0 \<noteq> CHR ''/''"
  shows "uriPathCombine (pathOf cs) q = Inr (pathOf cs @ ''/'' @ q)"
proof -
  obtain d x where d: "cs = d @ [x]" using assms(1) by (cases cs rule: rev_cases) auto
  with assms(2) have x: "x \<noteq> []" "CHR ''/'' \<notin> set x" by (auto simp: segOk_def)
  then have "last x \<noteq> CHR ''/''" using last_in_set by metis
  with x d have "last (pathOf cs) \<noteq> CHR ''/''" by simp
  moreover have "2 \<le> length (pathOf cs)" using x d by (cases x) auto
  ultimately show ?thesis using assms(3) by (intro uriPathCombine_plain)
qed

subsection \<open>The copying loop\<close>

lemma absLoop_store:
  assumes "i < length c" "\<not> (c ! i = CHR ''/'' \<and> chC c (i + 1) = CHR ''.'')"
  shows "absLoop c i out = absLoop c (i + 1) (out @ [c ! i])"
  using assms by (subst absLoop.simps) (auto simp: absStep_def)

lemma absLoop_run:
  assumes "i + n \<le> length c" "\<And>k. i \<le> k \<Longrightarrow> k < i + n \<Longrightarrow> \<not> (c ! k = CHR ''/'' \<and> chC c (k + 1) = CHR ''.'')"
  shows "absLoop c i out = absLoop c (i + n) (out @ take n (drop i c))"
  using assms
proof (induction n arbitrary: i out)
  case (Suc n)
  have "absLoop c i out = absLoop c (i + 1) (out @ [c ! i])"
    using Suc.prems(1) Suc.prems(2) [of i] by (intro absLoop_store) auto
  also have "\<dots> = absLoop c (i + 1 + n) ((out @ [c ! i]) @ take n (drop (i + 1) c))"
    using Suc.prems by (intro Suc.IH) auto
  also have "(out @ [c ! i]) @ take n (drop (i + 1) c) = out @ take (Suc n) (drop i c)"
    using Suc.prems(1) by (simp add: Cons_nth_drop_Suc [symmetric])
  finally show ?case by simp
qed simp

text \<open>A list of good elements is copied unchanged, whatever follows it.\<close>

lemma pathOf_no_dot:
  assumes "\<forall>c\<in>set cs. segOk c" "k < length (pathOf cs)" "pathOf cs ! k = CHR ''/''"
  shows "chC (pathOf cs @ t) (k + 1) \<noteq> CHR ''.''"
  using assms
proof (induction cs arbitrary: k)
  case (Cons c cs)
  then have c: "c \<noteq> []" "CHR ''/'' \<notin> set c" "hd c \<noteq> CHR ''.''" by (auto simp: segOk_def)
  show ?case
  proof (cases k)
    case 0
    with c show ?thesis by (cases c) (auto simp: chC_def)
  next
    case (Suc m)
    have "\<not> m < length c" using Cons.prems(3) Suc c(2) by (auto simp: nth_append) (metis nth_mem)
    then obtain j where j: "m = length c + j" by (metis le_Suc_ex not_less)
    with Cons.prems Suc have "chC (pathOf cs @ t) (j + 1) \<noteq> CHR ''.''"
      by (intro Cons.IH) (auto simp: nth_append)
    then show ?thesis using chC_append_plus [of c "pathOf cs @ t" "j + 1"] Suc j
      by (simp add: chC_Cons_Suc)
  qed
qed simp

lemma absLoop_pathOf:
  assumes "\<forall>c\<in>set cs. segOk c"
  shows "absLoop (pathOf cs @ t) 0 [] = absLoop (pathOf cs @ t) (length (pathOf cs)) (pathOf cs)"
proof -
  have "absLoop (pathOf cs @ t) 0 [] =
        absLoop (pathOf cs @ t) (0 + length (pathOf cs)) ([] @ take (length (pathOf cs)) (drop 0 (pathOf cs @ t)))"
    using pathOf_no_dot [OF assms] by (intro absLoop_run) (auto simp: nth_append)
  then show ?thesis by simp
qed

subsection \<open>Going up\<close>

text \<open>\<open>n\<close> times \<open>/..\<close>, and the same without the first divider.\<close>

definition ups :: "nat \<Rightarrow> string" where
  "ups n = concat (replicate n ''/..'')"

lemma backUp_path: "CHR ''/'' \<notin> set (x @ j) \<Longrightarrow> backUp (p @ CHR ''/'' # x @ j) = p"
  by (simp add: backUp_def strrchr_append)

lemma absLoop_ups:
  assumes "cs \<noteq> []" "\<forall>c\<in>set cs. segOk c" "j = [] \<or> j = ''.''"
  shows "absLoop (w @ ups (Suc n)) (length w) (pathOf cs @ j) = Inr (dirOf (take (length cs - Suc n) cs))"
  using assms
proof (induction n arbitrary: w cs j)
  case (0 w cs j)
  obtain d x where d: "cs = d @ [x]" using 0 by (cases cs rule: rev_cases) auto
  with 0 have "CHR ''/'' \<notin> set (x @ j)" by (auto simp: segOk_def)
  from backUp_path [OF this, of "pathOf d"] show ?case
    by (subst absLoop.simps)
       (auto simp: d ups_def absStep_def absDotDot_def chC_def nth_append dirOf_def Let_def)
next
  case (Suc n w cs j)
  obtain d x where d: "cs = d @ [x]" using Suc.prems by (cases cs rule: rev_cases) auto
  with Suc.prems have x: "CHR ''/'' \<notin> set (x @ j)" by (auto simp: segOk_def)
  note b = backUp_path [OF x, of "pathOf d"]
  have u: "w @ ups (Suc (Suc n)) = (w @ ''/..'') @ ups (Suc n)"
    by (simp add: ups_def)
  show ?case
  proof (cases "d = []")
    case True
    with b show ?thesis
      by (subst absLoop.simps)
         (auto simp: d ups_def absStep_def absDotDot_def chC_def nth_append dirOf_def Let_def)
  next
    case False
    have "absLoop (w @ ups (Suc (Suc n))) (length w) (pathOf cs @ j) =
          absLoop (w @ ups (Suc (Suc n))) (length (w @ ''/..'')) (pathOf d @ ''.'')"
      using b False by (subst absLoop.simps)
         (auto simp: d ups_def absStep_def absDotDot_def chC_def nth_append Let_def)
    also have "\<dots> = Inr (dirOf (take (length d - Suc n) d))"
      unfolding u using False Suc.prems d by (intro Suc.IH) auto
    also have "take (length d - Suc n) d = take (length cs - Suc (Suc n)) cs"
      by (simp add: d)
    finally show ?thesis .
  qed
qed

text \<open>
  C25. Appending \<open>../../...\<close> (\<open>n + 1\<close> times) to an absolute path gives the path without its last
  \<open>n + 1\<close> elements, and the root when there are no more elements than that.
\<close>

theorem uriPathAbsoluteAppend_up:
  assumes "cs \<noteq> []" "\<forall>c\<in>set cs. segOk c"
  shows "uriPathAbsoluteAppend (pathOf cs) (tl (ups (Suc n))) = Inr (Some (dirOf (take (length cs - Suc n) cs)))"
proof -
  have t: "CHR ''/'' # tl (ups (Suc n)) = ups (Suc n)" by (simp add: ups_def)
  have h: "chC (tl (ups (Suc n))) 0 = CHR ''.''" "tl (ups (Suc n)) \<noteq> ''.''" by (simp_all add: ups_def chC_def)
  obtain c d where c: "cs = c # d" using assms(1) by (cases cs) auto
  with assms have r: "pathOf cs \<noteq> ''/''" "chC (pathOf cs) 0 = CHR ''/''" by (auto simp: segOk_def chC_def)
  have "absLoop (pathOf cs @ ups (Suc n)) 0 [] = Inr (dirOf (take (length cs - Suc n) cs))"
    using absLoop_pathOf [OF assms(2), of "ups (Suc n)"] absLoop_ups [OF assms, of "[]" "pathOf cs" n] by simp
  then show ?thesis
    using uriPathCombine_pathOf [OF assms, of "tl (ups (Suc n))"] h r t
    by (simp add: uriPathAbsoluteAppend_def)
qed

lemma uriPathAbsoluteAppend_up_witness:
  "uriPathAbsoluteAppend ''/usr/local/share'' ''../..'' = Inr (Some ''/usr'')"
  using uriPathAbsoluteAppend_up [of "[''usr'', ''local'', ''share'']" 1]
  by (simp add: segOk_def ups_def dirOf_def numeral_2_eq_2)

text \<open>
  Appending a relative path that has no element beginning with a dot gives the current path followed by
  the elements of the relative one.
\<close>

theorem uriPathAbsoluteAppend_plain:
  assumes "\<forall>c\<in>set cs. segOk c" "\<forall>c\<in>set ds. segOk c" "cs \<noteq> []" "ds \<noteq> []"
  shows "uriPathAbsoluteAppend (pathOf cs) (tl (pathOf ds)) = Inr (Some (pathOf (cs @ ds)))"
proof -
  obtain d e where d: "ds = d # e" using assms(4) by (cases ds) auto
  with assms have do: "segOk d" by simp
  then have h: "chC (tl (pathOf ds)) 0 \<noteq> CHR ''/''" "chC (tl (pathOf ds)) 0 \<noteq> CHR ''.''" 
    using d by (cases d; auto simp: segOk_def chC_def)+
  obtain c b where c: "cs = c # b" using assms(3) by (cases cs) auto
  with assms have r: "pathOf cs \<noteq> ''/''" "chC (pathOf cs) 0 = CHR ''/''" by (auto simp: segOk_def chC_def)
  have t: "CHR ''/'' # tl (pathOf ds) = pathOf ds" by (simp add: d)
  have g: "\<forall>c\<in>set (cs @ ds). segOk c" using assms by auto
  have "absLoop (pathOf (cs @ ds)) 0 [] = Inr (pathOf (cs @ ds))"
    using absLoop_pathOf [OF g, of "[]"] by (simp add: absLoop.simps)
  moreover have "tl (pathOf ds) \<noteq> ''.''" "take 2 (tl (pathOf ds)) \<noteq> ''..''"
    using h(2) by (cases "tl (pathOf ds)"; auto)+
  ultimately show ?thesis
    using uriPathCombine_pathOf [OF assms(3,1) h(1)] h r t
    by (simp add: uriPathAbsoluteAppend_def)
qed


lemma uriPathAbsoluteAppend_plain_witness:
  "uriPathAbsoluteAppend ''/srv/www'' ''img/logo.png'' = Inr (Some ''/srv/www/img/logo.png'')"
  using uriPathAbsoluteAppend_plain [of "[''srv'', ''www'']" "[''img'', ''logo.png'']"]
  by (simp add: segOk_def)

subsection \<open>The buffer of the result\<close>

lemma JumpOverDotPaths_le: "JumpOverDotPaths q s \<le> length s"
  by (induction q s rule: JumpOverDotPaths.induct) auto

lemma chC_NUL_less: "chC s i \<noteq> NUL \<Longrightarrow> i < length s"
  by (auto simp: chC_def split: if_splits)

lemma length_backUp: "length (backUp out) \<le> length out"
  by (auto simp: backUp_def split: option.splits)

lemma absDot_bounds:
  assumes "chC c i = CHR ''/''" "chC c (i + 1) = CHR ''.''" "chC c (i + 2) = CHR ''/''"
  shows "case absDot c i out of Finished r \<Rightarrow> r = out | Store k out1 \<Rightarrow> i \<le> k \<and> k < length c \<and> out1 = out
           | Undefined e \<Rightarrow> False"
proof -
  have l: "i < length c" and "c ! i = CHR ''/''" using chC_NUL_less [of c i] assms(1) by auto
  then have "3 \<le> JumpOverDotPaths (CHR ''/'') (drop i c)" using assms by (intro JumpOverDotPaths_ge)
  moreover have "i + JumpOverDotPaths (CHR ''/'') (drop i c) \<le> length c"
    using JumpOverDotPaths_le [of "CHR ''/''" "drop i c"] l by simp
  ultimately show ?thesis by (auto simp: absDot_def Let_def)
qed

lemma absDotDot_bounds:
  assumes "out \<noteq> []"
  shows "case absDotDot c i out of Finished r \<Rightarrow> length r \<le> length out
           | Store k out1 \<Rightarrow> i \<le> k \<and> k < length c \<and> length out1 \<le> length out | Undefined e \<Rightarrow> False"
  using assms length_backUp [of out] JumpOverDotPaths_le [of "CHR ''/''" "drop (i + 3) c"]
    chC_NUL_less [of c "i + 3"]
  by (auto simp: absDotDot_def Let_def Suc_le_eq)

lemma absStep_bounds:
  assumes "i < length c" "out \<noteq> []"
  shows "case absStep c i out of Finished r \<Rightarrow> length r \<le> length out
           | Store k out1 \<Rightarrow> i \<le> k \<and> k < length c \<and> length out1 \<le> length out | Undefined e \<Rightarrow> False"
  using absDot_bounds [where out=out and c=c and i=i] absDotDot_bounds [where out=out and c=c and i=i] assms
  by (auto simp: absStep_def split: absTurn.splits if_splits)

lemma absLoop_bounds:
  assumes "out \<noteq> []" "length out \<le> i" "i \<le> length c"
  shows "\<exists>r. absLoop c i out = Inr r \<and> length r \<le> length c"
  using assms
proof (induction c i out rule: absLoop.induct)
  case (1 c i out)
  show ?case
  proof (cases "length c \<le> i")
    case True
    with 1 show ?thesis by (subst absLoop.simps) auto
  next
    case False
    note b = absStep_bounds [where out=out and c=c and i=i]
    show ?thesis
    proof (cases "absStep c i out")
      case (Store k out1)
      with b False 1 have "length out1 \<le> k" "k < length c" by auto
      with "1.IH" [OF False Store] Store False show ?thesis by (subst absLoop.simps) auto
    qed (use b False 1 in \<open>subst absLoop.simps; auto\<close>)+
  qed
qed

lemma stripIdx_le: "stripIdx s k \<le> k"
  by (induction s k rule: stripIdx.induct) auto

lemma stripIdx_pos: "s ! 1 \<noteq> CHR ''/'' \<Longrightarrow> 0 < k \<Longrightarrow> 0 < stripIdx s k"
  by (induction s k rule: stripIdx.induct) (auto simp: less_Suc_eq_0_disj)

lemma uriPathCombine_bounds:
  assumes "x \<noteq> CHR ''/''"
  shows "\<exists>u. uriPathCombine (CHR ''/'' # x # t) app = Inr (CHR ''/'' # x # u) \<and> length u \<le> length t + length app + 1"
proof -
  let ?p = "CHR ''/'' # x # t"
  obtain n where n: "stripIdx ?p (length t + 1) = Suc n"
    using stripIdx_pos [of ?p "length t + 1"] assms by (auto simp: gr0_conv_Suc)
  with stripIdx_le [of ?p "length t + 1"] have "n \<le> length t" by simp
  with n length_dropWhile_le [of "\<lambda>c. c = CHR ''/''" app] show ?thesis
    by (simp add: uriPathCombine_def)
qed

text \<open>
  For a current path whose first element does not begin with a dot, \<open>uriPathAbsoluteAppend\<close> reads no
  byte it has not written, and the result with its NUL fits the buffer of
  \<open>strlen (currentPath) + strlen (append) + 2\<close> bytes, whatever is appended.
\<close>

theorem uriPathAbsoluteAppend_safe:
  assumes "path = CHR ''/'' # x # t" "x \<noteq> CHR ''/''" "x \<noteq> CHR ''.''"
  shows "\<exists>r. uriPathAbsoluteAppend path app = Inr (Some r) \<and> length r < length path + length app + 2"
proof -
  obtain u where u: "uriPathCombine path app = Inr (CHR ''/'' # x # u)" "length u \<le> length t + length app + 1"
    using uriPathCombine_bounds [of x t app] assms by auto
  let ?c = "CHR ''/'' # x # u"
  have "absLoop ?c 0 [] = absLoop ?c 1 ''/''"
    using absLoop_store [of 0 ?c "[]"] assms by (simp add: chC_def)
  with absLoop_bounds [of "''/''" 1 ?c] obtain r where
    "absLoop ?c 0 [] = Inr r" "length r \<le> length u + 2" by auto
  with u assms(1) show ?thesis by (auto simp: uriPathAbsoluteAppend_def chC_def)
qed

subsection \<open>The last element\<close>

lemma pathLastLoop_plain:
  "CHR ''/'' \<notin> set w \<Longrightarrow> pathLastLoop p i (w @ r) = pathLastLoop p (i + length w) r"
  by (induction w arbitrary: i) auto

lemma pathLastLoop_pathOf:
  assumes "\<forall>c\<in>set (cs @ [x]). c \<noteq> [] \<and> CHR ''/'' \<notin> set c" "t = [] \<or> t = ''/''"
  shows "pathLastLoop p i (pathOf (cs @ [x]) @ t) = Some x"
  using assms
proof (induction cs arbitrary: p i)
  case Nil
  then have "pathLastLoop (Some (x @ t)) (i + 1) (x @ t) = Some x"
    by (auto simp: pathLastLoop_plain)
  with Nil show ?case by auto
next
  case (Cons c cs)
  then have "pathLastLoop (Some (c @ pathOf (cs @ [x]) @ t)) (i + 1) (c @ pathOf (cs @ [x]) @ t) = Some x"
    by (simp add: pathLastLoop_plain)
  with Cons.prems show ?case by simp
qed

text \<open>
  \<open>uriPathLast\<close> returns the last element of a path, with or without a trailing divider.
\<close>

theorem uriPathLast_pathOf:
  assumes "\<forall>c\<in>set (cs @ [x]). c \<noteq> [] \<and> CHR ''/'' \<notin> set c" 
  shows "uriPathLast (pathOf (cs @ [x])) = Some x \<and> uriPathLast (pathOf (cs @ [x]) @ ''/'') = Some x"
  using pathLastLoop_pathOf [OF assms, of "[]"] pathLastLoop_pathOf [OF assms, of "''/''"]
  by (simp add: uriPathLast_def)

lemma uriPathLast_witness:
  "uriPathLast ''/srv/www'' = Some ''www'' \<and> uriPathLast ''/srv/www/'' = Some ''www''"
  using uriPathLast_pathOf [of "[''srv'']" "''www''"] by simp

text \<open>Relative paths the function gets wrong.\<close>

theorem uriPathAbsoluteAppend_wrong:
  "uriPathAbsoluteAppend ''/a'' ''../b'' = Inr (Some ''/'') \<and>
   uriPathAbsoluteAppend ''/a'' ''./.b'' = Inr (Some ''/a.b'') \<and>
   uriPathAbsoluteAppend ''/a/b'' ''../.x'' = Inr (Some ''/a./.x'') \<and>
   uriPathAbsoluteAppend ''/'' ''../x'' = Inl Uninitialised \<and>
   uriPathAbsoluteAppend ''/'' ''..'' = Inl OutOfBounds"
  by code_simp

lemma uriPathAbsoluteAppend_safe_witness:
  "\<exists>r. uriPathAbsoluteAppend ''/a'' ''../../b'' = Inr (Some r) \<and> length r < 11"
  using uriPathAbsoluteAppend_safe [of "''/a''" "CHR ''a''" "[]" "''../../b''"] by (simp add: eval_nat_numeral)

end
