(* ===== verification/Posix_Sys.thy ===== *)
theory Posix_Sys
  imports Uri
begin

text \<open>
  \<open>src/platform/posix01.c\<close>, the POSIX layer: system paths, HTTP dates, directory entries, and the
  start of the listening socket. What the operating system answers is a parameter.
\<close>

section \<open>Paths\<close>

definition FILENAME_MAX :: nat where "FILENAME_MAX = 4096"

definition platformPathCombine :: "string \<Rightarrow> string \<Rightarrow> string res" where
  "platformPathCombine path1 path2 =
     (if path1 = [] then Inl OutOfBounds
      else
        let idx = stripIdx path1 (length path1 - 1);
            out = (if idx \<noteq> 0 \<or> path1 = ''.'' then take (idx + 1) path1 @ ''/''
                   else if chC path1 0 = CHR ''/'' \<and> chC path1 1 = CHR ''/'' then take 1 path1
                   else path1)
        in Inr (out @ dropWhile (\<lambda>c. c = CHR ''/'') path2))"

text \<open>
  The answer is the response code and the path written to \<open>absolutePath\<close>. The byte looked at to
  strip a trailing divider is at \<open>absolutePathLen - 1\<close>; behind the end of the combined path it holds
  no character of the result, and storing a NUL there changes nothing.
\<close>

definition platformPathWebToSystem :: "string \<Rightarrow> string \<Rightarrow> (nat \<times> string option) res" where
  "platformPathWebToSystem rootPath webPath =
     (let absolutePathLen = length rootPath + length webPath + 1 in
      if FILENAME_MAX \<le> absolutePathLen then Inr (500, None)
      else bindr (platformPathCombine rootPath webPath)
             (\<lambda>internal.
                Inr (0, Some (if 1 < absolutePathLen \<and> chC internal (absolutePathLen - 1) = CHR ''/''
                              then take (absolutePathLen - 1) internal else internal))))"

definition platformPathLast :: "string \<Rightarrow> string option" where
  "platformPathLast path = pathLastLoop None 0 path"

definition platformPathFileSchemePathToSystem :: "string \<Rightarrow> string" where
  "platformPathFileSchemePathToSystem path = path"

definition platformPathFileSchemeToSystem :: "string \<Rightarrow> string option" where
  "platformPathFileSchemeToSystem path =
     (if toupperC (chC path 0) = CHR ''F'' \<and> toupperC (chC path 1) = CHR ''I'' \<and>
         toupperC (chC path 2) = CHR ''L'' \<and> toupperC (chC path 3) = CHR ''E'' \<and>
         chC path 4 = CHR '':'' \<and> chC path 5 = CHR ''/'' \<and> chC path 6 = CHR ''/'' \<and> chC path 7 = CHR ''/''
      then Some (platformPathFileSchemePathToSystem (drop 7 path)) else None)"

text \<open>\<open>realpath\<close> is \<open>realpath (3)\<close>.\<close>

definition platformPathSystemToFileScheme :: "(string \<Rightarrow> string option) \<Rightarrow> string \<Rightarrow> string option" where
  "platformPathSystemToFileScheme realpath path =
     (case realpath path of None \<Rightarrow> None | Some a \<Rightarrow> if a = [] then None else Some (''file://'' @ a))"

text \<open>\<open>env\<close> is \<open>getenv (3)\<close>, \<open>tmpIsDir\<close> whether \<open>/tmp\<close> exists and is a directory.\<close>

definition platformTempDirectoryGet :: "(string \<Rightarrow> string option) \<Rightarrow> bool \<Rightarrow> string option" where
  "platformTempDirectoryGet env tmpIsDir =
     (case env ''TMP'' of Some t \<Rightarrow> Some t
      | None \<Rightarrow> (case env ''TMPDIR'' of Some t \<Rightarrow> Some t
                | None \<Rightarrow> (case env ''TEMP'' of Some t \<Rightarrow> Some t
                          | None \<Rightarrow> if tmpIsDir then Some ''/tmp'' else None)))"

definition platformTempFilePath :: "(string \<Rightarrow> string option) \<Rightarrow> bool \<Rightarrow> string \<Rightarrow> string option res" where
  "platformTempFilePath env tmpIsDir fileName =
     (case platformTempDirectoryGet env tmpIsDir of
        None \<Rightarrow> Inr None
      | Some tmp \<Rightarrow> bindr (platformPathCombine tmp fileName) (\<lambda>r. Inr (Some r)))"

section \<open>Dates\<close>

record PlatformTimeStruct =
  tm_sec :: int
  tm_min :: int
  tm_hour :: int
  tm_mday :: int
  tm_mon :: int
  tm_year :: int
  tm_wday :: int

definition platformTimeStructCompare :: "PlatformTimeStruct \<Rightarrow> PlatformTimeStruct \<Rightarrow> int" where
  "platformTimeStructCompare t1 t2 =
     (if tm_year t1 < tm_year t2 then 1
      else if tm_year t1 > tm_year t2 then -1
      else
        let x = (tm_mon t1 * 31 + tm_mday t1) - (tm_mon t2 * 31 + tm_mday t2) in
        if x < 0 then 1 else if x > 0 then -1
        else
          let x = (tm_hour t1 * 3600 + tm_min t1 * 60 + tm_sec t1) -
                  (tm_hour t2 * 3600 + tm_min t2 * 60 + tm_sec t2) in
          if x < 0 then 1 else if x > 0 then -1 else 0)"

text \<open>The names \<open>strftime (3)\<close> uses in the C locale.\<close>

definition dayNames :: "string list" where
  "dayNames = [''Sun'', ''Mon'', ''Tue'', ''Wed'', ''Thu'', ''Fri'', ''Sat'']"

definition monthNames :: "string list" where
  "monthNames = [''Jan'', ''Feb'', ''Mar'', ''Apr'', ''May'', ''Jun'',
                 ''Jul'', ''Aug'', ''Sep'', ''Oct'', ''Nov'', ''Dec'']"

definition two_digits :: "int \<Rightarrow> string" where
  "two_digits n = [dec_digit (nat n div 10), dec_digit (nat n mod 10)]"

text \<open>
  \<open>strftime (str, 30, "%a, %d %b %Y %H:%M:%S GMT", tm)\<close> for fields in their range: nothing usable is
  stored when the text and its NUL need more than the 30 bytes.
\<close>

definition platformTimeStructToStr :: "PlatformTimeStruct \<Rightarrow> string option" where
  "platformTimeStructToStr tm =
     (let s = dayNames ! nat (tm_wday tm) @ '', '' @ two_digits (tm_mday tm) @ '' '' @
              monthNames ! nat (tm_mon tm) @ '' '' @ show_nat (nat (tm_year tm + 1900)) @ '' '' @
              two_digits (tm_hour tm) @ '':'' @ two_digits (tm_min tm) @ '':'' @ two_digits (tm_sec tm) @ '' GMT''
      in if length s < 30 then Some s else None)"

text \<open>
  The conversions of \<open>sscanf (3)\<close> the parser uses: a character, white space, \<open>%<n>s\<close> and \<open>%d\<close>. The
  result is the list of converted values; scanning stops at the first item that does not match.
\<close>

datatype ScanItem = Lit char | Ws | StrN nat | IntD
datatype ScanVal = VStr string | VInt int

fun takeUpTo :: "nat \<Rightarrow> (char \<Rightarrow> bool) \<Rightarrow> string \<Rightarrow> string" where
  "takeUpTo 0 p s = []"
| "takeUpTo (Suc n) p [] = []"
| "takeUpTo (Suc n) p (c # s) = (if p c then c # takeUpTo n p s else [])"

definition scanInt :: "string \<Rightarrow> (int \<times> string) option" where
  "scanInt s =
     (let neg = (case s of c # _ \<Rightarrow> c = CHR ''-'' | [] \<Rightarrow> False);
          s1 = (case s of c # r \<Rightarrow> if c = CHR ''-'' \<or> c = CHR ''+'' then r else s | [] \<Rightarrow> []);
          ds = takeWhile isdigitC s1
      in if ds = [] then None
         else Some (if neg then - int (digits_val 0 ds) else int (digits_val 0 ds), dropWhile isdigitC s1))"

fun sscanf :: "ScanItem list \<Rightarrow> string \<Rightarrow> ScanVal list" where
  "sscanf [] s = []"
| "sscanf (Lit c # f) s = (case s of x # t \<Rightarrow> if x = c then sscanf f t else [] | [] \<Rightarrow> [])"
| "sscanf (Ws # f) s = sscanf f (dropWhile isspaceC s)"
| "sscanf (StrN n # f) s =
     (let s1 = dropWhile isspaceC s; w = takeUpTo n (\<lambda>c. \<not> isspaceC c) s1
      in if w = [] then [] else VStr w # sscanf f (drop (length w) s1))"
| "sscanf (IntD # f) s =
     (case scanInt (dropWhile isspaceC s) of
        None \<Rightarrow> []
      | Some (v, t) \<Rightarrow> VInt v # sscanf f t)"

text \<open>\<open>"%3s, %d %3s %d %d:%d:%d GMT"\<close>\<close>

definition httpDateFormat :: "ScanItem list" where
  "httpDateFormat =
     [StrN 3, Lit (CHR '',''), Ws, IntD, Ws, StrN 3, Ws, IntD, Ws, IntD, Lit (CHR '':''), IntD, Lit (CHR '':''), IntD,
      Ws, Lit (CHR ''G''), Lit (CHR ''M''), Lit (CHR ''T'')]"

definition scanStr :: "ScanVal list \<Rightarrow> nat \<Rightarrow> string" where
  "scanStr vs i = (if i < length vs then (case vs ! i of VStr s \<Rightarrow> s | VInt _ \<Rightarrow> []) else [])"

definition scanNum :: "ScanVal list \<Rightarrow> nat \<Rightarrow> int \<Rightarrow> int" where
  "scanNum vs i v0 = (if i < length vs then (case vs ! i of VInt v \<Rightarrow> v | VStr _ \<Rightarrow> v0) else v0)"

definition wdayOf :: "string \<Rightarrow> int option" where
  "wdayOf day =
     (let u = (\<lambda>i. toupperC (chC day i)) in
      if u 0 = CHR ''F'' then Some 5
      else if u 0 = CHR ''M'' then Some 1
      else if u 0 = CHR ''S'' then Some (if u 1 = CHR ''A'' then 6 else 0)
      else if u 0 = CHR ''T'' then Some (if u 1 = CHR ''U'' then 2 else 4)
      else if u 0 = CHR ''W'' then Some 3
      else None)"

definition monOf :: "string \<Rightarrow> int option" where
  "monOf month =
     (let u = (\<lambda>i. toupperC (chC month i)) in
      if u 0 = CHR ''A'' then Some (if u 1 = CHR ''P'' then 3 else 7)
      else if u 0 = CHR ''D'' then Some 11
      else if u 0 = CHR ''F'' then Some 1
      else if u 0 = CHR ''J'' then Some (if u 1 = CHR ''A'' then 0 else if u 2 = CHR ''L'' then 6 else 5)
      else if u 0 = CHR ''M'' then Some (if u 2 = CHR ''R'' then 2 else 4)
      else if u 0 = CHR ''N'' then Some 10
      else if u 0 = CHR ''O'' then Some 9
      else if u 0 = CHR ''S'' then Some 8
      else None)"

text \<open>
  \<open>True\<close> is the error result 1. The structure keeps what was already stored in it. \<open>sscanf\<close> never
  returns 0 for this format: with no word at all it returns \<open>EOF\<close>, which counts as true.
\<close>

definition platformTimeGetFromHttpStr :: "string \<Rightarrow> PlatformTimeStruct \<Rightarrow> bool \<times> PlatformTimeStruct" where
  "platformTimeGetFromHttpStr str tm =
     (let vs = sscanf httpDateFormat str;
          tm1 = tm\<lparr>tm_mday := scanNum vs 1 (tm_mday tm), tm_year := scanNum vs 3 (tm_year tm),
                   tm_hour := scanNum vs 4 (tm_hour tm), tm_min := scanNum vs 5 (tm_min tm),
                   tm_sec := scanNum vs 6 (tm_sec tm)\<rparr>
      in case wdayOf (scanStr vs 0) of
           None \<Rightarrow> (True, tm1)
         | Some w \<Rightarrow>
             (case monOf (scanStr vs 2) of
                None \<Rightarrow> (True, tm1\<lparr>tm_wday := w\<rparr>)
              | Some m \<Rightarrow> (False, tm1\<lparr>tm_wday := w, tm_mon := m, tm_year := tm_year tm1 - 1900\<rparr>)))"

section \<open>Directories and files\<close>

datatype EntryType = DT_DIR | DT_REG | DT_UNKNOWN

record PlatformDirEntry =
  d_name :: string
  d_type :: EntryType

record PlatformFileStat =
  st_size :: nat
  st_isdir :: bool
  st_isreg :: bool
  st_mtime :: PlatformTimeStruct

text \<open>An open directory: its path and the entries \<open>readdir (3)\<close> has yet to give, the last one first out.\<close>

record PlatformDir =
  pd_path :: string
  pd_left :: "PlatformDirEntry list"

definition platformDirRead :: "PlatformDir \<Rightarrow> PlatformDirEntry option \<times> PlatformDir" where
  "platformDirRead self =
     (case pd_left self of [] \<Rightarrow> (None, self) | e # es \<Rightarrow> (Some e, self\<lparr>pd_left := es\<rparr>))"

definition platformDirEntryGetName :: "PlatformDirEntry \<Rightarrow> string \<times> nat" where
  "platformDirEntryGetName entry = (d_name entry, length (d_name entry))"

definition platformDirEntryIsHidden :: "PlatformDirEntry \<Rightarrow> bool" where
  "platformDirEntryIsHidden entry \<longleftrightarrow> chC (d_name entry) 0 = CHR ''.''"

text \<open>
  The files the system knows are a map from paths to their status. The result of
  \<open>platformDirEntryGetStats\<close> is the status stored, if any, and whether the directory was freed:
  when the status can not be had the function frees the directory the caller still holds.
\<close>

type_synonym Files = "string \<Rightarrow> PlatformFileStat option"

definition platformFileStat :: "Files \<Rightarrow> string \<Rightarrow> PlatformFileStat option" where
  "platformFileStat fs path = fs path"

definition platformDirEntryGetStats ::
    "Files \<Rightarrow> PlatformDirEntry \<Rightarrow> PlatformDir \<Rightarrow> (PlatformFileStat option \<times> bool) res" where
  "platformDirEntryGetStats fs entry dir =
     bindr (platformPathCombine (pd_path dir) (d_name entry))
       (\<lambda>entryPath. case platformFileStat fs entryPath of
          None \<Rightarrow> Inr (None, True)
        | Some st \<Rightarrow> Inr (Some st, False))"

definition platformFileStatIsDirectory :: "PlatformFileStat \<Rightarrow> bool" where
  "platformFileStatIsDirectory st = st_isdir st"

definition platformFileStatIsFile :: "PlatformFileStat \<Rightarrow> bool" where
  "platformFileStatIsFile st = st_isreg st"

text \<open>With \<open>st = None\<close> the status is looked up; the second component says whether that freed \<open>dir\<close>.\<close>

definition platformDirEntryIsDirectory ::
    "Files \<Rightarrow> PlatformDirEntry \<Rightarrow> PlatformDir \<Rightarrow> PlatformFileStat option \<Rightarrow> (bool \<times> bool) res" where
  "platformDirEntryIsDirectory fs entry dir st =
     (if d_type entry \<noteq> DT_UNKNOWN then Inr (d_type entry = DT_DIR, False)
      else (case st of
              Some s \<Rightarrow> Inr (st_isdir s, False)
            | None \<Rightarrow>
                bindr (platformDirEntryGetStats fs entry dir)
                  (\<lambda>(s, freed). Inr (case s of Some s \<Rightarrow> st_isdir s | None \<Rightarrow> False, freed))))"

section \<open>Sockets\<close>

text \<open>\<open>inet_ntoa (3)\<close> and \<open>inet_ntop (3)\<close> give the text of an address.\<close>

definition platformGetIpString :: "sa_family \<Rightarrow> string \<Rightarrow> string \<times> sa_family" where
  "platformGetIpString family ip =
     (if family = AF_INET then (ip, AF_INET)
      else if family = AF_INET6 then
        (if take 7 ip = ''::ffff:'' then (drop 7 ip, AF_INET) else (ip, AF_INET6))
      else (''???'', family))"

definition platformGetPort :: "sa_family \<Rightarrow> nat \<Rightarrow> nat" where
  "platformGetPort family sin_port = (if family = AF_INET \<or> family = AF_INET6 then sin_port else 0)"

text \<open>
  \<open>platformServerStartup\<close> without manual binding: \<open>sock\<close> is what \<open>socket (2)\<close> answers for the family
  asked, \<open>binds\<close> which ports can be bound and \<open>listens\<close> whether \<open>listen (2)\<close> succeeds. The result is
  the error text or the array with its size in front.
\<close>

definition platformServerStartup ::
    "(sa_family \<Rightarrow> nat option) \<Rightarrow> (nat \<Rightarrow> bool) \<Rightarrow> bool \<Rightarrow> sa_family \<Rightarrow> string \<Rightarrow> (string + nat list) res" where
  "platformServerStartup sock binds listens family ports =
     (let v6 = (family = AF_INET6 \<or> family = AF_UNSPEC);
          fam = (if v6 then AF_INET6 else AF_INET)
      in case sock fam of
           None \<Rightarrow> Inr (Inl (if v6 then ''Unable to acquire IPV6 socket from system''
                            else ''Unable to acquire IPV4 socket from system''))
         | Some s \<Rightarrow>
             bindr (platformBindPort binds fam ports)
               (\<lambda>(r, _).
                  if r \<noteq> 0 then Inr (Inl ''Unable to bind to designated port numbers'')
                  else if \<not> listens then Inr (Inl ''Unable to listen to assigned socket'')
                  else Inr (Inr [1, s])))"

text \<open>The sockets closed, in order: the loop closes its own counter.\<close>

definition platformCloseBindSockets :: "nat list \<Rightarrow> nat list" where
  "platformCloseBindSockets sockets = [1..<hd sockets + 1]"

section \<open>Dates as numbers\<close>

definition validTime :: "PlatformTimeStruct \<Rightarrow> bool" where
  "validTime t \<longleftrightarrow> 0 \<le> tm_sec t \<and> tm_sec t < 60 \<and> 0 \<le> tm_min t \<and> tm_min t < 60 \<and> 0 \<le> tm_hour t \<and> tm_hour t < 24 \<and>
     1 \<le> tm_mday t \<and> tm_mday t \<le> 31 \<and> 0 \<le> tm_mon t \<and> tm_mon t < 12 \<and> 0 \<le> tm_wday t \<and> tm_wday t < 7 \<and>
     0 \<le> tm_year t + 1900 \<and> tm_year t + 1900 \<le> 9999"

text \<open>Seconds in a calendar of months of 31 days: the order of dates is the order of these numbers.\<close>

definition timeKey :: "PlatformTimeStruct \<Rightarrow> int" where
  "timeKey t = ((((tm_year t * 12 + tm_mon t) * 31 + tm_mday t) * 24 + tm_hour t) * 60 + tm_min t) * 60 + tm_sec t"

lemma platformTimeStructCompare_order:
  assumes "validTime t1" "validTime t2"
  shows "platformTimeStructCompare t1 t2 = sgn (timeKey t2 - timeKey t1)"
  using assms unfolding validTime_def platformTimeStructCompare_def timeKey_def Let_def
  by (auto simp: sgn_if)

lemma platformTimeStructCompare_witness:
  "platformTimeStructCompare
     \<lparr>tm_sec = 59, tm_min = 59, tm_hour = 23, tm_mday = 31, tm_mon = 0, tm_year = 124, tm_wday = 3\<rparr>
     \<lparr>tm_sec = 0, tm_min = 0, tm_hour = 0, tm_mday = 1, tm_mon = 1, tm_year = 124, tm_wday = 4\<rparr> = 1"
  by (subst platformTimeStructCompare_order) (simp_all add: validTime_def timeKey_def)

section \<open>Dates as text\<close>

lemma isdigitC_simps [simp]:
  "isdigitC (dec_digit d) = (d < 10)" if "d < 100"
  using that by (auto simp: isdigitC_def dec_digit_def)

lemma digits_two: "n < 100 \<Longrightarrow> digits_val 0 [dec_digit (n div 10), dec_digit (n mod 10)] = n"
  by (simp add: digits_val_def dec_digit_def)

lemma nondigit_simps [simp]:
  "\<not> isdigitC (CHR '' '')" "\<not> isdigitC (CHR '':'')" "\<not> isdigitC (CHR ''-'')" "\<not> isdigitC (CHR ''+'')"
  "isspaceC (CHR '' '')" "\<not> isspaceC (CHR '':'')" "\<not> isspaceC (CHR '','')" "\<not> isspaceC (CHR ''G'')"
  by (simp_all add: isdigitC_def isspaceC_def)

lemma digit_not_sign: "isdigitC c \<Longrightarrow> c \<noteq> CHR ''-'' \<and> c \<noteq> CHR ''+''"
  by auto

lemma scanInt_digits:
  assumes "\<forall>c\<in>set d. isdigitC c" "d \<noteq> []" "r = [] \<or> \<not> isdigitC (hd r)"
  shows "scanInt (d @ r) = Some (int (digits_val 0 d), r)"
proof -
  obtain c e where d: "d = c # e" using assms(2) by (cases d) auto
  with assms(1) have c: "c \<noteq> CHR ''-''" "c \<noteq> CHR ''+''" using digit_not_sign by auto
  have t: "takeWhile isdigitC (d @ r) = d" "dropWhile isdigitC (d @ r) = r"
    using assms(1,3) by (cases r; simp add: takeWhile_append dropWhile_append)+
  with c d show ?thesis by (simp add: scanInt_def)
qed

lemma scanInt_two_digits:
  assumes "0 \<le> n" "n < 100" "r = [] \<or> \<not> isdigitC (hd r)"
  shows "scanInt (two_digits n @ r) = Some (n, r)"
proof -
  have "\<forall>c\<in>set (two_digits n). isdigitC c" using assms by (auto simp: two_digits_def isdigit_dec_digit)
  moreover have "digits_val 0 (two_digits n) = nat n" using assms digits_two [of "nat n"] by (simp add: two_digits_def)
  ultimately show ?thesis using scanInt_digits [of "two_digits n" r] assms by (simp add: two_digits_def)
qed

lemma scanInt_show_nat: "r = [] \<or> \<not> isdigitC (hd r) \<Longrightarrow> scanInt (show_nat n @ r) = Some (int n, r)"
  using scanInt_digits [of "show_nat n" r] show_nat_digits [of n] by simp

lemma dropWhile_space_digits:
  assumes "\<forall>c\<in>set d. isdigitC c" "d \<noteq> []"
  shows "dropWhile isspaceC (d @ r) = d @ r"
  using assms isdigit_not_space by (cases d) auto

lemma two_digits_digits: "0 \<le> n \<Longrightarrow> n < 100 \<Longrightarrow> (\<forall>c\<in>set (two_digits n). isdigitC c) \<and> two_digits n \<noteq> []"
  by (auto simp: two_digits_def isdigit_dec_digit)

lemma dropWhile_two_digits: "0 \<le> n \<Longrightarrow> n < 100 \<Longrightarrow> dropWhile isspaceC (two_digits n @ r) = two_digits n @ r"
  using dropWhile_space_digits two_digits_digits by blast

lemma dropWhile_show_nat: "dropWhile isspaceC (show_nat n @ r) = show_nat n @ r"
  by (intro dropWhile_space_digits show_nat_digits) simp

definition nameOk :: "string \<Rightarrow> bool" where
  "nameOk s \<longleftrightarrow> length s = 3 \<and> list_all (\<lambda>c. \<not> isspaceC c) s"

lemma sscanf_name:
  assumes "nameOk s"
  shows "sscanf (StrN 3 # f) (s @ r) = VStr s # sscanf f r" "dropWhile isspaceC (s @ r) = s @ r"
proof -
  from assms obtain a b c where s: "s = [a, b, c]" "\<not> isspaceC a" "\<not> isspaceC b" "\<not> isspaceC c"
    by (auto simp: nameOk_def length_Suc_conv numeral_3_eq_3)
  then show "sscanf (StrN 3 # f) (s @ r) = VStr s # sscanf f r" "dropWhile isspaceC (s @ r) = s @ r"
    by (simp_all add: numeral_3_eq_3)
qed

lemma dayNames_ok: "0 \<le> w \<Longrightarrow> w < 7 \<Longrightarrow> nameOk (dayNames ! nat w) \<and> wdayOf (dayNames ! nat w) = Some w"
proof -
  have "\<forall>w\<in>set [0..<7]. nameOk (dayNames ! w) \<and> wdayOf (dayNames ! w) = Some (int w)" by code_simp
  then show "0 \<le> w \<Longrightarrow> w < 7 \<Longrightarrow> nameOk (dayNames ! nat w) \<and> wdayOf (dayNames ! nat w) = Some w" by auto
qed

lemma monthNames_ok: "0 \<le> w \<Longrightarrow> w < 12 \<Longrightarrow> nameOk (monthNames ! nat w) \<and> monOf (monthNames ! nat w) = Some w"
proof -
  have "\<forall>w\<in>set [0..<12]. nameOk (monthNames ! w) \<and> monOf (monthNames ! w) = Some (int w)" by code_simp
  then show "0 \<le> w \<Longrightarrow> w < 12 \<Longrightarrow> nameOk (monthNames ! nat w) \<and> monOf (monthNames ! nat w) = Some w" by auto
qed

lemma sscanf_date:
  assumes "validTime t"
  shows "sscanf httpDateFormat
      (dayNames ! nat (tm_wday t) @ '', '' @ two_digits (tm_mday t) @ '' '' @ monthNames ! nat (tm_mon t) @ '' '' @
       show_nat (nat (tm_year t + 1900)) @ '' '' @ two_digits (tm_hour t) @ '':'' @ two_digits (tm_min t) @ '':'' @
       two_digits (tm_sec t) @ '' GMT'') =
    [VStr (dayNames ! nat (tm_wday t)), VInt (tm_mday t), VStr (monthNames ! nat (tm_mon t)), VInt (tm_year t + 1900),
     VInt (tm_hour t), VInt (tm_min t), VInt (tm_sec t)]"
  using assms dayNames_ok [of "tm_wday t"] monthNames_ok [of "tm_mon t"]

  by (simp add: httpDateFormat_def validTime_def sscanf_name dropWhile_two_digits dropWhile_show_nat
      scanInt_two_digits scanInt_show_nat del: sscanf.simps(4))


lemma platformTimeStructToStr_Some:
  assumes "validTime t"
  shows "platformTimeStructToStr t = Some
      (dayNames ! nat (tm_wday t) @ '', '' @ two_digits (tm_mday t) @ '' '' @ monthNames ! nat (tm_mon t) @ '' '' @
       show_nat (nat (tm_year t + 1900)) @ '' '' @ two_digits (tm_hour t) @ '':'' @ two_digits (tm_min t) @ '':'' @
       two_digits (tm_sec t) @ '' GMT'')"
proof -
  have "length (show_nat (nat (tm_year t + 1900))) \<le> 4"
    using assms by (intro show_nat_length) (auto simp: validTime_def)
  then show ?thesis
    using assms dayNames_ok [of "tm_wday t"] monthNames_ok [of "tm_mon t"]
    by (simp add: platformTimeStructToStr_def validTime_def nameOk_def two_digits_def)
qed

text \<open>
  A date printed for an HTTP header and read back with \<open>platformTimeGetFromHttpStr\<close> is the same
  date, whatever the structure it is read into held before.
\<close>

theorem platformTime_roundtrip:
  assumes "validTime t"
  shows "\<exists>s. platformTimeStructToStr t = Some s \<and> length s < 30 \<and> platformTimeGetFromHttpStr s t0 = (False, t)"
proof -
  let ?s = "dayNames ! nat (tm_wday t) @ '', '' @ two_digits (tm_mday t) @ '' '' @ monthNames ! nat (tm_mon t) @ '' '' @
       show_nat (nat (tm_year t + 1900)) @ '' '' @ two_digits (tm_hour t) @ '':'' @ two_digits (tm_min t) @ '':'' @
       two_digits (tm_sec t) @ '' GMT''"
  have p: "platformTimeStructToStr t = Some ?s" by (rule platformTimeStructToStr_Some [OF assms])
  moreover have "length ?s < 30"
    using p by (simp add: platformTimeStructToStr_def Let_def split: if_splits)
  moreover have "platformTimeGetFromHttpStr ?s t0 = (False, t)"
    using sscanf_date [OF assms] assms dayNames_ok [of "tm_wday t"] monthNames_ok [of "tm_mon t"]
    by (simp add: platformTimeGetFromHttpStr_def validTime_def scanStr_def scanNum_def)
  ultimately show ?thesis by blast
qed

definition epoch1994 :: PlatformTimeStruct where
  "epoch1994 = \<lparr>tm_sec = 37, tm_min = 49, tm_hour = 8, tm_mday = 6, tm_mon = 10, tm_year = 94, tm_wday = 0\<rparr>"

section \<open>Paths of files\<close>

lemma platformPathCombine_plain:
  assumes "2 \<le> length p" "last p \<noteq> CHR ''/''"
  shows "platformPathCombine p q = Inr (p @ ''/'' @ dropWhile (\<lambda>c. c = CHR ''/'') q)"
proof -
  obtain n where l: "length p = Suc (Suc n)" using assms(1) by (metis add_2_eq_Suc le_Suc_ex)
  then have ne: "p \<noteq> []" by auto
  then have "stripIdx p (length p - 1) = Suc n" using assms(2) by (simp add: l last_conv_nth)
  then show ?thesis using ne l by (simp add: platformPathCombine_def)
qed

text \<open>
  A web path is mapped to a file below the root directory: the root, a divider and the web path
  without its leading dividers, whenever the result fits a path of \<open>FILENAME_MAX\<close> bytes; longer
  ones are answered with 500.
\<close>

theorem platformPathWebToSystem_under_root:
  assumes "2 \<le> length root" "last root \<noteq> CHR ''/''" "web \<noteq> []" "hd web = CHR ''/''"
  shows "platformPathWebToSystem root web =
           (if FILENAME_MAX \<le> length root + length web + 1 then Inr (500, None)
            else Inr (0, Some (root @ ''/'' @ dropWhile (\<lambda>c. c = CHR ''/'') web)))"
proof -
  obtain w where w: "web = CHR ''/'' # w" using assms(3,4) by (cases web) auto
  have "length (dropWhile (\<lambda>c. c = CHR ''/'') w) \<le> length w" by (rule length_dropWhile_le)
  then have "chC (root @ ''/'' @ dropWhile (\<lambda>c. c = CHR ''/'') web) (length root + length web) = NUL"
    using w by (simp add: chC_def)
  then show ?thesis
    using platformPathCombine_plain [OF assms(1,2), of web] w
    by (simp add: platformPathWebToSystem_def)
qed

lemma platformPathWebToSystem_witness:
  "platformPathWebToSystem ''/srv'' ''/a/'' = Inr (0, Some ''/srv/a/'')"
  using platformPathWebToSystem_under_root [of "''/srv''" "''/a/''"] by (simp add: FILENAME_MAX_def)

text \<open>What the layer gets wrong: one character paths, and the sockets it closes.\<close>

theorem platformPathCombine_single_char: "platformPathCombine ''a'' ''b'' = Inr ''ab''"
  by (simp add: platformPathCombine_def chC_def)

theorem platformCloseBindSockets_closes_indices: "platformCloseBindSockets [2, 7, 9] = [1, 2]"
  by (simp add: platformCloseBindSockets_def upt_rec)

end
