(* ===== verification/Network.thy ===== *)
theory Network
  imports Newth_Prelude
begin

text \<open>
  The sockets the program talks through. For the server, \<open>send (2)\<close> on the non blocking socket of each
  client; for the client, \<open>recv (2)\<close>, \<open>send (2)\<close> and \<open>connect (2)\<close> on the one socket of a receive buffer. What
  the network does is a script that the theorems quantify over.
\<close>

text \<open>\<open>SB_DATA_SIZE\<close> is \<open>BUFSIZ\<close> on POSIX systems.\<close>

definition SB_DATA_SIZE :: nat where "SB_DATA_SIZE = 8192"

section \<open>Sending from the server\<close>

text \<open>
  \<open>send (2)\<close> on a non blocking socket. Each socket has a list of the answers the network will give,
  and the bytes it has accepted so far; when the list is used up the socket would block.
\<close>

datatype SendAnswer = Accepts nat | WouldBlock | Broken

record Channel =
  chAnswers :: "SendAnswer list"
  chWire :: string

type_synonym Net = "nat \<Rightarrow> Channel"

fun channelSend :: "Channel \<Rightarrow> string \<Rightarrow> SendAnswer \<times> Channel" where
  "channelSend ch d =
     (case chAnswers ch of
        [] \<Rightarrow> (WouldBlock, ch)
      | Accepts n # as \<Rightarrow>
          (Accepts (min n (length d)), \<lparr>chAnswers = as, chWire = chWire ch @ take n d\<rparr>)
      | a # as \<Rightarrow> (a, ch\<lparr>chAnswers := as\<rparr>))"

definition sock_send :: "Net \<Rightarrow> nat \<Rightarrow> string \<Rightarrow> SendAnswer \<times> Net" where
  "sock_send net s d = (let (a, ch) = channelSend (net s) d in (a, net(s := ch)))"

section \<open>Receiving at the client\<close>

text \<open>
  The values of \<open>errno\<close> the sources name. A call that would block is not an error here: it is an
  answer of its own.
\<close>

datatype Errno =
  ENOENT | EPERM | EFAULT | EACCES | EBADF | EISDIR | ENOTDIR | EEXIST | OtherErrno nat

text \<open>
  The receiving side of a connection: the bytes the kernel holds, what will arrive at each of the
  next calls (possibly nothing), and what is answered when everything was read: \<open>None\<close> for the
  orderly end of the stream, or an error.
\<close>

record Stream =
  stQueue :: string
  stArrivals :: "string list"
  stEnd :: "Errno option"

datatype RecvResult = Got string | TryAgain | RecvFailed Errno

definition stPull :: "Stream \<Rightarrow> Stream" where
  "stPull st =
     (case stArrivals st of
        [] \<Rightarrow> st
      | a # as \<Rightarrow> st\<lparr>stQueue := stQueue st @ a, stArrivals := as\<rparr>)"

text \<open>\<open>recv (fd, buf, n, flags)\<close>; \<open>peek\<close> is the flag \<open>MSG_PEEK\<close>.\<close>

definition sock_recv :: "nat \<Rightarrow> bool \<Rightarrow> Stream \<Rightarrow> RecvResult \<times> Stream" where
  "sock_recv n peek st =
     (let st1 = stPull st; q = stQueue st1 in
      if q \<noteq> [] then (Got (take n q), if peek then st1 else st1\<lparr>stQueue := drop n q\<rparr>)
      else if stArrivals st \<noteq> [] then (TryAgain, st1)
      else (case stEnd st of None \<Rightarrow> Got [] | Some e \<Rightarrow> RecvFailed e, st1))"

text \<open>Everything that can still be read.\<close>

definition stRest :: "Stream \<Rightarrow> string" where
  "stRest st = stQueue st @ concat (stArrivals st)"

lemma stRest_pull [simp]: "stRest (stPull st) = stRest st"
  by (auto simp: stRest_def stPull_def split: list.split)

lemma stEnd_pull [simp]: "stEnd (stPull st) = stEnd st"
  by (auto simp: stPull_def split: list.split)

lemma stArrivals_pull: "length (stArrivals (stPull st)) = length (stArrivals st) - 1"
  by (auto simp: stPull_def split: list.split)

text \<open>\<open>AppendWait\<close> of \<open>recvbufr.c\<close>: the call is repeated until it does not ask to try again.\<close>

function AppendWait :: "nat \<Rightarrow> bool \<Rightarrow> Stream \<Rightarrow> RecvResult \<times> Stream" where
  "AppendWait n peek st =
     (case sock_recv n peek st of
        (TryAgain, st1) \<Rightarrow> AppendWait n peek st1
      | answer \<Rightarrow> answer)"
  by pat_completeness auto
termination
proof (relation "measure (\<lambda>(n, peek, st). length (stArrivals st))", goal_cases)
  case (2 n peek st x st1)
  then show ?case
    by (cases "stArrivals st") (auto simp: sock_recv_def Let_def stPull_def split: if_splits option.splits)
qed simp

declare AppendWait.simps [simp del]

text \<open>
  What the call gives: never \<open>TryAgain\<close>; data is a non empty prefix of the rest of the stream and
  is removed from it unless it was only looked at; an empty answer or an error means that nothing
  is left.
\<close>

lemma AppendWait_cases:
  assumes "AppendWait n peek st = (r, st1)"
  shows "stEnd st1 = stEnd st \<and>
         ((\<exists>q z. stRest st = q @ z \<and> q \<noteq> [] \<and> r = Got (take n q) \<and>
               stRest st1 = (if peek then q @ z else drop n q @ z) \<and> stQueue st1 = (if peek then q else drop n q)) \<or>
          stRest st = [] \<and> stRest st1 = [] \<and> r = (case stEnd st of None \<Rightarrow> Got [] | Some e \<Rightarrow> RecvFailed e))"
  using assms
proof (induction n peek st rule: AppendWait.induct)
  case (1 n peek st)
  obtain a st2 where s: "sock_recv n peek st = (a, st2)" by fastforce
  show ?case
  proof (cases "stQueue (stPull st) = []")
    case True
    show ?thesis
    proof (cases "stArrivals st = []")
      case False
      with True s have a: "a = TryAgain" "st2 = stPull st" by (simp_all add: sock_recv_def Let_def)
      with "1.prems" s have "AppendWait n peek (stPull st) = (r, st1)"
        by (simp add: AppendWait.simps [of n peek st])
      with "1.IH" [OF s [symmetric] a(1)] a(2) show ?thesis by simp
    next
      case none: True
      then have p: "stPull st = st" by (simp add: stPull_def)
      from none p True have r: "stRest st = []" by (simp add: stRest_def)
      from none p True s have "a = (case stEnd st of None \<Rightarrow> Got [] | Some e \<Rightarrow> RecvFailed e)" "st2 = st"
        by (auto simp: sock_recv_def Let_def)
      with "1.prems" s r show ?thesis
        by (cases "stEnd st") (auto simp: AppendWait.simps [of n peek st])
    qed
  next
    case False
    let ?st = "stPull st"
    from False s have a: "a = Got (take n (stQueue ?st))"
      "st2 = (if peek then ?st else ?st\<lparr>stQueue := drop n (stQueue ?st)\<rparr>)"
      by (auto simp: sock_recv_def Let_def)
    from a(1) "1.prems" s have *: "r = Got (take n (stQueue ?st))" "st1 = st2"
      by (auto simp: AppendWait.simps [of n peek st])
    have r: "stRest st = stQueue ?st @ concat (stArrivals ?st)"
      by (metis stRest_def stRest_pull)
    show ?thesis
      using False * a(2) r
      by (intro conjI disjI1 exI [of _ "stQueue ?st"] exI [of _ "concat (stArrivals ?st)"]) (auto simp: stRest_def)
  qed
qed

lemma AppendWait_no_again: "AppendWait n peek st \<noteq> (TryAgain, st1)"
  using AppendWait_cases [of n peek st TryAgain st1] by (auto split: option.splits)

text \<open>When the whole stream is in the queue, the answer is known.\<close>

lemma AppendWait_queue:
  "stQueue st \<noteq> [] \<Longrightarrow> stArrivals st = [] \<Longrightarrow>
   AppendWait n peek st = (Got (take n (stQueue st)), if peek then st else st\<lparr>stQueue := drop n (stQueue st)\<rparr>)"
  by (simp add: AppendWait.simps [of n peek st] sock_recv_def stPull_def Let_def)

text \<open>
  The connection of a receive buffer: what it receives, how its \<open>send\<close> calls are answered (a call
  beyond the list is accepted whole) and what the other end was sent.
\<close>

record Link =
  lkIn :: Stream
  lkAnswers :: "SendAnswer list"
  lkSent :: string

fun link_send :: "Link \<Rightarrow> string \<Rightarrow> SendAnswer \<times> Link" where
  "link_send lk d =
     (case lkAnswers lk of
        [] \<Rightarrow> (Accepts (length d), lk\<lparr>lkSent := lkSent lk @ d\<rparr>)
      | Accepts n # as \<Rightarrow>
          (Accepts (min n (length d)), lk\<lparr>lkAnswers := as, lkSent := lkSent lk @ take n d\<rparr>)
      | a # as \<Rightarrow> (a, lk\<lparr>lkAnswers := as\<rparr>))"

declare link_send.simps [simp del]

text \<open>What the next attempt to connect meets: no socket to be had, a refusal, or a connection.\<close>

datatype Attempt = NoSocket Errno | Refused Errno | Opened Link

end
