(* ===== verification/Send_Buffer.thy ===== *)
theory Send_Buffer
  imports Network
begin

text \<open>
  \<open>src/server/sendbufr.c\<close> and the memory streams of \<open>src/platform/platform.c\<close> it is built on: what is
  written to a socket that can not take all of it is kept in a memory stream, from where
  \<open>sendBufferFlush\<close> sends it later. The theory ends with the contract the rest of the server uses
  (locale \<open>byte_sink\<close>) and its instance for this buffer.
\<close>

named_theorems sb_defs \<open>definitions of the send buffer operations\<close>

unbundle bit_operations_syntax

section \<open>Memory streams\<close>

record MemStream =
  msData :: string
  msPos :: nat

definition platformMemoryStreamNew :: MemStream where
  "platformMemoryStreamNew = \<lparr>msData = [], msPos = 0\<rparr>"

definition msSeekSet :: "MemStream \<Rightarrow> nat \<Rightarrow> MemStream" where
  "msSeekSet ms p = ms\<lparr>msPos := p\<rparr>"

definition msSeekEnd :: "MemStream \<Rightarrow> MemStream" where
  "msSeekEnd ms = ms\<lparr>msPos := length (msData ms)\<rparr>"

definition platformMemoryStreamTell :: "MemStream \<Rightarrow> nat" where
  "platformMemoryStreamTell ms = msPos ms"

definition msRead :: "MemStream \<Rightarrow> nat \<Rightarrow> string \<times> MemStream" where
  "msRead ms n = (let d = take n (drop (msPos ms) (msData ms)) in (d, ms\<lparr>msPos := msPos ms + length d\<rparr>))"

definition msWrite :: "MemStream \<Rightarrow> string \<Rightarrow> MemStream" where
  "msWrite ms d =
     ms\<lparr>msData := take (msPos ms) (msData ms) @ d @ drop (msPos ms + length d) (msData ms),
        msPos := msPos ms + length d\<rparr>"

section \<open>The buffer\<close>

definition SOC_BUF_OPT_EXTEND :: "8 word" where "SOC_BUF_OPT_EXTEND = 1"
definition SOC_BUF_ERR_CLEAR :: "8 word" where "SOC_BUF_ERR_CLEAR = 2"
definition SOC_BUF_ERR_FULL :: "8 word" where "SOC_BUF_ERR_FULL = 4"
definition SOC_BUF_ERR_FAIL :: "8 word" where "SOC_BUF_ERR_FAIL = 8"

record SendBuffer =
  sbIdx :: nat
  sbBuffer :: "MemStream option"
  sbSocket :: nat
  sbOptions :: "8 word"

definition sendBufferNew :: "nat \<Rightarrow> 8 word \<Rightarrow> SendBuffer" where
  "sendBufferNew clientSocket options =
     \<lparr>sbIdx = 0, sbBuffer = None, sbSocket = clientSocket, sbOptions = options\<rparr>"

text \<open>After this call the pointer to the stream is dangling; every caller drops the buffer as well.\<close>

definition sendBufferFailFree :: "SendBuffer \<Rightarrow> SendBuffer" where
  "sendBufferFailFree self = self\<lparr>sbBuffer := None\<rparr>"

definition sbFail :: "SendBuffer \<Rightarrow> bool" where
  "sbFail self \<longleftrightarrow> sbOptions self AND SOC_BUF_ERR_FAIL \<noteq> 0"

text \<open>The \<open>do\<close> loop of \<open>sendBufferFlush\<close>, with the stream and \<open>bytesFlushed\<close>.\<close>

function flushLoop :: "SendBuffer \<Rightarrow> MemStream \<Rightarrow> Net \<Rightarrow> nat \<Rightarrow> nat \<times> SendBuffer \<times> Net" where
  "flushLoop self ms net bytesFlushed =
     (let (d, ms1) = msRead ms SB_DATA_SIZE in
      if d = [] then (bytesFlushed, self\<lparr>sbBuffer := None, sbIdx := 0\<rparr>, net)
      else
        (case sock_send net (sbSocket self) d of
           (WouldBlock, net1) \<Rightarrow> (bytesFlushed, self\<lparr>sbBuffer := Some ms1\<rparr>, net1)
         | (Broken, net1) \<Rightarrow> (0, self\<lparr>sbBuffer := Some ms1, sbOptions := SOC_BUF_ERR_FAIL\<rparr>, net1)
         | (Accepts flush, net1) \<Rightarrow>
             if flush < length d then
               (bytesFlushed + flush,
                self\<lparr>sbBuffer := Some (msSeekSet ms1 (msPos ms1 - (length d - flush))),
                     sbIdx := sbIdx self + flush\<rparr>, net1)
             else flushLoop (self\<lparr>sbIdx := sbIdx self + flush\<rparr>) ms1 net1 (bytesFlushed + flush)))"
  by pat_completeness auto
termination
proof (relation "measure (\<lambda>(self, ms, net, n). length (msData ms) - msPos ms)", goal_cases)
  case (2 self ms net n x d ms1)
  then have "drop (msPos ms) (msData ms) \<noteq> []" by (auto simp: msRead_def)
  with 2 show ?case by (auto simp: msRead_def Let_def)
qed simp

declare flushLoop.simps [simp del]

definition sendBufferFlush :: "SendBuffer \<Rightarrow> Net \<Rightarrow> nat \<times> SendBuffer \<times> Net" where
  "sendBufferFlush self net =
     (case sbBuffer self of
        None \<Rightarrow> (0, self, net)
      | Some ms \<Rightarrow> flushLoop self (msSeekSet ms (sbIdx self)) net 0)"

definition sendBufferWriteData :: "SendBuffer \<Rightarrow> Net \<Rightarrow> string \<Rightarrow> nat \<times> SendBuffer \<times> Net" where
  "sendBufferWriteData self net d =
     (case sbBuffer self of
        None \<Rightarrow>
          (let keep = (\<lambda>sent. self\<lparr>sbBuffer := (if sent < length d
                                              then Some (msWrite platformMemoryStreamNew (drop sent d))
                                              else None)\<rparr>)
           in case sock_send net (sbSocket self) d of
                (Broken, net1) \<Rightarrow> (0, self\<lparr>sbOptions := SOC_BUF_ERR_FAIL\<rparr>, net1)
              | (WouldBlock, net1) \<Rightarrow> (length d, keep 0, net1)
              | (Accepts sent, net1) \<Rightarrow> (length d, keep sent, net1))
      | Some ms \<Rightarrow> (length d, self\<lparr>sbBuffer := Some (msWrite (msSeekEnd ms) d)\<rparr>, net))"

definition sendBufferWriteText :: "SendBuffer \<Rightarrow> Net \<Rightarrow> string \<Rightarrow> nat \<times> SendBuffer \<times> Net" where
  "sendBufferWriteText self net d = sendBufferWriteData self net d"

text \<open>The stream the caller appends to is the one in the buffer, positioned at its end.\<close>

definition sendBufferGetBuffer :: "SendBuffer \<Rightarrow> SendBuffer" where
  "sendBufferGetBuffer self =
     self\<lparr>sbBuffer := Some (case sbBuffer self of None \<Rightarrow> platformMemoryStreamNew | Some ms \<Rightarrow> msSeekEnd ms)\<rparr>"

text \<open>
  \<open>msg\<close> is what the format and its arguments print. The direct path prints into a heap block of
  \<open>limit\<close> (\<open>max\<close> in the source) bytes first, with \<open>vsprintf\<close>.
\<close>

definition sendBufferPrintf :: "SendBuffer \<Rightarrow> Net \<Rightarrow> nat \<Rightarrow> string \<Rightarrow> (nat \<times> SendBuffer \<times> Net) res" where
  "sendBufferPrintf self net limit msg =
     (case sbBuffer self of
        None \<Rightarrow>
          (if limit < length msg + 1 then Inl BufferOverflow
           else (let (_, self1, net1) = sendBufferWriteText self net msg in Inr (length msg, self1, net1)))
      | Some ms \<Rightarrow> Inr (length msg, self\<lparr>sbBuffer := Some (msWrite (msSeekEnd ms) msg)\<rparr>, net))"

section \<open>Invariant and abstraction\<close>

text \<open>What the buffer still has to send, and the whole of what was given to it.\<close>

definition sbPending :: "SendBuffer \<Rightarrow> string" where
  "sbPending self = (case sbBuffer self of None \<Rightarrow> [] | Some ms \<Rightarrow> drop (sbIdx self) (msData ms))"

definition sbStream :: "SendBuffer \<Rightarrow> Net \<Rightarrow> string" where
  "sbStream self net = chWire (net (sbSocket self)) @ sbPending self"

definition sbOk :: "SendBuffer \<Rightarrow> bool" where
  "sbOk self \<longleftrightarrow> (case sbBuffer self of None \<Rightarrow> sbIdx self = 0 | Some ms \<Rightarrow> sbIdx self \<le> length (msData ms))"

lemma sbOk_new [simp]: "sbOk (sendBufferNew s n)"
  by (simp add: sbOk_def sendBufferNew_def)

lemma sbStream_new [simp]: "sbStream (sendBufferNew s n) net = chWire (net s)"
  by (simp add: sbStream_def sbPending_def sendBufferNew_def)

lemma msWrite_end [simp]: "msData (msWrite (msSeekEnd ms) d) = msData ms @ d"
  by (simp add: msWrite_def msSeekEnd_def)

lemma msWrite_new [simp]: "msData (msWrite platformMemoryStreamNew d) = d"
  by (simp add: msWrite_def platformMemoryStreamNew_def)

text \<open>One call of \<open>send\<close>: only its own socket changes, and by exactly the bytes it reports.\<close>

lemma sock_send_cases:
  assumes "sock_send net s d = (a, net1)"
  shows "(\<exists>n\<le>length d. a = Accepts n \<and> chWire (net1 s) = chWire (net s) @ take n d) \<or>
         (a = WouldBlock \<or> a = Broken) \<and> chWire (net1 s) = chWire (net s)"
    and "s' \<noteq> s \<Longrightarrow> net1 s' = net s'"
proof -
  have "(\<exists>n\<le>length d. a = Accepts n \<and> chWire ch = chWire (net s) @ take n d) \<or>
        (a = WouldBlock \<or> a = Broken) \<and> chWire ch = chWire (net s)"
    if "channelSend (net s) d = (a, ch)" for ch
    using that by (auto split: list.splits SendAnswer.splits if_splits simp: min_def)
  with assms show "(\<exists>n\<le>length d. a = Accepts n \<and> chWire (net1 s) = chWire (net s) @ take n d) \<or>
         (a = WouldBlock \<or> a = Broken) \<and> chWire (net1 s) = chWire (net s)"
    by (auto simp: sock_send_def split: prod.splits simp del: channelSend.simps)
  show "s' \<noteq> s \<Longrightarrow> net1 s' = net s'"
    using assms by (auto simp: sock_send_def split: prod.splits)
qed

lemma SOC_BUF_ERR_FAIL_set [simp]: "sbFail (self\<lparr>sbOptions := SOC_BUF_ERR_FAIL\<rparr>)"
  by (simp add: sbFail_def SOC_BUF_ERR_FAIL_def)

lemma sbFail_update [simp]:
  "sbFail (self\<lparr>sbBuffer := b\<rparr>) = sbFail self" "sbFail (self\<lparr>sbIdx := i\<rparr>) = sbFail self"
  "sbFail (self\<lparr>sbBuffer := b, sbIdx := i\<rparr>) = sbFail self"
  by (simp_all add: sbFail_def)

lemma take_drop_length: "X = take N X @ drop (length (take N X)) X"
  by (cases "N \<le> length X") simp_all

lemma take_take_drop_length: "k < length (take N X) \<Longrightarrow> X = take k (take N X) @ drop k X"
  by simp

definition flushed :: "SendBuffer \<Rightarrow> Net \<Rightarrow> string \<Rightarrow> nat \<Rightarrow> nat \<Rightarrow> SendBuffer \<Rightarrow> Net \<Rightarrow> bool" where
  "flushed self net st n r self' net' \<longleftrightarrow>
     sbSocket self' = sbSocket self \<and> sbOk self' \<and> sbStream self' net' = st \<and>
     (\<forall>s. s \<noteq> sbSocket self \<longrightarrow> net' s = net s) \<and> (sbFail self \<longrightarrow> sbFail self') \<and>
     (r = 0 \<and> sbFail self' \<or>
      r + length (chWire (net (sbSocket self))) = n + length (chWire (net' (sbSocket self))))"

lemma flushLoop_flushed:
  assumes "flushLoop self ms net n = (r, self', net')" "msPos ms = sbIdx self" "sbIdx self \<le> length (msData ms)"
  shows "flushed self net (chWire (net (sbSocket self)) @ drop (sbIdx self) (msData ms)) n r self' net'"
  using assms
proof (induction self ms net n rule: flushLoop.induct)
  case (1 self ms net n)
  obtain d ms1 where d: "msRead ms SB_DATA_SIZE = (d, ms1)" by fastforce
  then have dd: "d = take SB_DATA_SIZE (drop (sbIdx self) (msData ms))" "ms1 = ms\<lparr>msPos := sbIdx self + length d\<rparr>"
    using "1.prems"(2) by (auto simp: msRead_def Let_def)
  note ub = "1.prems"(3)
  from dd ub have ld: "sbIdx self + length d \<le> length (msData ms)" by auto
  have split: "drop (sbIdx self) (msData ms) = d @ drop (sbIdx self + length d) (msData ms)"
    using take_drop_length [where N = SB_DATA_SIZE and X = "drop (sbIdx self) (msData ms)"] dd(1) by (simp add: add.commute)
  show ?case
  proof (cases "d = []")
    case True
    with "1.prems"(1) d have "self' = self\<lparr>sbBuffer := None, sbIdx := 0\<rparr>" "net' = net" "r = n"
      by (simp_all add: flushLoop.simps)
    moreover have "drop (sbIdx self) (msData ms) = []" using True dd(1) by (simp add: SB_DATA_SIZE_def)
    ultimately show ?thesis by (simp add: flushed_def sbOk_def sbStream_def sbPending_def)
  next
    case ne: False
    obtain a net1 where a: "sock_send net (sbSocket self) d = (a, net1)" by fastforce
    note c = sock_send_cases [OF a]
    show ?thesis
    proof (cases a)
      case WouldBlock
      with "1.prems"(1) d ne a have "self' = self\<lparr>sbBuffer := Some ms1\<rparr>" "net' = net1" "r = n"
        by (simp_all add: flushLoop.simps)
      with c WouldBlock dd(2) ub show ?thesis by (simp add: flushed_def sbOk_def sbStream_def sbPending_def)
    next
      case Broken
      with "1.prems"(1) d ne a
      have "self' = self\<lparr>sbBuffer := Some ms1, sbOptions := SOC_BUF_ERR_FAIL\<rparr>" "net' = net1" "r = 0"
        by (simp_all add: flushLoop.simps)
      with c Broken dd(2) ub show ?thesis by (simp add: flushed_def sbOk_def sbStream_def sbPending_def)
    next
      case (Accepts k)
      with c have k: "k \<le> length d" "chWire (net1 (sbSocket self)) = chWire (net (sbSocket self)) @ take k d" by auto
      show ?thesis
      proof (cases "k < length d")
        case True
        with "1.prems"(1) d ne a Accepts
        have r: "self' = self\<lparr>sbBuffer := Some (msSeekSet ms1 (msPos ms1 - (length d - k))), sbIdx := sbIdx self + k\<rparr>"
          "net' = net1" "r = n + k"
          by (simp_all add: flushLoop.simps)
        have "drop (sbIdx self) (msData ms) = take k d @ drop (sbIdx self + k) (msData ms)"
          using take_take_drop_length [where k = k and N = SB_DATA_SIZE and X = "drop (sbIdx self) (msData ms)"] True dd(1)
          by (simp add: add.commute)
        with r k c(2) True ld dd(2) show ?thesis
          by (simp add: flushed_def sbOk_def sbStream_def sbPending_def msSeekSet_def)
      next
        case False
        with k have kd: "k = length d" by simp
        have "flushed (self\<lparr>sbIdx := sbIdx self + k\<rparr>) net1
            (chWire (net1 (sbSocket self)) @ drop (sbIdx self + k) (msData ms)) (n + k) r self' net'"
          using "1.IH" [OF d [symmetric] refl ne a [symmetric] Accepts] False "1.prems"(1) d ne a Accepts ld dd(2) kd
          by (simp add: flushLoop.simps [of self ms net n])
        with k kd c(2) split show ?thesis by (simp add: flushed_def)
      qed
    qed
  qed
qed


section \<open>What the operations promise\<close>

lemma sendBufferFlush_lossless:
  assumes "sbOk self" "sendBufferFlush self net = (r, self', net')"
  shows "sbOk self' \<and> sbStream self' net' = sbStream self net \<and> (sbFail self \<longrightarrow> sbFail self') \<and>
         (r = 0 \<and> sbFail self' \<or>
          r + length (chWire (net (sbSocket self))) = length (chWire (net' (sbSocket self)))) \<and>
         (\<forall>s. s \<noteq> sbSocket self \<longrightarrow> net' s = net s)"
proof (cases "sbBuffer self")
  case None
  with assms show ?thesis by (auto simp: sendBufferFlush_def)
next
  case (Some ms)
  with assms flushLoop_flushed [of self "msSeekSet ms (sbIdx self)" net 0 r self' net'] show ?thesis
    by (auto simp: sendBufferFlush_def flushed_def sbOk_def msSeekSet_def sbStream_def sbPending_def)
qed

lemma sendBufferFlush_socket:
  assumes "sbOk self" "sendBufferFlush self net = (r, self', net')"
  shows "sbSocket self' = sbSocket self"
proof (cases "sbBuffer self")
  case (Some ms)
  with assms flushLoop_flushed [of self "msSeekSet ms (sbIdx self)" net 0 r self' net'] show ?thesis
    by (auto simp: sendBufferFlush_def flushed_def sbOk_def msSeekSet_def)
qed (use assms in \<open>auto simp: sendBufferFlush_def\<close>)

lemma sendBufferWriteData_keeps:
  assumes "sbOk self" "sendBufferWriteData self net d = (r, self', net')"
  shows "sbOk self' \<and> sbSocket self' = sbSocket self \<and> (\<forall>s. s \<noteq> sbSocket self \<longrightarrow> net' s = net s) \<and>
         (sbFail self \<longrightarrow> sbFail self') \<and>
         (r = length d \<and> sbStream self' net' = sbStream self net @ d \<or>
          r = 0 \<and> sbFail self' \<and> sbStream self' net' = sbStream self net)"
proof (cases "sbBuffer self")
  case (Some ms)
  with assms show ?thesis
    by (auto simp: sendBufferWriteData_def sbOk_def sbStream_def sbPending_def)
next
  case None
  obtain a net1 where a: "sock_send net (sbSocket self) d = (a, net1)" by fastforce
  show ?thesis
    using sock_send_cases [OF a] None assms a
    by (cases a) (auto simp: sendBufferWriteData_def Let_def sbOk_def sbStream_def sbPending_def split: if_splits)
qed

section \<open>The contract of the rest of the server\<close>

text \<open>
  A sink for bytes: what was written comes out of its stream in order, without loss, until the
  sink has failed, and a failure is never forgotten.
\<close>

locale byte_sink =
  fixes emit :: "'s \<Rightarrow> string \<Rightarrow> nat \<times> 's"
    and flush :: "'s \<Rightarrow> nat \<times> 's"
    and stream :: "'s \<Rightarrow> string"
    and failed :: "'s \<Rightarrow> bool"
    and inv :: "'s \<Rightarrow> bool"
  assumes write_inv: "inv s \<Longrightarrow> inv (snd (emit s d))"
    and flush_inv: "inv s \<Longrightarrow> inv (snd (flush s))"
    and write_stream: "inv s \<Longrightarrow> \<not> failed (snd (emit s d)) \<Longrightarrow> stream (snd (emit s d)) = stream s @ d"
    and write_count: "inv s \<Longrightarrow> \<not> failed (snd (emit s d)) \<Longrightarrow> fst (emit s d) = length d"
    and flush_stream: "inv s \<Longrightarrow> stream (snd (flush s)) = stream s"
    and write_sticky: "inv s \<Longrightarrow> failed s \<Longrightarrow> failed (snd (emit s d))"
    and flush_sticky: "inv s \<Longrightarrow> failed s \<Longrightarrow> failed (snd (flush s))"
begin

text \<open>Several texts one after another, with a flush wherever there is \<open>None\<close>.\<close>

primrec writes :: "'s \<Rightarrow> string option list \<Rightarrow> 's" where
  "writes s [] = s"
| "writes s (x # xs) = writes (snd (case x of Some d \<Rightarrow> emit s d | None \<Rightarrow> flush s)) xs"

lemma writes_inv: "inv s \<Longrightarrow> inv (writes s xs)"
  by (induction xs arbitrary: s) (auto simp: write_inv flush_inv split: option.splits)

lemma writes_sticky: "inv s \<Longrightarrow> failed s \<Longrightarrow> failed (writes s xs)"
  by (induction xs arbitrary: s) (auto simp: write_inv flush_inv write_sticky flush_sticky split: option.splits)

lemma writes_append: "writes s (xs @ ys) = writes (writes s xs) ys"
  by (induction xs arbitrary: s) auto

lemma writes_stream:
  assumes "inv s" "\<not> failed (writes s xs)"
  shows "stream (writes s xs) = stream s @ concat (map (case_option [] id) xs)"
  using assms
proof (induction xs arbitrary: s)
  case (Cons x xs)
  let ?t = "snd (case x of Some d \<Rightarrow> emit s d | None \<Rightarrow> flush s)"
  have t: "inv ?t" using Cons.prems(1) by (auto simp: write_inv flush_inv split: option.splits)
  with Cons.prems(2) have f: "\<not> failed ?t" using writes_sticky [of ?t xs] by auto
  from Cons.prems(1) f have "stream ?t = stream s @ case_option [] id x"
    by (auto simp: write_stream flush_stream split: option.splits)
  with Cons.IH [OF t] Cons.prems(2) show ?case by simp
qed simp

end

definition sinkWrite :: "SendBuffer \<times> Net \<Rightarrow> string \<Rightarrow> nat \<times> SendBuffer \<times> Net" where
  "sinkWrite s d = sendBufferWriteData (fst s) (snd s) d"

definition sinkFlush :: "SendBuffer \<times> Net \<Rightarrow> nat \<times> SendBuffer \<times> Net" where
  "sinkFlush s = sendBufferFlush (fst s) (snd s)"

lemma sinkWrite_law:
  assumes "sbOk (fst s)"
  shows "sbOk (fst (snd (sinkWrite s d)))" "sbSocket (fst (snd (sinkWrite s d))) = sbSocket (fst s)"
    "sbFail (fst s) \<Longrightarrow> sbFail (fst (snd (sinkWrite s d)))"
    "\<not> sbFail (fst (snd (sinkWrite s d))) \<Longrightarrow> fst (sinkWrite s d) = length d \<and>
       sbStream (fst (snd (sinkWrite s d))) (snd (snd (sinkWrite s d))) = sbStream (fst s) (snd s) @ d"
proof -
  obtain r self' net' where e: "sendBufferWriteData (fst s) (snd s) d = (r, self', net')"
    by (cases "sendBufferWriteData (fst s) (snd s) d") auto
  note k = sendBufferWriteData_keeps [OF assms e]
  show "sbOk (fst (snd (sinkWrite s d)))" "sbSocket (fst (snd (sinkWrite s d))) = sbSocket (fst s)"
    "sbFail (fst s) \<Longrightarrow> sbFail (fst (snd (sinkWrite s d)))"
    "\<not> sbFail (fst (snd (sinkWrite s d))) \<Longrightarrow> fst (sinkWrite s d) = length d \<and>
       sbStream (fst (snd (sinkWrite s d))) (snd (snd (sinkWrite s d))) = sbStream (fst s) (snd s) @ d"
    using k e by (auto simp: sinkWrite_def)
qed

lemma sinkFlush_law:
  assumes "sbOk (fst s)"
  shows "sbOk (fst (snd (sinkFlush s)))" "sbSocket (fst (snd (sinkFlush s))) = sbSocket (fst s)"
    "sbFail (fst s) \<Longrightarrow> sbFail (fst (snd (sinkFlush s)))"
    "sbStream (fst (snd (sinkFlush s))) (snd (snd (sinkFlush s))) = sbStream (fst s) (snd s)"
proof -
  obtain r self' net' where e: "sendBufferFlush (fst s) (snd s) = (r, self', net')"
    by (cases "sendBufferFlush (fst s) (snd s)") auto
  show "sbOk (fst (snd (sinkFlush s)))" "sbSocket (fst (snd (sinkFlush s))) = sbSocket (fst s)"
    "sbFail (fst s) \<Longrightarrow> sbFail (fst (snd (sinkFlush s)))"
    "sbStream (fst (snd (sinkFlush s))) (snd (snd (sinkFlush s))) = sbStream (fst s) (snd s)"
    using sendBufferFlush_lossless [OF assms e] sendBufferFlush_socket [OF assms e] e
    by (auto simp: sinkFlush_def)
qed

interpretation sb: byte_sink sinkWrite sinkFlush "\<lambda>s. sbStream (fst s) (snd s)" "\<lambda>s. sbFail (fst s)" "\<lambda>s. sbOk (fst s)"
  by unfold_locales (auto simp: sinkWrite_law sinkFlush_law)

text \<open>The same session on the model's own operations.\<close>

primrec sbSession :: "SendBuffer \<Rightarrow> Net \<Rightarrow> string option list \<Rightarrow> SendBuffer \<times> Net" where
  "sbSession self net [] = (self, net)"
| "sbSession self net (x # xs) =
     (case x of
        Some d \<Rightarrow> (let (_, self1, net1) = sendBufferWriteData self net d in sbSession self1 net1 xs)
      | None \<Rightarrow> (let (_, self1, net1) = sendBufferFlush self net in sbSession self1 net1 xs))"

lemma sbSession_writes: "sbSession self net xs = sb.writes (self, net) xs"
  by (induction xs arbitrary: self net)
     (auto simp: sinkWrite_def sinkFlush_def split: option.splits prod.splits)

text \<open>
  C11. Whatever sequence of writes and flushes is applied to a new send buffer, and however the
  network splits or delays them, the bytes on the wire followed by the bytes still pending are the
  bytes written, in order, as long as the connection has not failed.
\<close>

theorem sendBuffer_fifo:
  assumes "sbSession (sendBufferNew s 0) net xs = (self, net')" "\<not> sbFail self"
  shows "chWire (net' s) @ sbPending self = chWire (net s) @ concat (map (case_option [] id) xs)"
proof -
  have "sbSocket (fst (sb.writes t xs)) = sbSocket (fst t)" if "sbOk (fst t)" for t
    using that by (induction xs arbitrary: t) (auto simp: sinkWrite_law sinkFlush_law split: option.splits)
  from this [of "(sendBufferNew s 0, net)"] show ?thesis
    using sb.writes_stream [of "(sendBufferNew s 0, net)" xs] assms
    by (simp add: sbSession_writes sbStream_def) (simp add: sbPending_def sendBufferNew_def)
qed

text \<open>A socket that takes all it is offered empties the buffer in one flush.\<close>

lemma channelSend_ready:
  assumes "chAnswers (net s) = Accepts n # as" "length d \<le> n"
  shows "sock_send net s d = (Accepts (length d), net(s := \<lparr>chAnswers = as, chWire = chWire (net s) @ d\<rparr>))"
  using assms by (simp add: sock_send_def)

lemma flushLoop_drains:
  assumes "msPos ms \<le> length (msData ms)"
    "chAnswers (net (sbSocket self)) = replicate k (Accepts n) @ rest" "SB_DATA_SIZE \<le> n"
    "length (msData ms) - msPos ms \<le> k * SB_DATA_SIZE"
    "flushLoop self ms net m = (r, self', net')"
  shows "sbBuffer self' = None \<and> r = m + (length (msData ms) - msPos ms) \<and> sbOptions self' = sbOptions self"
  using assms
proof (induction k arbitrary: self ms net m)
  case 0
  then show ?case by (simp add: flushLoop.simps msRead_def Let_def) auto
next
  case (Suc k)
  let ?d = "take SB_DATA_SIZE (drop (msPos ms) (msData ms))"
  show ?case
  proof (cases "?d = []")
    case True
    with Suc.prems have "length (msData ms) - msPos ms = 0" by (auto simp: SB_DATA_SIZE_def)
    with Suc.prems(5) True show ?thesis by (simp add: flushLoop.simps msRead_def Let_def) auto
  next
    case False
    let ?ms = "ms\<lparr>msPos := msPos ms + length ?d\<rparr>"
    have s: "sock_send net (sbSocket self) ?d = (Accepts (length ?d),
        net(sbSocket self := \<lparr>chAnswers = replicate k (Accepts n) @ rest, chWire = chWire (net (sbSocket self)) @ ?d\<rparr>))"
      using Suc.prems(2,3) by (intro channelSend_ready) auto
    have "flushLoop (self\<lparr>sbIdx := sbIdx self + length ?d\<rparr>) ?ms
        (net(sbSocket self := \<lparr>chAnswers = replicate k (Accepts n) @ rest, chWire = chWire (net (sbSocket self)) @ ?d\<rparr>))
        (m + length ?d) = (r, self', net')"
      using Suc.prems(5) False s by (simp add: flushLoop.simps [of self ms net m] msRead_def Let_def)
    from Suc.IH [OF _ _ Suc.prems(3) _ this] Suc.prems(1,4)
    have "sbBuffer self' = None \<and> r = m + length ?d + (length (msData ?ms) - msPos ?ms) \<and> sbOptions self' = sbOptions self"
      by (auto simp: min_def split: if_splits)
    then show ?thesis using Suc.prems(1) by auto
  qed
qed

lemma sendBufferFlush_empties:
  assumes "sbOk self" "chAnswers (net (sbSocket self)) = replicate k (Accepts n)" "SB_DATA_SIZE \<le> n"
    "length (sbPending self) \<le> k * SB_DATA_SIZE"
    "sendBufferFlush self net = (r, self', net')"
  shows "sbBuffer self' = None \<and> r = length (sbPending self) \<and> sbOptions self' = sbOptions self"
proof (cases "sbBuffer self")
  case None
  with assms show ?thesis by (auto simp: sendBufferFlush_def sbPending_def)
next
  case (Some ms)
  with assms flushLoop_drains [of "msSeekSet ms (sbIdx self)" net self k n "[]" 0 r self' net'] show ?thesis
    by (auto simp: sendBufferFlush_def sbPending_def sbOk_def msSeekSet_def)
qed

text \<open>
  When the socket takes everything it is offered for long enough, one flush sends all that is
  pending, reports its length and releases the memory stream.
\<close>

theorem sendBufferFlush_drains:
  assumes "sbOk self" "chAnswers (net (sbSocket self)) = replicate k (Accepts n)" "SB_DATA_SIZE \<le> n"
    "length (sbPending self) \<le> k * SB_DATA_SIZE"
    "sendBufferFlush self net = (r, self', net')"
  shows "sbBuffer self' = None \<and> r = length (sbPending self) \<and>
         chWire (net' (sbSocket self)) = chWire (net (sbSocket self)) @ sbPending self"
  using sendBufferFlush_empties [OF assms] sendBufferFlush_lossless [OF assms(1,5)] sendBufferFlush_socket [OF assms(1,5)]
  by (auto simp: sbStream_def sbPending_def)

text \<open>
  \<open>sendBufferPrintf\<close> writes beyond its heap block exactly when nothing is pending and the text
  together with its NUL is longer than the limit the caller passed.
\<close>

theorem sendBufferPrintf_overflow:
  "sendBufferPrintf self net limit msg = Inl BufferOverflow \<longleftrightarrow> sbBuffer self = None \<and> limit \<le> length msg"
  by (auto simp: sendBufferPrintf_def split: option.splits prod.splits)

section \<open>Witnesses\<close>

lemma sendBuffer_fifo_witness:
  "chWire (snd (sbSession (sendBufferNew 4 0) (\<lambda>_. \<lparr>chAnswers = [Accepts 2, WouldBlock, Accepts 3], chWire = []\<rparr>)
      [Some ''abcd'', Some ''ef'', None, None]) 4) @
   sbPending (fst (sbSession (sendBufferNew 4 0) (\<lambda>_. \<lparr>chAnswers = [Accepts 2, WouldBlock, Accepts 3], chWire = []\<rparr>)
      [Some ''abcd'', Some ''ef'', None, None])) = ''abcdef''"
proof -
  let ?n = "\<lambda>_. \<lparr>chAnswers = [Accepts 2, WouldBlock, Accepts 3], chWire = []\<rparr>"
  let ?r = "sbSession (sendBufferNew 4 0) ?n [Some ''abcd'', Some ''ef'', None, None]"
  have "\<not> sbFail (fst ?r)" by code_simp
  from sendBuffer_fifo [where xs = "[Some ''abcd'', Some ''ef'', None, None]" and s = 4 and net = ?n
      and self = "fst ?r" and net' = "snd ?r", OF _ this]
  show ?thesis by simp
qed

lemma sendBufferFlush_drains_witness:
  "sbBuffer (fst (snd (sendBufferFlush \<lparr>sbIdx = 2, sbBuffer = Some \<lparr>msData = ''abcdef'', msPos = 0\<rparr>, sbSocket = 4, sbOptions = 0\<rparr>
      (\<lambda>_. \<lparr>chAnswers = [Accepts 9000], chWire = ''ab''\<rparr>)))) = None"
proof -
  let ?s = "\<lparr>sbIdx = 2, sbBuffer = Some \<lparr>msData = ''abcdef'', msPos = 0\<rparr>, sbSocket = 4, sbOptions = 0\<rparr> :: SendBuffer"
  let ?n = "\<lambda>_. \<lparr>chAnswers = [Accepts 9000], chWire = ''ab''\<rparr>"
  show ?thesis
    using sendBufferFlush_drains [where self = ?s and net = ?n and k = 1 and n = 9000
        and r = "fst (sendBufferFlush ?s ?n)" and self' = "fst (snd (sendBufferFlush ?s ?n))"
        and net' = "snd (snd (sendBufferFlush ?s ?n))"]
    by (simp add: sbOk_def sbPending_def SB_DATA_SIZE_def)
qed

end
