(* ===== verification/Server_Http.thy ===== *)
theory Server_Http
  imports Hex_Codec Posix_Sys Send_Buffer
begin

text \<open>
  \<open>src/server/http.c\<close>: reading the request line and the headers the server looks at, and writing
  response headers, HTML and chunked bodies through the send buffer.
\<close>

section \<open>Writing through a send buffer\<close>

text \<open>
  A connection is a send buffer and the network behind it. \<open>FILENAME_MAX\<close> arrays and heap blocks
  that are too small for what is printed into them are \<open>BufferOverflow\<close>.
\<close>

type_synonym Conn = "SendBuffer \<times> Net"

definition connText :: "string \<Rightarrow> Conn \<Rightarrow> nat \<times> Conn" where
  "connText d c = sendBufferWriteText (fst c) (snd c) d"

definition connPrintf :: "nat \<Rightarrow> string \<Rightarrow> Conn \<Rightarrow> Conn res" where
  "connPrintf limit msg c = bindr (sendBufferPrintf (fst c) (snd c) limit msg) (\<lambda>(_, c1). Inr c1)"

definition connWrite :: "string \<Rightarrow> Conn \<Rightarrow> Conn res" where
  "connWrite d c = Inr (snd (connText d c))"

text \<open>The writers one after another, as the handlers call them.\<close>

fun connSeq :: "(Conn \<Rightarrow> Conn res) list \<Rightarrow> Conn \<Rightarrow> Conn res" where
  "connSeq [] c = Inr c"
| "connSeq (f # fs) c = bindr (f c) (connSeq fs)"

section \<open>Characters and paths for links\<close>

definition AsciiToHex :: "char \<Rightarrow> string" where
  "AsciiToHex ascii = (if isalnumC ascii then [ascii] else CHR ''%'' # show_hex (code ascii))"

text \<open>The part before \<open>i\<close>, already converted, and the part from \<open>i\<close> on; \<open>True\<close> is the result \<open>-1\<close>.\<close>

fun urlLoop :: "nat \<Rightarrow> string \<Rightarrow> string \<Rightarrow> bool \<times> string" where
  "urlLoop limit out [] = (False, out)"
| "urlLoop limit out (c # s) =
     (if \<not> isalnumC c \<and> c \<noteq> CHR ''/'' then
        (let e = AsciiToHex c in
         if limit - 1 < length out + length (c # s) + length e then (True, out @ c # s)
         else urlLoop limit (out @ e) s)
      else urlLoop limit (out @ [c]) s)"

definition convertPathToUrl :: "string \<Rightarrow> nat \<Rightarrow> bool \<times> string" where
  "convertPathToUrl path limit = urlLoop limit [] path"

text \<open>
  The \<open>for\<close> loop of \<open>GetPathName\<close>: the index of the divider it stops at, if it does not run to the
  end, and the number of dividers counted.
\<close>

fun pathNameLoop :: "nat \<Rightarrow> nat \<Rightarrow> nat \<Rightarrow> string \<Rightarrow> nat option \<times> nat" where
  "pathNameLoop maxPaths i currentPath [] = (None, currentPath)"
| "pathNameLoop maxPaths i currentPath (c # s) =
     (if c \<noteq> CHR ''/'' then pathNameLoop maxPaths (i + 1) currentPath s
      else if currentPath \<noteq> maxPaths then pathNameLoop maxPaths (i + 1) (currentPath + 1) s
      else (Some i, currentPath))"

text \<open>
  The results are \<open>linkPath\<close> and \<open>displayPath\<close>. For a path without any divider the last \<open>memcpy\<close> does
  not copy the terminating NUL.
\<close>

definition GetPathName :: "string \<Rightarrow> nat \<Rightarrow> (string \<times> string) res" where
  "GetPathName path maxPaths =
     (if FILENAME_MAX < length path + 2 then Inl BufferOverflow
      else
        let (stop, currentPath) = pathNameLoop maxPaths 0 0 path in
        if stop = Some 0 then Inr (''/'', ''/'')
        else
          let linkPath = (case stop of Some i \<Rightarrow> take (i + 1) path | None \<Rightarrow> path @ ''/'');
              i = length linkPath - 1
          in if currentPath \<noteq> 0 then
               (case strrchr (take i linkPath) (CHR ''/'') of
                  Some k \<Rightarrow> Inr (linkPath, drop (k + 1) linkPath)
                | None \<Rightarrow> Inl OutOfBounds)
             else (case stop of Some _ \<Rightarrow> Inr (linkPath, linkPath) | None \<Rightarrow> Inl Uninitialised))"

fun GetPathCount :: "string \<Rightarrow> nat" where
  "GetPathCount [] = 0"
| "GetPathCount (c # s) = (if c = CHR ''/'' \<and> s \<noteq> [] then 1 else 0) + GetPathCount s"

section \<open>Reading the request\<close>

datatype httpType = httpGet | httpHead | httpPost | httpUnknown

definition httpClientReadType :: "string \<Rightarrow> httpType" where
  "httpClientReadType request =
     (let c = toupperC (chC request 0) in
      if c = CHR ''G'' then httpGet else if c = CHR ''H'' then httpHead
      else if c = CHR ''P'' then httpPost else httpUnknown)"

text \<open>\<open>None\<close> is \<open>NULL\<close>; decoding may run into undefined behaviour.\<close>

definition httpClientReadUri :: "string \<Rightarrow> string option res" where
  "httpClientReadUri request =
     (case strchr request (CHR '' '') of
        None \<Rightarrow> Inr None
      | Some s \<Rightarrow>
          (case strchr_from request (s + 1) (CHR '' '') of
             None \<Rightarrow> Inr None
           | Some e \<Rightarrow> bindr (hexConvertStringToAscii (substr request (s + 1) e)) (\<lambda>p. Inr (Some p))))"

text \<open>The text from the first character of the value on, and the length of the value.\<close>

definition clampLength :: "string \<Rightarrow> nat" where
  "clampLength s =
     (case strchr s CR of Some e \<Rightarrow> e | None \<Rightarrow> (case strchr s LF of Some e \<Rightarrow> e | None \<Rightarrow> 0))"

fun httpHeaderDataClamp :: "string \<Rightarrow> string \<times> nat" where
  "httpHeaderDataClamp [] = ([], 0)"
| "httpHeaderDataClamp (c # s) =
     (if c = CHR '' '' \<or> c = CHR '':'' \<or> c = TAB then httpHeaderDataClamp s
      else if c = CR \<or> c = LF then (c # s, 0)
      else (c # s, clampLength (c # s)))"

text \<open>The reads are in order and stop at the first one that fails.\<close>

fun charsAt :: "string \<Rightarrow> (nat \<times> char) list \<Rightarrow> bool res" where
  "charsAt s [] = Inr True"
| "charsAt s ((i, c) # rest) = bindr (rdC s i) (\<lambda>x. if x = c then charsAt s rest else Inr False)"

definition ValidHttpDateStr :: "string \<Rightarrow> bool res" where
  "ValidHttpDateStr date =
     charsAt date [(3, CHR '',''), (4, CHR '' ''), (7, CHR '' ''), (11, CHR '' ''), (16, CHR '' ''),
                   (19, CHR '':''), (22, CHR '':''), (25, CHR '' '')]"

definition READ_DATE_MAX :: nat where "READ_DATE_MAX = 39"

text \<open>\<open>True\<close> is the error result 1; \<open>tm\<close> is the caller's structure.\<close>

definition httpHeaderReadIfModifiedSince :: "string \<Rightarrow> PlatformTimeStruct \<Rightarrow> (bool \<times> PlatformTimeStruct) res" where
  "httpHeaderReadIfModifiedSince request tm =
     (case strstr request ''If-Modified-Since'' of
        None \<Rightarrow> Inr (True, tm)
      | Some p \<Rightarrow>
          let (s, len) = httpHeaderDataClamp (drop (p + 17) request) in
          if len \<noteq> 0 \<and> len < READ_DATE_MAX then
            bindr (ValidHttpDateStr s)
              (\<lambda>ok. if ok then Inr (platformTimeGetFromHttpStr (take len s) tm) else Inr (True, tm))
          else Inr (True, tm))"

definition MAX_RANGE_STR_BUF :: nat where "MAX_RANGE_STR_BUF = 128"

text \<open>The C string that starts at index \<open>i\<close> of a buffer with NULs in it.\<close>

definition cstrAt :: "string \<Rightarrow> nat \<Rightarrow> string" where
  "cstrAt b i = takeWhile (\<lambda>c. c \<noteq> NUL) (drop i b)"

definition httpHeaderReadRange :: "string \<Rightarrow> int \<Rightarrow> int \<Rightarrow> int \<Rightarrow> bool \<times> int \<times> int" where
  "httpHeaderReadRange request start end0 limit =
     (let err = (True, start, end0) in
      case strstr request ''Range'' of
        None \<Rightarrow> err
      | Some p \<Rightarrow>
          let (s, strLength) = httpHeaderDataClamp (drop (p + 5) request) in
          if MAX_RANGE_STR_BUF - 1 \<le> strLength then err
          else
            let range = take strLength s in
            if strstr range ''bytes='' = None then err
            else (case (strchr range (CHR ''=''), strchr range (CHR ''-'')) of
                    (Some equ, Some dash) \<Rightarrow>
                      let b = range[equ := NUL, dash := NUL];
                          start1 = (if equ + 1 \<noteq> dash then atol (cstrAt b (equ + 1)) else start);
                          end1 = (if cstrAt b (dash + 1) \<noteq> [] then atol (cstrAt b (dash + 1)) else end0)
                      in (False, start1, if end1 = 0 then limit else end1)
                  | _ \<Rightarrow> err))"

section \<open>Writing headers\<close>

text \<open>\<open>%lu\<close> of a signed file offset.\<close>

definition showOffset :: "int \<Rightarrow> string" where
  "showOffset n = show_nat (nat (n mod 2 ^ 64))"

definition httpHeaderWriteAcceptRanges :: "Conn \<Rightarrow> Conn res" where
  "httpHeaderWriteAcceptRanges = connWrite (''Accept-Ranges: bytes'' @ HTTP_EOL)"

definition httpHeaderWriteRange :: "int \<Rightarrow> int \<Rightarrow> int \<Rightarrow> Conn \<Rightarrow> Conn res" where
  "httpHeaderWriteRange start finish fileLength =
     connPrintf SB_DATA_SIZE
       (''Content-Range: bytes '' @ showOffset start @ ''-'' @
        showOffset (if finish = fileLength then finish - 1 else finish) @ ''/'' @ showOffset fileLength @ HTTP_EOL)"

definition httpHeaderWriteConnectionClose :: "Conn \<Rightarrow> Conn res" where
  "httpHeaderWriteConnectionClose = connWrite (''Connection: close'' @ HTTP_EOL)"

text \<open>\<open>now\<close> is the text of the current time.\<close>

definition httpHeaderWriteDate :: "string \<Rightarrow> Conn \<Rightarrow> Conn res" where
  "httpHeaderWriteDate now = connPrintf 40 (''Date: '' @ now @ HTTP_EOL)"

definition httpHeaderWriteChunkedEncoding :: "Conn \<Rightarrow> Conn res" where
  "httpHeaderWriteChunkedEncoding = connWrite (''Transfer-Encoding: chunked'' @ HTTP_EOL)"

definition httpHeaderWriteContentLength :: "int \<Rightarrow> Conn \<Rightarrow> Conn res" where
  "httpHeaderWriteContentLength len = connPrintf 80 (''Content-Length: '' @ showOffset len @ HTTP_EOL)"

definition httpHeaderWriteContentLengthSt :: "PlatformFileStat \<Rightarrow> Conn \<Rightarrow> Conn res" where
  "httpHeaderWriteContentLengthSt st = httpHeaderWriteContentLength (int (st_size st))"

definition httpHeaderWriteLastModified :: "PlatformFileStat \<Rightarrow> Conn \<Rightarrow> Conn res" where
  "httpHeaderWriteLastModified st c =
     (case platformTimeStructToStr (st_mtime st) of
        None \<Rightarrow> Inl Uninitialised
      | Some t \<Rightarrow> connPrintf 50 (''Last-Modified: '' @ t @ HTTP_EOL) c)"

definition httpHeaderWriteContentType :: "string \<Rightarrow> string \<Rightarrow> Conn \<Rightarrow> Conn res" where
  "httpHeaderWriteContentType type charSet c =
     (let len = length type + length charSet + length (''Content-Type: ;'' @ HTTP_EOL) + 1 in
      if len < SB_DATA_SIZE
      then connPrintf len (''Content-Type: '' @ type @ ''; '' @ charSet @ HTTP_EOL) c
      else Inr c)"

definition httpHeaderGetResponse :: "nat \<Rightarrow> string" where
  "httpHeaderGetResponse response =
     (if response = 200 then ''200 OK''
      else if response = 204 then ''204 No Content''
      else if response = 206 then ''206 Partial Content''
      else if response = 304 then ''304 Not Modified''
      else if response = 404 then ''404 Not Found''
      else if response = 431 then ''431 Request Header Fields Too Large''
      else ''500 Internal Server Error'')"

definition httpHeaderWriteResponseStr :: "string \<Rightarrow> Conn \<Rightarrow> Conn res" where
  "httpHeaderWriteResponseStr response =
     connPrintf (length HTTP_RES + length response + length HTTP_EOL + 2)
       (HTTP_RES @ '' '' @ response @ HTTP_EOL)"

definition httpHeaderWriteResponse :: "nat \<Rightarrow> Conn \<Rightarrow> Conn res" where
  "httpHeaderWriteResponse response = httpHeaderWriteResponseStr (httpHeaderGetResponse response)"

definition httpHeaderWriteEnd :: "Conn \<Rightarrow> Conn res" where
  "httpHeaderWriteEnd = connWrite HTTP_EOL"

definition httpHeaderWriteFileName :: "string \<Rightarrow> Conn \<Rightarrow> Conn res" where
  "httpHeaderWriteFileName path =
     (let name = (case strrchr path (CHR ''/'') of None \<Rightarrow> path | Some i \<Rightarrow> drop (i + 1) path)
      in connPrintf (length name + 40)
           (''Content-Disposition: filename='' @ [DQUOTE] @ name @ [DQUOTE] @ HTTP_EOL))"

text \<open>
  \<open>HTTP_HEADER_CONNECTION_NO_REUSE_WRITE\<close> writes the header only in builds that never reuse a
  connection.
\<close>

definition headerNoReuse :: "bool \<Rightarrow> Conn \<Rightarrow> Conn res" where
  "headerNoReuse noReuse = (if noReuse then httpHeaderWriteConnectionClose else Inr)"

section \<open>Writing bodies\<close>

definition httpBodyWriteText :: "string \<Rightarrow> Conn \<Rightarrow> nat \<times> Conn" where
  "httpBodyWriteText = connText"

definition httpBodyWriteChunk :: "string \<Rightarrow> Conn \<Rightarrow> nat \<times> Conn" where
  "httpBodyWriteChunk buffer c =
     (let (r1, c1) = connText (show_hex (length buffer) @ HTTP_EOL) c;
          (r2, c2) = connText buffer c1;
          (r3, c3) = connText HTTP_EOL c2
      in (r1 + r2 + r3, c3))"

definition connFlush :: "Conn \<Rightarrow> nat \<times> Conn" where
  "connFlush c = sendBufferFlush (fst c) (snd c)"

definition httpBodyWriteChunkEnding :: "Conn \<Rightarrow> nat \<times> Conn" where
  "httpBodyWriteChunkEnding c =
     (let (r, c1) = connText (''0'' @ HTTP_EOL @ HTTP_EOL) c in
      if r = 0 then (0, c1) else connFlush c1)"

text \<open>The answer is whether the caller has to close the connection.\<close>

definition httpHeaderHandleError :: "string \<Rightarrow> bool \<Rightarrow> nat \<Rightarrow> Conn \<Rightarrow> (bool \<times> Conn) res" where
  "httpHeaderHandleError now noReuse err c =
     (let errMsg = httpHeaderGetResponse err in
      bindr (connSeq [httpHeaderWriteResponseStr errMsg, headerNoReuse noReuse, httpHeaderWriteDate now,
                      httpHeaderWriteContentLength (int (length errMsg)), httpHeaderWriteEnd] c)
        (\<lambda>c1. let (r, c2) = httpBodyWriteText errMsg c1 in
              if r = 0 then Inr (True, c2)
              else let (r2, c3) = connFlush c2 in Inr (r2 = 0, c3)))"

section \<open>HTML\<close>

definition htmlHeaderWrite :: "string option \<Rightarrow> string \<Rightarrow> string option" where
  "htmlHeaderWrite buffer title =
     (let h1 = ''<!DOCTYPE HTML PUBLIC '' @ [DQUOTE] @ ''-//W3C//DTD HTML 4.01//EN'' @ [DQUOTE, LF, TAB, DQUOTE] @
               ''http://www.w3.org/TR/html4/strict.dtd'' @ [DQUOTE] @ ''>'' @ [LF] @ ''<HTML>'' @ [LF, TAB] @
               ''<HEAD>'' @ [LF, TAB, TAB] @ ''<TITLE>'';
          h2 = ''</TITLE>'' @ [LF, TAB, TAB] @ ''<STYLE TYPE='' @ [DQUOTE] @ ''text/css'' @ [DQUOTE] @ ''>'' @ [LF, TAB, TAB] @
               ''*{'' @ [LF, TAB, TAB, TAB] @ ''font-family: monospace;'' @ [LF, TAB, TAB] @ ''}'' @ [LF, TAB, TAB, LF, TAB, TAB] @
               ''a:hover,tr:hover{'' @ [LF, TAB, TAB, TAB] @ ''font-weight: bold;'' @ [LF, TAB, TAB] @ ''}'' @ [LF, TAB, TAB] @
               ''</STYLE>'' @ [LF, TAB] @ ''</HEAD>'' @ [LF, LF, TAB] @ ''<BODY>'' @ [LF]
      in platformHeapStringAppend buffer (h1 @ title @ h2))"

definition htmlListStart :: "string option \<Rightarrow> string option" where
  "htmlListStart buffer = platformHeapStringAppend buffer ([TAB, TAB] @ ''<UL>'' @ [LF])"

definition htmlListEnd :: "string option \<Rightarrow> string option" where
  "htmlListEnd buffer = platformHeapStringAppend buffer ([TAB, TAB] @ ''</UL>'' @ [LF])"

definition htmlFooterWrite :: "string option \<Rightarrow> string option" where
  "htmlFooterWrite buffer = platformHeapStringAppend buffer ([TAB] @ ''</BODY>'' @ [LF] @ ''</HTML>'' @ [LF])"

text \<open>
  The search for the divider runs over the indices \<open>strlen (webPath) - 2\<close> down to 1; for paths of less
  than two characters the first index is \<open>(size_t) -1\<close> or \<open>-2\<close>.
\<close>

definition htmlListWritePathLink :: "string option \<Rightarrow> string \<Rightarrow> string option res" where
  "htmlListWritePathLink buffer webPath =
     (if length webPath < 2 then Inl OutOfBounds
      else if FILENAME_MAX < length webPath + 1 then Inl BufferOverflow
      else
        let filePath = (case strrchr (drop 1 (take (length webPath - 1) webPath)) (CHR ''/'') of
                          Some k \<Rightarrow> k + 1 | None \<Rightarrow> 0);
            (_, linkPath) = convertPathToUrl webPath FILENAME_MAX
        in Inr (platformHeapStringAppend buffer
             ([TAB, TAB, TAB] @ ''<LI><A HREF='' @ [DQUOTE] @ linkPath @ [DQUOTE] @ ''>'' @
              drop (filePath + 1) webPath @ ''</A></LI>'' @ [LF])))"

fun crumbLoop :: "string \<Rightarrow> nat list \<Rightarrow> string option \<Rightarrow> string option res" where
  "crumbLoop webPath [] buffer = Inr buffer"
| "crumbLoop webPath (i # is) buffer =
     bindr (GetPathName webPath i)
       (\<lambda>(linkPath, displayPath).
          crumbLoop webPath is
            (platformHeapStringAppend buffer
               ([TAB, TAB, TAB] @ ''<A HREF='' @ [DQUOTE] @ snd (convertPathToUrl linkPath FILENAME_MAX) @ [DQUOTE] @ ''>'' @
                displayPath @ ''</A>'' @ [LF])))"

definition htmlBreadCrumbWrite :: "string option \<Rightarrow> string \<Rightarrow> string option res" where
  "htmlBreadCrumbWrite buffer webPath =
     bindr (crumbLoop webPath [0..<GetPathCount webPath + 1]
              (platformHeapStringAppend buffer ([TAB, TAB] @ ''<DIV>'' @ [LF])))
       (\<lambda>b. Inr (platformHeapStringAppend b ([TAB, TAB] @ ''</DIV>'' @ [LF, TAB, TAB] @ ''<HR>'' @ [LF])))"

section \<open>Links and requests\<close>

definition urlEnc :: "char \<Rightarrow> string" where
  "urlEnc c = (if c = CHR ''/'' then [c] else AsciiToHex c)"

lemma urlEnc_nonalnum: "\<not> isalnumC c \<Longrightarrow> c \<noteq> CHR ''/'' \<Longrightarrow> urlEnc c = CHR ''%'' # show_hex (code c)"
  by (simp add: urlEnc_def AsciiToHex_def)

lemma show_hex_byte: "16 \<le> n \<Longrightarrow> n < 256 \<Longrightarrow> show_hex n = [hex_digit (n div 16), hex_digit (n mod 16)]"
  by (subst show_hex.simps, subst show_hex.simps) simp

lemma code_less_256 [simp]: "code c < 256"
  by (simp add: of_char_def [symmetric])

lemma less_16_cases: "d < 16 \<Longrightarrow> d \<in> set [0, 1, 2, 3, 4, 5, 6, 7, 8, 9, 10, 11, 12, 13, 14, 15::nat]"
proof -
  have e: "[0..<16] = [0, 1, 2, 3, 4, 5, 6, 7, 8, 9, 10, 11, 12, 13, 14, 15::nat]" by code_simp
  assume "d < 16"
  then have "d \<in> set [0..<16]" by simp
  then show ?thesis by (simp only: e)
qed

lemma hexVal_hex_digit: "d < 16 \<Longrightarrow> hexVal (hex_digit d) = d"
  by (drule less_16_cases, simp only: list.set, elim insertE emptyE; simp add: hexVal_def hexNibble_def hex_digit_def)

lemma hex_digit_alnum: "d < 16 \<Longrightarrow> isalnumC (hex_digit d)"
  by (auto simp: hex_digit_def isalnumC_def isdigitC_def islowerC_def)

lemma isalnumC_simps [simp]: "\<not> isalnumC (CHR '' '')" "\<not> isalnumC (CHR ''%'')" "\<not> isalnumC (CHR ''/'')"
  by (simp_all add: isalnumC_def isdigitC_def isupperC_def islowerC_def)

lemma HexToAscii_hex_digits: "n < 256 \<Longrightarrow> HexToAscii (hex_digit (n div 16)) (hex_digit (n mod 16)) = char_of n"
  by (simp add: HexToAscii_eq hexVal_hex_digit)

lemma hexDecode_urlEnc:
  assumes "16 \<le> code c"
  shows "hexDecode (urlEnc c @ s) = bindr (hexDecode s) (\<lambda>t. Inr (c # t))"
proof (cases "isalnumC c \<or> c = CHR ''/''")
  case True
  have "\<not> isalnumC (CHR ''%'')" by (simp add: isalnumC_def isdigitC_def isupperC_def islowerC_def)
  with True have "c \<noteq> CHR ''%''" "urlEnc c = [c]" by (auto simp: urlEnc_def AsciiToHex_def)
  then show ?thesis by (simp add: hexDecode_skip)
next
  case False
  then have e: "urlEnc c = CHR ''%'' # [hex_digit (code c div 16), hex_digit (code c mod 16)]"
    using assms show_hex_byte [of "code c"] by (simp add: urlEnc_nonalnum)
  have "HexToAscii (hex_digit (code c div 16)) (hex_digit (code c mod 16)) = c"
    using HexToAscii_hex_digits [of "code c"] by simp
  moreover have "c \<noteq> NUL" using assms by auto
  ultimately show ?thesis by (simp add: e)
qed

lemma hexDecode_encoded:
  "\<forall>c\<in>set p. 16 \<le> code c \<Longrightarrow> hexDecode (concat (map urlEnc p) @ s) = bindr (hexDecode s) (\<lambda>t. Inr (p @ t))"
  by (induction p) (auto simp: hexDecode_urlEnc bindr_assoc)

lemma length_urlEnc: "length (urlEnc c) \<le> 3"
proof (cases "code c < 16")
  case True
  then show ?thesis by (subst urlEnc_def) (simp add: AsciiToHex_def show_hex.simps)
next
  case False
  then show ?thesis by (simp add: urlEnc_def AsciiToHex_def show_hex_byte)
qed

lemma urlLoop_encodes:
  "length out + 3 * length s + 1 < limit \<Longrightarrow> urlLoop limit out s = (False, out @ concat (map urlEnc s))"
proof (induction s arbitrary: out)
  case (Cons c s)
  show ?case
  proof (cases "isalnumC c \<or> c = CHR ''/''")
    case True
    then have "urlEnc c = [c]" by (auto simp: urlEnc_def AsciiToHex_def)
    with True Cons show ?thesis by auto
  next
    case False
    then have e: "AsciiToHex c = urlEnc c" by (simp add: urlEnc_def)
    have "length out + length (c # s) + length (urlEnc c) \<le> limit - 1"
      using Cons.prems length_urlEnc [of c] by simp
    with False e show ?thesis using Cons.IH [of "out @ urlEnc c"] Cons.prems length_urlEnc [of c] by simp
  qed
qed simp

lemma urlEnc_no_space:
  assumes "16 \<le> code c"
  shows "CHR '' '' \<notin> set (urlEnc c)"
proof -
  have "isalnumC (hex_digit (code c div 16))" "isalnumC (hex_digit (code c mod 16))"
    using less_mult_imp_div_less [of "code c" 16 16] code_less_256 [of c] by (intro hex_digit_alnum; simp)+
  then have "hex_digit (code c div 16) \<noteq> CHR '' ''" "hex_digit (code c mod 16) \<noteq> CHR '' ''" by auto
  then show ?thesis using assms by (auto simp: urlEnc_def AsciiToHex_def show_hex_byte)
qed

lemma convertPathToUrl_encodes: "3 * length p + 1 < limit \<Longrightarrow> convertPathToUrl p limit = (False, concat (map urlEnc p))"
  using urlLoop_encodes [of "[]" p limit] by (simp add: convertPathToUrl_def)

text \<open>
  C24. The path of a link the server writes is understood by the server: the client asks for the
  encoded path, and \<open>httpClientReadUri\<close> gives back the path the link was made from, for every path
  without \<open>/..\<close> whose bytes are at least 16 (below that the escape has one digit only).
\<close>

theorem httpClientReadUri_link:
  assumes "\<forall>c\<in>set p. 16 \<le> code c" "\<not> sublist ''/..'' p" "3 * length p + 1 < FILENAME_MAX"
    "CHR '' '' \<notin> set verb"
  shows "fst (convertPathToUrl p FILENAME_MAX) = False \<and>
    httpClientReadUri (verb @ '' '' @ snd (convertPathToUrl p FILENAME_MAX) @ '' '' @ rest) = Inr (Some p)"
proof -
  let ?u = "concat (map urlEnc p)"
  have u: "CHR '' '' \<notin> set ?u" using assms(1) urlEnc_no_space by auto
  have s: "strchr (verb @ CHR '' '' # ?u @ CHR '' '' # rest) (CHR '' '') = Some (length verb)"
    using assms(4) by (intro strchr_append)
  have e: "strchr_from (verb @ CHR '' '' # ?u @ CHR '' '' # rest) (Suc (length verb)) (CHR '' '') =
      Some (Suc (length verb) + length ?u)"
    using strchr_append [OF u, of rest] by (simp add: strchr_from_def)
  have "hexConvertStringToAscii ?u = Inr p"
    using hexDecode_encoded [OF assms(1), of "[]"] assms(2) by (simp add: hexConvertStringToAscii_def hexStripUp_id)
  then show ?thesis
    using convertPathToUrl_encodes [OF assms(3)] s e
    by (simp add: httpClientReadUri_def substr_def)
qed

lemma httpClientReadUri_link_witness:
  "httpClientReadUri (''GET '' @ snd (convertPathToUrl ''/a b'' FILENAME_MAX) @ '' HTTP/1.1'') = Inr (Some ''/a b'')"
proof -
  have "\<not> sublist ''/..'' ''/a b''" by (simp add: sublist_Cons_right)
  then show ?thesis
    using httpClientReadUri_link [of "''/a b''" "''GET''" "''HTTP/1.1''"] by (simp add: FILENAME_MAX_def)
qed

theorem convertPathToUrl_control_char:
  "hexConvertStringToAscii (snd (convertPathToUrl [CHR ''/'', TAB, CHR ''a''] FILENAME_MAX)) = Inr [CHR ''/'', CHR 0x9A]"
  by code_simp

section \<open>Ranges\<close>

lemma clampLength_CR: "CR \<notin> set v \<Longrightarrow> clampLength (v @ CR # r) = length v"
  by (simp add: clampLength_def strchr_append)

lemma httpHeaderDataClamp_value:
  assumes "v \<noteq> []" "CR \<notin> set v" "hd v \<notin> {CHR '' '', CHR '':'', TAB, CR, LF}"
  shows "httpHeaderDataClamp (CHR '':'' # CHR '' '' # v @ CR # r) = (v @ CR # r, length v)"
proof -
  obtain c w where v: "v = c # w" using assms(1) by (cases v) auto
  with assms clampLength_CR [of v r] show ?thesis by simp
qed

lemma atol_digits:
  assumes "\<forall>c\<in>set d. isdigitC c" "d \<noteq> []" "digits_val 0 d \<le> 2 ^ 63 - 1"
  shows "atol d = int (digits_val 0 d)"
proof -
  obtain c e where d: "d = c # e" using assms(2) by (cases d) auto
  have c: "c \<noteq> CHR ''-''" "c \<noteq> CHR ''+''" "\<not> isspaceC c" "isdigitC c"
    using assms(1) d digit_not_sign isdigit_not_space by auto
  have "dropWhile isspaceC d = d" using d c by simp
  moreover have tw: "takeWhile isdigitC e = e" using assms(1) d by (simp add: takeWhile_eq_all_conv)
  moreover have "int (digits_val 0 d) \<le> LONG_MAX" using assms(3) by (simp add: LONG_MAX_def)
  ultimately show ?thesis using c d by (simp add: tw atol_def strtol_def LONG_MIN_def min_def max_def Let_def)
qed

lemma digits_no: "\<forall>c\<in>set d. isdigitC c \<Longrightarrow> x \<in> {CHR ''-'', CHR ''='', NUL, CR, CHR ''b''} \<Longrightarrow> x \<notin> set d"
  by (auto simp: isdigitC_def)

lemma takeWhile_NUL: "NUL \<notin> set a \<Longrightarrow> takeWhile (\<lambda>c. c \<noteq> NUL) (a @ NUL # b) = a"
  by (induction a) auto

lemma takeWhile_noNUL: "NUL \<notin> set a \<Longrightarrow> takeWhile (\<lambda>c. c \<noteq> NUL) a = a"
  by (induction a) auto

text \<open>
  For a header \<open>Range: bytes=a-b\<close> the start is \<open>a\<close>, or what the caller passed when \<open>a\<close> is missing,
  and the end is \<open>b\<close>, or the length of the file when \<open>b\<close> is missing and the caller passed 0.
\<close>

theorem httpHeaderReadRange_value:
  assumes "strstr request ''Range'' = Some p" "drop (p + 5) request = '': bytes='' @ a @ ''-'' @ b @ CR # r"
    "\<forall>c\<in>set (a @ b). isdigitC c" "length a + length b < 120"
    "digits_val 0 a \<le> 2 ^ 63 - 1" "digits_val 0 b \<le> 2 ^ 63 - 1"
  shows "httpHeaderReadRange request start end0 limit =
    (False, if a = [] then start else int (digits_val 0 a),
     let e = (if b = [] then end0 else int (digits_val 0 b)) in if e = 0 then limit else e)"
proof -
  let ?v = "''bytes='' @ a @ ''-'' @ b"
  have da: "\<forall>c\<in>set a. isdigitC c" and db: "\<forall>c\<in>set b. isdigitC c" using assms(3) by simp_all
  have n: "CHR ''-'' \<notin> set a" "NUL \<notin> set a" "NUL \<notin> set b" "CR \<notin> set a" "CR \<notin> set b"
    by (rule digits_no [OF da] digits_no [OF db], simp)+
  have cl: "httpHeaderDataClamp ('': bytes='' @ a @ ''-'' @ b @ CR # r) = (?v @ CR # r, length ?v)"
    using httpHeaderDataClamp_value [of ?v r] n by simp
  have p: "strstr ?v ''bytes='' = Some 0" by (rule strstr_hit) simp
  have q: "strchr ?v (CHR ''='') = Some 5" by simp
  have d: "strchr ?v (CHR ''-'') = Some (6 + length a)"
    using strchr_append [of "CHR ''-''" "''bytes='' @ a" b] n by simp
  have z1: "?v[5 := NUL] = ''bytes'' @ NUL # a @ ''-'' @ b"
    using list_update_length [of "''bytes''" "CHR ''=''" "a @ ''-'' @ b" NUL] by simp
  have z2: "(''bytes'' @ NUL # a @ ''-'' @ b)[6 + length a := NUL] = ''bytes'' @ NUL # a @ NUL # b"
    using list_update_length [of "''bytes'' @ NUL # a" "CHR ''-''" b NUL] by simp
  have z: "?v[5 := NUL, 6 + length a := NUL] = ''bytes'' @ NUL # a @ NUL # b"
    by (simp only: z1 z2)
  have drop_pre: "drop (length x) (x @ y) = y" for x y :: string by simp
  have "cstrAt ((''bytes'' @ [NUL]) @ a @ NUL # b) (length (''bytes'' @ [NUL])) = a"
    "cstrAt ((''bytes'' @ NUL # a @ [NUL]) @ b) (length (''bytes'' @ NUL # a @ [NUL])) = b"
    by (simp_all only: cstrAt_def drop_pre takeWhile_NUL [OF n(2)] takeWhile_noNUL [OF n(3)])
  then have s: "cstrAt (''bytes'' @ NUL # a @ NUL # b) 6 = a" "cstrAt (''bytes'' @ NUL # a @ NUL # b) (7 + length a) = b"
    by (simp_all add: eval_nat_numeral)
  have at: "a \<noteq> [] \<Longrightarrow> atol a = int (digits_val 0 a)" "b \<noteq> [] \<Longrightarrow> atol b = int (digits_val 0 b)"
    using assms atol_digits [of a] atol_digits [of b] by auto
  define v w where "v = ?v" and "w = ''bytes'' @ NUL # a @ NUL # b"
  have e1: "(if 5 + 1 \<noteq> 6 + length a then atol (cstrAt w (5 + 1)) else start) =
      (if a = [] then start else int (digits_val 0 a))"
    using s at by (simp add: w_def)
  have "6 + length a + 1 = 7 + length a" by simp
  then have e2: "(if cstrAt w (6 + length a + 1) \<noteq> [] then atol (cstrAt w (6 + length a + 1)) else end0) =
      (if b = [] then end0 else int (digits_val 0 b))"
    using s at unfolding w_def by metis
  have l: "\<not> MAX_RANGE_STR_BUF - 1 \<le> length v" using assms(4) by (simp add: MAX_RANGE_STR_BUF_def v_def)
  have t: "take (length v) (v @ CR # r) = v" by simp
  show ?thesis
    unfolding httpHeaderReadRange_def Let_def assms(1,2) option.case cl [folded v_def] prod.case t p [folded v_def]
      q [folded v_def] d [folded v_def] z [folded v_def w_def] e1 e2
    using l by simp
qed

lemma httpHeaderReadRange_witness:
  "httpHeaderReadRange (''GET / HTTP/1.1'' @ [CR, LF] @ ''Range: bytes=10-25'' @ [CR, LF, CR, LF]) 0 0 1000 = (False, 10, 25)"
proof -
  let ?r = "''GET / HTTP/1.1'' @ [CR, LF] @ ''Range: bytes=10-25'' @ [CR, LF, CR, LF]"
  have "strstr ?r ''Range'' = Some 16" by (simp add: eval_nat_numeral)
  then show ?thesis
    using httpHeaderReadRange_value [of ?r 16 "''10''" "''25''" "[LF, CR, LF]" 0 0 1000]
    by (simp add: isdigitC_def digits_val_def)
qed

text \<open>
  The name of the header is looked for anywhere in the request, and a request for the last bytes of a
  file is taken for its first ones.
\<close>

theorem httpHeaderReadRange_suffix:
  "httpHeaderReadRange (''GET / HTTP/1.1'' @ [CR, LF] @ ''Range: bytes=-5'' @ [CR, LF, CR, LF]) 0 0 1000 = (False, 0, 5)"
  by code_simp

section \<open>What reaches the client\<close>

abbreviation connOk :: "Conn \<Rightarrow> bool" where "connOk c \<equiv> sbOk (fst c)"
abbreviation connFailed :: "Conn \<Rightarrow> bool" where "connFailed c \<equiv> sbFail (fst c)"
abbreviation connStream :: "Conn \<Rightarrow> string" where "connStream c \<equiv> sbStream (fst c) (snd c)"

text \<open>\<open>c1\<close> is \<open>c\<close> after \<open>d\<close> was given to it.\<close>

definition appended :: "Conn \<Rightarrow> string \<Rightarrow> Conn \<Rightarrow> bool" where
  "appended c d c1 \<longleftrightarrow> connOk c1 \<and> sbSocket (fst c1) = sbSocket (fst c) \<and> (connFailed c \<longrightarrow> connFailed c1) \<and>
     (\<not> connFailed c1 \<longrightarrow> connStream c1 = connStream c @ d)"

lemma appended_ok: "appended c d c1 \<Longrightarrow> connOk c1"
  by (simp add: appended_def)

lemma appended_trans: "appended c d c1 \<Longrightarrow> appended c1 e c2 \<Longrightarrow> appended c (d @ e) c2"
  by (auto simp: appended_def)

lemma appended_refl: "connOk c \<Longrightarrow> appended c [] c"
  by (simp add: appended_def)

lemma connText_appended: "connOk c \<Longrightarrow> appended c d (snd (connText d c))"
  using sinkWrite_law [of c d]
  by (auto simp: appended_def connText_def sinkWrite_def sendBufferWriteText_def)

lemma connText_count: "connOk c \<Longrightarrow> \<not> connFailed (snd (connText d c)) \<Longrightarrow> fst (connText d c) = length d"
  using sinkWrite_law [of c d]
  by (auto simp: connText_def sinkWrite_def sendBufferWriteText_def)

lemma connWrite_appended: "connOk c \<Longrightarrow> connWrite d c = Inr c1 \<Longrightarrow> appended c d c1"
  using connText_appended [of c d] by (auto simp: connWrite_def)

lemma connFlush_appended: "connOk c \<Longrightarrow> appended c [] (snd (connFlush c))"
  using sinkFlush_law [of c] by (auto simp: appended_def connFlush_def sinkFlush_def)

lemma connPrintf_appended:
  assumes "connOk c" "connPrintf limit msg c = Inr c1"
  shows "appended c msg c1"
proof (cases "sbBuffer (fst c)")
  case None
  with assms have "c1 = snd (connText msg c)"
    by (auto simp: connPrintf_def sendBufferPrintf_def connText_def split: if_splits prod.splits)
  then show ?thesis using connText_appended [OF assms(1)] by simp
next
  case (Some ms)
  with assms have "c1 = ((fst c)\<lparr>sbBuffer := Some (msWrite (msSeekEnd ms) msg)\<rparr>, snd c)"
    by (auto simp: connPrintf_def sendBufferPrintf_def)
  with assms(1) Some show ?thesis
    by (auto simp: appended_def sbOk_def sbStream_def sbPending_def)
qed

lemma connPrintf_fits: "length msg < limit \<Longrightarrow> \<exists>c1. connPrintf limit msg c = Inr c1"
  by (auto simp: connPrintf_def sendBufferPrintf_def split: option.splits prod.splits)

lemma connPrintf_overflow:
  "connPrintf limit msg c = Inl BufferOverflow \<longleftrightarrow> sbBuffer (fst c) = None \<and> limit \<le> length msg"
  by (auto simp: connPrintf_def sendBufferPrintf_def split: option.splits prod.splits)

text \<open>
  Each chunk of a body reaches the stream as its length in hexadecimal, a line end, the data and
  another line end.
\<close>

theorem httpBodyWriteChunk_format:
  assumes "connOk c" "httpBodyWriteChunk d c = (r, c1)" "\<not> connFailed c1"
  shows "connStream c1 = connStream c @ show_hex (length d) @ HTTP_EOL @ d @ HTTP_EOL \<and>
         r = length (show_hex (length d)) + length d + 4"
proof -
  let ?h = "show_hex (length d) @ HTTP_EOL"
  let ?c1 = "snd (connText ?h c)"
  let ?c2 = "snd (connText d ?c1)"
  let ?c3 = "snd (connText HTTP_EOL ?c2)"
  have e: "c1 = ?c3" "r = fst (connText ?h c) + fst (connText d ?c1) + fst (connText HTTP_EOL ?c2)"
    using assms(2) by (auto simp: httpBodyWriteChunk_def split: prod.splits)
  have a1: "appended c ?h ?c1" using assms(1) by (rule connText_appended)
  have a2: "appended ?c1 d ?c2" using appended_ok [OF a1] by (rule connText_appended)
  have a3: "appended ?c2 HTTP_EOL ?c3" using appended_ok [OF a2] by (rule connText_appended)
  have f: "\<not> connFailed ?c2" "\<not> connFailed ?c1" using assms(3) e a2 a3 by (auto simp: appended_def)
  have "appended c (?h @ d @ HTTP_EOL) c1"
    using appended_trans [OF a1 appended_trans [OF a2 a3]] e by simp
  then have "connStream c1 = connStream c @ ?h @ d @ HTTP_EOL" using assms(3) by (simp add: appended_def)
  moreover have "r = length (show_hex (length d)) + length d + 4"
    using e connText_count [OF assms(1), of ?h] connText_count [OF appended_ok [OF a1], of d]
      connText_count [OF appended_ok [OF a2], of HTTP_EOL] f assms(3) by simp
  ultimately show ?thesis by simp
qed

text \<open>
  The content type header is printed into a block that is one byte too small, whenever it is the
  first thing that could not be left in the memory stream.
\<close>

theorem httpHeaderWriteContentType_overflow:
  "httpHeaderWriteContentType type charSet c = Inl BufferOverflow \<longleftrightarrow>
     sbBuffer (fst c) = None \<and> length type + length charSet + 18 < SB_DATA_SIZE"
  using connPrintf_overflow by (simp add: httpHeaderWriteContentType_def)

text \<open>
  The other headers always fit the limit they are printed with: a response line, a date of 29
  characters, a length and a file name are written without a fault, on any connection.
\<close>

theorem headers_fit:
  assumes "length now \<le> 29"
  shows "(\<exists>c1. httpHeaderWriteResponse resp c = Inr c1) \<and> (\<exists>c1. httpHeaderWriteDate now c = Inr c1) \<and>
         (\<exists>c1. httpHeaderWriteContentLength n c = Inr c1) \<and> (\<exists>c1. httpHeaderWriteFileName path c = Inr c1)"
proof -
  have "length (showOffset n) \<le> 20"
    unfolding showOffset_def by (rule show_nat_length) (simp_all add: nat_less_iff)
  then show ?thesis
    using assms unfolding httpHeaderWriteResponse_def httpHeaderWriteResponseStr_def httpHeaderWriteDate_def
      httpHeaderWriteContentLength_def httpHeaderWriteFileName_def Let_def
    by (intro conjI connPrintf_fits) (simp_all add: HTTP_RES_def)
qed

text \<open>A date is never wider than that.\<close>

lemma httpHeaderWriteLastModified_fits:
  assumes "validTime (st_mtime st)"
  shows "\<exists>c1. httpHeaderWriteLastModified st c = Inr c1"
proof -
  obtain s where s: "platformTimeStructToStr (st_mtime st) = Some s"
    using platformTimeStructToStr_Some [OF assms] by simp
  then have "length s < 30" by (auto simp: platformTimeStructToStr_def Let_def split: if_splits)
  with s show ?thesis using connPrintf_fits by (simp add: httpHeaderWriteLastModified_def)
qed

lemma headers_fit_witness: "\<exists>c1. httpHeaderWriteResponse 200 (sendBufferNew 4 0, \<lambda>_. \<lparr>chAnswers = [], chWire = []\<rparr>) = Inr c1"
  using headers_fit [where now = "''Sun, 06 Nov 1994 08:49:37 GMT''" and resp = 200
      and c = "(sendBufferNew 4 0, \<lambda>_. \<lparr>chAnswers = [], chWire = []\<rparr>)"]
  by auto

lemma httpBodyWriteChunk_format_witness:
  "connStream (snd (httpBodyWriteChunk ''abc'' (sendBufferNew 4 0, \<lambda>_. \<lparr>chAnswers = [Accepts 2, WouldBlock], chWire = []\<rparr>))) =
     [CHR ''3'', CR, LF, CHR ''a'', CHR ''b'', CHR ''c'', CR, LF]"
proof -
  let ?c = "(sendBufferNew 4 0, \<lambda>_. \<lparr>chAnswers = [Accepts 2, WouldBlock], chWire = []\<rparr>)"
  have "\<not> connFailed (snd (httpBodyWriteChunk ''abc'' ?c))" by code_simp
  moreover have "show_hex 3 = ''3''" by code_simp
  ultimately show ?thesis
    using httpBodyWriteChunk_format [of ?c "''abc''" "fst (httpBodyWriteChunk ''abc'' ?c)" "snd (httpBodyWriteChunk ''abc'' ?c)"]
    by (simp add: eval_nat_numeral)
qed

text \<open>
  An error response that the network takes at once is reported as a failure: the flush that follows
  has nothing to do and returns 0.
\<close>

theorem httpHeaderHandleError_sent_directly:
  "\<exists>c1. httpHeaderHandleError ''Sun, 06 Nov 1994 08:49:37 GMT'' False 404
           (sendBufferNew 4 0, \<lambda>_. \<lparr>chAnswers = replicate 5 (Accepts 100), chWire = []\<rparr>) = Inr (True, c1) \<and>
        sbBuffer (fst c1) = None \<and> \<not> connFailed c1"
proof -
  let ?r = "httpHeaderHandleError ''Sun, 06 Nov 1994 08:49:37 GMT'' False 404
           (sendBufferNew 4 0, \<lambda>_. \<lparr>chAnswers = replicate 5 (Accepts 100), chWire = []\<rparr>)"
  have "case ?r of Inr (b, c1) \<Rightarrow> b \<and> sbBuffer (fst c1) = None \<and> \<not> connFailed c1 | Inl _ \<Rightarrow> False"
    by code_simp
  then show ?thesis by (cases ?r) auto
qed

section \<open>Names in lists of links\<close>

lemma pathNameLoop_plain:
  "CHR ''/'' \<notin> set w \<Longrightarrow> pathNameLoop m i k (w @ r) = pathNameLoop m (i + length w) k r"
  by (induction w arbitrary: i) auto

lemma pathNameLoop_pathOf:
  assumes "\<forall>c\<in>set cs. CHR ''/'' \<notin> set c" "k + length cs = m"
  shows "pathNameLoop m i k (pathOf cs @ r) = pathNameLoop m (i + length (pathOf cs)) m r"
  using assms
proof (induction cs arbitrary: i k)
  case (Cons c cs)
  then show ?case using pathNameLoop_plain [of c m "Suc i" "Suc k" "pathOf cs @ r"]
    by (simp add: add.assoc)
qed simp

text \<open>
  The link of the breadcrumb at depth \<open>k\<close> leads to the directory of the first \<open>k\<close> elements of the
  path, and shows the name of the last of them.
\<close>

theorem GetPathName_crumb:
  assumes "\<forall>c\<in>set (cs @ [x] @ ds). c \<noteq> [] \<and> CHR ''/'' \<notin> set c" "length (pathOf (cs @ [x] @ ds)) + 2 \<le> FILENAME_MAX"
  shows "GetPathName (pathOf (cs @ [x] @ ds)) (length cs + 1) = Inr (pathOf (cs @ [x]) @ ''/'', x @ ''/'')"
proof -
  have x: "CHR ''/'' \<notin> set x" "x \<noteq> []" using assms(1) by auto
  have loop: "pathNameLoop (length cs + 1) 0 0 (pathOf (cs @ [x]) @ r) =
      pathNameLoop (length cs + 1) (length (pathOf (cs @ [x]))) (length cs + 1) r" for r
    using pathNameLoop_pathOf [of "cs @ [x]" 0 "length cs + 1" 0 r] assms(1) by auto
  have last: "strrchr (pathOf cs @ CHR ''/'' # x) (CHR ''/'') = Some (length (pathOf cs))"
    using x by (intro strrchr_append)
  show ?thesis
  proof (cases ds)
    case Nil
    then show ?thesis using assms(2) loop [of "[]"] last x by (simp add: GetPathName_def)
  next
    case (Cons d ds')
    then have "pathNameLoop (length cs + 1) 0 0 (pathOf (cs @ [x] @ ds)) = (Some (length (pathOf (cs @ [x]))), length cs + 1)"
      using loop [of "pathOf ds"] by simp
    then show ?thesis using assms(2) Cons last x by (simp add: GetPathName_def)
  qed
qed

lemma GetPathName_crumb_witness: "GetPathName ''/srv/www/img'' 2 = Inr (''/srv/www/'', ''www/'')"
  using GetPathName_crumb [of "[''srv'']" "''www''" "[''img'']"] by (simp add: FILENAME_MAX_def numeral_2_eq_2)

end
