(* ===== verification/Routines.thy ===== *)
theory Routines
  imports Server_Http
begin

text \<open>
  \<open>src/server/routine.c\<close> and \<open>src/server/event.c\<close>: the transfers in progress, one per connection, and
  the state machine \<open>RoutineTick\<close> that advances each of them a little.
\<close>

section \<open>Events\<close>

text \<open>The calls of the call backs a program has installed, in order.\<close>

datatype Event =
    HttpRespond nat string httpType nat
  | HttpFinish nat string httpType nat
  | SocketAccept nat
  | SocketClose nat

definition eventPath :: "string \<Rightarrow> string" where
  "eventPath path = (if chC path 0 = CHR ''/'' then drop 1 path else path)"

definition eventHttpRespondInvoke :: "nat \<Rightarrow> string \<Rightarrow> httpType \<Rightarrow> nat \<Rightarrow> Event list" where
  "eventHttpRespondInvoke sock path type respond = [HttpRespond sock (eventPath path) type respond]"

definition eventHttpFinishInvoke :: "nat \<Rightarrow> string \<Rightarrow> httpType \<Rightarrow> nat \<Rightarrow> Event list" where
  "eventHttpFinishInvoke sock path type respond = [HttpFinish sock (eventPath path) type respond]"

definition eventSocketAcceptInvoke :: "nat \<Rightarrow> Event list" where
  "eventSocketAcceptInvoke sock = [SocketAccept sock]"

definition eventSocketCloseInvoke :: "nat \<Rightarrow> Event list" where
  "eventSocketCloseInvoke sock = [SocketClose sock]"

section \<open>Routines\<close>

definition TYPE_ROUTINE :: "8 word" where "TYPE_ROUTINE = 1"
definition TYPE_ROUTINE_DIR :: "8 word" where "TYPE_ROUTINE_DIR = 2"
definition TYPE_ROUTINE_FILE :: "8 word" where "TYPE_ROUTINE_FILE = 4"
definition STATE_CONTINUE :: "8 word" where "STATE_CONTINUE = 8"
definition STATE_DEFER :: "8 word" where "STATE_DEFER = 16"
definition STATE_FLUSH :: "8 word" where "STATE_FLUSH = 32"
definition STATE_FINISH :: "8 word" where "STATE_FINISH = 64"
definition STATE_FAIL :: "8 word" where "STATE_FAIL = 128"

lemmas state_defs = TYPE_ROUTINE_def TYPE_ROUTINE_DIR_def TYPE_ROUTINE_FILE_def STATE_CONTINUE_def
  STATE_DEFER_def STATE_FLUSH_def STATE_FINISH_def STATE_FAIL_def

text \<open>An open file is its content and the position in it.\<close>

record FileRoutine =
  fr_content :: string
  fr_pos :: nat
  fr_start :: int
  fr_end :: int

record DirectoryRoutine =
  dr_count :: nat
  dr_directory :: PlatformDir

datatype RoutineType = PlainRoutine | OfFile FileRoutine | OfDir DirectoryRoutine

record Routine =
  rState :: "8 word"
  rBuffer :: SendBuffer
  rWebPath :: string
  rType :: RoutineType

definition BUFSIZ :: nat where "BUFSIZ = 8192"

definition RoutineNew :: "SendBuffer \<Rightarrow> string \<Rightarrow> Routine" where
  "RoutineNew socketBuffer webPath =
     \<lparr>rState = TYPE_ROUTINE OR STATE_FLUSH, rBuffer = socketBuffer, rWebPath = webPath, rType = PlainRoutine\<rparr>"

definition DirectoryRoutineNew :: "SendBuffer \<Rightarrow> PlatformDir \<Rightarrow> string \<Rightarrow> Routine" where
  "DirectoryRoutineNew socketBuffer dir webPath =
     \<lparr>rState = TYPE_ROUTINE_DIR OR STATE_FLUSH, rBuffer = socketBuffer, rWebPath = webPath,
      rType = OfDir \<lparr>dr_count = 0, dr_directory = dir\<rparr>\<rparr>"

text \<open>\<open>fseeko\<close> refuses a negative position, and the file stays at its start.\<close>

definition FileRoutineNew :: "SendBuffer \<Rightarrow> string \<Rightarrow> int \<Rightarrow> int \<Rightarrow> string \<Rightarrow> Routine" where
  "FileRoutineNew socketBuffer file start end0 webPath =
     \<lparr>rState = TYPE_ROUTINE_FILE OR STATE_FLUSH, rBuffer = socketBuffer, rWebPath = webPath,
      rType = OfFile \<lparr>fr_content = file, fr_pos = nat start, fr_start = start, fr_end = end0\<rparr>\<rparr>"

section \<open>Continuing a file\<close>

text \<open>
  A negative remainder becomes a huge \<open>size_t\<close>, and \<open>fread\<close> then stores whatever the file has left into
  the array of \<open>SB_DATA_SIZE\<close> bytes.
\<close>

definition fileBlock :: "FileRoutine \<Rightarrow> string" where
  "fileBlock f =
     (let remaining = fr_end f - int (fr_pos f);
          rest = drop (fr_pos f) (fr_content f)
      in if remaining < 0 then rest
         else take (if remaining < int SB_DATA_SIZE then nat remaining else SB_DATA_SIZE) rest)"

definition FileRoutineContinue :: "Routine \<Rightarrow> FileRoutine \<Rightarrow> Net \<Rightarrow> (nat \<times> Routine \<times> Net) res" where
  "FileRoutineContinue self f net =
     (let d = fileBlock f in
      if SB_DATA_SIZE < length d then Inl BufferOverflow
      else if d \<noteq> [] then
        (let (bytesWrite, sb, net1) = sendBufferWriteData (rBuffer self) net d;
             pos = (if bytesWrite < length d then fr_pos f + bytesWrite else fr_pos f + length d)
         in Inr (bytesWrite, self\<lparr>rBuffer := sb, rType := OfFile (f\<lparr>fr_pos := pos\<rparr>)\<rparr>, net1))
      else Inr (0, self\<lparr>rState := (rState self AND NOT STATE_CONTINUE) OR STATE_FLUSH\<rparr>, net))"

section \<open>Continuing a directory\<close>

text \<open>
  The path of an entry. When the status of an entry can not be had the directory has been freed, and
  whatever the routine does next, reading on or closing, uses it again.
\<close>

definition entryPath :: "Files \<Rightarrow> string \<Rightarrow> PlatformDir \<Rightarrow> PlatformDirEntry \<Rightarrow> string res" where
  "entryPath fs webPath dir entry =
     (if webPath = [] then Inl Uninitialised
      else
        let p = (if last webPath \<noteq> CHR ''/'' then webPath @ ''/'' else webPath) @ d_name entry
        in bindr (platformDirEntryIsDirectory fs entry dir None)
             (\<lambda>(isDir, freed). if freed then Inl UseAfterFree else Inr (if isDir then p @ ''/'' else p)))"

definition emptyDirectory :: string where
  "emptyDirectory = [TAB, TAB, TAB] @ ''<LI>Empty Directory</LI>'' @ [LF]"

text \<open>The end of the list, once there is no further entry.\<close>

definition directoryEnd :: "nat \<Rightarrow> Conn \<Rightarrow> Conn" where
  "directoryEnd count c =
     (let buffer = htmlFooterWrite (htmlListEnd (if count = 0 then Some emptyDirectory else None));
          c2 = (case buffer of
                  Some b \<Rightarrow> (let (r, c1) = httpBodyWriteChunk b c in
                            if r \<noteq> 0 then snd (httpBodyWriteChunkEnding c1) else c1)
                | None \<Rightarrow> snd (httpBodyWriteChunkEnding c))
      in snd (connFlush c2))"

text \<open>
  \<open>n\<close> entries are still to be written in this call; hidden entries do not count. The result is
  \<open>bytesWrite\<close> or 0 at the end, the count, the entries left and the connection.
\<close>

fun dirLoop :: "Files \<Rightarrow> string \<Rightarrow> PlatformDir \<Rightarrow> PlatformDirEntry list \<Rightarrow> nat \<Rightarrow> nat \<Rightarrow> nat \<Rightarrow> Conn \<Rightarrow>
    (nat \<times> nat \<times> PlatformDirEntry list \<times> Conn) res" where
  "dirLoop fs webPath dir es 0 written count c = Inr (written, count, es, snd (connFlush c))"
| "dirLoop fs webPath dir [] (Suc n) written count c = Inr (0, count, [], directoryEnd count c)"
| "dirLoop fs webPath dir (e # es) (Suc n) written count c =
     (if platformDirEntryIsHidden e then dirLoop fs webPath dir es (Suc n) written count c
      else bindr (platformDirEntryGetStats fs e dir)
        (\<lambda>(_, freed).
           if freed then Inl UseAfterFree
           else if length webPath + length (d_name e) + 3 < BUFSIZ then
             bindr (entryPath fs webPath dir e)
               (\<lambda>p. bindr (htmlListWritePathLink None p)
                 (\<lambda>buffer. case buffer of
                    None \<Rightarrow> Inl NullDereference
                  | Some b \<Rightarrow>
                      dirLoop fs webPath dir es n (written + length b) (count + 1) (snd (httpBodyWriteChunk b c))))
           else dirLoop fs webPath dir es n written count c))"

definition DirectoryRoutineContinue ::
    "Files \<Rightarrow> Routine \<Rightarrow> DirectoryRoutine \<Rightarrow> Net \<Rightarrow> (nat \<times> Routine \<times> Net) res" where
  "DirectoryRoutineContinue fs self d net =
     bindr (dirLoop fs (rWebPath self) (dr_directory d) (pd_left (dr_directory d)) 10 0 (dr_count d) (rBuffer self, net))
       (\<lambda>(written, count, es, sb, net1).
          Inr (written,
               self\<lparr>rBuffer := sb,
                    rType := OfDir \<lparr>dr_count = count, dr_directory = (dr_directory d)\<lparr>pd_left := es\<rparr>\<rparr>\<rparr>,
               net1))"

section \<open>One turn of the state machine\<close>

text \<open>
  The sockets that wait until they can be written to again are a set, as \<open>serverDeferredSocketAdd\<close>,
  \<open>serverDeferredSocketExists\<close> and \<open>serverDeferredSocketRemove\<close> keep it.
\<close>

datatype Turn = Stay Routine | Gone Routine

definition is_file :: "Routine \<Rightarrow> bool" where
  "is_file r \<longleftrightarrow> (case rType r of OfFile _ \<Rightarrow> True | _ \<Rightarrow> False)"

definition deferTurn :: "Routine \<Rightarrow> Net \<Rightarrow> nat set \<Rightarrow> Turn \<times> Net \<times> nat set" where
  "deferTurn r net deferred =
     (if sbSocket (rBuffer r) \<in> deferred then (Stay r, net, deferred)
      else if sbFail (rBuffer r) then
        (Stay (r\<lparr>rState := (rState r OR STATE_FAIL) AND NOT STATE_DEFER\<rparr>), net, deferred)
      else
        let (sent, sb, net1) = sendBufferFlush (rBuffer r) net; r1 = r\<lparr>rBuffer := sb\<rparr> in
        if sent = 0 \<or> sbFail sb then (Stay (r1\<lparr>rState := (rState r OR STATE_FAIL) AND NOT STATE_DEFER\<rparr>), net1, deferred)
        else if sbOptions sb AND SOC_BUF_ERR_FULL \<noteq> 0 then (Stay r1, net1, deferred)
        else (Stay (r1\<lparr>rState := (rState r OR STATE_FLUSH) AND NOT STATE_DEFER\<rparr>), net1, deferred))"

definition flushTurn :: "Routine \<Rightarrow> Net \<Rightarrow> nat set \<Rightarrow> Turn \<times> Net \<times> nat set" where
  "flushTurn r net deferred =
     (case sbBuffer (rBuffer r) of
        None \<Rightarrow> (Stay (r\<lparr>rState := (rState r OR STATE_CONTINUE) AND NOT STATE_FLUSH\<rparr>), net, deferred)
      | Some _ \<Rightarrow>
          let (sent, sb, net1) = sendBufferFlush (rBuffer r) net; r1 = r\<lparr>rBuffer := sb\<rparr> in
          if sent = 0 \<and> sbFail sb
          then (Stay (r1\<lparr>rState := (rState r OR STATE_FAIL) AND NOT STATE_FLUSH\<rparr>), net1, deferred)
          else (Stay r1, net1, deferred))"

text \<open>The end of a routine: it is taken off the set, its buffer is dropped and it leaves the array.\<close>

definition endTurn :: "Routine \<Rightarrow> Net \<Rightarrow> nat set \<Rightarrow> Turn \<times> Net \<times> nat set" where
  "endTurn r net deferred =
     (Gone (r\<lparr>rBuffer := sendBufferFailFree (rBuffer r)\<rparr>), net, deferred - {sbSocket (rBuffer r)})"

definition fileTurn :: "Routine \<Rightarrow> FileRoutine \<Rightarrow> Net \<Rightarrow> nat set \<Rightarrow> (Turn \<times> Net \<times> nat set) res" where
  "fileTurn r f net deferred =
     bindr (FileRoutineContinue r f net)
       (\<lambda>(n, r1, net1).
          let sb = rBuffer r1;
              defer = (Stay (r1\<lparr>rState := STATE_DEFER OR TYPE_ROUTINE_FILE\<rparr>), net1, insert (sbSocket sb) deferred)
          in if n \<noteq> 0 \<or> sbOptions sb AND SOC_BUF_ERR_FULL \<noteq> 0 then
               (case sbBuffer sb of
                  Some ms \<Rightarrow> Inr (if SB_DATA_SIZE < platformMemoryStreamTell ms then defer else (Stay r1, net1, deferred))
                | None \<Rightarrow> Inr (Stay r1, net1, deferred))
             else if sbFail sb then Inr (endTurn (r1\<lparr>rState := STATE_FAIL OR TYPE_ROUTINE_FILE\<rparr>) net1 deferred)
             else if sbBuffer sb \<noteq> None then Inr defer
             else Inr (Stay (r1\<lparr>rState := STATE_FINISH OR TYPE_ROUTINE_FILE\<rparr>), net1, deferred))"

definition routineTurn :: "Files \<Rightarrow> Routine \<Rightarrow> Net \<Rightarrow> nat set \<Rightarrow> (Turn \<times> Net \<times> nat set) res" where
  "routineTurn fs r net deferred =
     (let s = rState r in
      if s \<in> {STATE_DEFER OR TYPE_ROUTINE, STATE_DEFER OR TYPE_ROUTINE_FILE, STATE_DEFER OR TYPE_ROUTINE_DIR}
      then Inr (deferTurn r net deferred)
      else if s \<in> {STATE_FLUSH OR TYPE_ROUTINE, STATE_FLUSH OR TYPE_ROUTINE_FILE, STATE_FLUSH OR TYPE_ROUTINE_DIR}
      then Inr (flushTurn r net deferred)
      else if s = STATE_CONTINUE OR TYPE_ROUTINE
      then Inr (Stay (r\<lparr>rState := (s OR STATE_FINISH) AND NOT STATE_CONTINUE\<rparr>), net, deferred)
      else if s = STATE_CONTINUE OR TYPE_ROUTINE_FILE
      then (case rType r of OfFile f \<Rightarrow> fileTurn r f net deferred | _ \<Rightarrow> Inl Uninitialised)
      else if s = STATE_CONTINUE OR TYPE_ROUTINE_DIR
      then (case rType r of
              OfDir d \<Rightarrow>
                bindr (DirectoryRoutineContinue fs r d net)
                  (\<lambda>(n, r1, net1). Inr (if n \<noteq> 0 then (Stay r1, net1, deferred) else endTurn r1 net1 deferred))
            | _ \<Rightarrow> Inl Uninitialised)
      else if s \<in> {STATE_FINISH OR TYPE_ROUTINE_FILE, STATE_FAIL OR TYPE_ROUTINE_FILE,
                   STATE_FINISH OR TYPE_ROUTINE_DIR, STATE_FAIL OR TYPE_ROUTINE_DIR,
                   STATE_FINISH OR TYPE_ROUTINE, STATE_FAIL OR TYPE_ROUTINE}
      then Inr (endTurn r net deferred)
      else Inr (Stay r, net, deferred))"

text \<open>The event a routine that is gone has caused, if any.\<close>

definition goneEvents :: "Routine \<Rightarrow> Event list" where
  "goneEvents r =
     (if rState r AND TYPE_ROUTINE \<noteq> 0 then []
      else eventHttpFinishInvoke (sbSocket (rBuffer r)) (rWebPath r) httpGet (if rState r AND STATE_FAIL \<noteq> 0 then 1 else 0))"

section \<open>The array and the tick\<close>

text \<open>\<open>size\<close> is kept beside the elements, since \<open>RoutineArrayAdd\<close> counts before it allocates.\<close>

record RoutineArray =
  raSize :: nat
  raArray :: "Routine list"

definition RoutineArrayAdd :: "bool \<Rightarrow> RoutineArray \<Rightarrow> Routine \<Rightarrow> bool \<times> RoutineArray" where
  "RoutineArrayAdd allocated self r =
     (let self1 = self\<lparr>raSize := raSize self + 1\<rparr> in
      if allocated then (False, self1\<lparr>raArray := raArray self @ [r]\<rparr>) else (True, self1))"

definition RoutineArrayDelIdx :: "RoutineArray \<Rightarrow> nat \<Rightarrow> RoutineArray" where
  "RoutineArrayDelIdx self i =
     \<lparr>raSize = raSize self - 1, raArray = take i (raArray self) @ drop (i + 1) (raArray self)\<rparr>"

fun findSocket :: "nat \<Rightarrow> nat \<Rightarrow> Routine list \<Rightarrow> nat option" where
  "findSocket sock i [] = None"
| "findSocket sock i (r # rs) = (if sbSocket (rBuffer r) = sock then Some i else findSocket sock (i + 1) rs)"

definition RoutineArrayDelSocket :: "RoutineArray \<Rightarrow> nat \<Rightarrow> RoutineArray" where
  "RoutineArrayDelSocket self sock =
     (case findSocket sock 0 (raArray self) of Some i \<Rightarrow> RoutineArrayDelIdx self i | None \<Rightarrow> self)"

record Server =
  svRoutines :: RoutineArray
  svNet :: Net
  svDeferred :: "nat set"
  svEvents :: "Event list"

text \<open>The loop from index \<open>i\<close> on. After a removal the next routine has moved to \<open>i\<close>, and \<open>++i\<close> passes it by.\<close>

function tickLoop :: "Files \<Rightarrow> nat \<Rightarrow> Server \<Rightarrow> Server res" where
  "tickLoop fs i sv =
     (let ra = svRoutines sv in
      if raSize ra \<le> i then Inr sv
      else if length (raArray ra) \<le> i then Inl OutOfBounds
      else (case routineTurn fs (raArray ra ! i) (svNet sv) (svDeferred sv) of
              Inl e \<Rightarrow> Inl e
            | Inr (Stay r, net, deferred) \<Rightarrow>
                tickLoop fs (i + 1) (sv\<lparr>svRoutines := ra\<lparr>raArray := (raArray ra)[i := r]\<rparr>, svNet := net, svDeferred := deferred\<rparr>)
            | Inr (Gone r, net, deferred) \<Rightarrow>
                tickLoop fs (i + 1) (sv\<lparr>svRoutines := RoutineArrayDelIdx ra i, svNet := net, svDeferred := deferred,
                                       svEvents := svEvents sv @ goneEvents r\<rparr>)))"
  by pat_completeness auto
termination
  by (relation "measure (\<lambda>(fs, i, sv). raSize (svRoutines sv) - i)")
     (auto simp: RoutineArrayDelIdx_def)

declare tickLoop.simps [simp del]

definition RoutineTick :: "Files \<Rightarrow> Server \<Rightarrow> Server res" where
  "RoutineTick fs sv = tickLoop fs 0 sv"

section \<open>The states of a file routine\<close>

abbreviation FLUSHING :: "8 word" where "FLUSHING \<equiv> STATE_FLUSH OR TYPE_ROUTINE_FILE"
abbreviation CONTINUING :: "8 word" where "CONTINUING \<equiv> STATE_CONTINUE OR TYPE_ROUTINE_FILE"
abbreviation DEFERRED :: "8 word" where "DEFERRED \<equiv> STATE_DEFER OR TYPE_ROUTINE_FILE"
abbreviation FINISHED :: "8 word" where "FINISHED \<equiv> STATE_FINISH OR TYPE_ROUTINE_FILE"
abbreviation FAILED :: "8 word" where "FAILED \<equiv> STATE_FAIL OR TYPE_ROUTINE_FILE"

lemma file_state_steps:
  "(FLUSHING OR STATE_CONTINUE) AND NOT STATE_FLUSH = CONTINUING"
  "(FLUSHING OR STATE_FAIL) AND NOT STATE_FLUSH = FAILED"
  "(DEFERRED OR STATE_FAIL) AND NOT STATE_DEFER = FAILED"
  "(DEFERRED OR STATE_FLUSH) AND NOT STATE_DEFER = FLUSHING"
  "(CONTINUING AND NOT STATE_CONTINUE) OR STATE_FLUSH = FLUSHING"
  by (simp_all add: state_defs)

lemma file_states_FAIL:
  "FAILED AND STATE_FAIL \<noteq> 0" "FINISHED AND STATE_FAIL = 0" "FINISHED AND TYPE_ROUTINE = 0" "FAILED AND TYPE_ROUTINE = 0"
  by (simp_all add: state_defs)

lemma routineTurn_file:
  "rState r = FLUSHING \<Longrightarrow> routineTurn fs r net D = Inr (flushTurn r net D)"
  "rState r = DEFERRED \<Longrightarrow> routineTurn fs r net D = Inr (deferTurn r net D)"
  "rState r = CONTINUING \<Longrightarrow> rType r = OfFile f \<Longrightarrow> routineTurn fs r net D = fileTurn r f net D"
  "rState r = FINISHED \<or> rState r = FAILED \<Longrightarrow> routineTurn fs r net D = Inr (endTurn r net D)"
  by (auto simp: routineTurn_def state_defs)

section \<open>Runs of one transfer\<close>

text \<open>
  One file routine among everything else that happens: its own turns, the multiplexer finding its
  socket writable again, and the network, which decides on further answers. Turns of other
  routines use other sockets and are covered by the last rule.
\<close>

inductive fileRun :: "Files \<Rightarrow> Routine \<times> Net \<times> nat set \<Rightarrow> Routine \<times> Net \<times> nat set \<Rightarrow> bool" for fs x where
  start: "fileRun fs x x"
| turn: "fileRun fs x (r, net, D) \<Longrightarrow> routineTurn fs r net D = Inr (Stay r1, net1, D1) \<Longrightarrow> fileRun fs x (r1, net1, D1)"
| writable: "fileRun fs x (r, net, D) \<Longrightarrow> fileRun fs x (r, net, D - {s})"
| network: "fileRun fs x (r, net, D) \<Longrightarrow> chWire (net1 (sbSocket (rBuffer r))) = chWire (net (sbSocket (rBuffer r))) \<Longrightarrow>
             fileRun fs x (r, net1, D1)"

text \<open>
  The invariant of a transfer of \<open>content\<close> from \<open>a\<close> to \<open>b\<close> on a stream that held \<open>base\<close>: what has been
  given to the stream is exactly what has been read, failures show in the state, and a finished
  transfer has read everything and has nothing pending.
\<close>

definition fileInv :: "nat \<Rightarrow> string \<Rightarrow> nat \<Rightarrow> nat \<Rightarrow> string \<Rightarrow> Routine \<Rightarrow> Net \<Rightarrow> bool" where
  "fileInv s base a b content r net \<longleftrightarrow>
     (\<exists>f. rType r = OfFile f \<and> fr_content f = content \<and> fr_end f = int b \<and> a \<le> fr_pos f \<and> fr_pos f \<le> b \<and>
          sbStream (rBuffer r) net = base @ take (fr_pos f - a) (drop a content) \<and>
          (rState r = FINISHED \<longrightarrow> fr_pos f = b)) \<and>
     sbOk (rBuffer r) \<and> sbSocket (rBuffer r) = s \<and>
     rState r \<in> {FLUSHING, CONTINUING, DEFERRED, FINISHED, FAILED} \<and>
     (sbFail (rBuffer r) \<longrightarrow> rState r = FAILED) \<and> (rState r = FINISHED \<longrightarrow> sbBuffer (rBuffer r) = None)"

lemma fileInv_new:
  assumes "sbOk sb" "\<not> sbFail sb" "a \<le> b"
  shows "fileInv (sbSocket sb) (sbStream sb net) a b content (FileRoutineNew sb content (int a) (int b) web) net"
proof -
  have "TYPE_ROUTINE_FILE OR STATE_FLUSH = FLUSHING" "FLUSHING \<noteq> FINISHED" by (simp_all add: state_defs)
  with assms show ?thesis by (simp add: fileInv_def FileRoutineNew_def)
qed

lemma fileInv_net:
  "fileInv s base a b content r net \<Longrightarrow> chWire (net1 s) = chWire (net s) \<Longrightarrow> fileInv s base a b content r net1"
  by (auto simp: fileInv_def sbStream_def)

text \<open>A turn that only flushes.\<close>

lemma fileInv_flush:
  assumes inv: "fileInv s base a b content r net" and fl: "sendBufferFlush (rBuffer r) net = (n, sb, net1)"
    and st: "q \<in> {FLUSHING, CONTINUING, DEFERRED, FAILED}" "sbFail sb \<longrightarrow> q = FAILED"
  shows "fileInv s base a b content (r\<lparr>rBuffer := sb, rState := q\<rparr>) net1"
proof -
  from inv have ok: "sbOk (rBuffer r)" by (simp add: fileInv_def)
  have "FINISHED \<noteq> FLUSHING \<and> FINISHED \<noteq> CONTINUING \<and> FINISHED \<noteq> DEFERRED \<and> FINISHED \<noteq> FAILED"
    by (simp add: state_defs)
  with st(1) have q: "q \<noteq> FINISHED" by auto
  have "q \<in> {FLUSHING, CONTINUING, DEFERRED, FINISHED, FAILED}" using st(1) by auto
  with q show ?thesis
    using inv st(2) sendBufferFlush_lossless [OF ok fl] sendBufferFlush_socket [OF ok fl]
    unfolding fileInv_def by simp blast
qed


text \<open>A flush that fails reports 0, unless the buffer had failed before.\<close>

lemma flushLoop_fail:
  "flushLoop self ms net m = (n, sb, net1) \<Longrightarrow> \<not> sbFail self \<Longrightarrow> sbFail sb \<Longrightarrow> n = 0"
proof (induction self ms net m rule: flushLoop.induct)
  case (1 self ms net m)
  obtain d ms1 where d: "msRead ms SB_DATA_SIZE = (d, ms1)" by fastforce
  show ?case
  proof (cases "d = []")
    case True
    with 1 d show ?thesis by (auto simp: flushLoop.simps)
  next
    case ne: False
    obtain x net2 where x: "sock_send net (sbSocket self) d = (x, net2)" by fastforce
    show ?thesis
    proof (cases x)
      case (Accepts k)
      show ?thesis
      proof (cases "k < length d")
        case True
        with 1(2-) d ne x Accepts show ?thesis by (auto simp: flushLoop.simps)
      next
        case False
        with "1.IH" [OF d [symmetric] refl ne x [symmetric] Accepts False] 1(2-) d ne x Accepts show ?thesis
          by (simp add: flushLoop.simps [of self ms net m])
      qed
    qed (use 1(2-) d ne x in \<open>auto simp: flushLoop.simps\<close>)
  qed
qed

lemma flushFail_zero:
  "\<not> sbFail self \<Longrightarrow> sendBufferFlush self net = (n, sb, net1) \<Longrightarrow> sbFail sb \<Longrightarrow> n = 0"
  by (auto simp: sendBufferFlush_def split: option.splits dest: flushLoop_fail)

lemma fileInv_deferTurn:
  assumes "fileInv s base a b content r net" "rState r = DEFERRED" "deferTurn r net D = (t, net1, D1)"
  shows "\<exists>r1. t = Stay r1 \<and> fileInv s base a b content r1 net1"
proof (cases "sbSocket (rBuffer r) \<in> D")
  case True
  with assms show ?thesis by (auto simp: deferTurn_def)
next
  case False
  have nf: "\<not> sbFail (rBuffer r)" using assms(1,2) by (auto simp: fileInv_def state_defs)
  obtain n sb net2 where fl: "sendBufferFlush (rBuffer r) net = (n, sb, net2)" by (cases "sendBufferFlush (rBuffer r) net")
  show ?thesis
  proof (cases "n = 0 \<or> sbFail sb")
    case True
    with False nf fl assms(2,3) have "t = Stay (r\<lparr>rBuffer := sb, rState := FAILED\<rparr>)" "net1 = net2"
      by (simp_all add: deferTurn_def file_state_steps)
    with fileInv_flush [OF assms(1) fl, of FAILED] show ?thesis by simp
  next
    case ok: False
    show ?thesis
    proof (cases "sbOptions sb AND SOC_BUF_ERR_FULL \<noteq> 0")
      case True
      with False nf ok fl assms(2,3) have "t = Stay (r\<lparr>rBuffer := sb, rState := DEFERRED\<rparr>)" "net1 = net2"
        by (auto simp: deferTurn_def)
      with fileInv_flush [OF assms(1) fl, of DEFERRED] ok show ?thesis by simp
    next
      case full: False
      with False nf ok fl assms(2,3) have "t = Stay (r\<lparr>rBuffer := sb, rState := FLUSHING\<rparr>)" "net1 = net2"
        by (auto simp: deferTurn_def file_state_steps)
      with fileInv_flush [OF assms(1) fl, of FLUSHING] ok show ?thesis by simp
    qed
  qed
qed

lemma fileInv_flushTurn:
  assumes "fileInv s base a b content r net" "rState r = FLUSHING" "flushTurn r net D = (t, net1, D1)"
  shows "\<exists>r1. t = Stay r1 \<and> fileInv s base a b content r1 net1"
proof (cases "sbBuffer (rBuffer r)")
  case None
  with assms(2,3) have "t = Stay (r\<lparr>rState := CONTINUING\<rparr>)" "net1 = net"
    by (simp_all add: flushTurn_def file_state_steps)
  moreover have "\<not> sbFail (rBuffer r)" "CONTINUING \<noteq> FINISHED" using assms(1,2) by (auto simp: fileInv_def state_defs)
  ultimately show ?thesis using assms(1) by (auto simp: fileInv_def)
next
  case (Some ms)
  have nf: "\<not> sbFail (rBuffer r)" using assms(1,2) by (auto simp: fileInv_def state_defs)
  obtain n sb net2 where fl: "sendBufferFlush (rBuffer r) net = (n, sb, net2)" by (cases "sendBufferFlush (rBuffer r) net")
  show ?thesis
  proof (cases "sbFail sb")
    case True
    then have "n = 0" using flushFail_zero [OF _ fl] nf by simp
    with True Some fl assms(2,3) have "t = Stay (r\<lparr>rBuffer := sb, rState := FAILED\<rparr>)" "net1 = net2"
      by (simp_all add: flushTurn_def file_state_steps)
    with fileInv_flush [OF assms(1) fl, of FAILED] show ?thesis by simp
  next
    case False
    with Some fl assms(2,3) have "t = Stay (r\<lparr>rBuffer := sb, rState := FLUSHING\<rparr>)" "net1 = net2"
      by (auto simp: flushTurn_def)
    with fileInv_flush [OF assms(1) fl, of FLUSHING] False show ?thesis by simp
  qed
qed


lemma sendBufferWriteData_options:
  "sendBufferWriteData self net d = (n, sb, net1) \<Longrightarrow> n \<noteq> 0 \<Longrightarrow> sbOptions sb = sbOptions self"
  by (auto simp: sendBufferWriteData_def Let_def split: option.splits prod.splits SendAnswer.splits)

lemma fileBlock_eq:
  assumes "fr_content f = content" "fr_end f = int b" "fr_pos f \<le> b"
  shows "fileBlock f = take (min (b - fr_pos f) SB_DATA_SIZE) (drop (fr_pos f) content)"
proof -
  have "nat (int b - int (fr_pos f)) = b - fr_pos f" by simp
  moreover have "int b - int (fr_pos f) < int SB_DATA_SIZE \<longleftrightarrow> b - fr_pos f < SB_DATA_SIZE"
    "\<not> int b - int (fr_pos f) < 0" using assms(3) by auto
  ultimately show ?thesis unfolding fileBlock_def Let_def assms(1,2) by (simp add: min_def)
qed

lemma take_block:
  assumes "a \<le> p" "n \<le> length content - p"
  shows "take (p - a) (drop a content) @ take n (drop p content) = take (p + n - a) (drop a content)"
proof -
  have "take (p + n - a) (drop a content) = take ((p - a) + n) (drop a content)" using assms(1) by simp
  also have "\<dots> = take (p - a) (drop a content) @ take n (drop (p - a) (drop a content))" by (rule take_add)
  also have "drop (p - a) (drop a content) = drop p content" using assms(1) by simp
  finally show ?thesis by simp
qed

lemma fileInv_fileTurn:
  assumes inv: "fileInv s base a b content r net" and st: "rState r = CONTINUING" and f: "rType r = OfFile f"
    and b: "b \<le> length content"
  shows "\<exists>t net1 D1. fileTurn r f net D = Inr (t, net1, D1) \<and>
    (case t of Stay r1 \<Rightarrow> fileInv s base a b content r1 net1 | Gone r1 \<Rightarrow> rState r1 = FAILED)"
proof -
  from inv f have fc: "fr_content f = content" "fr_end f = int b" "a \<le> fr_pos f" "fr_pos f \<le> b"
    "sbStream (rBuffer r) net = base @ take (fr_pos f - a) (drop a content)"
    and ok: "sbOk (rBuffer r)" "sbSocket (rBuffer r) = s"
    by (auto simp: fileInv_def)
  have nf: "\<not> sbFail (rBuffer r)" using inv st by (auto simp: fileInv_def state_defs)
  have ne: "CONTINUING \<noteq> FINISHED" "FLUSHING \<noteq> FINISHED" "DEFERRED \<noteq> FINISHED" by (simp_all add: state_defs)
  define d where "d = fileBlock f"
  have d: "d = take (min (b - fr_pos f) SB_DATA_SIZE) (drop (fr_pos f) content)"
    unfolding d_def using fc by (intro fileBlock_eq)
  have ld: "length d = min (b - fr_pos f) SB_DATA_SIZE" using d b fc(4) by simp
  show ?thesis
  proof (cases "d = []")
    case True
    then have pos: "fr_pos f = b" using ld fc(4) by (auto simp: SB_DATA_SIZE_def min_def split: if_splits)
    have c: "FileRoutineContinue r f net = Inr (0, r\<lparr>rState := FLUSHING\<rparr>, net)"
      using True st file_state_steps(5) by (simp add: FileRoutineContinue_def d_def)
    have stay: "fileInv s base a b content (r\<lparr>rState := q\<rparr>) net"
      if "q \<in> {FLUSHING, DEFERRED, FINISHED}" "q = FINISHED \<longrightarrow> sbBuffer (rBuffer r) = None" for q
      using inv f pos that nf by (auto simp: fileInv_def)
    show ?thesis
      using stay [of FLUSHING] stay [of DEFERRED] stay [of FINISHED] nf ne
      by (cases "sbBuffer (rBuffer r)") (auto simp: fileTurn_def c Let_def)
  next
    case False
    obtain n sb net1 where w: "sendBufferWriteData (rBuffer r) net d = (n, sb, net1)"
      by (cases "sendBufferWriteData (rBuffer r) net d")
    note k = sendBufferWriteData_keeps [OF ok(1) w]
    have len: "\<not> SB_DATA_SIZE < length d" using ld by simp
    show ?thesis
    proof (cases "n = 0")
      case True
      with k False have fail: "sbFail sb" by auto
      have c: "FileRoutineContinue r f net = Inr (0, r\<lparr>rBuffer := sb, rType := OfFile (f\<lparr>fr_pos := fr_pos f\<rparr>)\<rparr>, net1)"
        using w True False len by (simp add: FileRoutineContinue_def d_def Let_def)
      show ?thesis
      proof (cases "sbOptions sb AND SOC_BUF_ERR_FULL \<noteq> 0")
        case True
        have "sbOptions sb = SOC_BUF_ERR_FAIL"
          using w \<open>n = 0\<close> False by (auto simp: sendBufferWriteData_def Let_def split: option.splits prod.splits SendAnswer.splits)
        with True show ?thesis by (simp add: SOC_BUF_ERR_FAIL_def SOC_BUF_ERR_FULL_def)
      next
        case False
        with c fail show ?thesis by (simp add: fileTurn_def endTurn_def)
      qed
    next
      case nz: False
      with k have n: "n = length d" "sbStream sb net1 = sbStream (rBuffer r) net @ d" by auto
      have opt: "\<not> sbFail sb" using sendBufferWriteData_options [OF w nz] nf by (simp add: sbFail_def)
      have c: "FileRoutineContinue r f net = Inr (n, r\<lparr>rBuffer := sb, rType := OfFile (f\<lparr>fr_pos := fr_pos f + n\<rparr>)\<rparr>, net1)"
        using w n False len by (simp add: FileRoutineContinue_def d_def Let_def)
      have "take (fr_pos f - a) (drop a content) @ d = take (fr_pos f + n - a) (drop a content)"
        using take_block [OF fc(3), of n content] n(1) ld d b fc(4) by simp
      then have stay: "fileInv s base a b content (r\<lparr>rBuffer := sb, rType := OfFile (f\<lparr>fr_pos := fr_pos f + n\<rparr>), rState := q\<rparr>) net1"
        if "q \<in> {CONTINUING, DEFERRED}" for q
        using inv f that k n opt fc ld ne ok by (auto simp: fileInv_def)
      have same: "r\<lparr>rBuffer := sb, rType := T, rState := CONTINUING\<rparr> = r\<lparr>rBuffer := sb, rType := T\<rparr>" for T
        using st by (cases r) simp
      show ?thesis
        using stay [of CONTINUING, unfolded same] stay [of DEFERRED] c nz st
        by (cases "sbBuffer sb") (auto simp: fileTurn_def Let_def)
    qed
  qed
qed

lemma fileInv_turn:
  assumes "fileInv s base a b content r net" "b \<le> length content"
  shows "\<exists>t net1 D1. routineTurn fs r net D = Inr (t, net1, D1) \<and>
    (case t of Stay r1 \<Rightarrow> fileInv s base a b content r1 net1
     | Gone r1 \<Rightarrow> rState r1 = FAILED \<or> rState r = FINISHED \<and> rState r1 = FINISHED \<and> net1 = net)"
proof -
  obtain f where f: "rType r = OfFile f" using assms(1) by (auto simp: fileInv_def)
  have "rState r = FLUSHING \<or> rState r = CONTINUING \<or> rState r = DEFERRED \<or> rState r = FINISHED \<or> rState r = FAILED"
    using assms(1) by (auto simp: fileInv_def)
  then consider (flush) "rState r = FLUSHING" | (cont) "rState r = CONTINUING" | (dfr) "rState r = DEFERRED"
    | (fin) "rState r = FINISHED" | (fail) "rState r = FAILED" by blast
  then show ?thesis
  proof cases
    case flush
    then show ?thesis using fileInv_flushTurn [OF assms(1) flush, of D] routineTurn_file(1) [OF flush]
      by (cases "flushTurn r net D") auto
  next
    case cont
    then show ?thesis using fileInv_fileTurn [OF assms(1) cont f assms(2), of D] routineTurn_file(3) [OF cont f]
      by (auto split: Turn.splits)
  next
    case dfr
    then show ?thesis using fileInv_deferTurn [OF assms(1) dfr, of D] routineTurn_file(2) [OF dfr]
      by (cases "deferTurn r net D") auto
  next
    case fin
    then show ?thesis using routineTurn_file(4) [of r] by (simp add: endTurn_def)
  next
    case fail
    then show ?thesis using routineTurn_file(4) [of r] by (simp add: endTurn_def)
  qed
qed

lemma fileRun_inv:
  assumes "fileRun fs x y" "fileInv s base a b content (fst x) (fst (snd x))" "b \<le> length content"
  shows "fileInv s base a b content (fst y) (fst (snd y))"
  using assms
proof (induction rule: fileRun.induct)
  case (turn r net D r1 net1 D1)
  then have "fileInv s base a b content r net" by simp
  from fileInv_turn [OF this turn.prems(2), of fs D] turn.hyps(2) show ?case by auto
next
  case (network r net D net1 D1)
  then have "fileInv s base a b content r net" by simp
  moreover from this have "sbSocket (rBuffer r) = s" by (simp add: fileInv_def)
  ultimately show ?case using network.hyps(2) fileInv_net by simp
qed auto

inductive_cases fileRun_stepE: "fileRun fs x (r, net, D)"

lemma fileRun_delivered:
  assumes "sbOk sb" "\<not> sbFail sb" "a \<le> b" "b \<le> length content"
    and "fileRun fs (FileRoutineNew sb content (int a) (int b) web, net0, D0) (r, net, D)"
    and "routineTurn fs r net D = Inr (Gone r1, net1, D1)" "rState r1 AND STATE_FAIL = 0"
  shows "chWire (net1 (sbSocket sb)) = sbStream sb net0 @ take (b - a) (drop a content)"
proof -
  have inv: "fileInv (sbSocket sb) (sbStream sb net0) a b content r net"
    using fileRun_inv [OF assms(5)] fileInv_new [OF assms(1,2,3)] assms(4) by simp
  have "rState r1 \<noteq> FAILED" using assms(7) file_states_FAIL(1) by auto
  then have fin: "rState r = FINISHED" "net1 = net"
    using fileInv_turn [OF inv assms(4), of fs D] assms(6) by auto
  then have "sbBuffer (rBuffer r) = None" "sbSocket (rBuffer r) = sbSocket sb"
    "sbStream (rBuffer r) net = sbStream sb net0 @ take (b - a) (drop a content)"
    using inv by (auto simp: fileInv_def)
  with fin show ?thesis by (simp add: sbStream_def sbPending_def)
qed

text \<open>
  C6. When a transfer of the bytes \<open>a\<close> to \<open>b\<close> of a file ends without the failure mark, the client has
  been sent exactly those bytes after what was on the stream before, however the network delayed,
  split or interleaved the sending.
\<close>

theorem file_routine_delivers:
  assumes "sbOk sb" "\<not> sbFail sb" "a \<le> b" "b \<le> length content"
    and "fileRun fs (FileRoutineNew sb content (int a) (int b) web, net0, D0) (r, net, D)"
    and "routineTurn fs r net D = Inr (Gone r1, net1, D1)" "rState r1 AND STATE_FAIL = 0"
  shows "chWire (net1 (sbSocket sb)) = sbStream sb net0 @ take (b - a) (drop a content)"
  by (rule fileRun_delivered [OF assms])

text \<open>
  A transfer of a range inside the file never runs into undefined behaviour: every turn of the
  state machine succeeds.
\<close>

theorem file_routine_no_fault:
  assumes "sbOk sb" "\<not> sbFail sb" "a \<le> b" "b \<le> length content"
    and "fileRun fs (FileRoutineNew sb content (int a) (int b) web, net0, D0) (r, net, D)"
  shows "\<exists>t net1 D1. routineTurn fs r net D = Inr (t, net1, D1)"
proof -
  have "fileInv (sbSocket sb) (sbStream sb net0) a b content r net"
    using fileRun_inv [OF assms(5)] fileInv_new [OF assms(1,2,3)] assms(4) by simp
  from fileInv_turn [OF this assms(4), of fs D] show ?thesis by auto
qed

text \<open>Several turns of a routine in a row.\<close>

primrec turns :: "Files \<Rightarrow> nat \<Rightarrow> Routine \<times> Net \<times> nat set \<Rightarrow> (Routine \<times> Net \<times> nat set) option" where
  "turns fs 0 x = Some x"
| "turns fs (Suc n) x =
     (case turns fs n x of
        None \<Rightarrow> None
      | Some (r, net, D) \<Rightarrow> (case routineTurn fs r net D of Inr (Stay r1, net1, D1) \<Rightarrow> Some (r1, net1, D1) | _ \<Rightarrow> None))"

lemma turns_fileRun: "turns fs n x = Some y \<Longrightarrow> fileRun fs x y"
proof (induction n arbitrary: y)
  case (Suc n)
  then obtain r net D where p: "turns fs n x = Some (r, net, D)" by (auto split: option.splits)
  with Suc.prems obtain r1 net1 D1 where "routineTurn fs r net D = Inr (Stay r1, net1, D1)" "y = (r1, net1, D1)"
    by (auto split: sum.splits prod.splits Turn.splits)
  with Suc.IH [OF p] show ?case by (auto intro: fileRun.turn)
qed (auto intro: fileRun.start)

definition exampleNet :: Net where
  "exampleNet = (\<lambda>_. \<lparr>chAnswers = [Accepts 2, Accepts 9], chWire = ''head''\<rparr>)"

text \<open>Three turns up to the point where the socket blocks, the socket becoming writable, three more turns.\<close>

definition exampleRun :: "(Routine \<times> Net \<times> nat set) option" where
  "exampleRun =
     (case turns (\<lambda>_. None) 3 (FileRoutineNew (sendBufferNew 4 0) ''abcdef'' 1 5 ''/f'', exampleNet, {}) of
        Some (r, net, D) \<Rightarrow> turns (\<lambda>_. None) 3 (r, net, D - {4}) | None \<Rightarrow> None)"

lemma fileRun_trans: "fileRun fs y z \<Longrightarrow> fileRun fs x y \<Longrightarrow> fileRun fs x z"
  by (induction rule: fileRun.induct) (auto intro: fileRun.intros)

lemma exampleRun_fileRun:
  assumes "exampleRun = Some y"
  shows "fileRun (\<lambda>_. None) (FileRoutineNew (sendBufferNew 4 0) ''abcdef'' 1 5 ''/f'', exampleNet, {}) y"
proof -
  from assms obtain r net D where
    t: "turns (\<lambda>_. None) 3 (FileRoutineNew (sendBufferNew 4 0) ''abcdef'' 1 5 ''/f'', exampleNet, {}) = Some (r, net, D)"
    and u: "turns (\<lambda>_. None) 3 (r, net, D - {4}) = Some y"
    unfolding exampleRun_def by (auto split: option.splits)
  from fileRun.writable [OF turns_fileRun [OF t]] turns_fileRun [OF u] show ?thesis
    by (blast intro: fileRun_trans)
qed

lemma exampleRun_ends:
  "\<exists>r net D r1 net1 D1. exampleRun = Some (r, net, D) \<and>
     routineTurn (\<lambda>_. None) r net D = Inr (Gone r1, net1, D1) \<and> rState r1 AND STATE_FAIL = 0"
proof -
  have c: "(case exampleRun of
           Some (r, net, D) \<Rightarrow> (case routineTurn (\<lambda>_. None) r net D of
              Inr (Gone r1, net1, D1) \<Rightarrow> rState r1 AND STATE_FAIL = 0 | _ \<Rightarrow> False)
         | None \<Rightarrow> False)"
    by code_simp
  then obtain r net D where e: "exampleRun = Some (r, net, D)" by (cases exampleRun) auto
  from c have c2: "case routineTurn (\<lambda>_. None) r net D of
      Inr (Gone r1, net1, D1) \<Rightarrow> rState r1 AND STATE_FAIL = 0 | _ \<Rightarrow> False"
    unfolding e by simp
  then obtain y where y: "routineTurn (\<lambda>_. None) r net D = Inr y"
    by (cases "routineTurn (\<lambda>_. None) r net D") auto
  obtain t net1 D1 where "y = (t, net1, D1)" by (cases y)
  with c2 y obtain r1 where "t = Gone r1" "rState r1 AND STATE_FAIL = 0" "y = (Gone r1, net1, D1)" by (cases t) auto
  with e y show ?thesis by blast
qed

lemma file_routine_delivers_witness:
  "\<exists>r net D r1 net1 D1.
     fileRun (\<lambda>_. None) (FileRoutineNew (sendBufferNew 4 0) ''abcdef'' 1 5 ''/f'', exampleNet, {}) (r, net, D) \<and>
     routineTurn (\<lambda>_. None) r net D = Inr (Gone r1, net1, D1) \<and> chWire (net1 4) = ''headbcde''"
proof -
  from exampleRun_ends obtain r net D r1 net1 D1 where e: "exampleRun = Some (r, net, D)"
    "routineTurn (\<lambda>_. None) r net D = Inr (Gone r1, net1, D1)" "rState r1 AND STATE_FAIL = 0" by blast
  have run: "fileRun (\<lambda>_. None) (FileRoutineNew (sendBufferNew 4 0) ''abcdef'' (int 1) (int 5) ''/f'', exampleNet, {}) (r, net, D)"
    using exampleRun_fileRun [OF e(1)] by simp
  have "chWire (net1 (sbSocket (sendBufferNew 4 0))) = sbStream (sendBufferNew 4 0) exampleNet @ take (5 - 1) (drop 1 ''abcdef'')"
    using file_routine_delivers [OF _ _ _ _ run e(2,3)] by (simp add: sendBufferNew_def sbOk_def sbFail_def)
  then have "chWire (net1 4) = ''headbcde''"
    by (simp add: sbStream_def sbPending_def sendBufferNew_def exampleNet_def)
  with run e(2) show ?thesis by simp blast
qed

lemma file_routine_no_fault_witness:
  "\<exists>t net1 D1. routineTurn (\<lambda>_. None) (FileRoutineNew (sendBufferNew 4 0) ''abcdef'' 1 5 ''/f'') exampleNet {} = Inr (t, net1, D1)"
  using file_routine_no_fault [OF _ _ _ _ fileRun.start, of "sendBufferNew 4 0" 1 5 "''abcdef''" "\<lambda>_. None" "''/f''" exampleNet "{}"]
  by (simp add: sendBufferNew_def sbOk_def sbFail_def)

section \<open>The array\<close>

definition raOk :: "RoutineArray \<Rightarrow> bool" where
  "raOk ra \<longleftrightarrow> raSize ra = length (raArray ra)"

lemma raOk_add: "raOk ra \<Longrightarrow> raOk (snd (RoutineArrayAdd True ra r))"
  by (simp add: raOk_def RoutineArrayAdd_def)

lemma raOk_del: "raOk ra \<Longrightarrow> i < raSize ra \<Longrightarrow> raOk (RoutineArrayDelIdx ra i)"
  by (simp add: raOk_def RoutineArrayDelIdx_def)

lemma findSocket_bound: "findSocket sock i rs = Some k \<Longrightarrow> i \<le> k \<and> k < i + length rs"
  by (induction rs arbitrary: i) (fastforce split: if_splits)+

lemma raOk_delSocket: "raOk ra \<Longrightarrow> raOk (RoutineArrayDelSocket ra sock)"
  using findSocket_bound [of sock 0 "raArray ra"] raOk_del
  by (auto simp: RoutineArrayDelSocket_def raOk_def split: option.splits)

lemma tickLoop_raOk:
  "raOk (svRoutines sv) \<Longrightarrow> tickLoop fs i sv = Inr sv1 \<Longrightarrow> raOk (svRoutines sv1) \<and> raSize (svRoutines sv1) \<le> raSize (svRoutines sv)"
proof (induction fs i sv rule: tickLoop.induct)
  case (1 fs i sv)
  let ?ra = "svRoutines sv"
  show ?case
  proof (cases "raSize ?ra \<le> i")
    case True
    with 1 show ?thesis by (subst (asm) tickLoop.simps) auto
  next
    case False
    with "1.prems"(1) have l: "\<not> length (raArray ?ra) \<le> i" by (simp add: raOk_def)
    obtain t net D where t: "routineTurn fs (raArray ?ra ! i) (svNet sv) (svDeferred sv) = Inr (t, net, D)"
      using "1.prems"(2) False l
      by (subst (asm) tickLoop.simps) (auto simp: Let_def split: sum.splits)
    show ?thesis
    proof (cases t)
      case (Stay r)
      from "1.IH"(1) [OF refl False l t refl Stay refl] Stay False l t "1.prems" show ?thesis
        by (simp add: tickLoop.simps [of fs i sv] Let_def raOk_def)
    next
      case (Gone r)
      from "1.IH"(2) [OF refl False l t refl Gone refl] Gone False l t "1.prems" show ?thesis
        using raOk_del [of ?ra i]
        by (simp add: tickLoop.simps [of fs i sv] Let_def) (auto simp: RoutineArrayDelIdx_def)
    qed
  qed
qed


text \<open>
  C32. The array and its size stay in step over a tick, so that the loop never reads behind the array,
  and a tick adds no routine; after a failed allocation in \<open>RoutineArrayAdd\<close> the next tick reads
  behind the array (see \<open>RoutineArrayAdd_failed\<close>).
\<close>

theorem RoutineTick_array:
  assumes "raOk (svRoutines sv)" "RoutineTick fs sv = Inr sv1"
  shows "raSize (svRoutines sv1) = length (raArray (svRoutines sv1)) \<and>
         raSize (svRoutines sv1) \<le> raSize (svRoutines sv)"
  using tickLoop_raOk [of sv fs 0 sv1] assms by (simp add: RoutineTick_def raOk_def)

definition plainServer :: "Routine list \<Rightarrow> Server" where
  "plainServer rs = \<lparr>svRoutines = \<lparr>raSize = length rs, raArray = rs\<rparr>,
     svNet = (\<lambda>_. \<lparr>chAnswers = [], chWire = []\<rparr>), svDeferred = {}, svEvents = []\<rparr>"

definition doneRoutine :: "nat \<Rightarrow> Routine" where
  "doneRoutine s = (RoutineNew (sendBufferNew s 0) ''/'')\<lparr>rState := STATE_FINISH OR TYPE_ROUTINE\<rparr>"

lemma RoutineTick_array_witness:
  "\<exists>sv1. RoutineTick (\<lambda>_. None) (plainServer [doneRoutine 4]) = Inr sv1 \<and>
     raSize (svRoutines sv1) = length (raArray (svRoutines sv1))"
proof -
  have "case RoutineTick (\<lambda>_. None) (plainServer [doneRoutine 4]) of Inr _ \<Rightarrow> True | Inl _ \<Rightarrow> False" by code_simp
  then obtain sv1 where "RoutineTick (\<lambda>_. None) (plainServer [doneRoutine 4]) = Inr sv1"
    by (cases "RoutineTick (\<lambda>_. None) (plainServer [doneRoutine 4])") auto
  with RoutineTick_array [OF _ this] show ?thesis by (auto simp: plainServer_def raOk_def)
qed

text \<open>Of two routines that have finished, one tick removes only the first.\<close>

theorem RoutineTick_skips:
  "case RoutineTick (\<lambda>_. None) (plainServer [doneRoutine 4, doneRoutine 5]) of
     Inr sv1 \<Rightarrow> map (\<lambda>r. sbSocket (rBuffer r)) (raArray (svRoutines sv1)) = [5] | Inl _ \<Rightarrow> False"
  by code_simp

theorem RoutineArrayAdd_failed:
  "let sv = plainServer []; (e, ra) = RoutineArrayAdd False (svRoutines sv) (doneRoutine 4)
   in e \<and> RoutineTick (\<lambda>_. None) (sv\<lparr>svRoutines := ra\<rparr>) = Inl OutOfBounds"
  by (simp add: plainServer_def RoutineArrayAdd_def RoutineTick_def tickLoop.simps)

text \<open>A connection whose socket takes nothing: the network stays as it is.\<close>

definition silent :: "Net \<Rightarrow> Conn \<Rightarrow> bool" where
  "silent net c \<longleftrightarrow> snd c = net \<and> chAnswers (net (sbSocket (fst c))) = []"

lemma sock_send_silent: "chAnswers (net s) = [] \<Longrightarrow> sock_send net s d = (WouldBlock, net)"
  by (simp add: sock_send_def)

lemma connText_silent: "silent net c \<Longrightarrow> silent net (snd (connText d c))"
  by (cases "sbBuffer (fst c)")
     (auto simp: silent_def connText_def sendBufferWriteText_def sendBufferWriteData_def sock_send_silent Let_def)

lemma connFlush_silent: "silent net c \<Longrightarrow> silent net (snd (connFlush c))"
  by (auto simp: silent_def connFlush_def sendBufferFlush_def flushLoop.simps sock_send_silent Let_def
      split: option.splits prod.splits)

lemma httpBodyWriteChunk_silent: "silent net c \<Longrightarrow> silent net (snd (httpBodyWriteChunk d c))"
  by (simp add: httpBodyWriteChunk_def split_def Let_def connText_silent)

lemma httpBodyWriteChunkEnding_silent: "silent net c \<Longrightarrow> silent net (snd (httpBodyWriteChunkEnding c))"
  by (simp add: httpBodyWriteChunkEnding_def split_def Let_def connText_silent connFlush_silent)

lemma directoryEnd_silent: "silent net c \<Longrightarrow> silent net (directoryEnd n c)"
  by (simp add: directoryEnd_def split_def Let_def connFlush_silent httpBodyWriteChunk_silent
      httpBodyWriteChunkEnding_silent split: option.splits)

text \<open>None of the writers changes the socket of a connection.\<close>

lemma flushLoop_socket: "flushLoop self ms net m = (n, sb, net1) \<Longrightarrow> sbSocket sb = sbSocket self"
proof (induction self ms net m rule: flushLoop.induct)
  case (1 self ms net m)
  obtain d ms1 where d: "msRead ms SB_DATA_SIZE = (d, ms1)" by fastforce
  obtain x net2 where x: "sock_send net (sbSocket self) d = (x, net2)" by fastforce
  show ?case
  proof (cases "d = [] \<or> (\<forall>k. x = Accepts k \<longrightarrow> k < length d)")
    case True
    with 1(2) d x show ?thesis by (subst (asm) flushLoop.simps) (auto split: if_splits SendAnswer.splits)
  next
    case False
    then obtain k where k: "d \<noteq> []" "x = Accepts k" "\<not> k < length d" by auto
    with "1.IH" [OF d [symmetric] refl k(1) x [symmetric] k(2,3)] 1(2) d x show ?thesis
      by (simp add: flushLoop.simps [of self ms net m])
  qed
qed

lemma connFlush_socket: "sbSocket (fst (snd (connFlush c))) = sbSocket (fst c)"
  using flushLoop_socket
  by (cases "sendBufferFlush (fst c) (snd c)") (auto simp: connFlush_def sendBufferFlush_def split: option.splits)

lemma connText_socket: "sbSocket (fst (snd (connText d c))) = sbSocket (fst c)"
  by (auto simp: connText_def sendBufferWriteText_def sendBufferWriteData_def Let_def
      split: option.splits prod.splits SendAnswer.splits)

lemma httpBodyWriteChunk_socket: "sbSocket (fst (snd (httpBodyWriteChunk d c))) = sbSocket (fst c)"
  by (simp add: httpBodyWriteChunk_def split_def Let_def connText_socket)

lemma directoryEnd_socket: "sbSocket (fst (directoryEnd n c)) = sbSocket (fst c)"
  by (simp add: directoryEnd_def httpBodyWriteChunkEnding_def split_def Let_def connText_socket connFlush_socket
      httpBodyWriteChunk_socket split: option.splits)

text \<open>
  A directory listing that ends while its socket takes nothing is dropped: the routine leaves the
  array with a success event, the pending part of the page is freed, and the client has received
  nothing since.
\<close>

theorem directory_routine_drops_pending:
  assumes "rState r = STATE_CONTINUE OR TYPE_ROUTINE_DIR" "rType r = OfDir d" "pd_left (dr_directory d) = []"
    "chAnswers (net (sbSocket (rBuffer r))) = []"
  shows "\<exists>r1 D1. routineTurn fs r net D = Inr (Gone r1, net, D1) \<and> sbBuffer (rBuffer r1) = None \<and>
           goneEvents r1 = [HttpFinish (sbSocket (rBuffer r)) (eventPath (rWebPath r)) httpGet 0]"
proof -
  obtain sb net1 where e: "directoryEnd (dr_count d) (rBuffer r, net) = (sb, net1)" by fastforce
  have "silent net (directoryEnd (dr_count d) (rBuffer r, net))"
    using assms(4) by (intro directoryEnd_silent) (simp add: silent_def)
  with e have n: "net1 = net" by (simp add: silent_def)
  have s: "sbSocket sb = sbSocket (rBuffer r)"
    using directoryEnd_socket [of "dr_count d" "(rBuffer r, net)"] e by simp
  have t: "routineTurn fs r net D =
      bindr (DirectoryRoutineContinue fs r d net)
        (\<lambda>(n, r1, net1). Inr (if n \<noteq> 0 then (Stay r1, net1, D) else endTurn r1 net1 D))"
    using assms(1,2) by (simp add: routineTurn_def state_defs)
  have "DirectoryRoutineContinue fs r d net =
      Inr (0, r\<lparr>rBuffer := sb, rType := OfDir \<lparr>dr_count = dr_count d, dr_directory = (dr_directory d)\<lparr>pd_left := []\<rparr>\<rparr>\<rparr>, net)"
    using assms(3) e n by (simp add: DirectoryRoutineContinue_def numeral_eq_Suc)
  then show ?thesis
    unfolding t using assms(1) s
    by (simp add: endTurn_def sendBufferFailFree_def goneEvents_def eventHttpFinishInvoke_def state_defs)
qed

lemma directory_routine_drops_pending_witness:
  "\<exists>r1 D1. routineTurn (\<lambda>_. None)
      ((DirectoryRoutineNew (sendBufferNew 4 0) \<lparr>pd_path = ''/srv'', pd_left = []\<rparr> ''/'')
         \<lparr>rState := STATE_CONTINUE OR TYPE_ROUTINE_DIR\<rparr>)
      (\<lambda>_. \<lparr>chAnswers = [], chWire = []\<rparr>) {} = Inr (Gone r1, (\<lambda>_. \<lparr>chAnswers = [], chWire = []\<rparr>), D1)"
  using directory_routine_drops_pending [of "(DirectoryRoutineNew (sendBufferNew 4 0) \<lparr>pd_path = ''/srv'', pd_left = []\<rparr> ''/'')
         \<lparr>rState := STATE_CONTINUE OR TYPE_ROUTINE_DIR\<rparr>" "\<lparr>dr_count = 0, dr_directory = \<lparr>pd_path = ''/srv'', pd_left = []\<rparr>\<rparr>"
      "\<lambda>_. \<lparr>chAnswers = [], chWire = []\<rparr>" "\<lambda>_. None" "{}"]
  by (simp add: DirectoryRoutineNew_def) blast

text \<open>A socket that was reported writable but takes nothing makes the transfer fail.\<close>

theorem deferred_flush_of_nothing_fails:
  assumes "sbSocket (rBuffer r) \<notin> D" "\<not> sbFail (rBuffer r)" "sendBufferFlush (rBuffer r) net = (0, sb, net1)"
  shows "deferTurn r net D = (Stay (r\<lparr>rBuffer := sb, rState := (rState r OR STATE_FAIL) AND NOT STATE_DEFER\<rparr>), net1, D)"
  using assms by (simp add: deferTurn_def)

text \<open>
  A range whose end lies before its start is served from its start to the end of the file, in a single
  block, whatever its size.
\<close>

theorem FileRoutineContinue_negative:
  assumes "fr_end f < int (fr_pos f)" "SB_DATA_SIZE < length (fr_content f) - fr_pos f"
  shows "FileRoutineContinue r f net = Inl BufferOverflow"
  using assms by (simp add: FileRoutineContinue_def fileBlock_def Let_def)

section \<open>Transfers can complete\<close>

lemma turns_Suc:
  "turns fs (Suc m) (r, net, D) =
     (case routineTurn fs r net D of Inr (Stay r1, net1, D1) \<Rightarrow> turns fs m (r1, net1, D1) | _ \<Rightarrow> None)"
  by (induction m) (auto split: sum.splits prod.splits Turn.splits option.splits)

lemma writeData_ready:
  assumes "sbBuffer self = None" "chAnswers (net (sbSocket self)) = Accepts n # as" "length d \<le> n"
  shows "sendBufferWriteData self net d =
    (length d, self, net(sbSocket self := \<lparr>chAnswers = as, chWire = chWire (net (sbSocket self)) @ d\<rparr>))"
  using assms channelSend_ready [where net = net and s = "sbSocket self" and d = d and n = n and as = as]
  by (cases self) (simp add: sendBufferWriteData_def)

lemma eof_finishes:
  assumes "rState r = CONTINUING" "rType r = OfFile f" "fr_end f = int (fr_pos f)"
    "sbBuffer (rBuffer r) = None" "sbOptions (rBuffer r) = 0"
  shows "turns fs 1 (r, net, D) = Some (r\<lparr>rState := FINISHED\<rparr>, net, D)"
proof -
  have d: "fileBlock f = []" using fileBlock_eq [OF refl assms(3)] by simp
  have "fileTurn r f net D = Inr (Stay (r\<lparr>rState := FINISHED\<rparr>), net, D)"
    using assms d by (simp add: fileTurn_def FileRoutineContinue_def sbFail_def Let_def)
  then show ?thesis using routineTurn_file(3) [OF assms(1,2)] by simp
qed

lemma continuing_completes:
  assumes "rState r = CONTINUING" "rType r = OfFile f" "fr_end f = int b" "fr_pos f \<le> b" "b \<le> length (fr_content f)"
    "sbBuffer (rBuffer r) = None" "sbOptions (rBuffer r) = 0" "sbSocket (rBuffer r) = s"
    "chAnswers (net s) = replicate k (Accepts n)" "SB_DATA_SIZE \<le> n" "b - fr_pos f \<le> k * SB_DATA_SIZE"
  shows "\<exists>m r1 net1 D1. turns fs m (r, net, D) = Some (r1, net1, D1) \<and> rState r1 = FINISHED"
  using assms
proof (induction k arbitrary: r net f)
  case (0 r net f)
  then have "fr_end f = int (fr_pos f)" by simp
  with 0 eof_finishes [of r f] show ?case by fastforce
next
  case (Suc k r net f)
  let ?d = "fileBlock f"
  have d: "?d = take (min (b - fr_pos f) SB_DATA_SIZE) (drop (fr_pos f) (fr_content f))"
    by (rule fileBlock_eq [OF refl Suc.prems(3,4)])
  have ld: "length ?d = min (b - fr_pos f) SB_DATA_SIZE" using d Suc.prems(4,5) by simp
  show ?case
  proof (cases "b = fr_pos f")
    case True
    with Suc.prems eof_finishes [of r f] show ?thesis by fastforce
  next
    case False
    then have ne: "?d \<noteq> []" "\<not> SB_DATA_SIZE < length ?d"
      using ld Suc.prems(4) by (auto simp: SB_DATA_SIZE_def min_def split: if_splits)
    let ?net = "net(s := \<lparr>chAnswers = replicate k (Accepts n), chWire = chWire (net s) @ ?d\<rparr>)"
    let ?f = "f\<lparr>fr_pos := fr_pos f + length ?d\<rparr>"
    let ?r = "r\<lparr>rType := OfFile ?f\<rparr>"
    have w: "sendBufferWriteData (rBuffer r) net ?d = (length ?d, rBuffer r, ?net)"
      using writeData_ready [of "rBuffer r" net n "replicate k (Accepts n)" ?d] Suc.prems(6,8,9,10) ld by simp
    have "r\<lparr>rBuffer := rBuffer r, rType := OfFile ?f\<rparr> = ?r" by (cases r) simp
    then have "FileRoutineContinue r f net = Inr (length ?d, ?r, ?net)"
      using ne w by (simp add: FileRoutineContinue_def Let_def)
    then have "fileTurn r f net D = Inr (Stay ?r, ?net, D)"
      using ne(1) Suc.prems(6) by (simp add: fileTurn_def Let_def)
    then have t: "routineTurn fs r net D = Inr (Stay ?r, ?net, D)"
      using routineTurn_file(3) [OF Suc.prems(1,2)] by simp
    have "\<exists>m r1 net1 D1. turns fs m (?r, ?net, D) = Some (r1, net1, D1) \<and> rState r1 = FINISHED"
      using Suc.prems ld by (intro Suc.IH [of ?r ?f ?net]) auto
    then obtain m r1 net1 D1 where "turns fs m (?r, ?net, D) = Some (r1, net1, D1)" "rState r1 = FINISHED" by blast
    then have "turns fs (Suc m) (r, net, D) = Some (r1, net1, D1)" using t by (simp only: turns_Suc) simp
    with \<open>rState r1 = FINISHED\<close> show ?thesis by blast
  qed
qed

lemma file_routine_reaches_end:
  assumes "sbOk sb" "sbOptions sb = 0" "a \<le> b" "b \<le> length content"
  shows "\<exists>r net1 D1 r1 D2.
    fileRun fs (FileRoutineNew sb content (int a) (int b) web, net, D) (r, net1, D1) \<and>
    routineTurn fs r net1 D1 = Inr (Gone r1, net1, D2) \<and> rState r1 AND STATE_FAIL = 0"
proof -
  let ?r0 = "FileRoutineNew sb content (int a) (int b) web"
  let ?k = "length (sbPending sb) + b"
  let ?ans = "replicate ?k (Accepts SB_DATA_SIZE)"
  let ?ready = "\<lambda>net. (\<lambda>x. \<lparr>chAnswers = ?ans, chWire = chWire (net x)\<rparr>) :: Net"
  have big: "?k \<le> ?k * SB_DATA_SIZE" by (simp add: SB_DATA_SIZE_def)
  have st0: "rState ?r0 = FLUSHING" "rBuffer ?r0 = sb" by (simp_all add: FileRoutineNew_def state_defs)
  have run0: "fileRun fs (?r0, net, D) (?r0, ?ready net, D)"
    by (rule fileRun.network [OF fileRun.start]) simp
  obtain n0 sb1 net1 where fl: "sendBufferFlush sb (?ready net) = (n0, sb1, net1)" by (cases "sendBufferFlush sb (?ready net)")
  have e: "sbBuffer sb1 = None \<and> sbOptions sb1 = 0"
    using sendBufferFlush_empties [OF assms(1) _ _ _ fl, of ?k SB_DATA_SIZE] big assms(2) by auto
  obtain r1 net2 where r1: "fileRun fs (?r0, net, D) (r1, net2, D)" "rState r1 = CONTINUING"
    "sbBuffer (rBuffer r1) = None" "sbOptions (rBuffer r1) = 0" "rType r1 = rType ?r0"
  proof (cases "sbBuffer sb")
    case None
    have "routineTurn fs ?r0 (?ready net) D = Inr (Stay (?r0\<lparr>rState := CONTINUING\<rparr>), ?ready net, D)"
      using routineTurn_file(1) [OF st0(1)] st0 None file_state_steps(1) by (simp add: flushTurn_def)
    from that [OF fileRun.turn [OF run0 this]] show thesis using None assms(2) st0 by simp
  next
    case (Some ms)
    have "routineTurn fs ?r0 (?ready net) D = Inr (Stay (?r0\<lparr>rBuffer := sb1\<rparr>), net1, D)"
      using routineTurn_file(1) [OF st0(1)] st0 Some e fl by (simp add: flushTurn_def sbFail_def)
    from fileRun.turn [OF run0 this] have run1: "fileRun fs (?r0, net, D) (?r0\<lparr>rBuffer := sb1\<rparr>, net1, D)" .
    have "routineTurn fs (?r0\<lparr>rBuffer := sb1\<rparr>) net1 D = Inr (Stay (?r0\<lparr>rBuffer := sb1, rState := CONTINUING\<rparr>), net1, D)"
      using routineTurn_file(1) [of "?r0\<lparr>rBuffer := sb1\<rparr>"] st0 e file_state_steps(1) by (simp add: flushTurn_def)
    from that [OF fileRun.turn [OF run1 this]] show thesis using e by simp
  qed
  have f: "rType ?r0 = OfFile \<lparr>fr_content = content, fr_pos = a, fr_start = int a, fr_end = int b\<rparr>"
    by (simp add: FileRoutineNew_def)
  have run2: "fileRun fs (?r0, net, D) (r1, ?ready net2, D)"
    by (rule fileRun.network [OF r1(1)]) simp
  have big2: "b - a \<le> ?k * SB_DATA_SIZE" by (rule order_trans [OF _ big]) simp
  have "\<exists>m r net3 D3. turns fs m (r1, ?ready net2, D) = Some (r, net3, D3) \<and> rState r = FINISHED"
    using r1 f assms(3,4) big2
    by (intro continuing_completes [where f = "\<lparr>fr_content = content, fr_pos = a, fr_start = int a, fr_end = int b\<rparr>"
          and b = b and k = ?k and n = SB_DATA_SIZE and s = "sbSocket (rBuffer r1)"]) auto
  then obtain m r net3 D3 where "turns fs m (r1, ?ready net2, D) = Some (r, net3, D3)" and fin: "rState r = FINISHED" by blast
  then have "fileRun fs (?r0, net, D) (r, net3, D3)" using turns_fileRun fileRun_trans [OF _ run2] by blast
  moreover have "routineTurn fs r net3 D3 = Inr (Gone (r\<lparr>rBuffer := sendBufferFailFree (rBuffer r)\<rparr>), net3,
      D3 - {sbSocket (rBuffer r)})"
    using routineTurn_file(4) fin by (simp add: endTurn_def)
  moreover have "rState (r\<lparr>rBuffer := sendBufferFailFree (rBuffer r)\<rparr>) AND STATE_FAIL = 0"
    using fin file_states_FAIL(2) by simp
  ultimately show ?thesis by blast
qed

text \<open>
  C18. A transfer that has been set up can complete: with a socket that takes what it is offered, first
  what is pending and then the file, the routine reaches its finished state and the turn after that
  ends it without the failure mark, having sent the stream and the range of the file.
\<close>

theorem file_routine_completes:
  assumes "sbOk sb" "sbOptions sb = 0" "a \<le> b" "b \<le> length content"
  shows "\<exists>r net1 D1 r1 D2.
    fileRun fs (FileRoutineNew sb content (int a) (int b) web, net, D) (r, net1, D1) \<and>
    routineTurn fs r net1 D1 = Inr (Gone r1, net1, D2) \<and> rState r1 AND STATE_FAIL = 0 \<and>
    chWire (net1 (sbSocket sb)) = sbStream sb net @ take (b - a) (drop a content)"
proof -
  obtain r net1 D1 r1 D2 where
    run: "fileRun fs (FileRoutineNew sb content (int a) (int b) web, net, D) (r, net1, D1)"
    and g: "routineTurn fs r net1 D1 = Inr (Gone r1, net1, D2)" "rState r1 AND STATE_FAIL = 0"
    using file_routine_reaches_end [OF assms] by blast
  have "\<not> sbFail sb" using assms(2) by (simp add: sbFail_def)
  from fileRun_delivered [OF assms(1) this assms(3,4) run g] run g show ?thesis by blast
qed

lemma file_routine_completes_witness:
  "\<exists>r net1 D1 r1 D2.
    fileRun (\<lambda>_. None) (FileRoutineNew (sendBufferNew 4 0) ''abcdef'' (int 1) (int 5) ''/f'', exampleNet, {}) (r, net1, D1) \<and>
    routineTurn (\<lambda>_. None) r net1 D1 = Inr (Gone r1, net1, D2) \<and> rState r1 AND STATE_FAIL = 0 \<and>
    chWire (net1 (sbSocket (sendBufferNew 4 0))) = sbStream (sendBufferNew 4 0) exampleNet @ take (5 - 1) (drop 1 ''abcdef'')"
  by (rule file_routine_completes) (simp_all add: sendBufferNew_def sbOk_def)

end
