(* ===== verification/Mux_Select.thy ===== *)
theory Mux_Select
  imports Routines
begin

text \<open>
  \<open>src/server/mltiplex/select.c\<close>: the sets of sockets of the server that waits with \<open>select (2)\<close>, and
  the contract of the set of deferred sockets that the routines rely on. Sockets are assumed to be
  below \<open>FD_SETSIZE\<close>; the source does not check it.
\<close>

section \<open>The sets\<close>

record SelectState =
  serverListenSockets :: "nat set"
  serverReadSockets :: "nat set"
  serverWriteSockets :: "nat set"
  serverMaxSocket :: nat

definition selectInit :: SelectState where
  "selectInit = \<lparr>serverListenSockets = {}, serverReadSockets = {}, serverWriteSockets = {}, serverMaxSocket = 0\<rparr>"

text \<open>The members of a set up to \<open>serverMaxSocket\<close>, in ascending order, as the loops visit them.\<close>

definition fdMembers :: "SelectState \<Rightarrow> nat set \<Rightarrow> nat list" where
  "fdMembers st s = filter (\<lambda>i. i \<in> s) [0..<serverMaxSocket st + 1]"

definition GetFdSetSize :: "SelectState \<Rightarrow> nat set \<Rightarrow> nat" where
  "GetFdSetSize st s = length (fdMembers st s)"

text \<open>
  The array is sized by the set of sockets to read, whichever set is asked for. The result is the
  count stored in front and the sockets written behind it.
\<close>

definition GetFdSetAsArray :: "SelectState \<Rightarrow> nat set \<Rightarrow> (nat \<times> nat list) res" where
  "GetFdSetAsArray st s =
     (let size = GetFdSetSize st (serverReadSockets st); r = fdMembers st s in
      if size < length r then Inl BufferOverflow else Inr (size, r))"

definition fdSetToSocketArray :: "nat list \<Rightarrow> nat set \<Rightarrow> nat set" where
  "fdSetToSocketArray array fdSet = fdSet \<union> set (take (hd array) (tl array))"

definition serverGetListenSocketArray :: "SelectState \<Rightarrow> (nat \<times> nat list) res" where
  "serverGetListenSocketArray st = GetFdSetAsArray st (serverListenSockets st)"

definition serverGetReadSocketArray :: "SelectState \<Rightarrow> (nat \<times> nat list) res" where
  "serverGetReadSocketArray st = GetFdSetAsArray st (serverReadSockets st)"

definition serverGetWriteSocketArray :: "SelectState \<Rightarrow> (nat \<times> nat list) res" where
  "serverGetWriteSocketArray st = GetFdSetAsArray st (serverWriteSockets st)"

definition serverDeferredSocketAdd :: "nat \<Rightarrow> SelectState \<Rightarrow> SelectState" where
  "serverDeferredSocketAdd socket st = st\<lparr>serverWriteSockets := insert socket (serverWriteSockets st)\<rparr>"

definition serverDeferredSocketRemove :: "nat \<Rightarrow> SelectState \<Rightarrow> SelectState" where
  "serverDeferredSocketRemove socket st = st\<lparr>serverWriteSockets := serverWriteSockets st - {socket}\<rparr>"

definition serverDeferredSocketExists :: "nat \<Rightarrow> SelectState \<Rightarrow> bool" where
  "serverDeferredSocketExists socket st \<longleftrightarrow> socket \<in> serverWriteSockets st"

text \<open>\<open>sockets\<close> is the array with its size in front.\<close>

definition serverSetup :: "nat list \<Rightarrow> SelectState \<Rightarrow> SelectState" where
  "serverSetup sockets st =
     st\<lparr>serverReadSockets := fdSetToSocketArray sockets {}, serverWriteSockets := {},
        serverListenSockets := fdSetToSocketArray sockets (serverListenSockets st),
        serverMaxSocket := foldl max (serverMaxSocket st) (take (hd sockets) (tl sockets))\<rparr>"

section \<open>The contract of the deferred sockets\<close>

text \<open>What \<open>RoutineTick\<close> expects of the multiplexer it is linked with.\<close>

locale deferred_sockets =
  fixes add :: "nat \<Rightarrow> 's \<Rightarrow> 's"
    and remove :: "nat \<Rightarrow> 's \<Rightarrow> 's"
    and exists :: "nat \<Rightarrow> 's \<Rightarrow> bool"
  assumes exists_add: "exists x (add y s) \<longleftrightarrow> x = y \<or> exists x s"
    and exists_remove: "exists x (remove y s) \<longleftrightarrow> x \<noteq> y \<and> exists x s"
begin

definition waiting :: "'s \<Rightarrow> nat set" where
  "waiting s = {x. exists x s}"

lemma waiting_add: "waiting (add x s) = insert x (waiting s)"
  by (auto simp: waiting_def exists_add)

lemma waiting_remove: "waiting (remove x s) = waiting s - {x}"
  by (auto simp: waiting_def exists_remove)

text \<open>Requests of several routines one after another: \<open>True\<close> to wait, \<open>False\<close> to be taken off.\<close>

primrec requests :: "(nat \<times> bool) list \<Rightarrow> 's \<Rightarrow> 's" where
  "requests [] s = s"
| "requests (x # xs) s = requests xs (if snd x then add (fst x) s else remove (fst x) s)"

lemma requests_exists:
  "exists y (requests xs s) \<longleftrightarrow>
     (case filter (\<lambda>x. fst x = y) (rev xs) of [] \<Rightarrow> exists y s | x # _ \<Rightarrow> snd x)"
proof (induction xs arbitrary: s)
  case (Cons x xs)
  show ?case
    using Cons [of "if snd x then add (fst x) s else remove (fst x) s"]
    by (auto simp: exists_add exists_remove split: list.splits)
qed simp

end

interpretation sel: deferred_sockets serverDeferredSocketAdd serverDeferredSocketRemove serverDeferredSocketExists
  by unfold_locales
    (auto simp: serverDeferredSocketAdd_def serverDeferredSocketRemove_def serverDeferredSocketExists_def)

primrec deferredRequests :: "(nat \<times> bool) list \<Rightarrow> SelectState \<Rightarrow> SelectState" where
  "deferredRequests [] st = st"
| "deferredRequests (x # xs) st =
     deferredRequests xs (if snd x then serverDeferredSocketAdd (fst x) st else serverDeferredSocketRemove (fst x) st)"

lemma deferredRequests_eq: "deferredRequests xs st = sel.requests xs st"
  by (induction xs arbitrary: st) auto


text \<open>The set the turns of the routines work on is the one kept here.\<close>

lemma serverWriteSockets_deferred:
  "serverWriteSockets (serverDeferredSocketAdd s st) = insert s (serverWriteSockets st)"
  "serverWriteSockets (serverDeferredSocketRemove s st) = serverWriteSockets st - {s}"
  "serverDeferredSocketExists s st = (s \<in> serverWriteSockets st)"
  by (simp_all add: serverDeferredSocketAdd_def serverDeferredSocketRemove_def serverDeferredSocketExists_def)

section \<open>Arrays of sockets\<close>

lemma fdMembers_members:
  "set (fdMembers st s) = {i \<in> s. i \<le> serverMaxSocket st}" "distinct (fdMembers st s)" "sorted (fdMembers st s)"
  by (auto simp: fdMembers_def less_Suc_eq_le sorted_filter [of id, simplified] simp del: upt_Suc)

text \<open>
  The arrays handed out are safe as long as the set asked for is contained in the sockets to read:
  then they hold exactly its sockets, ascending, behind the count of sockets to read.
\<close>

theorem GetFdSetAsArray_safe:
  assumes "s \<subseteq> serverReadSockets st"
  shows "GetFdSetAsArray st s = Inr (GetFdSetSize st (serverReadSockets st), fdMembers st s) \<and>
         set (fdMembers st s) = {i \<in> s. i \<le> serverMaxSocket st} \<and> sorted (fdMembers st s)"
proof -
  have "card (set (fdMembers st s)) \<le> card (set (fdMembers st (serverReadSockets st)))"
    using assms by (intro card_mono finite_set) (auto simp: fdMembers_members)
  then have "length (fdMembers st s) \<le> GetFdSetSize st (serverReadSockets st)"
    by (simp add: distinct_card fdMembers_members(2) GetFdSetSize_def)
  then show ?thesis
    using fdMembers_members(1,3) [of st s] by (simp add: GetFdSetAsArray_def Let_def)
qed

lemma GetFdSetAsArray_safe_witness:
  "GetFdSetAsArray \<lparr>serverListenSockets = {3}, serverReadSockets = {3, 5}, serverWriteSockets = {5}, serverMaxSocket = 6\<rparr> {5} = Inr (2, [5])"
proof -
  let ?st = "\<lparr>serverListenSockets = {3}, serverReadSockets = {3, 5}, serverWriteSockets = {5}, serverMaxSocket = 6\<rparr>"
  have m: "fdMembers ?st {5} = [5]" "GetFdSetSize ?st (serverReadSockets ?st) = 2" by code_simp+
  have "{5} \<subseteq> serverReadSockets ?st" by simp
  from GetFdSetAsArray_safe [OF this] m show ?thesis by (simp only: m)
qed

text \<open>A socket that is deferred but no longer read makes the array too small.\<close>

theorem serverGetWriteSocketArray_overflow:
  "serverGetWriteSocketArray
     \<lparr>serverListenSockets = {}, serverReadSockets = {}, serverWriteSockets = {5}, serverMaxSocket = 6\<rparr> = Inl BufferOverflow"
  by code_simp

end
