(* ===== verification/Server.thy ===== *)
theory Server
  imports Mux_Select
begin

text \<open>
  \<open>src/server/server.c\<close>: from the bytes of a request to the response and the routine that sends the
  body, and the loop of \<open>src/server/mltiplex/select.c\<close> that drives everything.
\<close>

section \<open>The environment\<close>

text \<open>
  The files of the system, what opening a file or a directory gives, the current time in text form,
  the build option for connections that are never reused, the root directory, and whether the array
  of routines can grow.
\<close>

record Env =
  envFiles :: Files
  envContent :: "string \<Rightarrow> string option"
  envEntries :: "string \<Rightarrow> PlatformDirEntry list option"
  envNow :: string
  envNoReuse :: bool
  globalRootPath :: string
  envAlloc :: bool

definition typeValue :: "httpType \<Rightarrow> nat" where
  "typeValue t = (case t of httpGet \<Rightarrow> 0 | httpHead \<Rightarrow> 1 | httpPost \<Rightarrow> 2 | httpUnknown \<Rightarrow> 3)"

definition platformDirOpen :: "Env \<Rightarrow> string \<Rightarrow> PlatformDir option" where
  "platformDirOpen env path =
     (case envEntries env path of None \<Rightarrow> None | Some es \<Rightarrow> Some \<lparr>pd_path = path, pd_left = es\<rparr>)"

definition svSetNet :: "Net \<Rightarrow> Event list \<Rightarrow> Server \<Rightarrow> Server" where
  "svSetNet net events sv = sv\<lparr>svNet := net, svEvents := svEvents sv @ events\<rparr>"

definition svAddRoutine :: "Env \<Rightarrow> Routine \<Rightarrow> Server \<Rightarrow> Server" where
  "svAddRoutine env r sv = sv\<lparr>svRoutines := snd (RoutineArrayAdd (envAlloc env) (svRoutines sv) r)\<rparr>"

text \<open>An error response on a new send buffer, which is dropped afterwards, whatever it still holds.\<close>

definition handleError :: "Env \<Rightarrow> nat \<Rightarrow> string \<Rightarrow> httpType \<Rightarrow> nat \<Rightarrow> Server \<Rightarrow> (bool \<times> Server) res" where
  "handleError env sock webPath type err sv =
     bindr (httpHeaderHandleError (envNow env) (envNoReuse env) err (sendBufferNew sock 0, svNet sv))
       (\<lambda>(close, sb, net). Inr (close, svSetNet net (eventHttpRespondInvoke sock webPath type err) sv))"

section \<open>Directories\<close>

definition pageTitle :: "string \<Rightarrow> string" where
  "pageTitle webPath = (if webPath = [] then ''/'' else webPath)"

definition chunkOf :: "string option \<Rightarrow> Conn \<Rightarrow> (nat \<times> Conn) res" where
  "chunkOf buf c = (case buf of None \<Rightarrow> Inl NullDereference | Some b \<Rightarrow> Inr (httpBodyWriteChunk b c))"

definition dirHeaders :: "Env \<Rightarrow> PlatformFileStat \<Rightarrow> Conn \<Rightarrow> Conn res" where
  "dirHeaders env st =
     connSeq [httpHeaderWriteResponse 200, headerNoReuse (envNoReuse env), httpHeaderWriteDate (envNow env),
              httpHeaderWriteLastModified st, httpHeaderWriteContentType ''text/html'' [],
              httpHeaderWriteChunkedEncoding, httpHeaderWriteEnd]"

text \<open>The page up to the list; the first component is whether the handler gives up.\<close>

definition dirBody :: "string \<Rightarrow> Conn \<Rightarrow> (bool \<times> Conn) res" where
  "dirBody webPath c =
     bindr (chunkOf (htmlHeaderWrite None (pageTitle webPath)) c)
       (\<lambda>(r1, c1).
          if r1 = 0 then Inr (True, c1)
          else
            bindr (htmlBreadCrumbWrite None (pageTitle webPath))
              (\<lambda>buf. bindr (chunkOf (htmlListStart buf) (snd (connFlush c1)))
                (\<lambda>(r2, c2). if r2 = 0 then Inr (True, c2) else Inr (False, snd (connFlush c2)))))"

definition handleDir :: "Env \<Rightarrow> nat \<Rightarrow> string \<Rightarrow> string \<Rightarrow> httpType \<Rightarrow> PlatformFileStat \<Rightarrow> Server \<Rightarrow> (bool \<times> Server) res" where
  "handleDir env sock webPath absolutePath type st sv =
     (case platformDirOpen env absolutePath of
        None \<Rightarrow> handleError env sock webPath httpGet 404 sv
      | Some dir \<Rightarrow>
          bindr (dirHeaders env st (sendBufferNew sock 0, svNet sv))
            (\<lambda>c. let ev = eventHttpRespondInvoke sock webPath type 200;
                     (n, c1) = (if type = httpHead then connFlush c else (1, c))
                 in if n = 0 then Inr (True, svSetNet (snd c1) ev sv)
                    else bindr (dirBody webPath c1)
                      (\<lambda>(abort, sb, net).
                         Inr (abort,
                              if abort then svSetNet net ev sv
                              else svAddRoutine env (DirectoryRoutineNew sb dir webPath) (svSetNet net ev sv)))))"

section \<open>Files\<close>

definition fileHeaders ::
    "Env \<Rightarrow> string \<Rightarrow> PlatformFileStat \<Rightarrow> bool \<Rightarrow> int \<Rightarrow> int \<Rightarrow> Conn \<Rightarrow> Conn res" where
  "fileHeaders env webPath st e start finish =
     connSeq ([httpHeaderWriteResponse (if e then 200 else 206), headerNoReuse (envNoReuse env),
               httpHeaderWriteDate (envNow env), httpHeaderWriteFileName webPath, httpHeaderWriteLastModified st,
               httpHeaderWriteAcceptRanges] @
              (if e then [httpHeaderWriteContentLengthSt st]
               else [httpHeaderWriteContentLength (finish - start),
                     httpHeaderWriteRange start finish (int (st_size st))]) @
              [httpHeaderWriteEnd])"

definition rangeFinish :: "PlatformFileStat \<Rightarrow> int \<Rightarrow> int" where
  "rangeFinish st finish = (if int (st_size st) \<le> finish \<or> finish = 0 then int (st_size st) else finish)"

definition handleFile ::
    "Env \<Rightarrow> nat \<Rightarrow> string \<Rightarrow> string \<Rightarrow> string \<Rightarrow> httpType \<Rightarrow> PlatformFileStat \<Rightarrow> Server \<Rightarrow> (bool \<times> Server) res" where
  "handleFile env sock header webPath absolutePath type st sv =
     (case envContent env absolutePath of
        None \<Rightarrow> Inr (True, sv)
      | Some fp \<Rightarrow>
          let (e, start, finish0) = httpHeaderReadRange header 0 0 (int (st_size st));
              finish = (if e then finish0 else rangeFinish st finish0)
          in bindr (fileHeaders env webPath st e start finish (sendBufferNew sock 0, svNet sv))
               (\<lambda>(sb, net).
                  let sv1 = svSetNet net (eventHttpRespondInvoke sock webPath type (if e then 200 else 206)) sv in
                  Inr (False,
                       if type = httpHead then sv1
                       else svAddRoutine env
                              (FileRoutineNew sb fp start (if e then int (st_size st) else finish) webPath) sv1)))"

section \<open>Paths\<close>

text \<open>What is on the stack in \<open>tm\<close> before a date is read.\<close>

definition noTime :: PlatformTimeStruct where
  "noTime = \<lparr>tm_sec = 0, tm_min = 0, tm_hour = 0, tm_mday = 0, tm_mon = 0, tm_year = 0, tm_wday = 0\<rparr>"

text \<open>
  The answer is what \<open>handlePath\<close> returns, as a number: for a path that is neither a directory nor a
  regular file it is the request type.
\<close>

definition notModified :: "Env \<Rightarrow> nat \<Rightarrow> string \<Rightarrow> httpType \<Rightarrow> Server \<Rightarrow> (nat \<times> Server) res" where
  "notModified env sock webPath type sv =
     bindr (connSeq [httpHeaderWriteResponse 304, headerNoReuse (envNoReuse env), httpHeaderWriteDate (envNow env),
                     httpHeaderWriteEnd] (sendBufferNew sock 0, svNet sv))
       (\<lambda>(sb, net).
          Inr (0, svAddRoutine env (RoutineNew sb webPath)
                    (svSetNet net (eventHttpRespondInvoke sock webPath type 304) sv)))"

definition boolNat :: "(bool \<times> Server) res \<Rightarrow> (nat \<times> Server) res" where
  "boolNat r = bindr r (\<lambda>(b, sv). Inr (if b then 1 else 0, sv))"

definition handlePath :: "Env \<Rightarrow> nat \<Rightarrow> string \<Rightarrow> string \<Rightarrow> Server \<Rightarrow> (nat \<times> Server) res" where
  "handlePath env sock header webPath sv =
     bindr (platformPathWebToSystem (globalRootPath env) webPath)
       (\<lambda>(rc, absolutePath).
          case (case absolutePath of None \<Rightarrow> None | Some a \<Rightarrow> map_option (Pair a) (platformFileStat (envFiles env) a)) of
            None \<Rightarrow> boolNat (handleError env sock webPath httpGet 404 sv)
          | Some (a, st) \<Rightarrow>
              let type = httpClientReadType header in
              bindr (httpHeaderReadIfModifiedSince header noTime)
                (\<lambda>(e, tm).
                   if \<not> e \<and> platformTimeStructCompare tm (st_mtime st) \<le> 0 then notModified env sock webPath type sv
                   else if platformFileStatIsDirectory st then boolNat (handleDir env sock webPath a type st sv)
                   else if platformFileStatIsFile st then boolNat (handleFile env sock header webPath a type st sv)
                   else Inr (typeValue type, sv)))"

section \<open>Connections\<close>

text \<open>
  What \<open>recv (2)\<close> gives, one answer after another; no data is what a closed connection gives. When they are used up the socket would block. The
  loop ends with the message, or because the connection is to be closed, or because the message is
  too long.
\<close>

datatype RecvAnswer = RData string | RClosed | RAgain | RBroken
datatype RecvEnd = EndClose | EndTooLong | EndMessage nat string

definition endsRequest :: "string \<Rightarrow> bool" where
  "endsRequest m \<longleftrightarrow> suffix (HTTP_EOL @ HTTP_EOL) m"

text \<open>\<open>r\<close> counts the answers without data; \<open>errno\<close> is 0 or that of a socket that would block.\<close>

fun recvLoop :: "RecvAnswer list \<Rightarrow> nat \<Rightarrow> string \<Rightarrow> RecvEnd" where
  "recvLoop [] r m = (if m = [] then EndClose else EndMessage 50 m)"
| "recvLoop (a # as) r m =
     (case (if a = RData [] then RClosed else a) of
        RClosed \<Rightarrow>
          if m = [] then EndClose
          else if endsRequest m then EndMessage 50 m
          else if r + 1 < 50 then recvLoop as (r + 1) m else EndMessage (r + 1) m
      | RAgain \<Rightarrow>
          if r + 1 < 50 then recvLoop as (r + 1) m
          else if m = [] then EndClose else EndMessage (r + 1) m
      | RBroken \<Rightarrow> EndClose
      | RData d \<Rightarrow>
          let m1 = m @ take (BUFSIZ - length m - 1) d in
          if BUFSIZ - 1 \<le> length m1 then EndTooLong
          else if endsRequest m1 then EndMessage 50 m1
          else recvLoop as 0 m1)"

text \<open>The result tells the multiplexer whether to close the connection.\<close>

definition handleConnection :: "Env \<Rightarrow> nat \<Rightarrow> RecvAnswer list \<Rightarrow> Server \<Rightarrow> (nat \<times> Server) res" where
  "handleConnection env sock answers sv =
     (case recvLoop answers 0 [] of
        EndClose \<Rightarrow> Inr (1, sv)
      | EndTooLong \<Rightarrow>
          bindr (connSeq [httpHeaderWriteResponse 431, headerNoReuse (envNoReuse env), httpHeaderWriteDate (envNow env),
                          httpHeaderWriteContentLength 0, httpHeaderWriteEnd] (sendBufferNew sock 0, svNet sv))
            (\<lambda>c. let (_, c1) = connFlush c in
                 Inr (1, svSetNet (snd c1) (eventHttpRespondInvoke sock [] httpUnknown 431) sv))
      | EndMessage r m \<Rightarrow>
          let buffer = takeWhile (\<lambda>c. c \<noteq> NUL) (butlast m) in
          bindr (httpClientReadUri buffer)
            (\<lambda>uriPath. case uriPath of
               None \<Rightarrow> Inr (r, sv)
             | Some p \<Rightarrow> if chC p 0 \<noteq> CHR ''/'' then Inr (1, sv) else handlePath env sock buffer p sv))"

definition getPort :: "(sa_family \<times> nat) option \<Rightarrow> nat" where
  "getPort name = (case name of None \<Rightarrow> 0 | Some (family, port) \<Rightarrow> platformGetPort family port)"

section \<open>The select loop\<close>

text \<open>
  One pass of \<open>serverTick\<close>: \<open>readable\<close> and \<open>writable\<close> are the answers of \<open>select (2)\<close>, \<open>accepts\<close> the
  descriptor a listening socket gives for its next connection, \<open>input\<close> what \<open>recv\<close> gives.
\<close>

record Ready =
  rdReadable :: "nat set"
  rdWritable :: "nat set"
  rdAccept :: "nat \<Rightarrow> nat"
  rdInput :: "nat \<Rightarrow> RecvAnswer list"

text \<open>The multiplexer and the server share the deferred sockets.\<close>

definition withDeferred :: "SelectState \<Rightarrow> Server \<Rightarrow> Server" where
  "withDeferred st sv = sv\<lparr>svDeferred := serverWriteSockets st\<rparr>"

definition closeConnection :: "nat \<Rightarrow> SelectState \<Rightarrow> Server \<Rightarrow> SelectState \<times> Server" where
  "closeConnection i st sv =
     (st\<lparr>serverReadSockets := serverReadSockets st - {i}, serverWriteSockets := serverWriteSockets st - {i}\<rparr>,
      sv\<lparr>svEvents := svEvents sv @ eventSocketCloseInvoke i,
         svRoutines := RoutineArrayDelSocket (svRoutines sv) i\<rparr>)"

definition readSocket :: "Env \<Rightarrow> Ready \<Rightarrow> nat \<Rightarrow> SelectState \<Rightarrow> Server \<Rightarrow> (SelectState \<times> Server) res" where
  "readSocket env rd i st sv =
     (if i \<in> serverListenSockets st then
        (let c = rdAccept rd i in
         Inr (st\<lparr>serverMaxSocket := max c (serverMaxSocket st), serverReadSockets := insert c (serverReadSockets st)\<rparr>,
              sv\<lparr>svEvents := svEvents sv @ eventSocketAcceptInvoke c\<rparr>))
      else bindr (handleConnection env i (rdInput rd i) sv)
        (\<lambda>(r, sv1). Inr (if r \<noteq> 0 then closeConnection i st sv1 else (st, sv1))))"

text \<open>
  The \<open>for\<close> loop; its bound is read again in each turn, since \<open>serverMaxSocket\<close> can grow. \<open>None\<close> is the
  fuel running out.
\<close>

fun selectLoop :: "nat \<Rightarrow> Env \<Rightarrow> Ready \<Rightarrow> nat \<Rightarrow> SelectState \<Rightarrow> Server \<Rightarrow> (SelectState \<times> Server) res option" where
  "selectLoop 0 env rd i st sv = None"
| "selectLoop (Suc fuel) env rd i st sv =
     (if serverMaxSocket st < i then Some (Inr (st, sv))
      else
        (case (if i \<in> rdReadable rd then readSocket env rd i st sv else Inr (st, sv)) of
           Inl e \<Rightarrow> Some (Inl e)
         | Inr (st1, sv1) \<Rightarrow>
             selectLoop fuel env rd (i + 1)
               (if i \<in> rdWritable rd then st1\<lparr>serverWriteSockets := serverWriteSockets st1 - {i}\<rparr> else st1) sv1))"

definition serverTick :: "nat \<Rightarrow> Env \<Rightarrow> Ready \<Rightarrow> SelectState \<Rightarrow> Server \<Rightarrow> (SelectState \<times> Server) res option" where
  "serverTick fuel env rd st sv =
     (if raSize (svRoutines sv) \<noteq> 0 then
        (case RoutineTick (envFiles env) (withDeferred st sv) of
           Inl e \<Rightarrow> Some (Inl e)
         | Inr sv1 \<Rightarrow> selectLoop fuel env rd 0 (st\<lparr>serverWriteSockets := svDeferred sv1\<rparr>) sv1)
      else selectLoop fuel env rd 0 st sv)"

section \<open>The loop ends\<close>

text \<open>
  C30. A pass over the sockets ends: the descriptors it accepts are the only thing that can raise the
  bound of the loop, and with a fuel above the largest of them and of \<open>serverMaxSocket\<close> the pass
  always produces its result.
\<close>

theorem selectLoop_ends:
  assumes "serverMaxSocket st \<le> B" "\<forall>l. rdAccept rd l \<le> B" "i \<le> B + 1" "B + 1 - i < fuel"
  shows "\<exists>r. selectLoop fuel env rd i st sv = Some r"
  using assms
proof (induction fuel arbitrary: i st sv)
  case (Suc fuel)
  show ?case
  proof (cases "serverMaxSocket st < i")
    case False
    let ?step = "if i \<in> rdReadable rd then readSocket env rd i st sv else Inr (st, sv)"
    show ?thesis
    proof (cases ?step)
      case (Inr y)
      obtain st1 sv1 where y: "y = (st1, sv1)" by (cases y)
      have "serverMaxSocket st1 \<le> B"
        using Inr y Suc.prems(1,2)
        by (auto simp: readSocket_def closeConnection_def Let_def res_simps split: if_splits prod.splits)
      moreover have "i + 1 \<le> B + 1" "B + 1 - (i + 1) < fuel" using False Suc.prems by auto
      ultimately show ?thesis
        using False Inr y Suc.prems(2)
          Suc.IH [of "if i \<in> rdWritable rd then st1\<lparr>serverWriteSockets := serverWriteSockets st1 - {i}\<rparr> else st1" "i + 1" sv1]
        by simp
    qed (use False in simp)
  qed simp
qed simp

section \<open>Requests stay below the root\<close>

lemma suffix_divider: "suffix (CHR ''/'' # dropWhile (\<lambda>c. c = CHR ''/'') q) (CHR ''/'' # q)"
  by (induction q) (auto intro: suffix_ConsI)

lemma dropWhile_web_end:
  "chC (root @ CHR ''/'' # dropWhile (\<lambda>c. c = CHR ''/'') q) (Suc (length root + length q)) = NUL"
  using length_dropWhile_le [of "\<lambda>c. c = CHR ''/''" q] by (simp add: chC_def)

text \<open>
  C7. Whatever the bytes of a request are, the file it is answered from lies below the root
  directory: the path the handler opens is the root, a divider and a rest in which no element begins
  with two dots, even when the dots were escaped.
\<close>

theorem request_stays_below_root:
  assumes "2 \<le> length root" "last root \<noteq> CHR ''/''"
    and "httpClientReadUri buffer = Inr (Some p)" "chC p 0 = CHR ''/''"
    and "platformPathWebToSystem root p = Inr (rc, Some path)"
  shows "\<exists>rest. path = root @ ''/'' @ rest \<and> \<not> sublist ''/..'' (''/'' @ rest)"
proof -
  obtain u where "hexConvertStringToAscii u = Inr p"
    using assms(3) by (auto simp: httpClientReadUri_def res_simps split: option.splits)
  then have safe: "\<not> sublist ''/..'' p"
    by (auto simp: hexConvertStringToAscii_def res_simps hexStripUp_safe)
  obtain q where q: "p = CHR ''/'' # q" using assms(4) by (cases p) (auto simp: chC_def)
  let ?d = "dropWhile (\<lambda>c. c = CHR ''/'') p"
  have path: "path = root @ ''/'' @ ?d"
    using platformPathCombine_plain [OF assms(1,2), of p] assms(5) q dropWhile_web_end [of root q]
    by (auto simp: platformPathWebToSystem_def Let_def split: if_splits)
  have "sublist (CHR ''/'' # ?d) p" using suffix_divider [of q] q by (simp add: suffix_imp_sublist)
  then have "\<not> sublist ''/..'' (CHR ''/'' # ?d)" using safe sublist_order.order_trans by blast
  with path show ?thesis by auto
qed

section \<open>The text of a response\<close>

text \<open>A writer that never faults and adds a fixed text to the stream.\<close>

definition puts :: "(Conn \<Rightarrow> Conn res) \<Rightarrow> string \<Rightarrow> bool" where
  "puts f d \<longleftrightarrow> (\<forall>c. connOk c \<longrightarrow> (\<exists>c1. f c = Inr c1 \<and> appended c d c1))"

lemma puts_printf: "length d < limit \<Longrightarrow> puts (connPrintf limit d) d"
  using connPrintf_fits connPrintf_appended unfolding puts_def by blast

lemma puts_write: "puts (connWrite d) d"
  unfolding puts_def by (auto simp: connWrite_def connText_appended)

lemma puts_skip: "puts Inr []"
  by (simp add: puts_def appended_refl)

lemma puts_connSeq: "list_all2 puts fs ds \<Longrightarrow> puts (connSeq fs) (concat ds)"
proof (induction fs ds rule: list_all2_induct)
  case Nil
  then show ?case by (simp add: puts_def appended_refl)
next
  case (Cons f fs d ds)
  show ?case
    unfolding puts_def
  proof (intro allI impI)
    fix c assume "connOk c"
    with Cons.hyps(1) obtain c1 where c1: "f c = Inr c1" "appended c d c1" unfolding puts_def by blast
    moreover from c1(2) Cons.IH obtain c2 where "connSeq fs c1 = Inr c2" "appended c1 (concat ds) c2"
      unfolding puts_def by (blast dest: appended_ok)
    ultimately show "\<exists>c2. connSeq (f # fs) c = Inr c2 \<and> appended c (concat (d # ds)) c2"
      using appended_trans by auto
  qed
qed

definition responseLine :: "nat \<Rightarrow> string" where
  "responseLine resp = HTTP_RES @ '' '' @ httpHeaderGetResponse resp @ HTTP_EOL"

definition noReuseLine :: "bool \<Rightarrow> string" where
  "noReuseLine b = (if b then ''Connection: close'' @ HTTP_EOL else [])"

definition dateLine :: "string \<Rightarrow> string" where
  "dateLine now = ''Date: '' @ now @ HTTP_EOL"

definition lastElement :: "string \<Rightarrow> string" where
  "lastElement path = (case strrchr path (CHR ''/'') of None \<Rightarrow> path | Some i \<Rightarrow> drop (i + 1) path)"

definition fileNameLine :: "string \<Rightarrow> string" where
  "fileNameLine path = ''Content-Disposition: filename='' @ [DQUOTE] @ lastElement path @ [DQUOTE] @ HTTP_EOL"

lemma puts_response: "puts (httpHeaderWriteResponse resp) (responseLine resp)"
  unfolding httpHeaderWriteResponse_def httpHeaderWriteResponseStr_def responseLine_def
  by (rule puts_printf) (simp add: HTTP_RES_def)

lemma puts_noReuse: "puts (headerNoReuse b) (noReuseLine b)"
  using puts_write puts_skip by (simp add: headerNoReuse_def noReuseLine_def httpHeaderWriteConnectionClose_def)

lemma puts_date: "length now \<le> 29 \<Longrightarrow> puts (httpHeaderWriteDate now) (dateLine now)"
  unfolding httpHeaderWriteDate_def dateLine_def by (rule puts_printf) simp

lemma puts_fileName: "puts (httpHeaderWriteFileName path) (fileNameLine path)"
  unfolding httpHeaderWriteFileName_def fileNameLine_def Let_def lastElement_def by (rule puts_printf) simp

lemma puts_end: "puts httpHeaderWriteEnd HTTP_EOL"
  unfolding httpHeaderWriteEnd_def by (rule puts_write)

lemma puts_acceptRanges: "puts httpHeaderWriteAcceptRanges (''Accept-Ranges: bytes'' @ HTTP_EOL)"
  unfolding httpHeaderWriteAcceptRanges_def by (rule puts_write)

lemma showOffset_length: "length (showOffset n) \<le> 20"
  unfolding showOffset_def by (rule show_nat_length) (simp_all add: nat_less_iff)

lemma puts_contentLength: "puts (httpHeaderWriteContentLength n) (''Content-Length: '' @ showOffset n @ HTTP_EOL)"
  unfolding httpHeaderWriteContentLength_def by (rule puts_printf) (use showOffset_length [of n] in simp)

definition rangeLine :: "int \<Rightarrow> int \<Rightarrow> int \<Rightarrow> string" where
  "rangeLine start finish len =
     ''Content-Range: bytes '' @ showOffset start @ ''-'' @
     showOffset (if finish = len then finish - 1 else finish) @ ''/'' @ showOffset len @ HTTP_EOL"

lemma puts_range: "puts (httpHeaderWriteRange start finish len) (rangeLine start finish len)"
  unfolding httpHeaderWriteRange_def rangeLine_def
  by (rule puts_printf)
    (use showOffset_length [of start] showOffset_length [of len] showOffset_length [of finish]
       showOffset_length [of "len - 1"] showOffset_length [of "finish - 1"] in \<open>simp add: SB_DATA_SIZE_def\<close>)

definition dateText :: "PlatformTimeStruct \<Rightarrow> string" where
  "dateText t = (case platformTimeStructToStr t of Some s \<Rightarrow> s | None \<Rightarrow> [])"

lemma puts_lastModified:
  assumes "validTime (st_mtime st)"
  shows "puts (httpHeaderWriteLastModified st) (''Last-Modified: '' @ dateText (st_mtime st) @ HTTP_EOL)"
proof -
  obtain s where s: "platformTimeStructToStr (st_mtime st) = Some s"
    using platformTimeStructToStr_Some [OF assms] by simp
  then have "length s < 30" by (auto simp: platformTimeStructToStr_def Let_def split: if_splits)
  then have "puts (connPrintf 50 (''Last-Modified: '' @ s @ HTTP_EOL)) (''Last-Modified: '' @ s @ HTTP_EOL)"
    by (intro puts_printf) simp
  then show ?thesis using s by (simp add: puts_def httpHeaderWriteLastModified_def dateText_def)
qed

lemmas puts_headers = puts_response puts_noReuse puts_date puts_fileName puts_end puts_acceptRanges
  puts_contentLength puts_range puts_lastModified

text \<open>The header of the response to a request for a file.\<close>

definition fileHeaderText :: "Env \<Rightarrow> string \<Rightarrow> PlatformFileStat \<Rightarrow> bool \<Rightarrow> int \<Rightarrow> int \<Rightarrow> string" where
  "fileHeaderText env webPath st e start finish =
     responseLine (if e then 200 else 206) @ noReuseLine (envNoReuse env) @ dateLine (envNow env) @ fileNameLine webPath @
     (''Last-Modified: '' @ dateText (st_mtime st) @ HTTP_EOL) @ (''Accept-Ranges: bytes'' @ HTTP_EOL) @
     (if e then ''Content-Length: '' @ showOffset (int (st_size st)) @ HTTP_EOL
      else (''Content-Length: '' @ showOffset (finish - start) @ HTTP_EOL) @ rangeLine start finish (int (st_size st))) @
     HTTP_EOL"

lemma puts_fileHeaders:
  assumes "length (envNow env) \<le> 29" "validTime (st_mtime st)"
  shows "puts (fileHeaders env webPath st e start finish) (fileHeaderText env webPath st e start finish)"
proof -
  let ?fs = "[httpHeaderWriteResponse (if e then 200 else 206), headerNoReuse (envNoReuse env),
               httpHeaderWriteDate (envNow env), httpHeaderWriteFileName webPath, httpHeaderWriteLastModified st,
               httpHeaderWriteAcceptRanges]"
  let ?ds = "[responseLine (if e then 200 else 206), noReuseLine (envNoReuse env), dateLine (envNow env),
              fileNameLine webPath, ''Last-Modified: '' @ dateText (st_mtime st) @ HTTP_EOL,
              ''Accept-Ranges: bytes'' @ HTTP_EOL]"
  have a: "list_all2 puts ?fs ?ds"
    by (intro list.rel_intros puts_headers assms)
  show ?thesis
  proof (cases e)
    case True
    have "list_all2 puts (?fs @ [httpHeaderWriteContentLengthSt st] @ [httpHeaderWriteEnd])
        (?ds @ [''Content-Length: '' @ showOffset (int (st_size st)) @ HTTP_EOL] @ [HTTP_EOL])"
      unfolding httpHeaderWriteContentLengthSt_def by (intro list_all2_appendI a list.rel_intros puts_headers)
    from puts_connSeq [OF this] True show ?thesis
      unfolding fileHeaders_def fileHeaderText_def by simp
  next
    case False
    have "list_all2 puts (?fs @ [httpHeaderWriteContentLength (finish - start),
           httpHeaderWriteRange start finish (int (st_size st))] @ [httpHeaderWriteEnd])
        (?ds @ [''Content-Length: '' @ showOffset (finish - start) @ HTTP_EOL, rangeLine start finish (int (st_size st))] @ [HTTP_EOL])"
      by (intro list_all2_appendI a list.rel_intros puts_headers)
    from puts_connSeq [OF this] False show ?thesis
      unfolding fileHeaders_def fileHeaderText_def by simp
  qed
qed


section \<open>Serving a file\<close>

lemma sendBufferNew_facts [simp]: "sbSocket (sendBufferNew s n) = s" "sbBuffer (sendBufferNew s n) = None"
  by (simp_all add: sendBufferNew_def)

lemma handleFile_plain:
  assumes "envContent env path = Some fp" "httpHeaderReadRange header 0 0 (int (st_size st)) = (True, x, y)"
    "type \<noteq> httpHead" "length (envNow env) \<le> 29" "validTime (st_mtime st)"
  shows "\<exists>sb net. handleFile env s header web path type st sv =
            Inr (False, svAddRoutine env (FileRoutineNew sb fp x (int (st_size st)) web)
                          (svSetNet net (eventHttpRespondInvoke s web type 200) sv)) \<and>
          appended (sendBufferNew s 0, svNet sv) (fileHeaderText env web st True x y) (sb, net)"
proof -
  from puts_fileHeaders [OF assms(4,5), of web True x y] obtain c1 where
    c1: "fileHeaders env web st True x y (sendBufferNew s 0, svNet sv) = Inr c1"
    "appended (sendBufferNew s 0, svNet sv) (fileHeaderText env web st True x y) c1"
    unfolding puts_def by force
  obtain sb net where "c1 = (sb, net)" by (cases c1)
  with c1 assms(1,2,3) show ?thesis by (auto simp: handleFile_def)
qed

lemma httpHeaderReadRange_unchanged:
  "httpHeaderReadRange header a b n = (True, x, y) \<Longrightarrow> x = a \<and> y = b"
  by (auto simp: httpHeaderReadRange_def Let_def split: option.splits prod.splits if_splits)

lemma file_response_wire:
  assumes "envContent env path = Some fp" "httpHeaderReadRange header 0 0 (int (st_size st)) = (True, x, y)"
    "type \<noteq> httpHead" "length (envNow env) \<le> 29" "validTime (st_mtime st)" "st_size st \<le> length fp" "envAlloc env"
    and "handleFile env s header web path type st sv = Inr (closing, sv1)" "r = last (raArray (svRoutines sv1))"
    and "\<not> sbFail (rBuffer r)" "fileRun fs (r, svNet sv1, D0) (r1, net1, D1)"
    and "routineTurn fs r1 net1 D1 = Inr (Gone r2, net2, D2)" "rState r2 AND STATE_FAIL = 0"
  shows "\<not> closing \<and>
    chWire (net2 s) = chWire (svNet sv s) @ fileHeaderText env web st True 0 0 @ take (st_size st) fp"
proof -
  have xy: "x = 0" "y = 0" using httpHeaderReadRange_unchanged [OF assms(2)] by auto
  from handleFile_plain [OF assms(1-5), of s web sv] assms(8) xy obtain sb net where
    h: "\<not> closing" "sv1 = svAddRoutine env (FileRoutineNew sb fp 0 (int (st_size st)) web)
          (svSetNet net (eventHttpRespondInvoke s web type 200) sv)"
    and ap: "appended (sendBufferNew s 0, svNet sv) (fileHeaderText env web st True 0 0) (sb, net)"
    by auto
  have r: "r = FileRoutineNew sb fp 0 (int (st_size st)) web" and net: "svNet sv1 = net"
    using assms(7,9) h(2) by (simp_all add: svAddRoutine_def svSetNet_def RoutineArrayAdd_def)
  have sb: "sbOk sb" "\<not> sbFail sb" "rBuffer r = sb"
    using ap assms(10) r by (auto simp: appended_def FileRoutineNew_def)
  then have stream: "sbStream sb net = chWire (svNet sv s) @ fileHeaderText env web st True 0 0"
    using ap by (simp add: appended_def)
  have "sbSocket sb = s" using ap by (simp add: appended_def)
  moreover have "chWire (net2 (sbSocket sb)) = sbStream sb net @ take (st_size st - 0) (drop 0 fp)"
    using fileRun_delivered [OF sb(1,2) _ assms(6), of 0 fs web net D0 r1 net1 D1 r2 net2 D2] assms(11,12,13) r net
    by simp
  ultimately show ?thesis using stream h(1) by simp
qed

text \<open>
  C4. A file is served whole: when \<open>handleFile\<close> has answered a request without a range and the
  routine it started ends without the failure mark, in whatever way the network and the other
  connections interleaved, the client has been sent the response header, with the length of the
  file in it, followed by the bytes of the file.
\<close>

theorem file_response_complete:
  assumes "envContent env path = Some fp" "httpHeaderReadRange header 0 0 (int (st_size st)) = (True, x, y)"
    "type \<noteq> httpHead" "length (envNow env) \<le> 29" "validTime (st_mtime st)" "st_size st \<le> length fp" "envAlloc env"
    and "handleFile env s header web path type st sv = Inr (closing, sv1)" "r = last (raArray (svRoutines sv1))"
    and "\<not> sbFail (rBuffer r)" "fileRun fs (r, svNet sv1, D0) (r1, net1, D1)"
    and "routineTurn fs r1 net1 D1 = Inr (Gone r2, net2, D2)" "rState r2 AND STATE_FAIL = 0"
  shows "\<not> closing \<and>
    chWire (net2 s) = chWire (svNet sv s) @ fileHeaderText env web st True 0 0 @ take (st_size st) fp"
  using assms by (rule file_response_wire)

section \<open>A connection that takes nothing yet\<close>

definition calm :: "(Conn \<Rightarrow> Conn res) \<Rightarrow> bool" where
  "calm f \<longleftrightarrow> (\<forall>net c c1. silent net c \<longrightarrow> f c = Inr c1 \<longrightarrow> silent net c1 \<and> sbOptions (fst c1) = sbOptions (fst c))"

lemma connText_options: "silent net c \<Longrightarrow> sbOptions (fst (snd (connText d c))) = sbOptions (fst c)"
  by (cases "sbBuffer (fst c)")
     (auto simp: silent_def connText_def sendBufferWriteText_def sendBufferWriteData_def sock_send_silent Let_def)

lemma calm_write: "calm (connWrite d)"
  unfolding calm_def connWrite_def using connText_silent connText_options by auto

lemma calm_printf: "calm (connPrintf limit d)"
  unfolding calm_def
proof (intro allI impI)
  fix net c c1
  assume s: "silent net c" and e: "connPrintf limit d c = Inr c1"
  show "silent net c1 \<and> sbOptions (fst c1) = sbOptions (fst c)"
  proof (cases "sbBuffer (fst c)")
    case None
    with e have "c1 = snd (connText d c)"
      by (auto simp: connPrintf_def sendBufferPrintf_def connText_def split: if_splits prod.splits)
    with s show ?thesis using connText_silent connText_options by simp
  next
    case (Some ms)
    with e have "c1 = ((fst c)\<lparr>sbBuffer := Some (msWrite (msSeekEnd ms) d)\<rparr>, snd c)"
      by (auto simp: connPrintf_def sendBufferPrintf_def)
    with s show ?thesis by (simp add: silent_def)
  qed
qed

lemma calm_connSeq: "list_all calm fs \<Longrightarrow> calm (connSeq fs)"
proof (induction fs)
  case (Cons f fs)
  then have f: "calm f" and fs: "calm (connSeq fs)" by simp_all
  show ?case
    unfolding calm_def
  proof (intro allI impI)
    fix net c c2
    assume s: "silent net c" and e: "connSeq (f # fs) c = Inr c2"
    from e obtain c1 where c1: "f c = Inr c1" "connSeq fs c1 = Inr c2" by (auto simp: res_simps)
    with f s have "silent net c1" "sbOptions (fst c1) = sbOptions (fst c)" unfolding calm_def by blast+
    with fs c1(2) show "silent net c2 \<and> sbOptions (fst c2) = sbOptions (fst c)" unfolding calm_def by metis
  qed
qed (simp add: calm_def)

lemma calm_skip: "calm Inr"
  by (simp add: calm_def)

lemma calm_lastModified: "calm (httpHeaderWriteLastModified st)"
  using calm_printf unfolding calm_def httpHeaderWriteLastModified_def by (auto split: option.splits)

lemma calm_fileHeaders: "calm (fileHeaders env web st e start finish)"
  unfolding fileHeaders_def
  by (rule calm_connSeq)
    (auto simp: httpHeaderWriteResponse_def httpHeaderWriteResponseStr_def headerNoReuse_def httpHeaderWriteConnectionClose_def
      httpHeaderWriteDate_def httpHeaderWriteFileName_def Let_def httpHeaderWriteAcceptRanges_def
      httpHeaderWriteContentLengthSt_def httpHeaderWriteContentLength_def httpHeaderWriteRange_def httpHeaderWriteEnd_def
      calm_write calm_printf calm_skip calm_lastModified)

section \<open>Modified since\<close>

text \<open>
  A request with a date is answered with 304 exactly when the file has not been modified after that
  date, as seconds of a calendar count; otherwise the date makes no difference.
\<close>

theorem handlePath_not_modified:
  assumes "platformPathWebToSystem (globalRootPath env) web = Inr (0, Some path)"
    "envFiles env path = Some st" "httpHeaderReadIfModifiedSince header noTime = Inr (False, tm)"
    "validTime tm" "validTime (st_mtime st)"
  shows "handlePath env s header web sv =
    (if timeKey (st_mtime st) \<le> timeKey tm then notModified env s web (httpClientReadType header) sv
     else if st_isdir st then boolNat (handleDir env s web path (httpClientReadType header) st sv)
     else if st_isreg st then boolNat (handleFile env s header web path (httpClientReadType header) st sv)
     else Inr (typeValue (httpClientReadType header), sv))"
  using assms platformTimeStructCompare_order [OF assms(4,5)]
  by (auto simp: handlePath_def platformFileStat_def platformFileStatIsDirectory_def platformFileStatIsFile_def sgn_if)

text \<open>
  The response to such a request is the line with code 304, the date and the end of the header, and
  it is left to a routine to flush it.
\<close>

theorem notModified_response:
  assumes "length (envNow env) \<le> 29" "envAlloc env" "notModified env s web type sv = Inr (n, sv1)"
    "r = last (raArray (svRoutines sv1))" "\<not> sbFail (rBuffer r)"
  shows "n = 0 \<and> rState r = STATE_FLUSH OR TYPE_ROUTINE \<and>
    sbStream (rBuffer r) (svNet sv1) = chWire (svNet sv s) @ responseLine 304 @ noReuseLine (envNoReuse env) @
      dateLine (envNow env) @ HTTP_EOL"
proof -
  have "puts (connSeq [httpHeaderWriteResponse 304, headerNoReuse (envNoReuse env), httpHeaderWriteDate (envNow env),
      httpHeaderWriteEnd])
      (concat [responseLine 304, noReuseLine (envNoReuse env), dateLine (envNow env), HTTP_EOL])"
    by (intro puts_connSeq list.rel_intros puts_headers assms(1))
  then obtain c1 where c1: "connSeq [httpHeaderWriteResponse 304, headerNoReuse (envNoReuse env),
      httpHeaderWriteDate (envNow env), httpHeaderWriteEnd] (sendBufferNew s 0, svNet sv) = Inr c1"
    "appended (sendBufferNew s 0, svNet sv) (responseLine 304 @ noReuseLine (envNoReuse env) @ dateLine (envNow env) @ HTTP_EOL) c1"
    unfolding puts_def by force
  then have "n = 0" "sv1 = svAddRoutine env (RoutineNew (fst c1) web)
      (svSetNet (snd c1) (eventHttpRespondInvoke s web type 304) sv)"
    using assms(3) by (auto simp: notModified_def split_def)
  then have "r = RoutineNew (fst c1) web" "svNet sv1 = snd c1" "n = 0"
    using assms(2,4) by (simp_all add: svAddRoutine_def svSetNet_def RoutineArrayAdd_def)
  moreover have "TYPE_ROUTINE OR STATE_FLUSH = STATE_FLUSH OR TYPE_ROUTINE" by (simp add: state_defs)
  ultimately show ?thesis
    using c1(2) assms(5) by (simp add: appended_def RoutineNew_def)
qed


section \<open>Witnesses\<close>

lemma sendBufferNew_options: "sbOptions (sendBufferNew s n) = n"
  by (simp add: sendBufferNew_def)

definition exampleTime :: PlatformTimeStruct where
  "exampleTime = \<lparr>tm_sec = 37, tm_min = 49, tm_hour = 8, tm_mday = 6, tm_mon = 10, tm_year = 94, tm_wday = 0\<rparr>"

definition exampleStat :: PlatformFileStat where
  "exampleStat = \<lparr>st_size = 6, st_isdir = False, st_isreg = True, st_mtime = exampleTime\<rparr>"

definition exampleEnv :: Env where
  "exampleEnv =
     \<lparr>envFiles = (\<lambda>p. if p = ''/srv/f'' then Some exampleStat else None),
      envContent = (\<lambda>p. if p = ''/srv/f'' then Some ''abcdef'' else None),
      envEntries = (\<lambda>_. None), envNow = ''Sun, 06 Nov 1994 08:49:37 GMT'', envNoReuse = True,
      globalRootPath = ''/srv'', envAlloc = True\<rparr>"

definition exampleRequest :: string where
  "exampleRequest = ''GET /f HTTP/1.1'' @ HTTP_EOL @ HTTP_EOL"

lemma exampleRequest_no_range: "httpHeaderReadRange exampleRequest 0 0 n = (True, 0, 0)"
proof -
  have "strstr exampleRequest ''Range'' = None" by (simp add: exampleRequest_def)
  then show ?thesis by (simp add: httpHeaderReadRange_def)
qed

lemma exampleTime_valid: "validTime exampleTime"
  by (simp add: validTime_def exampleTime_def)

lemma example_file_run:
  "\<exists>sv1 r1 net1 D1 r2 D2.
     handleFile exampleEnv 4 exampleRequest ''/f'' ''/srv/f'' httpGet exampleStat (plainServer []) = Inr (False, sv1) \<and>
     \<not> sbFail (rBuffer (last (raArray (svRoutines sv1)))) \<and>
     fileRun (\<lambda>_. None) (last (raArray (svRoutines sv1)), svNet sv1, {}) (r1, net1, D1) \<and>
     routineTurn (\<lambda>_. None) r1 net1 D1 = Inr (Gone r2, net1, D2) \<and> rState r2 AND STATE_FAIL = 0"
proof -
  let ?sv = "plainServer []"
  note pre = exampleRequest_no_range [of "int (st_size exampleStat)"]
  have env: "envContent exampleEnv ''/srv/f'' = Some ''abcdef''" "length (envNow exampleEnv) \<le> 29" "envAlloc exampleEnv"
    "validTime (st_mtime exampleStat)" "st_size exampleStat \<le> length ''abcdef''"
    by (simp_all add: exampleEnv_def exampleStat_def exampleTime_valid)
  from puts_fileHeaders [OF env(2,4), of "''/f''" True 0 0] obtain c1 where
    c1: "fileHeaders exampleEnv ''/f'' exampleStat True 0 0 (sendBufferNew 4 0, svNet ?sv) = Inr c1"
    "appended (sendBufferNew 4 0, svNet ?sv) (fileHeaderText exampleEnv ''/f'' exampleStat True 0 0) c1"
    unfolding puts_def by force
  have "silent (svNet ?sv) (sendBufferNew 4 0, svNet ?sv)" by (simp add: silent_def plainServer_def)
  with calm_fileHeaders c1(1) have opt: "sbOptions (fst c1) = 0"
    unfolding calm_def by (metis fst_conv sendBufferNew_options)
  let ?r = "FileRoutineNew (fst c1) ''abcdef'' (int 0) (int 6) ''/f''"
  let ?sv1 = "svAddRoutine exampleEnv ?r (svSetNet (snd c1) (eventHttpRespondInvoke 4 ''/f'' httpGet 200) ?sv)"
  have h: "handleFile exampleEnv 4 exampleRequest ''/f'' ''/srv/f'' httpGet exampleStat ?sv = Inr (False, ?sv1)"
    using c1(1) env(1) pre by (simp add: handleFile_def split_def exampleStat_def)
  have r: "last (raArray (svRoutines ?sv1)) = ?r" "svNet ?sv1 = snd c1"
    by (simp_all add: svAddRoutine_def svSetNet_def RoutineArrayAdd_def exampleEnv_def)
  have nf: "\<not> sbFail (rBuffer ?r)" using opt by (simp add: FileRoutineNew_def sbFail_def)
  obtain r net1 D1 r1 D2 where run: "fileRun (\<lambda>_. None) (?r, snd c1, {}) (r, net1, D1)"
    "routineTurn (\<lambda>_. None) r net1 D1 = Inr (Gone r1, net1, D2)" "rState r1 AND STATE_FAIL = 0"
    using file_routine_reaches_end [OF appended_ok [OF c1(2)] opt, where a = 0 and b = 6 and content = "''abcdef''"
        and fs = "\<lambda>_. None" and web = "''/f''" and net = "snd c1" and D = "{}"] by auto
  have run1: "fileRun (\<lambda>_. None) (?r, svNet ?sv1, {}) (r, net1, D1)" using run(1) r(2) by simp
  have "fileRun (\<lambda>_. None) (last (raArray (svRoutines ?sv1)), svNet ?sv1, {}) (r, net1, D1)"
    using run1 r(1) by simp
  moreover have "\<not> sbFail (rBuffer (last (raArray (svRoutines ?sv1))))" using nf r(1) by simp
  ultimately show ?thesis using h run(2,3) by blast
qed

lemma file_response_complete_witness:
  "\<exists>sv1 r1 net1 D1 r2 D2.
     handleFile exampleEnv 4 exampleRequest ''/f'' ''/srv/f'' httpGet exampleStat (plainServer []) = Inr (False, sv1) \<and>
     fileRun (\<lambda>_. None) (last (raArray (svRoutines sv1)), svNet sv1, {}) (r1, net1, D1) \<and>
     routineTurn (\<lambda>_. None) r1 net1 D1 = Inr (Gone r2, net1, D2) \<and>
     chWire (net1 4) = fileHeaderText exampleEnv ''/f'' exampleStat True 0 0 @ ''abcdef''"
proof -
  from example_file_run obtain sv1 r1 net1 D1 r2 D2 where run:
    "handleFile exampleEnv 4 exampleRequest ''/f'' ''/srv/f'' httpGet exampleStat (plainServer []) = Inr (False, sv1)"
    "\<not> sbFail (rBuffer (last (raArray (svRoutines sv1))))"
    "fileRun (\<lambda>_. None) (last (raArray (svRoutines sv1)), svNet sv1, {}) (r1, net1, D1)"
    "routineTurn (\<lambda>_. None) r1 net1 D1 = Inr (Gone r2, net1, D2)" "rState r2 AND STATE_FAIL = 0" by blast
  have env: "envContent exampleEnv ''/srv/f'' = Some ''abcdef''" "length (envNow exampleEnv) \<le> 29" "envAlloc exampleEnv"
    "validTime (st_mtime exampleStat)" "st_size exampleStat \<le> length ''abcdef''" "httpGet \<noteq> httpHead"
    by (simp_all add: exampleEnv_def exampleStat_def exampleTime_valid)
  from file_response_complete [OF env(1) exampleRequest_no_range env(6,2,4,5,3) run(1) refl run(2-5)]
  have "chWire (net1 4) = fileHeaderText exampleEnv ''/f'' exampleStat True 0 0 @ ''abcdef''"
    by (simp add: plainServer_def exampleStat_def)
  with run show ?thesis by blast
qed

lemma exampleStat_newer: "timeKey (st_mtime exampleStat) \<le> timeKey exampleTime"
  by (simp add: exampleStat_def)

definition exampleDated :: string where
  "exampleDated = ''GET /f HTTP/1.1'' @ HTTP_EOL @ ''If-Modified-Since: Sun, 06 Nov 1994 08:49:37 GMT'' @ HTTP_EOL @ HTTP_EOL"

lemma notModified_response_witness:
  "\<exists>n sv1. notModified exampleEnv 4 ''/f'' httpGet (plainServer []) = Inr (n, sv1) \<and> n = 0"
proof -
  have "calm (connSeq [httpHeaderWriteResponse 304, headerNoReuse (envNoReuse exampleEnv),
      httpHeaderWriteDate (envNow exampleEnv), httpHeaderWriteEnd])"
    by (rule calm_connSeq)
      (auto simp: httpHeaderWriteResponse_def httpHeaderWriteResponseStr_def headerNoReuse_def
        httpHeaderWriteConnectionClose_def httpHeaderWriteDate_def httpHeaderWriteEnd_def calm_write calm_printf calm_skip)
  moreover have "puts (connSeq [httpHeaderWriteResponse 304, headerNoReuse (envNoReuse exampleEnv),
      httpHeaderWriteDate (envNow exampleEnv), httpHeaderWriteEnd])
      (concat [responseLine 304, noReuseLine (envNoReuse exampleEnv), dateLine (envNow exampleEnv), HTTP_EOL])"
    by (intro puts_connSeq list.rel_intros puts_headers) (simp add: exampleEnv_def)
  then obtain c1 where c1: "connSeq [httpHeaderWriteResponse 304, headerNoReuse (envNoReuse exampleEnv),
      httpHeaderWriteDate (envNow exampleEnv), httpHeaderWriteEnd] (sendBufferNew 4 0, svNet (plainServer [])) = Inr c1"
    unfolding puts_def by force
  moreover have "silent (svNet (plainServer [])) (sendBufferNew 4 0, svNet (plainServer []))"
    by (simp add: silent_def plainServer_def)
  ultimately have opt: "sbOptions (fst c1) = 0" unfolding calm_def by (metis fst_conv sendBufferNew_options)
  let ?sv1 = "svAddRoutine exampleEnv (RoutineNew (fst c1) ''/f'')
      (svSetNet (snd c1) (eventHttpRespondInvoke 4 ''/f'' httpGet 304) (plainServer []))"
  have e: "notModified exampleEnv 4 ''/f'' httpGet (plainServer []) = Inr (0, ?sv1)"
    using c1 by (simp add: notModified_def split_def)
  have r: "last (raArray (svRoutines ?sv1)) = RoutineNew (fst c1) ''/f''"
    by (simp add: svAddRoutine_def svSetNet_def RoutineArrayAdd_def exampleEnv_def)
  have "length (envNow exampleEnv) \<le> 29" "envAlloc exampleEnv" by (simp_all add: exampleEnv_def)
  from notModified_response [OF this e r [symmetric]] opt e show ?thesis
    by (auto simp: RoutineNew_def sbFail_def)
qed

lemma request_stays_below_root_witness:
  "\<exists>rest. ''/srv/etc/passwd'' = ''/srv'' @ ''/'' @ rest \<and> \<not> sublist ''/..'' (''/'' @ rest)"
proof -
  have u: "httpClientReadUri ''GET /%2e%2e/etc/passwd HTTP/1.1'' = Inr (Some ''//etc/passwd'')" by code_simp
  have w: "platformPathWebToSystem ''/srv'' ''//etc/passwd'' = Inr (0, Some ''/srv/etc/passwd'')"
    by (simp add: platformPathWebToSystem_def FILENAME_MAX_def platformPathCombine_plain chC_def)
  show ?thesis
    by (rule request_stays_below_root [OF _ _ u _ w]) (simp_all add: chC_def)
qed

text \<open>A connection that takes each text at once stays without a memory stream.\<close>

lemma connPrintf_direct:
  assumes "sbBuffer sb = None" "chAnswers (net (sbSocket sb)) = Accepts n # as" "length d \<le> n" "length d < limit"
  shows "connPrintf limit d (sb, net) =
    Inr (sb, net(sbSocket sb := \<lparr>chAnswers = as, chWire = chWire (net (sbSocket sb)) @ d\<rparr>))"
  using assms writeData_ready [where self = sb and net = net and n = n and as = as and d = d]
  by (simp add: connPrintf_def sendBufferPrintf_def sendBufferWriteText_def)

lemma connWrite_direct:
  assumes "sbBuffer sb = None" "chAnswers (net (sbSocket sb)) = Accepts n # as" "length d \<le> n"
  shows "connWrite d (sb, net) = Inr (sb, net(sbSocket sb := \<lparr>chAnswers = as, chWire = chWire (net (sbSocket sb)) @ d\<rparr>))"
  using assms writeData_ready [where self = sb and net = net and n = n and as = as and d = d]
  by (simp add: connWrite_def connText_def sendBufferWriteText_def)

lemma httpHeaderGetResponse_short: "length (httpHeaderGetResponse code0) \<le> 35"
  by (simp add: httpHeaderGetResponse_def)

lemma contentType_direct:
  "sbBuffer sb = None \<Longrightarrow> httpHeaderWriteContentType ''text/html'' [] (sb, net) = Inl BufferOverflow"
  by (simp add: httpHeaderWriteContentType_def SB_DATA_SIZE_def connPrintf_overflow)

text \<open>
  Listing a directory for a client whose connection takes the first header lines at once writes a
  byte behind a heap block: the block for the content type has no room for the terminating NUL.
\<close>

theorem handleDir_overflow:
  assumes "platformDirOpen env path = Some dir" "validTime (st_mtime st)" "length (envNow env) \<le> 29"
    "chAnswers (svNet sv s) = replicate 4 (Accepts n)" "100 \<le> n"
  shows "handleDir env s web path type st sv = Inl BufferOverflow"
proof -
  obtain t where t: "platformTimeStructToStr (st_mtime st) = Some t" "length t < 30"
    using platformTimeStructToStr_Some [OF assms(2)] by (auto simp: platformTimeStructToStr_def Let_def split: if_splits)
  have "dirHeaders env st (sendBufferNew s 0, svNet sv) = Inl BufferOverflow"
    using assms(3,4,5) t httpHeaderGetResponse_short [of 200]
    by (cases "envNoReuse env")
      (simp_all add: dirHeaders_def httpHeaderWriteResponse_def httpHeaderWriteResponseStr_def headerNoReuse_def
        httpHeaderWriteConnectionClose_def httpHeaderWriteDate_def httpHeaderWriteLastModified_def numeral_eq_Suc HTTP_RES_def
        connPrintf_direct connWrite_direct contentType_direct)
  then show ?thesis using assms(1) by (simp add: handleDir_def)
qed

lemma handleDir_overflow_witness:
  "handleDir (exampleEnv\<lparr>envEntries := (\<lambda>_. Some [])\<rparr>) 4 ''/'' ''/srv'' httpGet (exampleStat\<lparr>st_isdir := True\<rparr>)
     ((plainServer [])\<lparr>svNet := (\<lambda>_. \<lparr>chAnswers = replicate 4 (Accepts 9000), chWire = []\<rparr>)\<rparr>) = Inl BufferOverflow"
  by (rule handleDir_overflow [where dir = "\<lparr>pd_path = ''/srv'', pd_left = []\<rparr>" and n = 9000])
    (simp_all add: platformDirOpen_def exampleEnv_def exampleStat_def exampleTime_valid)

lemma selectLoop_ends_witness:
  "\<exists>r. selectLoop 9 exampleEnv \<lparr>rdReadable = {3}, rdWritable = {}, rdAccept = (\<lambda>_. 7), rdInput = (\<lambda>_. [])\<rparr> 0
         (selectInit\<lparr>serverMaxSocket := 3\<rparr>) (plainServer []) = Some r"
  by (rule selectLoop_ends [where B = 7]) (simp_all add: selectInit_def)

end
