(* ===== verification/Th_Cli.thy ===== *)
theory Th_Cli
  imports Server Uri
begin

text \<open>
  \<open>src/cli/th.c\<close>: how the server is started from its command line and what it prints, with the adapters of
  \<open>src/platform/posix01.c\<close> it lists.
\<close>

section \<open>The adapters of the machine\<close>

text \<open>An element of the list of \<open>getifaddrs (3)\<close>; its address with the text \<open>inet_ntoa\<close> or \<open>inet_ntop\<close> prints.\<close>

record IfAddr =
  ifaName :: "string option"
  ifaAddr :: "(sa_family \<times> string) option"
  ifaLoopback :: bool
  ifaPointToPoint :: bool

fun adapterLoop :: "sa_family \<Rightarrow> IfAddr list \<Rightarrow> NetworkAdapter list \<Rightarrow> NetworkAdapter list" where
  "adapterLoop family [] arr = arr"
| "adapterLoop family (ifa # ifas) arr =
     adapterLoop family ifas
       (case (ifaName ifa, ifaAddr ifa) of
          (Some name, Some (f, address)) \<Rightarrow>
            if ifaLoopback ifa \<or> ifaPointToPoint ifa then arr
            else if f = AF_INET \<and> family \<noteq> AF_INET6 \<or> f = AF_INET6 \<and> family \<noteq> AF_INET
            then platformFindOrCreateAdapterIp arr name (if f = AF_INET6 then 1 else 0) address
            else arr
        | _ \<Rightarrow> arr)"

definition platformGetAdapterInformation :: "IfAddr list option \<Rightarrow> sa_family \<Rightarrow> NetworkAdapter list option" where
  "platformGetAdapterInformation ifap family = (case ifap of None \<Rightarrow> None | Some ifas \<Rightarrow> Some (adapterLoop family ifas []))"

section \<open>What is printed\<close>

text \<open>\<open>getpeername (2)\<close>: the family, address and port at the other end of a socket.\<close>

type_synonym Peers = "nat \<Rightarrow> (sa_family \<times> string \<times> nat) option"

definition printSocketAccept :: "Peers \<Rightarrow> nat \<Rightarrow> string" where
  "printSocketAccept peers sock =
     (case peers sock of
        None \<Rightarrow> ''TSYN:?('' @ show_nat sock @ '')'' @ [LF]
      | Some (fam, addr, sin_port) \<Rightarrow>
          let (ip, family) = platformGetIpString fam addr; port = platformGetPort fam sin_port in
          if family = AF_INET then ''TSYN:'' @ ip @ '':'' @ show_nat port @ [LF]
          else if family = AF_INET6 then ''TSYN:['' @ ip @ '']:'' @ show_nat port @ [LF]
          else [])"

definition printSocketClose :: "Peers \<Rightarrow> nat \<Rightarrow> string" where
  "printSocketClose peers sock =
     (case peers sock of
        None \<Rightarrow> ''TRST:?('' @ show_nat sock @ '')'' @ [LF]
      | Some (fam, addr, sin_port) \<Rightarrow>
          let (ip, family) = platformGetIpString fam addr; port = platformGetPort fam sin_port in
          if family = AF_INET then ''TRST:'' @ ip @ '':'' @ show_nat port @ [LF]
          else if family = AF_INET6 then ''TRST:['' @ ip @ '']:'' @ show_nat port @ [LF]
          else ''TRST:?('' @ show_nat sock @ '')'' @ [LF])"

text \<open>\<open>%03d\<close> of a number.\<close>

definition showThree :: "nat \<Rightarrow> string" where
  "showThree n = replicate (3 - length (show_nat n)) (CHR ''0'') @ show_nat n"

definition httpLetter :: "httpType \<Rightarrow> char" where
  "httpLetter type = (case type of httpGet \<Rightarrow> CHR ''G'' | httpHead \<Rightarrow> CHR ''H'' | httpPost \<Rightarrow> CHR ''P'' | httpUnknown \<Rightarrow> CHR ''?'')"

definition printHttpEvent :: "Peers \<Rightarrow> nat \<Rightarrow> string \<Rightarrow> httpType \<Rightarrow> nat \<Rightarrow> string" where
  "printHttpEvent peers sock path type response =
     (let line = httpLetter type # showThree response in
      case peers sock of
        None \<Rightarrow> line @ '':?('' @ show_nat sock @ '')/'' @ path @ [LF]
      | Some (fam, addr, sin_port) \<Rightarrow>
          let (ip, family) = platformGetIpString fam addr; port = platformGetPort fam sin_port in
          if family = AF_INET then line @ '':'' @ ip @ '':'' @ show_nat port @ ''/'' @ path @ [LF]
          else if family = AF_INET6 then line @ '':['' @ ip @ '']:'' @ show_nat port @ ''/'' @ path @ [LF]
          else [])"

text \<open>The call backs that \<open>main\<close> installs, and the log they print.\<close>

fun printEvent :: "Peers \<Rightarrow> Event \<Rightarrow> string" where
  "printEvent peers (HttpRespond sock path type response) = printHttpEvent peers sock path type response"
| "printEvent peers (HttpFinish sock path type response) = printHttpEvent peers sock path type response"
| "printEvent peers (SocketAccept sock) = printSocketAccept peers sock"
| "printEvent peers (SocketClose sock) = printSocketClose peers sock"

definition serverLog :: "Peers \<Rightarrow> Event list \<Rightarrow> string" where
  "serverLog peers evs = concat (map (printEvent peers) evs)"

text \<open>The address of the server on an adapter; the type of an address is 0 for IPv4.\<close>

definition adapterUri :: "string \<Rightarrow> nat \<Rightarrow> nat \<times> string \<Rightarrow> string" where
  "adapterUri protocol port a =
     (if fst a = 0 then protocol @ ''://'' @ snd a @ '':'' @ show_nat port
      else protocol @ ''://['' @ snd a @ '']:'' @ show_nat port)"

definition printAdapterInformation :: "IfAddr list option \<Rightarrow> string \<Rightarrow> sa_family \<Rightarrow> nat \<Rightarrow> string" where
  "printAdapterInformation ifap protocol family port =
     (case platformGetAdapterInformation ifap family of
        Some adapters \<Rightarrow>
          concat (map (\<lambda>ad. adapterName ad @ '':'' @ [LF] @
            concat (map (\<lambda>a. TAB # adapterUri protocol port a @ [LF]) (adapterAddresses ad))) adapters)
      | None \<Rightarrow> ''Unknown network adapter(s):'' @ [LF, TAB] @ protocol @ ''://???:'' @ show_nat port @ [LF])"

section \<open>Starting\<close>

text \<open>What the system gives to a starting server.\<close>

record Boot =
  btPortVariable :: "string option"
  btIpv6File :: "bool option"
  btSocket :: "sa_family \<Rightarrow> nat option"
  btBinds :: "nat \<Rightarrow> bool"
  btListens :: bool
  btIfAddrs :: "IfAddr list option"
  btSockName :: "nat \<Rightarrow> (sa_family \<times> nat) option"
  btRealPath :: "string \<Rightarrow> string option"
  btCwd :: "string option"

text \<open>\<open>btIpv6File\<close> says whether \<open>/proc/net/if_inet6\<close> has a status, and whether it is a file.\<close>

definition platformOfficiallySupportsIpv6 :: "bool option \<Rightarrow> bool" where
  "platformOfficiallySupportsIpv6 file \<longleftrightarrow> file = Some True"

definition setupPorts :: "string option \<Rightarrow> string list \<Rightarrow> string" where
  "setupPorts variable argv =
     (case snd (platformArgvGetFlag argv (CHR ''p'') (Some ''port'')) of
        Some p \<Rightarrow> p
      | None \<Rightarrow> (case variable of Some p \<Rightarrow> p | None \<Rightarrow> ''0''))"

definition setupFamily :: "bool option \<Rightarrow> string list \<Rightarrow> sa_family" where
  "setupFamily file argv =
     (if fst (platformArgvGetFlag argv (CHR ''6'') (Some ''ipv6'')) \<noteq> 0 \<and>
         fst (platformArgvGetFlag argv (CHR ''4'') (Some ''ipv4'')) = 0 then AF_INET6
      else if platformOfficiallySupportsIpv6 file \<or> fst (platformArgvGetFlag argv NUL (Some ''dual-stack'')) \<noteq> 0 then AF_UNSPEC
      else AF_INET)"

text \<open>The code to exit with, what is printed and the listening sockets with their multiplexer.\<close>

definition thSetup :: "Boot \<Rightarrow> string list \<Rightarrow> (nat \<times> string \<times> (nat list \<times> SelectState \<times> RoutineArray) option) res" where
  "thSetup b argv =
     (let ports = setupPorts (btPortVariable b) argv; family = setupFamily (btIpv6File b) argv in
      bindr (platformServerStartup (btSocket b) (btBinds b) (btListens b) family ports) (\<lambda>r.
        case r of
          Inl err \<Rightarrow> Inr (1, err @ [LF], None)
        | Inr sockets \<Rightarrow>
            Inr (0, printAdapterInformation (btIfAddrs b) ''http'' family (getPort (btSockName b (sockets ! 1))),
                 Some (sockets, serverSetup sockets selectInit, \<lparr>raSize = 0, raArray = []\<rparr>))))"

definition platformGetDiskPath :: "(string \<Rightarrow> string option) \<Rightarrow> string \<Rightarrow> string + string" where
  "platformGetDiskPath realPath path =
     (case realPath path of Some p \<Rightarrow> Inr p | None \<Rightarrow> Inl (''No such directory '' @ [DQUOTE] @ path @ [DQUOTE, LF]))"

text \<open>
  \<open>main\<close> up to the call of \<open>serverTick\<close>. Without a working directory the path stays \<open>NULL\<close> and is printed.
\<close>

definition thMain :: "Boot \<Rightarrow> string list \<Rightarrow> (nat \<times> string \<times> (string \<times> nat list \<times> SelectState \<times> RoutineArray) option) res" where
  "thMain b argv =
     (case (if 1 < length argv then Some (platformGetDiskPath (btRealPath b) (argv ! 1))
            else map_option (platformGetDiskPath (btRealPath b)) (btCwd b)) of
        None \<Rightarrow> Inl NullDereference
      | Some (Inl message) \<Rightarrow> Inr (1, message, None)
      | Some (Inr root) \<Rightarrow>
          bindr (thSetup b argv) (\<lambda>(code, out, r).
            Inr (code, ''Root Path: '' @ root @ [LF, LF] @ out, map_option (\<lambda>x. (root, x)) r)))"

text \<open>
  What \<open>shutdownProgram\<close> prints and closes: the array of the sockets it asks for is given to
  \<open>platformCloseBindSockets\<close> with its size in front.
\<close>

definition shutdownProgram :: "Peers \<Rightarrow> bool \<Rightarrow> SelectState \<Rightarrow> (string \<times> nat list) res" where
  "shutdownProgram peers sigint st =
     bindr (serverGetReadSocketArray st) (\<lambda>(n, r).
       let closed = platformCloseBindSockets (n # r) in
       Inr ((if sigint then [LF] else []) @ concat (map (printSocketClose peers) closed), closed))"

section \<open>What holds of it\<close>

lemma strchr_at: "c \<notin> set a \<Longrightarrow> strchr (a @ c # b) c = Some (length a)"
  by (rule strchr_append)

lemma http_prefix: "strstr (''http://'' @ q) ''://'' = Some 4"
  by (simp add: strstr.simps)



text \<open>
  The address it prints for an IPv6 adapter is not: the first colon ends the host.
\<close>

theorem announced_ipv6_misread:
  assumes "CHR ''/'' \<notin> set a" "CHR '':'' \<notin> set a" "CHR ''/'' \<notin> set ip"
  shows "uHost (uriDetailsNewFrom (Some (adapterUri ''http'' port (1, a @ CHR '':'' # ip)))) = Some (CHR ''['' # a)"
proof -
  let ?q = "(CHR ''['' # a) @ CHR '':'' # ip @ '']:'' @ show_nat port"
  have "CHR ''/'' \<notin> set ?q" using assms show_nat_digits [of port] by (auto simp: isdigitC_def)
  then have n: "strchr ?q (CHR ''/'') = None" by (rule strchr_None [THEN iffD2])
  have "CHR '':'' \<notin> set (CHR ''['' # a)" using assms(2) by simp
  from strchr_at [OF this] have c: "strchr ?q (CHR '':'') = Some (Suc (length a))" by simp
  show ?thesis using http_prefix [of ?q] n c by (simp add: uriDetailsNewFrom_def adapterUri_def)
qed

text \<open>
  The server starts when a socket of the family chosen is to be had, one of the ports asked for is free
  and \<open>listen\<close> succeeds: then it waits for exactly that socket, with no routine, and says which directory it
  serves and at which addresses it is reached.
\<close>

theorem thMain_starts:
  assumes "1 < length argv" "btRealPath b (argv ! 1) = Some root"
    and "fam = (if setupFamily (btIpv6File b) argv = AF_INET then AF_INET else AF_INET6)" "btSocket b fam = Some s"
    and "bindPortList (setupPorts (btPortVariable b) argv) = Inr (Some ports)" "find (btBinds b) ports \<noteq> None" "btListens b"
  shows "thMain b argv = Inr (0, ''Root Path: '' @ root @ [LF, LF] @
        printAdapterInformation (btIfAddrs b) ''http'' (setupFamily (btIpv6File b) argv) (getPort (btSockName b s)),
      Some (root, [1, s], \<lparr>serverListenSockets = {s}, serverReadSockets = {s}, serverWriteSockets = {}, serverMaxSocket = s\<rparr>,
        \<lparr>raSize = 0, raArray = []\<rparr>))"
proof -
  have "platformServerStartup (btSocket b) (btBinds b) (btListens b) (setupFamily (btIpv6File b) argv) (setupPorts (btPortVariable b) argv) =
      Inr (Inr [1, s])"
    using assms(3-7) by (cases "setupFamily (btIpv6File b) argv") (auto simp: platformServerStartup_def platformBindPort_def)
  then show ?thesis using assms(1,2)
    by (simp add: thMain_def platformGetDiskPath_def thSetup_def serverSetup_def fdSetToSocketArray_def selectInit_def)
qed

text \<open>A machine with one adapter, on which only port 8080 is free.\<close>

definition exampleBoot :: Boot where
  "exampleBoot = \<lparr>btPortVariable = Some (show_nat 8080), btIpv6File = None, btSocket = (\<lambda>f. if f = AF_INET then Some 3 else None),
     btBinds = (\<lambda>p. p = 8080), btListens = True,
     btIfAddrs = Some [\<lparr>ifaName = Some ''eth0'', ifaAddr = Some (AF_INET, ''10.0.0.2''), ifaLoopback = False, ifaPointToPoint = False\<rparr>],
     btSockName = (\<lambda>s. Some (AF_INET, 8080)), btRealPath = Some, btCwd = None\<rparr>"

lemma thMain_starts_witness:
  "\<exists>out st. thMain exampleBoot [''th'', ''/srv''] = Inr (0, ''Root Path: /srv'' @ out, Some (''/srv'', [1, 3], st))"
proof -
  have none: "platformArgvGetFlag [''th'', ''/srv''] c l = (0, None)" for c l by (simp add: platformArgvGetFlag_def)
  have f: "setupFamily (btIpv6File exampleBoot) [''th'', ''/srv''] = AF_INET"
    by (simp add: setupFamily_def none platformOfficiallySupportsIpv6_def exampleBoot_def)
  have "snd (platformArgvGetFlag [''th'', ''/srv''] (CHR ''p'') (Some ''port'')) = None" by (simp add: none)
  then have p: "bindPortList (setupPorts (btPortVariable exampleBoot) [''th'', ''/srv'']) = Inr (Some [8080])"
    using bindPortList_single [of 8080] by (simp add: setupPorts_def exampleBoot_def USHRT_MAX_def)
  show ?thesis using thMain_starts [of "[''th'', ''/srv'']" exampleBoot "''/srv''" AF_INET 3 "[8080]"] f p
    by (simp add: exampleBoot_def)
qed

text \<open>
  Stopped, it closes as many sockets as it reads from, but those with the numbers from 1 on: with descriptors above
  their count, as every system gives them, none of its own.
\<close>

theorem shutdownProgram_closes_others:
  assumes "shutdownProgram peers sigint st = Inr (out, closed)" "s \<in> serverReadSockets st"
    and "card (serverReadSockets st) < s" "finite (serverReadSockets st)"
  shows "s \<notin> set closed"
proof -
  have "length (fdMembers st (serverReadSockets st)) \<le> card (serverReadSockets st)"
  proof -
    let ?l = "fdMembers st (serverReadSockets st)"
    have "distinct ?l" "set ?l \<subseteq> serverReadSockets st" unfolding fdMembers_def by (auto simp del: upt_Suc)
    then show ?thesis using card_mono [OF assms(4)] distinct_card by metis
  qed
  with assms(1,3) show ?thesis
    by (auto simp: shutdownProgram_def serverGetReadSocketArray_def GetFdSetAsArray_def GetFdSetSize_def
        platformCloseBindSockets_def Let_def split: if_split_asm)
qed

end
