(* ===== verification/Windows_Sys.thy ===== *)
theory Windows_Sys
  imports Server_Http
begin

text \<open>
  \<open>src/platform/mscrtdl.c\<close>, the layer for Windows: paths with drives and backslashes, dates, directories,
  files and the start of the listening socket. Functions that also exist in another layer carry the
  suffix \<open>_win\<close>. What the system answers is a parameter.
\<close>

unbundle bit_operations_syntax

section \<open>Paths\<close>

definition FILENAME_MAX_win :: nat where "FILENAME_MAX_win = 260"

definition isDivider :: "char \<Rightarrow> bool" where
  "isDivider c \<longleftrightarrow> c = CHR ''/'' \<or> c = BACKSLASH"

definition tolowerC :: "char \<Rightarrow> char" where
  "tolowerC c = (if isupperC c then char_of (code c + 32) else c)"

fun stripIdx_win :: "string \<Rightarrow> nat \<Rightarrow> nat" where
  "stripIdx_win s 0 = 0"
| "stripIdx_win s (Suc k) = (if isDivider (s ! Suc k) then stripIdx_win s k else Suc k)"

definition platformPathCombine_win :: "string \<Rightarrow> string \<Rightarrow> string res" where
  "platformPathCombine_win path1 path2 =
     (if path1 = [] then Inl OutOfBounds
      else
        let idx = stripIdx_win path1 (length path1 - 1);
            out = (if idx \<noteq> 0 \<or> path1 = ''.'' then take (idx + 1) path1 @ [BACKSLASH]
                   else if isDivider (chC path1 0) \<and> isDivider (chC path1 1) then take 1 path1
                   else path1)
        in Inr (out @ dropWhile isDivider path2))"

text \<open>Every \<open>/\<close> of the combined path becomes a backslash; the backslashes of the request stay.\<close>

definition toBackslash :: "char \<Rightarrow> char" where
  "toBackslash c = (if c = CHR ''/'' then BACKSLASH else c)"

definition platformPathWebToSystem_win :: "string \<Rightarrow> string \<Rightarrow> (nat \<times> string option) res" where
  "platformPathWebToSystem_win rootPath webPath =
     (let absolutePathLen = length rootPath + length webPath + 1 in
      if FILENAME_MAX_win \<le> absolutePathLen then Inr (500, None)
      else bindr (platformPathCombine_win rootPath webPath)
             (\<lambda>p. let internal = map toBackslash p in
                Inr (0, Some (if chC internal (absolutePathLen - 1) = BACKSLASH
                              then take (absolutePathLen - 1) internal else internal))))"

text \<open>
  A system path as the path of a \<open>file\<close> address: \<open>C:\dir\<close> becomes \<open>/c/dir\<close>. A path of one character is
  read behind its NUL.
\<close>

definition ParseDosToFileScheme :: "string \<Rightarrow> string res" where
  "ParseDosToFileScheme absolutePath =
     (if length absolutePath < 2 then Inl OutOfBounds
      else
        let s = (if absolutePath ! 1 = CHR '':'' then CHR ''/'' # tolowerC (absolutePath ! 0) # drop 2 absolutePath
                 else absolutePath)
        in Inr (take 2 s @ map (\<lambda>c. if c = BACKSLASH then CHR ''/'' else tolowerC c) (drop 2 s)))"

definition platformPathSystemToFileScheme_win :: "(string \<Rightarrow> string option) \<Rightarrow> string \<Rightarrow> string option res" where
  "platformPathSystemToFileScheme_win realPath path =
     (case realPath path of
        None \<Rightarrow> Inr None
      | Some a \<Rightarrow> if a = [] then Inr None else bindr (ParseDosToFileScheme a) (\<lambda>s. Inr (Some (''file://'' @ s))))"

definition ParseFileSchemePathToDos :: "string \<Rightarrow> string" where
  "ParseFileSchemePathToDos absolutePath =
     (let s = (if chC absolutePath 0 = CHR ''/'' \<and> chC absolutePath 1 \<noteq> NUL \<and> chC absolutePath 2 = CHR ''/''
               then toupperC (absolutePath ! 1) # CHR '':'' # drop 2 absolutePath else absolutePath)
      in map (\<lambda>c. if c = CHR ''/'' then BACKSLASH else toupperC c) s)"

definition platformPathFileSchemePathToSystem_win :: "string \<Rightarrow> string option" where
  "platformPathFileSchemePathToSystem_win path =
     (if length path < 3 then None
      else
        let drive = toupperC (path ! 1); r = ParseFileSchemePathToDos path in
        if r ! 0 = drive \<and> r ! 1 = CHR '':'' \<and> r ! 2 = BACKSLASH then Some r else None)"

definition platformPathFileSchemeToSystem_win :: "string \<Rightarrow> string option" where
  "platformPathFileSchemeToSystem_win path =
     (if \<not> (toupperC (chC path 0) = CHR ''F'' \<and> toupperC (chC path 1) = CHR ''I'' \<and> toupperC (chC path 2) = CHR ''L'' \<and>
            toupperC (chC path 3) = CHR ''E'' \<and> chC path 4 = CHR '':'' \<and> chC path 5 = CHR ''/'' \<and> chC path 6 = CHR ''/'' \<and>
            chC path 7 = CHR ''/'')
      then None else platformPathFileSchemePathToSystem_win (drop 7 path))"

fun pathLastLoop_win :: "string option \<Rightarrow> nat \<Rightarrow> string \<Rightarrow> string option" where
  "pathLastLoop_win p i [] = p"
| "pathLastLoop_win p i (c # s) =
     (if isDivider c then
        (if s = [] then (case p of Some e \<Rightarrow> if i \<noteq> 0 then Some (butlast e) else None | None \<Rightarrow> None)
         else pathLastLoop_win (Some s) (i + 1) s)
      else pathLastLoop_win p (i + 1) s)"

definition platformPathLast_win :: "string \<Rightarrow> string option" where
  "platformPathLast_win path = pathLastLoop_win None 0 path"

text \<open>A drive letter stands for its root. \<open>None\<close> is the end of the program.\<close>

definition platformGetDiskPath_win :: "(string \<Rightarrow> string option) \<Rightarrow> string \<Rightarrow> string option" where
  "platformGetDiskPath_win realPath path =
     (if (length path = 1 \<or> (length path < 4 \<and> chC path 1 = CHR '':'' \<and> chC path 2 = BACKSLASH)) \<and> isupperC (chC path 0)
      then Some [chC path 0, CHR '':'', BACKSLASH] else realPath path)"

text \<open>The value of \<open>TMP\<close> is asked for and not kept: with \<open>TEMP\<close> unset the answer is the \<open>NULL\<close> of \<open>TEMP\<close>.\<close>

definition platformTempDirectoryGet_win :: "(string \<Rightarrow> string option) \<Rightarrow> bool \<Rightarrow> string option" where
  "platformTempDirectoryGet_win env fallbackIsDir =
     (case env ''TEMP'' of
        Some t \<Rightarrow> Some t
      | None \<Rightarrow>
          if env ''TMP'' \<noteq> None then None
          else (case env ''TMPDIR'' of
                  Some t \<Rightarrow> Some t
                | None \<Rightarrow> if fallbackIsDir then Some (''C:'' @ [BACKSLASH] @ ''TEMP'') else None))"

section \<open>Dates\<close>

record SystemTime =
  wYear :: "16 word"
  wMonth :: "16 word"
  wDayOfWeek :: "16 word"
  wDay :: "16 word"
  wHour :: "16 word"
  wMinute :: "16 word"
  wSecond :: "16 word"
  wMilliseconds :: "16 word"

text \<open>\<open>%0<n>hu\<close> of \<open>printf\<close>.\<close>

definition showPadded :: "nat \<Rightarrow> 16 word \<Rightarrow> string" where
  "showPadded n w = (let s = show_nat (unat w) in replicate (n - length s) (CHR ''0'') @ s)"

text \<open>Outside the days of a week and the months of a year the name that is printed was never set.\<close>

definition SystemTimeToStr :: "SystemTime \<Rightarrow> string res" where
  "SystemTimeToStr t =
     (if 6 < wDayOfWeek t \<or> wMonth t = 0 \<or> 12 < wMonth t then Inl Uninitialised
      else Inr (dayNames ! unat (wDayOfWeek t) @ '', '' @ showPadded 2 (wDay t) @ '' '' @ monthNames ! (unat (wMonth t) - 1) @
                '' '' @ showPadded 4 (wYear t) @ '' '' @ showPadded 2 (wHour t) @ '':'' @ showPadded 2 (wMinute t) @ '':'' @
                showPadded 2 (wSecond t) @ '' GMT''))"

text \<open>The callers give an array of 30 characters.\<close>

definition platformTimeStructToStr_win :: "SystemTime \<Rightarrow> string res" where
  "platformTimeStructToStr_win t = bindr (SystemTimeToStr t) (\<lambda>s. if length s < 30 then Inr s else Inl BufferOverflow)"

text \<open>\<open>fileTimeToSystemTime\<close> is \<open>FileTimeToSystemTime\<close>; \<open>None\<close> is its failure, after which the array is garbage.\<close>

definition platformGetTime_win :: "(64 word \<Rightarrow> SystemTime option) \<Rightarrow> 64 word \<Rightarrow> string res" where
  "platformGetTime_win fileTimeToSystemTime clock =
     (case fileTimeToSystemTime clock of None \<Rightarrow> Inl Uninitialised | Some t \<Rightarrow> platformTimeStructToStr_win t)"

definition platformGetTimeStruct_win :: "(64 word \<Rightarrow> SystemTime option) \<Rightarrow> 64 word \<Rightarrow> bool \<times> SystemTime option" where
  "platformGetTimeStruct_win fileTimeToSystemTime clock = (fileTimeToSystemTime clock = None, fileTimeToSystemTime clock)"

definition platformTimeStructCompare_win :: "SystemTime \<Rightarrow> SystemTime \<Rightarrow> int" where
  "platformTimeStructCompare_win t1 t2 =
     (if wYear t1 < wYear t2 then 1
      else if wYear t1 > wYear t2 then -1
      else
        let x = (uint (wMonth t1) * 31 + uint (wDay t1)) - (uint (wMonth t2) * 31 + uint (wDay t2)) in
        if x < 0 then 1 else if x > 0 then -1
        else
          let x = (uint (wHour t1) * 3600 + uint (wMinute t1) * 60 + uint (wSecond t1)) -
                  (uint (wHour t2) * 3600 + uint (wMinute t2) * 60 + uint (wSecond t2)) in
          if x < 0 then 1 else if x > 0 then -1 else 0)"

text \<open>\<open>%hu\<close> stores the number modulo the width of the field.\<close>

definition scanShort :: "ScanVal list \<Rightarrow> nat \<Rightarrow> 16 word \<Rightarrow> 16 word" where
  "scanShort vs i w0 = word_of_int (scanNum vs i (uint w0))"

definition platformTimeGetFromHttpStr_win :: "string \<Rightarrow> SystemTime \<Rightarrow> bool \<times> SystemTime" where
  "platformTimeGetFromHttpStr_win str t =
     (let vs = sscanf httpDateFormat str;
          t1 = t\<lparr>wDay := scanShort vs 1 (wDay t), wYear := scanShort vs 3 (wYear t), wHour := scanShort vs 4 (wHour t),
                 wMinute := scanShort vs 5 (wMinute t), wSecond := scanShort vs 6 (wSecond t)\<rparr>
      in case wdayOf (scanStr vs 0) of
           None \<Rightarrow> (True, t1)
         | Some d \<Rightarrow>
             (case monOf (scanStr vs 2) of
                None \<Rightarrow> (True, t1\<lparr>wDayOfWeek := word_of_int d\<rparr>)
              | Some m \<Rightarrow> (False, t1\<lparr>wDayOfWeek := word_of_int d, wMonth := word_of_int (m + 1), wMilliseconds := 0\<rparr>)))"

section \<open>Directories\<close>

definition FILE_ATTRIBUTE_HIDDEN :: "32 word" where "FILE_ATTRIBUTE_HIDDEN = 0x02"
definition FILE_ATTRIBUTE_DIRECTORY :: "32 word" where "FILE_ATTRIBUTE_DIRECTORY = 0x10"
definition FILE_ATTRIBUTE_NORMAL :: "32 word" where "FILE_ATTRIBUTE_NORMAL = 0x80"

record FindData =
  cFileName :: string
  dwFileAttributes :: "32 word"
  nFileSize :: "64 word"

text \<open>An open directory; \<open>wdLeft\<close> are the entries \<open>FindNextFile\<close> has yet to give.\<close>

record PlatformDir_win =
  wdPath :: "string option"
  wdNext :: FindData
  wdLast :: FindData
  wdLeft :: "FindData list"
  wdError :: nat

text \<open>\<open>findFirst\<close> gives the entries that match a pattern, the first of which \<open>FindFirstFile\<close> hands out.\<close>

definition platformDirOpen_win ::
    "(string \<Rightarrow> FindData list) \<Rightarrow> (string \<Rightarrow> string option) \<Rightarrow> string option \<Rightarrow> PlatformDir_win option" where
  "platformDirOpen_win findFirst realPath path =
     (case path of
        None \<Rightarrow> None
      | Some p \<Rightarrow>
          if 0 < length p \<and> length p < FILENAME_MAX_win - 3 then
            (case findFirst (if last p = BACKSLASH then p @ ''*'' else p @ [BACKSLASH, CHR ''*'']) of
               [] \<Rightarrow> None
             | e # es \<Rightarrow> Some \<lparr>wdPath = realPath p, wdNext = e, wdLast = e, wdLeft = es, wdError = 0\<rparr>)
          else None)"

definition platformDirRead_win :: "PlatformDir_win \<Rightarrow> FindData option \<times> PlatformDir_win" where
  "platformDirRead_win self =
     (let self1 = self\<lparr>wdLast := wdNext self\<rparr> in
      if wdError self = 0 then
        (Some (wdLast self1),
         case wdLeft self of
           [] \<Rightarrow> self1\<lparr>wdError := wdError self + 1\<rparr>
         | e # es \<Rightarrow> self1\<lparr>wdNext := e, wdLeft := es\<rparr>)
      else (None, self1))"

definition platformDirEntryGetName_win :: "FindData option \<Rightarrow> (string \<times> nat) option" where
  "platformDirEntryGetName_win entry = map_option (\<lambda>e. (cFileName e, length (cFileName e))) entry"

definition platformDirEntryIsHidden_win :: "FindData option \<Rightarrow> bool" where
  "platformDirEntryIsHidden_win entry =
     (case entry of
        None \<Rightarrow> True
      | Some e \<Rightarrow>
          if chC (cFileName e) 0 = CHR ''.'' \<and> (chC (cFileName e) 1 = NUL \<or> chC (cFileName e) 1 = CHR ''.'') then True
          else dwFileAttributes e AND FILE_ATTRIBUTE_HIDDEN \<noteq> 0)"

definition platformDirEntryIsDirectory_win :: "FindData option \<Rightarrow> bool" where
  "platformDirEntryIsDirectory_win entry =
     (case entry of None \<Rightarrow> False | Some e \<Rightarrow> dwFileAttributes e AND FILE_ATTRIBUTE_DIRECTORY \<noteq> 0)"

text \<open>
  The status of a file: \<open>findFile\<close> is \<open>FindFirstFile\<close>, \<open>openTime\<close> the time of the last write of a file that
  can be opened, \<open>now\<close> the current time.
\<close>

record PlatformFileStat_win =
  ws_size :: "64 word"
  ws_mode :: "32 word"
  ws_mtime :: "64 word"

definition platformFileStat_win ::
    "(string \<Rightarrow> FindData option) \<Rightarrow> (string \<Rightarrow> 64 word option) \<Rightarrow> 64 word \<Rightarrow> string \<Rightarrow> PlatformFileStat_win option" where
  "platformFileStat_win findFile openTime now path =
     (case findFile path of
        None \<Rightarrow> None
      | Some fd \<Rightarrow>
          let dir = (dwFileAttributes fd AND FILE_ATTRIBUTE_DIRECTORY \<noteq> 0) in
          case openTime path of
            Some t \<Rightarrow> Some \<lparr>ws_size = nFileSize fd, ws_mode = (if dir then FILE_ATTRIBUTE_DIRECTORY else FILE_ATTRIBUTE_NORMAL),
                            ws_mtime = (if t = 0 then now else t)\<rparr>
          | None \<Rightarrow> if dir then Some \<lparr>ws_size = 0, ws_mode = FILE_ATTRIBUTE_DIRECTORY, ws_mtime = now\<rparr> else None)"

definition platformFileStatIsDirectory_win :: "PlatformFileStat_win \<Rightarrow> bool" where
  "platformFileStatIsDirectory_win st \<longleftrightarrow> ws_mode st AND FILE_ATTRIBUTE_DIRECTORY \<noteq> 0"

definition platformFileStatIsFile_win :: "PlatformFileStat_win \<Rightarrow> bool" where
  "platformFileStatIsFile_win st \<longleftrightarrow> ws_mode st AND FILE_ATTRIBUTE_NORMAL \<noteq> 0"

text \<open>The second component says whether the directory of the caller was freed.\<close>

definition platformDirEntryGetStats_win ::
    "(string \<Rightarrow> PlatformFileStat_win option) \<Rightarrow> FindData \<Rightarrow> PlatformDir_win \<Rightarrow> (PlatformFileStat_win option \<times> bool) res" where
  "platformDirEntryGetStats_win stat entry self =
     (case wdPath self of
        None \<Rightarrow> Inl NullDereference
      | Some p \<Rightarrow>
          bindr (platformPathCombine_win p (cFileName entry)) (\<lambda>entryPath.
            if length p + length (cFileName entry) + 2 \<le> length entryPath then Inl BufferOverflow
            else (case stat entryPath of None \<Rightarrow> Inr (None, True) | Some st \<Rightarrow> Inr (Some st, False))))"

section \<open>Files\<close>

text \<open>
  A handle is of the unspecified type \<open>'h\<close>. \<open>setPtr h low high method\<close> is \<open>SetFilePointer\<close>: the halves of the new
  position and the handle, or \<open>None\<close> for a failure. Offsets are \<open>__int64\<close>.
\<close>

definition FILE_BEGIN :: nat where "FILE_BEGIN = 0"
definition FILE_CURRENT :: nat where "FILE_CURRENT = 1"
definition FILE_END :: nat where "FILE_END = 2"

type_synonym 'h SetPtr = "'h \<Rightarrow> 32 word \<Rightarrow> 32 word \<Rightarrow> nat \<Rightarrow> (32 word \<times> 32 word) option \<times> 'h"

definition quadPart :: "32 word \<Rightarrow> 32 word \<Rightarrow> 64 word" where
  "quadPart low high = push_bit 32 (ucast high) OR ucast low"

definition lowPart :: "64 word \<Rightarrow> 32 word" where "lowPart q = ucast q"
definition highPart :: "64 word \<Rightarrow> 32 word" where "highPart q = ucast (drop_bit 32 q)"

definition platformFileTell_win :: "'h SetPtr \<Rightarrow> 'h \<Rightarrow> 64 word \<times> 'h" where
  "platformFileTell_win setPtr h =
     (case setPtr h 0 0 FILE_CURRENT of (None, h1) \<Rightarrow> (- 1, h1) | (Some (low, high), h1) \<Rightarrow> (quadPart low high, h1))"

definition platformFileSeek_win :: "'h SetPtr \<Rightarrow> 'h \<Rightarrow> 64 word \<Rightarrow> int \<Rightarrow> int \<times> 'h" where
  "platformFileSeek_win setPtr h offset whence =
     (if whence < 0 \<or> 2 < whence then (-1, h)
      else (case setPtr h (lowPart offset) (highPart offset) (nat whence) of (None, h1) \<Rightarrow> (-1, h1) | (Some _, h1) \<Rightarrow> (0, h1)))"

text \<open>
  The position is compared with that of the end and set again, but with the upper half of the end: what
  \<open>SetFilePointer\<close> left in \<open>end.HighPart\<close>.
\<close>

definition platformFileAtEnd_win :: "'h SetPtr \<Rightarrow> 'h \<Rightarrow> int \<times> 'h" where
  "platformFileAtEnd_win setPtr h =
     (let (pos, h1) = platformFileTell_win setPtr h in
      case setPtr h1 0 0 FILE_END of
        (None, h2) \<Rightarrow> (-1, h2)
      | (Some (endLow, endHigh), h2) \<Rightarrow>
          let r = (if sint (quadPart endLow endHigh) \<le> sint pos then 1 else 0) in
          (case setPtr h2 (lowPart pos) endHigh FILE_BEGIN of (None, h3) \<Rightarrow> (-1, h3) | (Some _, h3) \<Rightarrow> (r, h3)))"

definition BUFSIZ_win :: nat where "BUFSIZ_win = 512"

text \<open>\<open>readFile\<close> is \<open>ReadFile\<close>: the bytes read, or \<open>None\<close> for a failure.\<close>

definition platformFileRead_win :: "('h \<Rightarrow> nat \<Rightarrow> (string \<times> 'h) option) \<Rightarrow> 'h \<Rightarrow> nat \<Rightarrow> nat \<Rightarrow> string \<times> 'h" where
  "platformFileRead_win readFile h sz n =
     (let bufferSize = sz * n mod 2 ^ 32 in
      case readFile h (if BUFSIZ_win < bufferSize then BUFSIZ_win else bufferSize) of None \<Rightarrow> ([], h) | Some (d, h1) \<Rightarrow> (d, h1))"

text \<open>
  \<open>writeFile\<close> is \<open>WriteFile\<close>: how many bytes were taken, or \<open>None\<close> for a failure. Every attempt gets the
  whole block again. A loop that never ends is \<open>None\<close>.
\<close>

partial_function (option) writeLoop_win ::
    "('h \<Rightarrow> string \<Rightarrow> (nat \<times> 'h) option) \<Rightarrow> string \<Rightarrow> nat \<Rightarrow> 'h \<Rightarrow> (nat \<times> 'h) option" where
  "writeLoop_win writeFile d sent h =
     (if length d \<le> sent then Some (sent, h)
      else (case writeFile h d of
              None \<Rightarrow> Some (sent, h)
            | Some (bytes, h1) \<Rightarrow> writeLoop_win writeFile d (sent + bytes) h1))"

definition platformFileWrite_win :: "('h \<Rightarrow> string \<Rightarrow> (nat \<times> 'h) option) \<Rightarrow> 'h \<Rightarrow> string \<Rightarrow> (nat \<times> 'h) option" where
  "platformFileWrite_win writeFile h d = writeLoop_win writeFile d 0 h"

definition GENERIC_READ :: "32 word" where "GENERIC_READ = 0x80000000"
definition GENERIC_WRITE :: "32 word" where "GENERIC_WRITE = 0x40000000"
definition FILE_SHARE_READ :: "32 word" where "FILE_SHARE_READ = 1"
definition FILE_SHARE_WRITE :: "32 word" where "FILE_SHARE_WRITE = 2"
definition CREATE_ALWAYS :: "32 word" where "CREATE_ALWAYS = 2"
definition OPEN_EXISTING :: "32 word" where "OPEN_EXISTING = 3"
definition O_APPEND_win :: "32 word" where "O_APPEND_win = 0x0008"
definition O_BINARY_win :: "32 word" where "O_BINARY_win = 0x8000"

record OpenMode =
  omAccess :: "32 word"
  omShare :: "32 word"
  omCreation :: "32 word"
  omAttributes :: "32 word"
  omFlags :: "32 word"

fun openModeLoop :: "string \<Rightarrow> OpenMode \<Rightarrow> OpenMode" where
  "openModeLoop [] m = m"
| "openModeLoop (c # s) m =
     openModeLoop s
       (let plus = (chC s 0 = CHR ''+'') in
        if c = CHR ''r'' then
          m\<lparr>omAccess := omAccess m OR GENERIC_READ OR (if plus then GENERIC_WRITE else 0),
            omShare := omShare m OR FILE_SHARE_READ OR (if plus then GENERIC_WRITE else 0),
            omCreation := OPEN_EXISTING\<rparr>
        else if c = CHR ''w'' then
          m\<lparr>omAccess := omAccess m OR GENERIC_WRITE OR (if plus then GENERIC_READ else 0),
            omShare := omShare m OR FILE_SHARE_WRITE OR (if plus then GENERIC_READ else 0),
            omCreation := (if plus then OPEN_EXISTING else omCreation m OR CREATE_ALWAYS)\<rparr>
        else if c = CHR ''a'' then
          m\<lparr>omFlags := omFlags m OR O_APPEND_win,
            omAccess := omAccess m OR GENERIC_WRITE OR (if plus then GENERIC_READ else 0),
            omShare := omShare m OR FILE_SHARE_WRITE OR (if plus then GENERIC_READ else 0),
            omCreation := OPEN_EXISTING\<rparr>
        else if c = CHR ''b'' then m\<lparr>omFlags := omFlags m OR O_BINARY_win\<rparr>
        else m)"

definition platformFileOpenModeConfigure :: "string \<Rightarrow> OpenMode" where
  "platformFileOpenModeConfigure fileMode =
     openModeLoop fileMode
       \<lparr>omAccess = 0, omShare = 0, omCreation = 0, omAttributes = FILE_ATTRIBUTE_NORMAL, omFlags = 0\<rparr>"

text \<open>\<open>createFile\<close> is \<open>CreateFile\<close>; the result of the seek behind it is not looked at.\<close>

definition platformFileOpen_win :: "(string \<Rightarrow> OpenMode \<Rightarrow> 'h option) \<Rightarrow> 'h SetPtr \<Rightarrow> string \<Rightarrow> string \<Rightarrow> 'h option" where
  "platformFileOpen_win createFile setPtr fileName fileMode =
     (let m = platformFileOpenModeConfigure fileMode in
      case createFile fileName m of
        None \<Rightarrow> None
      | Some h \<Rightarrow> Some (if omFlags m AND O_APPEND_win \<noteq> 0 then snd (platformFileSeek_win setPtr h 0 2) else h))"

section \<open>Network\<close>

text \<open>\<open>version\<close> is the answer of \<open>GetVersion\<close>, with the major version in its lowest byte.\<close>

definition platformVersionAbove :: "32 word \<Rightarrow> 32 word \<Rightarrow> 32 word \<Rightarrow> nat" where
  "platformVersionAbove version major minor =
     (let dwMajorVersion = version AND 0xFF; dwMinorVersion = drop_bit 8 version AND 0xFF in
      if major < dwMajorVersion then 2
      else if major = dwMajorVersion \<and> minor \<le> dwMinorVersion then 1
      else 0)"

definition platformOfficiallySupportsIpv6_win :: "32 word \<Rightarrow> bool" where
  "platformOfficiallySupportsIpv6_win version \<longleftrightarrow> platformVersionAbove version 6 0 \<noteq> 0"

text \<open>The ways to ask for the adapters that \<open>platformIpStackInit\<close> found.\<close>

datatype AdapterSource = WSock1 | WSock2 | WSockIpv6

record IpStack =
  ipv4Source :: "AdapterSource option"
  ipv6Source :: "AdapterSource option"

definition platformIpStackInit_win :: "bool \<Rightarrow> bool \<Rightarrow> bool \<Rightarrow> bool \<Rightarrow> string option \<times> IpStack" where
  "platformIpStackInit_win hasIpv6 hasWSock2 hasWSock1 startupFails =
     (let stack = \<lparr>ipv4Source = (if hasWSock2 then Some WSock2 else if hasWSock1 then Some WSock1 else None),
                   ipv6Source = (if hasIpv6 then Some WSockIpv6 else None)\<rparr> in
      (if ipv4Source stack = None then Some ''Unable to retrieve TCP/IP adapter information''
       else if startupFails then Some ''Unable to start Windows socket interface'' else None, stack))"

text \<open>Which source is asked. Asked for IPv6 alone it is not checked that there is one.\<close>

definition platformGetAdapterInformation_win :: "IpStack \<Rightarrow> sa_family \<Rightarrow> AdapterSource res" where
  "platformGetAdapterInformation_win stack family =
     (let ask = (\<lambda>s. case s of None \<Rightarrow> Inl NullDereference | Some x \<Rightarrow> Inr x) in
      if family = AF_INET6 \<or> (family = AF_UNSPEC \<and> ipv6Source stack \<noteq> None) then ask (ipv6Source stack)
      else ask (ipv4Source stack))"

text \<open>
  \<open>SOCKET\<close> has no sign on Windows, so that the failure of \<open>socket\<close> (\<open>None\<close>) is noticed behind the \<open>switch\<close> only.
\<close>

definition platformServerStartup_win ::
    "IpStack \<Rightarrow> (sa_family \<Rightarrow> nat option) \<Rightarrow> (nat \<Rightarrow> bool) \<Rightarrow> bool \<Rightarrow> sa_family \<Rightarrow> string \<Rightarrow> (string + nat list) res" where
  "platformServerStartup_win stack sock binds listens family0 ports =
     (if family0 = AF_INET6 \<and> ipv6Source stack = None then
        Inr (Inl ''This build of Windows does not have sufficient IPv6 support'')
      else
        let family = (if family0 \<noteq> AF_INET \<and> ipv6Source stack = None then AF_INET else family0);
            fam = (if family = AF_INET then AF_INET else AF_INET6)
        in case sock fam of
             None \<Rightarrow> Inr (Inl ''Socket is invalid'')
           | Some s \<Rightarrow>
               bindr (platformBindPort binds fam ports)
                 (\<lambda>(r, _).
                    if r \<noteq> 0 then Inr (Inl ''Unable to bind to designated port numbers'')
                    else if \<not> listens then Inr (Inl ''Unable to listen to assigned socket'')
                    else Inr (Inr [1, s])))"

definition platformCloseBindSockets_win :: "nat list \<Rightarrow> nat list" where
  "platformCloseBindSockets_win sockets = [1..<hd sockets + 1]"

text \<open>An address of IPv6 as text. \<open>a\<close> are its 16 bytes.\<close>

definition ipv6Group :: "8 word list \<Rightarrow> nat \<Rightarrow> string" where
  "ipv6Group a i = show_hex (256 * unat (a ! i) + unat (a ! (i + 1)))"

definition ipv4Dotted :: "8 word \<Rightarrow> 8 word \<Rightarrow> 8 word \<Rightarrow> 8 word \<Rightarrow> string" where
  "ipv4Dotted a b c d =
     show_nat (unat a) @ ''.'' @ show_nat (unat b) @ ''.'' @ show_nat (unat c) @ ''.'' @ show_nat (unat d)"

definition ipv6Text :: "8 word list \<Rightarrow> string" where
  "ipv6Text a =
     (if take 12 a \<noteq> replicate 10 0 @ [255, 255] then
        ipv6Group a 0 @ '':'' @ ipv6Group a 2 @ '':'' @ ipv6Group a 4 @ '':'' @ ipv6Group a 6 @ '':'' @ ipv6Group a 8 @ '':'' @
        ipv6Group a 10 @ '':'' @ ipv6Group a 12 @ '':'' @ ipv6Group a 14
      else
        show_hex (256 * unat (a ! 0) + 256 * unat (a ! 1)) @ '':'' @ ipv6Group a 2 @ '':'' @ ipv6Group a 4 @ '':'' @ ipv6Group a 6 @
        '':'' @ ipv6Group a 8 @ '':'' @ ipv6Group a 10 @ '':'' @ ipv4Dotted (a ! 12) (a ! 13) (a ! 14) (a ! 15))"

text \<open>The longest run of zeros and colons that begins the text or follows a group: its start and its length.\<close>

fun nTopLoop :: "nat \<Rightarrow> string \<Rightarrow> nat \<Rightarrow> nat \<Rightarrow> nat \<times> nat" where
  "nTopLoop i [] best mx = (best, mx)"
| "nTopLoop i (c # s) best mx =
     (if i \<noteq> 0 \<and> c \<noteq> CHR '':'' then nTopLoop (i + 1) s best mx
      else
        let j = length (takeWhile (\<lambda>x. x = CHR '':'' \<or> x = CHR ''0'') (c # s)) in
        if mx < j then nTopLoop (i + 1) s i j else nTopLoop (i + 1) s best mx)"

definition ipv6NTop :: "8 word list \<Rightarrow> string" where
  "ipv6NTop a =
     (let buf = ipv6Text a; (best, mx) = nTopLoop 0 buf 0 2 in
      if 2 < mx then take best buf @ ''::'' @ drop (best + mx) buf else buf)"

text \<open>An address of a socket: the text of \<open>inet_ntoa\<close>, the bytes of an IPv6 address, or another family.\<close>

datatype SockAddr = SockIn string | SockIn6 "8 word list" | SockOther

definition platformGetIpString_win :: "SockAddr \<Rightarrow> string \<times> sa_family option" where
  "platformGetIpString_win addr =
     (case addr of
        SockIn ip \<Rightarrow> (ip, Some AF_INET)
      | SockIn6 a \<Rightarrow>
          let ipStr = ipv6NTop a in
          if take 7 ipStr = ''::ffff:'' then (drop 7 ipStr, Some AF_INET) else (ipStr, Some AF_INET6)
      | SockOther \<Rightarrow> (''???'', None))"

end
