(* ===== verification/Winsock.thy ===== *)
theory Winsock
  imports Windows_Sys
begin

text \<open>
  \<open>src/platform/winsock/\<close>: the addresses of the adapters of a Windows machine, from whichever of three
  libraries it has. What the libraries answer is a parameter; which of the three is asked is
  \<open>platformGetAdapterInformation_win\<close>. An array of adapters is built by
  \<open>platformFindOrCreateAdapterIp\<close>, as on POSIX systems.
\<close>

section \<open>WsControl (wsock1.c)\<close>

text \<open>The interfaces by their index; the description is the block on the heap, with or without a NUL in it.\<close>

type_synonym Nics = "(nat \<times> string) list"

definition nicAdd :: "nat \<Rightarrow> string \<Rightarrow> Nics \<Rightarrow> Nics" where
  "nicAdd index desc nics = nics @ [(index, desc)]"

fun nicFind :: "nat \<Rightarrow> Nics \<Rightarrow> string option" where
  "nicFind index [] = None"
| "nicFind index ((i, desc) # nics) = (if i = index then Some desc else nicFind index nics)"

definition nicFree :: "Nics \<Rightarrow> Nics" where
  "nicFree nics = []"

definition IF_ENTITY :: nat where "IF_ENTITY = 0x200"
definition IF_MIB :: nat where "IF_MIB = 0x202"
definition CL_NL_ENTITY :: nat where "CL_NL_ENTITY = 0x301"
definition CL_NL_IP :: nat where "CL_NL_IP = 0x303"

record TDIEntityID =
  tei_entity :: nat
  tei_instance :: nat

record IFEntry =
  if_index :: nat
  if_descrlen :: nat
  if_descr :: string

record IPAddrEntry =
  iae_addr :: "8 word \<times> 8 word \<times> 8 word \<times> 8 word"
  iae_index :: nat

text \<open>What \<open>WSAStartup\<close> and the calls of \<open>WsControl\<close> answer, \<open>None\<close> where a call fails.\<close>

record WsAnswers =
  wsStartup :: bool
  wsEntities :: "TDIEntityID list option"
  wsType :: "TDIEntityID \<Rightarrow> nat option"
  wsStats :: "TDIEntityID \<Rightarrow> IFEntry option"
  wsAddrTable :: "TDIEntityID \<Rightarrow> IPAddrEntry list option"

text \<open>
  The block for an entry has 133 bytes from \<open>if_descr\<close> on, cleared before the call. The description is copied
  by \<open>strncpy\<close> into a block of \<open>if_descrlen\<close> bytes.
\<close>

definition descrBlock :: "IFEntry \<Rightarrow> string res" where
  "descrBlock e =
     (if 132 < if_descrlen e then Inl BufferOverflow
      else Inr (take (if_descrlen e) (takeWhile (\<lambda>c. c \<noteq> NUL) (if_descr e) @ replicate (if_descrlen e) NUL)))"

text \<open>The first loop: the interfaces, and how many there are. \<open>None\<close> is a call that failed.\<close>

fun nicLoop :: "WsAnswers \<Rightarrow> TDIEntityID list \<Rightarrow> nat \<Rightarrow> Nics \<Rightarrow> (nat option \<times> Nics) res" where
  "nicLoop w [] ifCount nics = Inr (Some ifCount, nics)"
| "nicLoop w (e # es) ifCount nics =
     (if tei_entity e = IF_ENTITY then
        (case wsType w e of
           None \<Rightarrow> Inr (None, nics)
         | Some t \<Rightarrow>
             if t = IF_MIB then
               (case wsStats w e of
                  None \<Rightarrow> Inr (None, nics)
                | Some s \<Rightarrow> bindr (descrBlock s) (\<lambda>desc. nicLoop w es (ifCount + 1) (nicAdd (if_index s) desc nics)))
             else nicLoop w es (ifCount + 1) nics)
      else nicLoop w es ifCount nics)"

text \<open>The entries of one table of addresses. The name of an interface is read as a string.\<close>

fun addrLoop :: "Nics \<Rightarrow> IPAddrEntry list \<Rightarrow> NetworkAdapter list \<Rightarrow> NetworkAdapter list res" where
  "addrLoop nics [] arr = Inr arr"
| "addrLoop nics (e # es) arr =
     (case (nicFind (iae_index e) nics, iae_addr e) of
        (Some nicStr, (a, b, c, d)) \<Rightarrow>
          if a \<noteq> 127 then
            if NUL \<notin> set nicStr then Inl OutOfBounds
            else addrLoop nics es
                   (platformFindOrCreateAdapterIp arr (takeWhile (\<lambda>c. c \<noteq> NUL) nicStr) 0 (ipv4Dotted a b c d))
          else addrLoop nics es arr
      | (None, _) \<Rightarrow> addrLoop nics es arr)"

text \<open>The cleared entries behind those that the call returned are read too.\<close>

definition addrTable :: "nat \<Rightarrow> IPAddrEntry list \<Rightarrow> IPAddrEntry list" where
  "addrTable ifCount es = take ifCount (es @ replicate ifCount \<lparr>iae_addr = (0, 0, 0, 0), iae_index = 0\<rparr>)"

text \<open>The second loop: every entity with a table begins a new array. The outer \<open>None\<close> is a call that failed.\<close>

fun ipLoop :: "WsAnswers \<Rightarrow> nat \<Rightarrow> Nics \<Rightarrow> TDIEntityID list \<Rightarrow> NetworkAdapter list option \<Rightarrow> NetworkAdapter list option option res" where
  "ipLoop w ifCount nics [] array = Inr (Some array)"
| "ipLoop w ifCount nics (e # es) array =
     (if tei_entity e = CL_NL_ENTITY then
        (case wsType w e of
           None \<Rightarrow> Inr None
         | Some t \<Rightarrow>
             if t = CL_NL_IP then
               (case wsAddrTable w e of
                  None \<Rightarrow> Inr None
                | Some as \<Rightarrow>
                    (case (if ifCount \<noteq> 0 then Some [] else array) of
                       None \<Rightarrow> Inr None
                     | Some arr \<Rightarrow>
                         bindr (addrLoop nics (addrTable ifCount as) arr) (\<lambda>arr1. ipLoop w ifCount nics es (Some arr1))))
             else ipLoop w ifCount nics es array)
      else ipLoop w ifCount nics es array)"

definition wSock1GetAdapterInformation :: "bool \<Rightarrow> WsAnswers \<Rightarrow> Nics \<Rightarrow> (NetworkAdapter list option \<times> Nics) res" where
  "wSock1GetAdapterInformation available w nics =
     (if \<not> available \<or> \<not> wsStartup w then Inr (None, nics)
      else
        case wsEntities w of
          None \<Rightarrow> Inr (None, nics)
        | Some es \<Rightarrow>
            bindr (nicLoop w es 0 nics) (\<lambda>(counted, nics1).
              case counted of
                None \<Rightarrow> Inr (None, nics1)
              | Some ifCount \<Rightarrow>
                  bindr (ipLoop w ifCount nics1 es None) (\<lambda>r.
                    case r of
                      None \<Rightarrow> Inr (None, nics1)
                    | Some array \<Rightarrow> Inr ((if array = Some [] then None else array), nicFree nics1))))"

section \<open>GetAdaptersInfo (wsock2.c)\<close>

record AdapterInfo =
  aiDescription :: string
  aiAddress :: string

datatype 'a SysAnswer = Overflow nat | Filled 'a | Failed nat

definition SIZEOF_ADAPTER_INFO :: nat where "SIZEOF_ADAPTER_INFO = 640"
definition ERROR_BUFFER_OVERFLOW :: nat where "ERROR_BUFFER_OVERFLOW = 111"

fun infoLoop :: "AdapterInfo list \<Rightarrow> NetworkAdapter list \<Rightarrow> NetworkAdapter list res" where
  "infoLoop [] arr = Inr arr"
| "infoLoop (p # ps) arr =
     (if 22 \<le> length (aiAddress p) then Inl OutOfBounds
      else if aiAddress p \<noteq> ''0.0.0.0'' then
        if BUFSIZ_win \<le> length (aiDescription p) then Inl BufferOverflow
        else infoLoop ps (platformFindOrCreateAdapterIp arr (aiDescription p) 0 (aiAddress p))
      else infoLoop ps arr)"

text \<open>\<open>call\<close> answers by the number of the call and the size of the block it is given. Also what is printed.\<close>

definition wSock2GetAdapterInformation ::
    "(nat \<Rightarrow> nat \<Rightarrow> AdapterInfo list SysAnswer) option \<Rightarrow> (string \<times> NetworkAdapter list option) res" where
  "wSock2GetAdapterInformation func =
     (case func of
        None \<Rightarrow> Inr ([], None)
      | Some call \<Rightarrow>
          let len = (case call 0 SIZEOF_ADAPTER_INFO of Overflow n \<Rightarrow> n | _ \<Rightarrow> SIZEOF_ADAPTER_INFO);
              failed = (\<lambda>e. Inr (''GetAdaptersInfo failed with error: '' @ show_nat e @ [LF], None)) in
          (case call 1 len of
             Filled ps \<Rightarrow> bindr (infoLoop ps []) (\<lambda>arr. Inr ([], Some arr))
           | Overflow n \<Rightarrow> failed ERROR_BUFFER_OVERFLOW
           | Failed e \<Rightarrow> failed e))"

section \<open>GetAdaptersAddresses (wsipv6.c)\<close>

definition IF_TYPE_SOFTWARE_LOOPBACK :: nat where "IF_TYPE_SOFTWARE_LOOPBACK = 24"
definition IF_TYPE_TUNNEL :: nat where "IF_TYPE_TUNNEL = 131"

record AdapterAddresses =
  aaIfType :: nat
  aaFriendlyName :: "16 word list option"
  aaUnicast :: "SockAddr list"

text \<open>At most three calls, each with a block of the size the last one asked for.\<close>

function addressTries :: "(nat \<Rightarrow> nat \<Rightarrow> 'a SysAnswer) \<Rightarrow> nat \<Rightarrow> nat \<Rightarrow> 'a SysAnswer" where
  "addressTries call it size1 =
     (case call it size1 of
        Overflow n \<Rightarrow> if it + 1 < 3 then addressTries call (it + 1) n else Overflow n
      | a \<Rightarrow> a)"
  by pat_completeness auto
termination by (relation "measure (\<lambda>(call, it, size1). 3 - it)") auto

declare addressTries.simps [simp del]

text \<open>
  \<open>WideCharToMultiByte\<close> into a block of \<open>BUFSIZ\<close> bytes: \<open>ansi\<close> is the text in the code page of the system. A text
  that is too long gives the length 0.
\<close>

definition nameBuf :: "(16 word list \<Rightarrow> string) \<Rightarrow> 16 word list \<Rightarrow> string res" where
  "nameBuf ansi name =
     (let t = ansi name; len = (if length t \<le> BUFSIZ_win then length t else 0) in
      if len = BUFSIZ_win then Inl BufferOverflow else Inr (takeWhile (\<lambda>c. c \<noteq> NUL) (take len t)))"

fun unicastLoop :: "sa_family \<Rightarrow> string \<Rightarrow> SockAddr list \<Rightarrow> NetworkAdapter list \<Rightarrow> NetworkAdapter list" where
  "unicastLoop family name [] arr = arr"
| "unicastLoop family name (ua # uas) arr =
     unicastLoop family name uas
       (case ua of
          SockIn ip4 \<Rightarrow> if family \<noteq> AF_INET6 then platformFindOrCreateAdapterIp arr name 0 ip4 else arr
        | SockIn6 a \<Rightarrow> if family \<noteq> AF_INET then platformFindOrCreateAdapterIp arr name 1 (ipv6NTop a) else arr
        | SockOther \<Rightarrow> arr)"

fun addressLoop ::
    "(16 word list \<Rightarrow> string) \<Rightarrow> sa_family \<Rightarrow> AdapterAddresses list \<Rightarrow> NetworkAdapter list \<Rightarrow> NetworkAdapter list res" where
  "addressLoop ansi family [] arr = Inr arr"
| "addressLoop ansi family (aa # aas) arr =
     (if aaIfType aa = IF_TYPE_SOFTWARE_LOOPBACK \<or> aaIfType aa = IF_TYPE_TUNNEL then addressLoop ansi family aas arr
      else
        case aaFriendlyName aa of
          None \<Rightarrow> addressLoop ansi family aas arr
        | Some friendly \<Rightarrow>
            bindr (nameBuf ansi friendly) (\<lambda>name. addressLoop ansi family aas (unicastLoop family name (aaUnicast aa) arr)))"

text \<open>
  \<open>errorText\<close> is \<open>FormatMessage\<close>. Also what is printed to the standard error. It is not checked that the library
  has the function.
\<close>

definition wSockIpv6GetAdapterInformation ::
    "(16 word list \<Rightarrow> string) \<Rightarrow> (nat \<Rightarrow> string option) \<Rightarrow> (nat \<Rightarrow> nat \<Rightarrow> AdapterAddresses list SysAnswer) option \<Rightarrow>
     sa_family \<Rightarrow> (string \<times> NetworkAdapter list option) res" where
  "wSockIpv6GetAdapterInformation ansi errorText func family =
     (case func of None \<Rightarrow> Inl NullDereference | Some call \<Rightarrow>
      let failed = (\<lambda>rv. Inr (''GetAdaptersAddresses() failed...'' @
                       (case errorText rv of Some t \<Rightarrow> CHR '' '' # t @ [LF] | None \<Rightarrow> [LF]), None)) in
      case addressTries call 0 15000 of
        Filled aas \<Rightarrow> bindr (addressLoop ansi family aas []) (\<lambda>arr. Inr ([], Some arr))
      | Overflow n \<Rightarrow> failed ERROR_BUFFER_OVERFLOW
      | Failed rv \<Rightarrow> failed rv)"

section \<open>Asking\<close>

text \<open>What the libraries answer, and the call through the pointer that \<open>platformIpStackInit\<close> chose.\<close>

record Libraries =
  lbWsControl :: bool
  lbAnswers :: WsAnswers
  lbInfo :: "(nat \<Rightarrow> nat \<Rightarrow> AdapterInfo list SysAnswer) option"
  lbAddresses :: "(nat \<Rightarrow> nat \<Rightarrow> AdapterAddresses list SysAnswer) option"
  lbAnsi :: "16 word list \<Rightarrow> string"
  lbErrorText :: "nat \<Rightarrow> string option"

definition windowsAdapters :: "Libraries \<Rightarrow> IpStack \<Rightarrow> sa_family \<Rightarrow> NetworkAdapter list option res" where
  "windowsAdapters lb stack family =
     bindr (platformGetAdapterInformation_win stack family) (\<lambda>source.
       case source of
         WSock1 \<Rightarrow> bindr (wSock1GetAdapterInformation (lbWsControl lb) (lbAnswers lb) []) (\<lambda>(arr, nics). Inr arr)
       | WSock2 \<Rightarrow> bindr (wSock2GetAdapterInformation (lbInfo lb)) (\<lambda>(out, arr). Inr arr)
       | WSockIpv6 \<Rightarrow>
           bindr (wSockIpv6GetAdapterInformation (lbAnsi lb) (lbErrorText lb) (lbAddresses lb) family) (\<lambda>(out, arr). Inr arr))"

section \<open>The array that is built\<close>

text \<open>
  Every adapter is in the array once, under a name that fits, and has an address; the flag of an address says
  which family it is of.
\<close>

definition adaptersOk :: "nat set \<Rightarrow> NetworkAdapter list \<Rightarrow> bool" where
  "adaptersOk flags arr \<longleftrightarrow>
     distinct (map adapterName arr) \<and>
     (\<forall>a\<in>set arr. length (adapterName a) < ADAPTER_NAME_LENGTH \<and> adapterAddresses a \<noteq> [] \<and> fst ` set (adapterAddresses a) \<subseteq> flags)"

lemma adaptersOk_Nil [simp]: "adaptersOk flags []"
  by (simp add: adaptersOk_def)

lemma adapterFind_cases:
  "adapterFind arr n = length arr \<and> n \<notin> adapterName ` set arr \<or>
   (\<exists>i. adapterFind arr n = i \<and> i < length arr \<and> adapterName (arr ! i) = n)"
proof (cases "n \<in> adapterName ` set arr")
  case True
  then have "dropWhile (\<lambda>a. adapterName a \<noteq> n) arr \<noteq> []"
    by (auto simp: dropWhile_eq_Nil_conv)
  then have l: "length (takeWhile (\<lambda>a. adapterName a \<noteq> n) arr) < length arr"
    using arg_cong [OF takeWhile_dropWhile_id [of "\<lambda>a. adapterName a \<noteq> n" arr], of length]
    by (simp only: length_append length_0_conv [symmetric])
  from nth_length_takeWhile [OF l] l show ?thesis
    by (auto simp: adapterFind_def)
next
  case False
  then have w: "takeWhile (\<lambda>a. adapterName a \<noteq> n) arr = arr"
    by (auto simp: takeWhile_eq_all_conv)
  with False show ?thesis
    by (simp only: adapterFind_def w) simp
qed

lemma adaptersOk_add:
  assumes ok: "adaptersOk flags arr" and n: "length n < ADAPTER_NAME_LENGTH" and t: "t \<in> flags"
  shows "adaptersOk flags (platformFindOrCreateAdapterIp arr n t ip)"
proof -
  consider "adapterFind arr n = length arr" "n \<notin> adapterName ` set arr"
    | i where "adapterFind arr n = i" "i < length arr" "adapterName (arr ! i) = n"
    using adapterFind_cases [of arr n] by blast
  then show ?thesis
  proof cases
    case 1
    with ok n t show ?thesis
      by (auto simp: platformFindOrCreateAdapterIp_def adaptersOk_def Let_def nth_append list_update_append)
  next
    case 2
    have names: "map adapterName (arr[i := (arr ! i)\<lparr>adapterAddresses := xs\<rparr>]) = map adapterName arr" for xs
      using 2(2) by (simp add: map_update list_update_same_conv)
    let ?b = "(arr ! i)\<lparr>adapterAddresses := adapterAddresses (arr ! i) @ [(t, take INET6_ADDRSTRLEN ip)]\<rparr>"
    have "arr ! i \<in> set arr"
      using 2(2) by simp
    with ok t have b: "length (adapterName ?b) < ADAPTER_NAME_LENGTH" "fst ` set (adapterAddresses ?b) \<subseteq> flags"
      unfolding adaptersOk_def by auto
    have "a \<in> set arr \<or> a = ?b" if "a \<in> set (arr[i := ?b])" for a
      using that set_update_subset_insert [of arr i ?b] by auto
    with ok b names show ?thesis
      using 2 by (fastforce simp: platformFindOrCreateAdapterIp_def adaptersOk_def Let_def)
  qed
qed

lemma addrLoop_ok:
  assumes "addrLoop nics es arr = Inr arr1" "adaptersOk {0} arr" "\<forall>(i, d)\<in>set nics. length d \<le> 132"
  shows "adaptersOk {0} arr1"
  using assms
proof (induction es arbitrary: arr)
  case (Cons e es)
  have d: "length d \<le> 132" if "nicFind i nics = Some d" for i d
    using that Cons.prems(3) by (induction i nics rule: nicFind.induct) (auto split: if_splits)
  have short: "length (takeWhile (\<lambda>c. c \<noteq> NUL) d) < ADAPTER_NAME_LENGTH" if "nicFind i nics = Some d" for i d
    using d [OF that] length_takeWhile_le [of "\<lambda>c. c \<noteq> NUL" d] by (simp add: ADAPTER_NAME_LENGTH_def)
  have step: "adaptersOk {0} (platformFindOrCreateAdapterIp arr (takeWhile (\<lambda>c. c \<noteq> NUL) d) 0 ip)"
    if "nicFind i nics = Some d" for i d ip
    by (rule adaptersOk_add [OF Cons.prems(2) short [OF that]]) simp
  show ?case
    using Cons.prems(1,2)
    by (auto split: option.split_asm prod.split_asm if_split_asm intro: Cons.IH [OF _ _ Cons.prems(3)] step)
qed simp

lemma nicLoop_short:
  assumes "nicLoop w es n nics = Inr (r, nics1)" "\<forall>(i, d)\<in>set nics. length d \<le> 132"
  shows "\<forall>(i, d)\<in>set nics1. length d \<le> 132"
  using assms
  by (induction w es n nics rule: nicLoop.induct)
     (auto simp: res_simps nicAdd_def descrBlock_def split: if_split_asm option.split_asm)

lemma ipLoop_ok:
  assumes "ipLoop w n nics es array = Inr (Some r)" "\<forall>arr. array = Some arr \<longrightarrow> adaptersOk {0} arr"
    "\<forall>(i, d)\<in>set nics. length d \<le> 132"
  shows "\<forall>arr. r = Some arr \<longrightarrow> adaptersOk {0} arr"
  using assms
proof (induction es arbitrary: array)
  case (Cons e es)
  from Cons.prems(1) consider "ipLoop w n nics es array = Inr (Some r)"
    | as arr arr1 where "(if n \<noteq> 0 then Some [] else array) = Some arr" "addrLoop nics (addrTable n as) arr = Inr arr1"
        "ipLoop w n nics es (Some arr1) = Inr (Some r)"
    by (simp add: res_simps split: if_split_asm option.split_asm) blast+
  then show ?case
  proof cases
    case 1
    with Cons.IH Cons.prems(2,3) show ?thesis
      by blast
  next
    case 2
    from 2(1) Cons.prems(2) have "adaptersOk {0} arr"
      by (auto split: if_split_asm)
    from addrLoop_ok [OF 2(2) this Cons.prems(3)] have "adaptersOk {0} arr1" .
    with Cons.IH [OF 2(3)] Cons.prems(3) show ?thesis
      by blast
  qed
qed simp

lemma adaptersOk_info: "adaptersOk {0} arr \<Longrightarrow> \<forall>n. length n < 512 \<longrightarrow> (\<forall>ip. adaptersOk {0} (platformFindOrCreateAdapterIp arr n 0 ip))"
  by (auto intro: adaptersOk_add simp: ADAPTER_NAME_LENGTH_def)

lemma infoLoop_ok: "infoLoop ps arr = Inr arr1 \<Longrightarrow> adaptersOk {0} arr \<Longrightarrow> adaptersOk {0} arr1"
  by (induction ps arbitrary: arr) (auto simp: BUFSIZ_win_def split: if_split_asm dest!: adaptersOk_info)

definition familyFlags :: "sa_family \<Rightarrow> nat set" where
  "familyFlags family = (case family of AF_INET \<Rightarrow> {0} | AF_INET6 \<Rightarrow> {1} | AF_UNSPEC \<Rightarrow> {0, 1})"

lemma unicastLoop_ok:
  "adaptersOk (familyFlags family) arr \<Longrightarrow> length name < ADAPTER_NAME_LENGTH \<Longrightarrow>
   adaptersOk (familyFlags family) (unicastLoop family name uas arr)"
  by (induction uas arbitrary: arr)
     (auto intro!: adaptersOk_add simp: familyFlags_def split: SockAddr.split sa_family.split_asm sa_family.split)

lemma nameBuf_short: "nameBuf ansi name = Inr s \<Longrightarrow> length s < ADAPTER_NAME_LENGTH"
  using length_takeWhile_le [of "\<lambda>c. c \<noteq> NUL" "ansi name"]
  by (auto simp: nameBuf_def Let_def ADAPTER_NAME_LENGTH_def BUFSIZ_win_def split: if_split_asm)

lemma addressLoop_ok:
  "addressLoop ansi family aas arr = Inr arr1 \<Longrightarrow> adaptersOk (familyFlags family) arr \<Longrightarrow> adaptersOk (familyFlags family) arr1"
proof (induction aas arbitrary: arr)
  case (Cons aa aas)
  then show ?case
    by (auto simp: res_simps split: if_split_asm option.split_asm intro: Cons.IH unicastLoop_ok nameBuf_short)
qed simp

lemma adaptersOk_mono: "adaptersOk A arr \<Longrightarrow> A \<subseteq> B \<Longrightarrow> adaptersOk B arr"
  by (auto simp: adaptersOk_def)

lemma wSock1_ok:
  assumes "wSock1GetAdapterInformation available w [] = Inr (Some arr, nics)"
  shows "adaptersOk {0} arr"
proof -
  from assms obtain es n nics1 where "nicLoop w es 0 [] = Inr (Some n, nics1)" "ipLoop w n nics1 es None = Inr (Some (Some arr))"
    by (auto simp: wSock1GetAdapterInformation_def res_simps split: if_split_asm option.split_asm)
  from ipLoop_ok [OF this(2) _ nicLoop_short [OF this(1)]] show ?thesis
    by simp
qed

lemma wSock2_ok: "wSock2GetAdapterInformation func = Inr (out, Some arr) \<Longrightarrow> adaptersOk {0} arr"
  by (auto simp: wSock2GetAdapterInformation_def res_simps Let_def intro: infoLoop_ok [OF _ adaptersOk_Nil]
      split: option.split_asm SysAnswer.split_asm)

lemma wSockIpv6_ok:
  "wSockIpv6GetAdapterInformation ansi errorText func family = Inr (out, Some arr) \<Longrightarrow> adaptersOk (familyFlags family) arr"
  by (auto simp: wSockIpv6GetAdapterInformation_def res_simps Let_def intro: addressLoop_ok [OF _ adaptersOk_Nil]
      split: option.split_asm SysAnswer.split_asm)

text \<open>
  C39. Whichever library a Windows machine has, the array of adapters it gives is well formed: no adapter is in it
  twice, each has an address and a name that fits, and only addresses of the families asked for are in it.
\<close>

theorem windows_adapters_ok:
  assumes "windowsAdapters lb (snd (platformIpStackInit_win a b c d)) family = Inr (Some arr)"
  shows "adaptersOk (familyFlags family) arr"
proof -
  have old: "adaptersOk (familyFlags family) arr" if "family \<noteq> AF_INET6" "adaptersOk {0} arr"
    using adaptersOk_mono [OF that(2), of "familyFlags family"] that(1) by (cases family) (auto simp: familyFlags_def)
  from assms show ?thesis
    by (auto simp: windowsAdapters_def platformGetAdapterInformation_win_def platformIpStackInit_win_def res_simps Let_def
        intro: old wSock1_ok wSock2_ok wSockIpv6_ok split: if_split_asm AdapterSource.split_asm option.split_asm)
qed

definition exampleLibraries :: Libraries where
  "exampleLibraries =
     \<lparr>lbWsControl = False, lbAnswers = undefined,
      lbInfo = Some (\<lambda>i n. if n < 1280 then Overflow 1280
                 else Filled [\<lparr>aiDescription = ''a'', aiAddress = ''10.0.0.1''\<rparr>, \<lparr>aiDescription = ''b'', aiAddress = ''0.0.0.0''\<rparr>]),
      lbAddresses = None, lbAnsi = undefined, lbErrorText = undefined\<rparr>"

lemma windows_adapters_ok_witness:
  "\<exists>arr. windowsAdapters exampleLibraries (snd (platformIpStackInit_win False True False False)) AF_UNSPEC = Inr (Some arr) \<and>
     arr = [\<lparr>adapterName = ''a'', adapterAddresses = [(0, ''10.0.0.1'')]\<rparr>] \<and> adaptersOk (familyFlags AF_UNSPEC) arr"
proof -
  let ?arr = "[\<lparr>adapterName = ''a'', adapterAddresses = [(0, ''10.0.0.1'')]\<rparr>]"
  have r: "windowsAdapters exampleLibraries (snd (platformIpStackInit_win False True False False)) AF_UNSPEC = Inr (Some ?arr)"
    by (simp add: windowsAdapters_def platformGetAdapterInformation_win_def platformIpStackInit_win_def exampleLibraries_def
        wSock2GetAdapterInformation_def SIZEOF_ADAPTER_INFO_def BUFSIZ_win_def platformFindOrCreateAdapterIp_def adapterFind_def
        ADAPTER_NAME_LENGTH_def INET6_ADDRSTRLEN_def)
  from windows_adapters_ok [OF r] r show ?thesis
    by blast
qed

text \<open>A description without a NUL in its length is read behind its block.\<close>

theorem unterminated_description:
  assumes "s = \<lparr>if_index = 1, if_descrlen = 3, if_descr = ''eth''\<rparr>"
    and "w = \<lparr>wsStartup = True, wsEntities = Some [\<lparr>tei_entity = IF_ENTITY, tei_instance = 0\<rparr>, \<lparr>tei_entity = CL_NL_ENTITY, tei_instance = 0\<rparr>],
             wsType = (\<lambda>e. if tei_entity e = IF_ENTITY then Some IF_MIB else Some CL_NL_IP), wsStats = (\<lambda>_. Some s),
             wsAddrTable = (\<lambda>_. Some [\<lparr>iae_addr = (10, 0, 0, 1), iae_index = 1\<rparr>])\<rparr>"
  shows "wSock1GetAdapterInformation True w [] = Inl OutOfBounds"
  unfolding assms
  by (simp add: wSock1GetAdapterInformation_def IF_ENTITY_def CL_NL_ENTITY_def IF_MIB_def CL_NL_IP_def descrBlock_def nicAdd_def
      addrTable_def)

text \<open>After a call that failed the interfaces stay, and the next call lists them once more.\<close>

theorem interfaces_left_behind:
  assumes "nicLoop w es 0 nics = Inr (Some n, nics1)" "ipLoop w n nics1 es None = Inr None" "wsEntities w = Some es" "wsStartup w"
  shows "wSock1GetAdapterInformation True w nics = Inr (None, nics1)"
  using assms by (simp add: wSock1GetAdapterInformation_def)

end
