(* ===== verification/Mux_Poll.thy ===== *)
theory Mux_Poll
  imports Newth_Prelude
begin

text \<open>
  \<open>src/server/mltiplex/poll.c\<close>: the arrays of sockets of the server that waits with \<open>poll (2)\<close>. The
  arrays are blocks of a heap, because \<open>PollArrayAdd\<close> and \<open>PollArrayDel\<close> resize the block of the served
  sockets whichever array they are called for.
\<close>

section \<open>Heap blocks\<close>

text \<open>A block is a list of descriptors, \<open>None\<close> where nothing has been stored; a pointer is an address.\<close>

record PollState =
  pollHeap :: "nat \<Rightarrow> nat option list option"
  pollNext :: nat
  servePoll :: "nat option"
  deferredPoll :: "nat option"
  listenPoll :: "nat list"
  servePollCount :: nat
  deferredPollCount :: nat

datatype PollArray = ServePoll | DeferredPoll

fun pollPtr :: "PollArray \<Rightarrow> PollState \<Rightarrow> nat option" where
  "pollPtr ServePoll st = servePoll st"
| "pollPtr DeferredPoll st = deferredPoll st"

fun pollCount :: "PollArray \<Rightarrow> PollState \<Rightarrow> nat" where
  "pollCount ServePoll st = servePollCount st"
| "pollCount DeferredPoll st = deferredPollCount st"

fun pollSetPtr :: "PollArray \<Rightarrow> nat option \<Rightarrow> PollState \<Rightarrow> PollState" where
  "pollSetPtr ServePoll p st = st\<lparr>servePoll := p\<rparr>"
| "pollSetPtr DeferredPoll p st = st\<lparr>deferredPoll := p\<rparr>"

fun pollSetCount :: "PollArray \<Rightarrow> nat \<Rightarrow> PollState \<Rightarrow> PollState" where
  "pollSetCount ServePoll n st = st\<lparr>servePollCount := n\<rparr>"
| "pollSetCount DeferredPoll n st = st\<lparr>deferredPollCount := n\<rparr>"

text \<open>
  \<open>realloc (p, n)\<close>: a block of \<open>n\<close> elements at a new address that keeps what fits of the old one, which
  is freed. Freeing or resizing a block that is not allocated is \<open>UseAfterFree\<close>.
\<close>

definition pollRealloc :: "nat option \<Rightarrow> nat \<Rightarrow> PollState \<Rightarrow> (nat \<times> PollState) res" where
  "pollRealloc p n st =
     (let a = pollNext st;
          st1 = st\<lparr>pollNext := a + 1\<rparr>
      in case p of
           None \<Rightarrow> Inr (a, st1\<lparr>pollHeap := (pollHeap st)(a \<mapsto> replicate n None)\<rparr>)
         | Some q \<Rightarrow>
             (case pollHeap st q of
                None \<Rightarrow> Inl UseAfterFree
              | Some b \<Rightarrow> Inr (a, st1\<lparr>pollHeap := ((pollHeap st)(q := None))(a \<mapsto> take n b @ replicate (n - length b) None)\<rparr>)))"

definition pollStore :: "nat \<Rightarrow> nat \<Rightarrow> nat \<Rightarrow> PollState \<Rightarrow> PollState res" where
  "pollStore p i fd st =
     (case pollHeap st p of
        None \<Rightarrow> Inl UseAfterFree
      | Some b \<Rightarrow> if i < length b then Inr (st\<lparr>pollHeap := (pollHeap st)(p \<mapsto> b[i := Some fd])\<rparr>) else Inl OutOfBounds)"

definition pollLoad :: "nat \<Rightarrow> nat \<Rightarrow> PollState \<Rightarrow> nat res" where
  "pollLoad p i st =
     (case pollHeap st p of
        None \<Rightarrow> Inl UseAfterFree
      | Some b \<Rightarrow>
          if length b \<le> i then Inl OutOfBounds
          else (case b ! i of None \<Rightarrow> Inl Uninitialised | Some fd \<Rightarrow> Inr fd))"

section \<open>The operations\<close>

text \<open>The array is resized when it exists, but it is \<open>servePoll\<close> that is given to \<open>realloc\<close>.\<close>

definition PollArrayAdd :: "PollArray \<Rightarrow> nat \<Rightarrow> PollState \<Rightarrow> PollState res" where
  "PollArrayAdd arr socket st =
     bindr (case pollPtr arr st of
              Some _ \<Rightarrow> pollRealloc (servePoll st) (pollCount arr st + 1) st
            | None \<Rightarrow> pollRealloc None 1 st)
       (\<lambda>(a, st1).
          bindr (pollStore a (pollCount arr st) socket (pollSetPtr arr (Some a) st1))
            (\<lambda>st2. Inr (pollSetCount arr (pollCount arr st + 1) st2)))"

text \<open>
  \<open>*&poll[i]->fd\<close> is the first element of the array for \<open>i = 0\<close>; for any other \<open>i\<close> the pointer is taken
  from the memory behind the static variable. A removed element that was not the only one is
  overwritten from there as well.
\<close>

definition PollArrayDel :: "PollArray \<Rightarrow> nat \<Rightarrow> PollState \<Rightarrow> PollState res" where
  "PollArrayDel arr socket st =
     (case pollPtr arr st of
        None \<Rightarrow> Inr st
      | Some p \<Rightarrow>
          if pollCount arr st = 0 then Inr st
          else bindr (pollLoad p 0 st)
            (\<lambda>fd. if fd \<noteq> socket then (if pollCount arr st = 1 then Inr st else Inl OutOfBounds)
                  else if 1 < pollCount arr st then Inl OutOfBounds
                  else Inr (pollSetPtr arr None (pollSetCount arr 0 (st\<lparr>pollHeap := (pollHeap st)(p := None)\<rparr>)))))"

definition PollArrayContains :: "PollArray \<Rightarrow> nat \<Rightarrow> PollState \<Rightarrow> bool res" where
  "PollArrayContains arr socket st =
     (case pollPtr arr st of
        None \<Rightarrow> Inr False
      | Some p \<Rightarrow>
          if pollCount arr st = 0 then Inr False
          else bindr (pollLoad p 0 st)
            (\<lambda>fd. if fd = socket then Inr True
                  else if pollCount arr st = 1 then Inr False else Inl OutOfBounds))"

definition pollDeferredSocketAdd :: "nat \<Rightarrow> PollState \<Rightarrow> PollState res" where
  "pollDeferredSocketAdd = PollArrayAdd DeferredPoll"

definition pollDeferredSocketRemove :: "nat \<Rightarrow> PollState \<Rightarrow> PollState res" where
  "pollDeferredSocketRemove = PollArrayDel DeferredPoll"

definition pollDeferredSocketExists :: "nat \<Rightarrow> PollState \<Rightarrow> bool res" where
  "pollDeferredSocketExists = PollArrayContains DeferredPoll"

fun loadAll :: "nat \<Rightarrow> nat list \<Rightarrow> PollState \<Rightarrow> nat list res" where
  "loadAll p [] st = Inr []"
| "loadAll p (i # is) st = bindr (pollLoad p i st) (\<lambda>x. bindr (loadAll p is st) (\<lambda>xs. Inr (x # xs)))"

text \<open>The array with its size in front.\<close>

definition pollFdToSocketArray :: "PollArray \<Rightarrow> PollState \<Rightarrow> nat list res" where
  "pollFdToSocketArray arr st =
     (case pollPtr arr st of
        None \<Rightarrow> if pollCount arr st = 0 then Inr [0] else Inl NullDereference
      | Some p \<Rightarrow> bindr (loadAll p [0..<pollCount arr st] st) (\<lambda>xs. Inr (pollCount arr st # xs)))"

definition pollServerSetup :: "nat list \<Rightarrow> PollState \<Rightarrow> PollState" where
  "pollServerSetup sockets st = st\<lparr>listenPoll := take (hd sockets) (tl sockets)\<rparr>"

definition pollInit :: PollState where
  "pollInit = \<lparr>pollHeap = (\<lambda>_. None), pollNext = 1, servePoll = None, deferredPoll = None, listenPoll = [],
     servePollCount = 0, deferredPollCount = 0\<rparr>"

section \<open>Where it works and where it does not\<close>

definition pollAdds :: "nat list \<Rightarrow> PollState \<Rightarrow> PollState res" where
  "pollAdds ss st = foldl (\<lambda>r s. bindr r (PollArrayAdd ServePoll s)) (Inr st) ss"

text \<open>An array of served sockets: the pointer leads to a block that starts with the sockets.\<close>

definition serves :: "nat list \<Rightarrow> PollState \<Rightarrow> bool" where
  "serves ss st \<longleftrightarrow> servePollCount st = length ss \<and>
     (case servePoll st of
        None \<Rightarrow> ss = []
      | Some p \<Rightarrow> pollHeap st p = Some (map Some ss))"

lemma serves_add:
  assumes "serves ss st" "servePoll st \<noteq> Some (pollNext st)"
  shows "\<exists>st1. PollArrayAdd ServePoll s st = Inr st1 \<and> serves (ss @ [s]) st1 \<and>
           servePoll st1 = Some (pollNext st) \<and> pollNext st1 = pollNext st + 1"
  using assms
  by (cases "servePoll st")
     (auto simp: serves_def PollArrayAdd_def pollRealloc_def pollStore_def Let_def list_update_append)

lemma pollAdds_snoc: "pollAdds (ss @ [s]) st = bindr (pollAdds ss st) (PollArrayAdd ServePoll s)"
  by (simp add: pollAdds_def)

lemma pollAdds_serves:
  "\<exists>st. pollAdds ss pollInit = Inr st \<and> serves ss st \<and> (case servePoll st of None \<Rightarrow> True | Some p \<Rightarrow> p < pollNext st)"
proof (induction ss rule: rev_induct)
  case Nil
  then show ?case by (simp add: pollAdds_def pollInit_def serves_def)
next
  case (snoc s ss)
  then obtain st where st: "pollAdds ss pollInit = Inr st" "serves ss st"
    "case servePoll st of None \<Rightarrow> True | Some p \<Rightarrow> p < pollNext st" by blast
  then have "servePoll st \<noteq> Some (pollNext st)" by (auto split: option.splits)
  from serves_add [OF st(2) this, of s] st(1) show ?case by (auto simp: pollAdds_snoc)
qed

lemma loadAll_block:
  assumes "pollHeap st p = Some (map Some ss)" "k \<le> length ss"
  shows "loadAll p [k..<length ss] st = Inr (drop k ss)"
  using assms(2)
proof (induction k rule: inc_induct)
  case base
  then show ?case by simp
next
  case (step n)
  then have "pollLoad p n st = Inr (ss ! n)" using assms(1) by (simp add: pollLoad_def)
  with step show ?case by (simp add: upt_conv_Cons Cons_nth_drop_Suc)
qed

text \<open>
  As long as no socket is deferred, the array of served sockets holds exactly the accepted
  sockets in the order they were added.
\<close>

theorem poll_serves_accepted:
  "\<exists>st. pollAdds ss pollInit = Inr st \<and> pollFdToSocketArray ServePoll st = Inr (length ss # ss)"
proof -
  obtain st where st: "pollAdds ss pollInit = Inr st" "serves ss st" using pollAdds_serves by blast
  have "pollFdToSocketArray ServePoll st = Inr (length ss # ss)"
  proof (cases "servePoll st")
    case None
    with st(2) show ?thesis by (simp add: serves_def pollFdToSocketArray_def)
  next
    case (Some p)
    with st(2) have "loadAll p [0..<length ss] st = Inr ss" using loadAll_block [of st p ss 0] by (simp add: serves_def)
    with Some st(2) show ?thesis by (simp add: serves_def pollFdToSocketArray_def)
  qed
  with st(1) show ?thesis by blast
qed

text \<open>
  With two sockets deferred, asking for the second one already reads a pointer from outside the
  static variable, and deferring the second one has taken over the block of the served sockets, so
  that the next use of the served sockets touches freed memory.
\<close>

theorem poll_deferred_broken:
  "(case bindr (pollAdds [4, 5] pollInit) (\<lambda>st. bindr (pollDeferredSocketAdd 4 st) (pollDeferredSocketAdd 5)) of
      Inr st \<Rightarrow> pollDeferredSocketExists 5 st = Inl OutOfBounds \<and> pollFdToSocketArray ServePoll st = Inl UseAfterFree
    | Inl _ \<Rightarrow> False)"
  by (simp add: pollAdds_def pollInit_def PollArrayAdd_def pollRealloc_def pollStore_def pollLoad_def Let_def
      pollDeferredSocketAdd_def pollDeferredSocketExists_def PollArrayContains_def pollFdToSocketArray_def)

end
