(* ===== verification/Poll_Loop.thy ===== *)
theory Poll_Loop
  imports Server Mux_Poll
begin

text \<open>
  The loop of \<open>src/server/mltiplex/poll.c\<close>. A turn of the loop goes through the deferred sockets, the routines,
  the served sockets and the listening sockets. The routines are those of the other multiplexer, but what they
  ask of the deferred sockets goes to the arrays.
\<close>

section \<open>Routines over the arrays\<close>

definition isDeferred :: "Routine \<Rightarrow> bool" where
  "isDeferred r \<longleftrightarrow> rState r \<in> {STATE_DEFER OR TYPE_ROUTINE, STATE_DEFER OR TYPE_ROUTINE_FILE, STATE_DEFER OR TYPE_ROUTINE_DIR}"

text \<open>
  One turn of a routine: only a deferred one asks whether its socket waits, one that goes takes its socket off and
  one that defers adds it.
\<close>

definition pollTurn :: "Files \<Rightarrow> Routine \<Rightarrow> Net \<Rightarrow> PollState \<Rightarrow> (Turn \<times> Net \<times> PollState) res" where
  "pollTurn fs r net st =
     (let s = sbSocket (rBuffer r) in
      bindr (if isDeferred r then pollDeferredSocketExists s st else Inr False) (\<lambda>waits.
      bindr (routineTurn fs r net (if waits then {s} else {})) (\<lambda>(t, net1, deferred).
      bindr (case t of
               Gone _ \<Rightarrow> pollDeferredSocketRemove s st
             | Stay _ \<Rightarrow> if deferred \<noteq> {} \<and> \<not> waits then pollDeferredSocketAdd s st else Inr st) (\<lambda>st1.
        Inr (t, net1, st1)))))"

function pollTickLoop :: "Files \<Rightarrow> nat \<Rightarrow> PollState \<Rightarrow> Server \<Rightarrow> (PollState \<times> Server) res" where
  "pollTickLoop fs i st sv =
     (let ra = svRoutines sv in
      if raSize ra \<le> i then Inr (st, sv)
      else if length (raArray ra) \<le> i then Inl OutOfBounds
      else (case pollTurn fs (raArray ra ! i) (svNet sv) st of
              Inl e \<Rightarrow> Inl e
            | Inr (Stay r, net, st1) \<Rightarrow>
                pollTickLoop fs (i + 1) st1 (sv\<lparr>svRoutines := ra\<lparr>raArray := (raArray ra)[i := r]\<rparr>, svNet := net\<rparr>)
            | Inr (Gone r, net, st1) \<Rightarrow>
                pollTickLoop fs (i + 1) st1
                  (sv\<lparr>svRoutines := RoutineArrayDelIdx ra i, svNet := net, svEvents := svEvents sv @ goneEvents r\<rparr>)))"
  by pat_completeness auto
termination
  by (relation "measure (\<lambda>(fs, i, st, sv). raSize (svRoutines sv) - i)") (auto simp: RoutineArrayDelIdx_def)

declare pollTickLoop.simps [simp del]

section \<open>The passes over the arrays\<close>

text \<open>
  What \<open>poll (2)\<close> and the sockets answer in a turn: the descriptors with \<open>POLL_IN\<close> and \<open>POLL_OUT\<close>, the
  listening ones with exactly \<open>POLL_IN\<close>, the next connection of a listening socket and what \<open>recv\<close> gives.
\<close>

record PollReady =
  prReadable :: "nat set"
  prWritable :: "nat set"
  prListening :: "nat set"
  prAccept :: "nat \<Rightarrow> nat"
  prInput :: "nat \<Rightarrow> RecvAnswer list"

definition ProcessListeningPoll :: "PollReady \<Rightarrow> nat \<Rightarrow> PollState \<Rightarrow> Server \<Rightarrow> (PollState \<times> Server) res" where
  "ProcessListeningPoll rd fd st sv =
     (if fd \<in> prListening rd then
        (let c = prAccept rd fd in
         bindr (PollArrayAdd ServePoll c st) (\<lambda>st1. Inr (st1, sv\<lparr>svEvents := svEvents sv @ eventSocketAcceptInvoke c\<rparr>)))
      else Inr (st, sv))"

definition ProcessServePoll :: "Env \<Rightarrow> PollReady \<Rightarrow> nat \<Rightarrow> PollState \<Rightarrow> Server \<Rightarrow> (PollState \<times> Server) res" where
  "ProcessServePoll env rd fd st sv =
     (if fd \<in> prReadable rd then
        bindr (handleConnection env fd (prInput rd fd) sv) (\<lambda>(r, sv1).
          if r \<noteq> 0 then
            bindr (PollArrayDel ServePoll fd st) (\<lambda>st1.
              Inr (st1, sv1\<lparr>svEvents := svEvents sv1 @ eventSocketCloseInvoke fd,
                            svRoutines := RoutineArrayDelSocket (svRoutines sv1) fd\<rparr>))
          else Inr (st, sv1))
      else Inr (st, sv))"

definition ProcessDeferredPoll :: "PollReady \<Rightarrow> nat \<Rightarrow> PollState \<Rightarrow> PollState res" where
  "ProcessDeferredPoll rd fd st = (if fd \<in> prWritable rd then PollArrayDel DeferredPoll fd st else Inr st)"

lemma PollArrayDel_count:
  "PollArrayDel arr s st = Inr st1 \<Longrightarrow> servePollCount st1 \<le> servePollCount st \<and> deferredPollCount st1 \<le> deferredPollCount st"
  by (cases arr) (auto simp: PollArrayDel_def res_simps split: option.splits if_splits)

lemma ProcessServePoll_count: "ProcessServePoll env rd fd st sv = Inr (st1, sv1) \<Longrightarrow> servePollCount st1 \<le> servePollCount st"
  by (auto simp: ProcessServePoll_def res_simps dest: PollArrayDel_count split: if_split_asm)

lemma ProcessDeferredPoll_count: "ProcessDeferredPoll rd fd st = Inr st1 \<Longrightarrow> deferredPollCount st1 \<le> deferredPollCount st"
  by (auto simp: ProcessDeferredPoll_def dest: PollArrayDel_count split: if_split_asm)

declare bindr_cong [fundef_cong]

text \<open>The element \<open>i\<close> of an array, read through its pointer in every turn of the loops.\<close>

definition pollAt :: "PollArray \<Rightarrow> nat \<Rightarrow> PollState \<Rightarrow> nat res" where
  "pollAt arr i st = (case pollPtr arr st of None \<Rightarrow> Inl NullDereference | Some p \<Rightarrow> pollLoad p i st)"

function deferredPass :: "PollReady \<Rightarrow> nat \<Rightarrow> PollState \<Rightarrow> PollState res" where
  "deferredPass rd i st =
     (if deferredPollCount st \<le> i then Inr st
      else bindr (pollAt DeferredPoll i st) (\<lambda>fd. bindr (ProcessDeferredPoll rd fd st) (\<lambda>st1. deferredPass rd (i + 1) st1)))"
  by pat_completeness auto
termination
  by (relation "measure (\<lambda>(rd, i, st). deferredPollCount st - i)") (auto dest: ProcessDeferredPoll_count)

function servePass :: "Env \<Rightarrow> PollReady \<Rightarrow> nat \<Rightarrow> PollState \<Rightarrow> Server \<Rightarrow> (PollState \<times> Server) res" where
  "servePass env rd i st sv =
     (if servePollCount st \<le> i then Inr (st, sv)
      else bindr (pollAt ServePoll i st) (\<lambda>fd.
             bindr (ProcessServePoll env rd fd st sv) (\<lambda>(st1, sv1). servePass env rd (i + 1) st1 sv1)))"
  by pat_completeness auto
termination
  by (relation "measure (\<lambda>(env, rd, i, st, sv). servePollCount st - i)") (auto dest: ProcessServePoll_count)

declare deferredPass.simps [simp del] servePass.simps [simp del]

fun listenPass :: "PollReady \<Rightarrow> nat list \<Rightarrow> PollState \<Rightarrow> Server \<Rightarrow> (PollState \<times> Server) res" where
  "listenPass rd [] st sv = Inr (st, sv)"
| "listenPass rd (fd # fds) st sv = bindr (ProcessListeningPoll rd fd st sv) (\<lambda>(st1, sv1). listenPass rd fds st1 sv1)"

text \<open>One turn of \<open>serverTick\<close>.\<close>

definition pollServerTick :: "Env \<Rightarrow> PollReady \<Rightarrow> PollState \<Rightarrow> Server \<Rightarrow> (PollState \<times> Server) res" where
  "pollServerTick env rd st sv =
     bindr (if deferredPoll st \<noteq> None then deferredPass rd 0 st else Inr st) (\<lambda>st1.
     bindr (if raSize (svRoutines sv) \<noteq> 0 then pollTickLoop (envFiles env) 0 st1 sv else Inr (st1, sv)) (\<lambda>(st2, sv2).
     bindr (if servePoll st2 \<noteq> None then servePass env rd 0 st2 sv2 else Inr (st2, sv2)) (\<lambda>(st3, sv3).
       listenPass rd (listenPoll st3) st3 sv3)))"

section \<open>One connection\<close>

text \<open>The arrays hold a set of at most one deferred socket.\<close>

definition deferredIs :: "nat set \<Rightarrow> PollState \<Rightarrow> bool" where
  "deferredIs D st \<longleftrightarrow>
     (D = {} \<and> deferredPoll st = None \<and> deferredPollCount st = 0) \<or>
     (\<exists>s p. D = {s} \<and> deferredPoll st = Some p \<and> deferredPollCount st = 1 \<and> pollHeap st p = Some [Some s])"

lemma deferred_exists: "deferredIs D st \<Longrightarrow> pollDeferredSocketExists s st = Inr (s \<in> D)"
  by (auto simp: deferredIs_def pollDeferredSocketExists_def PollArrayContains_def pollLoad_def)

lemma deferred_remove: "deferredIs D st \<Longrightarrow> \<exists>st1. pollDeferredSocketRemove s st = Inr st1 \<and> deferredIs (D - {s}) st1"
  by (auto simp: deferredIs_def pollDeferredSocketRemove_def PollArrayDel_def pollLoad_def)

lemma deferred_add: "deferredIs {} st \<Longrightarrow> \<exists>st1. pollDeferredSocketAdd s st = Inr st1 \<and> deferredIs {s} st1"
  by (auto simp: deferredIs_def pollDeferredSocketAdd_def PollArrayAdd_def pollRealloc_def pollStore_def Let_def)

lemma dirLoop_socket: "dirLoop fs w dir es n written count c = Inr (a, b, d, c1) \<Longrightarrow> sbSocket (fst c1) = sbSocket (fst c)"
proof (induction es arbitrary: n written count c)
  case Nil
  then show ?case by (cases n) (auto simp: connFlush_socket directoryEnd_socket)
next
  case (Cons e es)
  then show ?case
    by (cases n) (auto simp: connFlush_socket httpBodyWriteChunk_socket elim!: bindrE split: splits_asm dest!: Cons.IH)
qed

lemma DirectoryRoutineContinue_socket:
  "DirectoryRoutineContinue fs r d net = Inr (n, r1, net1) \<Longrightarrow> sbSocket (rBuffer r1) = sbSocket (rBuffer r)"
  by (auto simp: DirectoryRoutineContinue_def elim!: bindrE dest!: dirLoop_socket)

lemma FileRoutineContinue_socket:
  "FileRoutineContinue r f net = Inr (n, r1, net1) \<Longrightarrow> sbSocket (rBuffer r1) = sbSocket (rBuffer r)"
  by (auto simp: FileRoutineContinue_def sendBufferWriteData_def Let_def split: splits_asm SendAnswer.split_asm)

text \<open>What a turn of a routine does to the set of deferred sockets.\<close>

lemma routineTurn_deferred:
  assumes "routineTurn fs r net D = Inr (t, net1, D1)"
  shows "case t of Gone _ \<Rightarrow> D1 = D - {sbSocket (rBuffer r)} \<and> \<not> isDeferred r
    | Stay r1 \<Rightarrow> D1 = D \<or> (D1 = insert (sbSocket (rBuffer r)) D \<and> isDeferred r1 \<and> \<not> isDeferred r)"
proof -
  note fileSock = FileRoutineContinue_socket [where r = r]
  note dirSock = DirectoryRoutineContinue_socket [where r = r]
  show ?thesis
    using assms
    by (auto simp: routineTurn_def deferTurn_def flushTurn_def endTurn_def fileTurn_def isDeferred_def Let_def
        elim!: bindrE split: splits_asm RoutineType.split_asm dest!: fileSock dirSock)
qed

lemma routineTurn_waiting:
  "isDeferred r \<Longrightarrow> sbSocket (rBuffer r) \<in> D \<Longrightarrow> routineTurn fs r net D = Inr (Stay r, net, D)"
  by (simp add: routineTurn_def isDeferred_def deferTurn_def Let_def)

lemma sendBufferFlush_same: "sendBufferFlush self net = (n, sb, net1) \<Longrightarrow> sbSocket sb = sbSocket self"
  using connFlush_socket [of "(self, net)"] by (simp add: connFlush_def)

lemma routineTurn_socket:
  assumes "routineTurn fs r net D = Inr (Stay r1, net1, D1)"
  shows "sbSocket (rBuffer r1) = sbSocket (rBuffer r)"
proof -
  note fileSock = FileRoutineContinue_socket [where r = r]
  note dirSock = DirectoryRoutineContinue_socket [where r = r]
  note flushSock = sendBufferFlush_same [where self = "rBuffer r"]
  show ?thesis
    using assms
    by (auto simp: routineTurn_def deferTurn_def flushTurn_def endTurn_def fileTurn_def Let_def
        elim!: bindrE split: splits_asm RoutineType.split_asm dest!: fileSock dirSock flushSock)
qed

text \<open>The deferred sockets of a server with the routine \<open>r\<close> alone.\<close>

definition fitsOne :: "Routine \<Rightarrow> nat set \<Rightarrow> bool" where
  "fitsOne r D \<longleftrightarrow> D \<subseteq> {sbSocket (rBuffer r)} \<and> (isDeferred r \<or> D = {})"

lemma poll_turn_refines:
  assumes "deferredIs D st" "fitsOne r D" "routineTurn fs r net D = Inr (t, net1, D1)"
  shows "\<exists>st1. pollTurn fs r net st = Inr (t, net1, st1) \<and> deferredIs D1 st1 \<and>
    (case t of Gone _ \<Rightarrow> D1 = {} | Stay r1 \<Rightarrow> fitsOne r1 D1)"
proof -
  let ?s = "sbSocket (rBuffer r)"
  have waits: "(if isDeferred r then pollDeferredSocketExists ?s st else Inr False) = Inr (?s \<in> D)"
    using assms(2) deferred_exists [OF assms(1)] by (auto simp: fitsOne_def)
  have D: "(if ?s \<in> D then {?s} else {}) = D" using assms(2) by (auto simp: fitsOne_def)
  note turn = routineTurn_deferred [OF assms(3)]
  show ?thesis
  proof (cases t)
    case (Gone g)
    have none: "D - {?s} = {}" using assms(2) by (auto simp: fitsOne_def)
    with turn Gone have D1: "D1 = {}" by simp
    obtain st1 where st1: "pollDeferredSocketRemove ?s st = Inr st1" "deferredIs {} st1"
      using deferred_remove [OF assms(1), of ?s] none by metis
    show ?thesis using Gone assms(3) D1 st1 by (simp add: pollTurn_def Let_def waits D)
  next
    case (Stay r1)
    have s: "sbSocket (rBuffer r1) = ?s" using routineTurn_socket assms(3) Stay by blast
    show ?thesis
    proof (cases "?s \<in> D")
      case True
      then have "isDeferred r" using assms(2) by (auto simp: fitsOne_def)
      with routineTurn_waiting [OF this True] have "t = Stay r" "D1 = D" using assms(3) by auto
      moreover have "D = {?s}" using D True by simp
      ultimately show ?thesis using assms by (auto simp: pollTurn_def Let_def waits)
    next
      case False
      then have e: "D = {}" using assms(2) by (auto simp: fitsOne_def)
      with turn Stay consider "D1 = {}" | "D1 = {?s}" "isDeferred r1" by auto
      then show ?thesis
      proof cases
        case 1
        with assms Stay s e show ?thesis by (auto simp: pollTurn_def Let_def waits D fitsOne_def)
      next
        case 2
        with assms Stay s e deferred_add [of st ?s] show ?thesis by (auto simp: pollTurn_def Let_def waits D fitsOne_def)
      qed
    qed
  qed
qed


text \<open>A routine whose buffer is empty, in a server with nothing deferred.\<close>

definition pollServer :: Server where
  "pollServer = \<lparr>svRoutines = \<lparr>raSize = 1, raArray = [RoutineNew (sendBufferNew 4 0) ''/'']\<rparr>, svNet = (\<lambda>_. \<lparr>chAnswers = [], chWire = []\<rparr>),
     svDeferred = {}, svEvents = []\<rparr>"


text \<open>
  With two connections closing either of them reads and writes beside the arrays: the search for the second and
  the removal of the first take the elements from behind the variable that holds the pointer.
\<close>

theorem poll_close_of_two:
  assumes "serves (s1 # s2 # ss) st" "fd \<in> prReadable rd" "handleConnection env fd (prInput rd fd) sv = Inr (Suc n, sv1)"
  shows "ProcessServePoll env rd fd st sv = Inl OutOfBounds"
  using assms
  by (auto simp: ProcessServePoll_def serves_def PollArrayDel_def pollLoad_def split: option.split_asm)

end
