(* ===== verification/Connections.thy ===== *)
theory Connections
  imports Poll_Loop
begin

text \<open>
  The connections of the server over its whole run: which sockets are open, which have a routine, and in which
  order the call backs of \<open>src/server/event.c\<close> are called by \<open>handleConnection\<close>, the routines and the select loop.
\<close>

section \<open>The order of the events\<close>

text \<open>
  The open sockets after events, the latest first: a socket is accepted when it is not open, and answered and closed
  when it is. \<open>None\<close> for events in another order.
\<close>

fun openAfter :: "nat list \<Rightarrow> Event list \<Rightarrow> nat list option" where
  "openAfter ss [] = Some ss"
| "openAfter ss (SocketAccept s # es) = (if s \<in> set ss then None else openAfter (s # ss) es)"
| "openAfter ss (SocketClose s # es) = (if s \<in> set ss then openAfter (remove1 s ss) es else None)"
| "openAfter ss (HttpRespond s _ _ _ # es) = (if s \<in> set ss then openAfter ss es else None)"
| "openAfter ss (HttpFinish s _ _ _ # es) = (if s \<in> set ss then openAfter ss es else None)"

definition eventSocket :: "Event \<Rightarrow> nat" where
  "eventSocket e = (case e of HttpRespond s _ _ _ \<Rightarrow> s | HttpFinish s _ _ _ \<Rightarrow> s | SocketAccept s \<Rightarrow> s | SocketClose s \<Rightarrow> s)"

lemma openAfter_append: "openAfter ss (es @ fs) = Option.bind (openAfter ss es) (\<lambda>ss1. openAfter ss1 fs)"
  by (induction ss es rule: openAfter.induct) auto

lemma openAfter_distinct: "openAfter ss es = Some ss1 \<Longrightarrow> distinct ss \<Longrightarrow> distinct ss1"
  by (induction ss es rule: openAfter.induct) (auto split: if_split_asm)

definition answers :: "nat \<Rightarrow> Event list \<Rightarrow> bool" where
  "answers s es \<longleftrightarrow> (\<forall>e\<in>set es. \<exists>path type response. e = HttpRespond s path type response \<or> e = HttpFinish s path type response)"

lemma openAfter_answers: "answers s es \<Longrightarrow> s \<in> set ss \<Longrightarrow> openAfter ss es = Some ss"
  by (induction es) (auto simp: answers_def)

lemma answers_simps [simp]:
  "answers s []" "answers s (eventHttpRespondInvoke s path type response)" "answers s (eventHttpFinishInvoke s path type response)"
  by (simp_all add: answers_def eventHttpRespondInvoke_def eventHttpFinishInvoke_def)

section \<open>What a request does\<close>

definition keeps :: "(Conn \<Rightarrow> Conn res) \<Rightarrow> bool" where
  "keeps f \<longleftrightarrow> (\<forall>c c1. f c = Inr c1 \<longrightarrow> sbSocket (fst c1) = sbSocket (fst c))"

lemma keeps_connWrite: "keeps (connWrite d)"
  by (auto simp: keeps_def connWrite_def connText_socket)

lemma keeps_connPrintf: "keeps (connPrintf n d)"
proof -
  have w: "sbSocket sb = sbSocket a" if "sendBufferWriteText a b d = (k, sb, net)" for a b k sb net
    using connText_socket [of d "(a, b)"] that by (simp add: connText_def)
  show ?thesis
    by (auto simp: keeps_def connPrintf_def sendBufferPrintf_def elim!: bindrE split: splits_asm dest!: w)
qed

lemma keeps_connSeq: "\<forall>f\<in>set fs. keeps f \<Longrightarrow> keeps (connSeq fs)"
proof (induction fs)
  case (Cons f fs)
  then show ?case
    by (fastforce simp: keeps_def elim!: bindrE)
qed (simp add: keeps_def)

lemma keeps_bindr: "(\<And>x. m = Inr x \<Longrightarrow> keeps (f x)) \<Longrightarrow> keeps (\<lambda>c. bindr m (\<lambda>x. f x c))"
  by (cases m) (auto simp: keeps_def)

lemma keeps_headers [simp]:
  "keeps (httpHeaderWriteResponse n)" "keeps (httpHeaderWriteResponseStr d)" "keeps (headerNoReuse b)" "keeps (httpHeaderWriteDate d)"
  "keeps (httpHeaderWriteFileName d)" "keeps (httpHeaderWriteLastModified st)" "keeps httpHeaderWriteAcceptRanges"
  "keeps (httpHeaderWriteContentLengthSt st)" "keeps (httpHeaderWriteContentLength k)" "keeps (httpHeaderWriteRange i j k)"
  "keeps httpHeaderWriteEnd" "keeps httpHeaderWriteChunkedEncoding" "keeps (httpHeaderWriteContentType d d1)"
  using keeps_connPrintf keeps_connWrite
  by (auto simp: httpHeaderWriteResponse_def httpHeaderWriteResponseStr_def headerNoReuse_def httpHeaderWriteConnectionClose_def
      httpHeaderWriteDate_def httpHeaderWriteFileName_def httpHeaderWriteAcceptRanges_def httpHeaderWriteContentLengthSt_def
      httpHeaderWriteContentLength_def httpHeaderWriteRange_def httpHeaderWriteEnd_def httpHeaderWriteChunkedEncoding_def Let_def
      httpHeaderWriteLastModified_def [abs_def] httpHeaderWriteContentType_def [abs_def] keeps_def split: option.splits if_splits)

lemma connSeq_socket: "connSeq fs (sendBufferNew s 0, net) = Inr (sb, net1) \<Longrightarrow> \<forall>f\<in>set fs. keeps f \<Longrightarrow> sbSocket sb = s"
  using keeps_connSeq [of fs] unfolding keeps_def [of "connSeq fs"] by (fastforce simp: sendBufferNew_def)

text \<open>A request adds answers on its socket to the events, and at most one routine, for its socket.\<close>

definition onlyAnswers :: "nat \<Rightarrow> Server \<Rightarrow> Server \<Rightarrow> bool" where
  "onlyAnswers s sv sv1 \<longleftrightarrow>
     (\<exists>es. svEvents sv1 = svEvents sv @ es \<and> answers s es) \<and>
     (svRoutines sv1 = svRoutines sv \<or>
      (\<exists>r. sbSocket (rBuffer r) = s \<and>
           svRoutines sv1 = \<lparr>raSize = raSize (svRoutines sv) + 1, raArray = raArray (svRoutines sv) @ [r]\<rparr>))"

lemma onlyAnswers_same [simp]: "onlyAnswers s sv sv"
  by (auto simp: onlyAnswers_def intro: exI [of _ "[]"])

lemma onlyAnswers_net: "answers s es \<Longrightarrow> onlyAnswers s sv (svSetNet net es sv)"
  by (auto simp: onlyAnswers_def svSetNet_def)

lemma onlyAnswers_routine:
  "envAlloc env \<Longrightarrow> answers s es \<Longrightarrow> sbSocket (rBuffer r) = s \<Longrightarrow> onlyAnswers s sv (svAddRoutine env r (svSetNet net es sv))"
  by (auto simp: onlyAnswers_def svSetNet_def svAddRoutine_def RoutineArrayAdd_def Let_def)

lemma handleError_answers: "handleError env s web type err sv = Inr (b, sv1) \<Longrightarrow> onlyAnswers s sv sv1"
  by (auto simp: handleError_def intro: onlyAnswers_net elim!: bindrE)

lemma dirBody_socket: "dirBody web c = Inr (b, c1) \<Longrightarrow> sbSocket (fst c1) = sbSocket (fst c)"
  by (auto simp: dirBody_def chunkOf_def httpBodyWriteChunk_socket connFlush_socket elim!: bindrE split: splits_asm
      dest!: arg_cong [of _ _ "\<lambda>x. sbSocket (fst (snd x))"])

lemma handleDir_answers: "handleDir env s web path type st sv = Inr (b, sv1) \<Longrightarrow> envAlloc env \<Longrightarrow> onlyAnswers s sv sv1"
proof -
  assume h: "handleDir env s web path type st sv = Inr (b, sv1)" and alloc: "envAlloc env"
  have dir: "sbSocket (fst c) = s" if "dirHeaders env st (sendBufferNew s 0, svNet sv) = Inr c" for c
    using connSeq_socket [of _ s "svNet sv" "fst c" "snd c"] that unfolding dirHeaders_def by (simp del: connSeq.simps)
  have flush: "sbSocket (fst c1) = sbSocket (fst c)" if "connFlush c = (n, c1)" for c n c1
    using connFlush_socket [of c] that by simp
  show ?thesis
  proof (cases "platformDirOpen env path")
    case None
    with h show ?thesis
      by (auto simp: handleDir_def intro: handleError_answers)
  next
    case (Some d)
    with h obtain c where c: "dirHeaders env st (sendBufferNew s 0, svNet sv) = Inr c" and
      r: "(let ev = eventHttpRespondInvoke s web type 200; (n, c1) = (if type = httpHead then connFlush c else (1, c))
           in if n = 0 then Inr (True, svSetNet (snd c1) ev sv)
              else bindr (dirBody web c1)
                (\<lambda>(abort, sb, net). Inr (abort, if abort then svSetNet net ev sv
                   else svAddRoutine env (DirectoryRoutineNew sb d web) (svSetNet net ev sv)))) = Inr (b, sv1)"
      by (auto simp: handleDir_def elim!: bindrE)
    obtain n c1 where n: "(if type = httpHead then connFlush c else (1, c)) = (n, c1)"
      by (cases "if type = httpHead then connFlush c else (1, c)") blast
    have s: "sbSocket (fst c1) = s"
      using dir [OF c] flush n by (auto split: if_split_asm)
    show ?thesis
    proof (cases "n = 0")
      case True
      with r n show ?thesis
        by (auto simp: Let_def intro: onlyAnswers_net)
    next
      case False
      with r n obtain abort sb net where "dirBody web c1 = Inr (abort, sb, net)"
        "sv1 = (if abort then svSetNet net (eventHttpRespondInvoke s web type 200) sv
                else svAddRoutine env (DirectoryRoutineNew sb d web) (svSetNet net (eventHttpRespondInvoke s web type 200) sv))"
        by (auto simp: Let_def elim!: bindrE)
      with dirBody_socket [OF this(1)] s alloc show ?thesis
        by (auto simp: DirectoryRoutineNew_def intro!: onlyAnswers_net onlyAnswers_routine)
    qed
  qed
qed

lemma handleFile_answers:
  assumes "handleFile env s header web path type st sv = Inr (b, sv1)" "envAlloc env"
  shows "onlyAnswers s sv sv1"
proof -
  have f: "sbSocket sb = s" if "fileHeaders env web st e i j (sendBufferNew s 0, svNet sv) = Inr (sb, net)" for e i j sb net
    using connSeq_socket [OF that [unfolded fileHeaders_def]] by auto
  show ?thesis
    using assms
    by (auto simp: handleFile_def FileRoutineNew_def Let_def f intro!: onlyAnswers_net onlyAnswers_routine elim!: bindrE split: splits_asm)
qed

lemma notModified_answers:
  assumes "notModified env s web type sv = Inr (n, sv1)" "envAlloc env"
  shows "onlyAnswers s sv sv1"
proof -
  from assms(1) obtain sb net where
    "connSeq [httpHeaderWriteResponse 304, headerNoReuse (envNoReuse env), httpHeaderWriteDate (envNow env), httpHeaderWriteEnd]
       (sendBufferNew s 0, svNet sv) = Inr (sb, net)"
    "sv1 = svAddRoutine env (RoutineNew sb web) (svSetNet net (eventHttpRespondInvoke s web type 304) sv)"
    unfolding notModified_def by (elim bindrE) (auto simp del: connSeq.simps)
  moreover from connSeq_socket [OF this(1)] have "sbSocket sb = s"
    by simp
  ultimately show ?thesis
    using assms(2) by (simp add: RoutineNew_def onlyAnswers_routine del: connSeq.simps)
qed

lemma boolNat_Inr: "boolNat r = Inr (n, sv1) \<longleftrightarrow> (\<exists>b. r = Inr (b, sv1) \<and> n = (if b then 1 else 0))"
proof (cases r)
  case (Inr x)
  then show ?thesis
    by (cases x) (auto simp: boolNat_def)
qed (simp add: boolNat_def)

lemma handlePath_answers:
  assumes h: "handlePath env s header web sv = Inr (n, sv1)" and alloc: "envAlloc env"
  shows "onlyAnswers s sv sv1"
proof -
  let ?type = "httpClientReadType header"
  from h obtain rc path where
    r: "(case (case path of None \<Rightarrow> None | Some a \<Rightarrow> map_option (Pair a) (platformFileStat (envFiles env) a)) of
           None \<Rightarrow> boolNat (handleError env s web httpGet 404 sv)
         | Some (a, st) \<Rightarrow>
             bindr (httpHeaderReadIfModifiedSince header noTime)
               (\<lambda>(e, tm).
                  if \<not> e \<and> platformTimeStructCompare tm (st_mtime st) \<le> 0 then notModified env s web ?type sv
                  else if platformFileStatIsDirectory st then boolNat (handleDir env s web a ?type st sv)
                  else if platformFileStatIsFile st then boolNat (handleFile env s header web a ?type st sv)
                  else Inr (typeValue ?type, sv))) = Inr (n, sv1)"
    unfolding handlePath_def Let_def by (elim bindrE) (simp split: prod.split_asm)
  show ?thesis
  proof (cases "case path of None \<Rightarrow> None | Some a \<Rightarrow> map_option (Pair a) (platformFileStat (envFiles env) a)")
    case None
    with r show ?thesis
      by (auto simp: boolNat_Inr dest: handleError_answers)
  next
    case (Some p)
    obtain a st where p: "p = (a, st)"
      by (cases p)
    from r Some p consider "notModified env s web ?type sv = Inr (n, sv1)"
      | b where "handleDir env s web a ?type st sv = Inr (b, sv1)"
      | b where "handleFile env s header web a ?type st sv = Inr (b, sv1)"
      | "sv1 = sv"
      by (auto simp: boolNat_Inr res_simps split: if_split_asm)
    then show ?thesis
      using alloc by cases (simp_all add: handleDir_answers handleFile_answers notModified_answers)
  qed
qed

lemma handleConnection_answers:
  assumes h: "handleConnection env s input sv = Inr (n, sv1)" and alloc: "envAlloc env"
  shows "onlyAnswers s sv sv1"
proof (cases "recvLoop input 0 []")
  case EndClose
  with h show ?thesis
    by (simp add: handleConnection_def)
next
  case EndTooLong
  with h obtain net where "sv1 = svSetNet net (eventHttpRespondInvoke s [] httpUnknown 431) sv"
    by (simp add: handleConnection_def res_simps split_beta Let_def del: connSeq.simps) blast
  then show ?thesis
    by (simp add: onlyAnswers_net)
next
  case (EndMessage r m)
  let ?b = "takeWhile (\<lambda>c. c \<noteq> NUL) (butlast m)"
  from h EndMessage have "sv1 = sv \<or> (\<exists>p. handlePath env s ?b p sv = Inr (n, sv1))"
    by (auto simp: handleConnection_def res_simps Let_def split: option.split_asm if_split_asm)
  then show ?thesis
    using handlePath_answers [OF _ alloc] by auto
qed

section \<open>The open connections\<close>

definition connected :: "SelectState \<Rightarrow> nat set" where
  "connected st = serverReadSockets st - serverListenSockets st"

definition routineSockets :: "Server \<Rightarrow> nat list" where
  "routineSockets sv = map (\<lambda>r. sbSocket (rBuffer r)) (raArray (svRoutines sv))"

text \<open>The events have left the sockets \<open>C\<close> open; each has at most one routine, and only they have.\<close>

definition serverOk :: "nat set \<Rightarrow> Server \<Rightarrow> bool" where
  "serverOk C sv \<longleftrightarrow>
     (\<exists>ss. openAfter [] (svEvents sv) = Some ss \<and> set ss = C) \<and> distinct (routineSockets sv) \<and> set (routineSockets sv) \<subseteq> C \<and>
     raSize (svRoutines sv) = length (raArray (svRoutines sv))"

lemma routineTurn_gone:
  assumes "routineTurn fs r net D = Inr (Gone r1, net1, D1)"
  shows "sbSocket (rBuffer r1) = sbSocket (rBuffer r)"
proof -
  note fileSock = FileRoutineContinue_socket [where r = r]
  note dirSock = DirectoryRoutineContinue_socket [where r = r]
  note flushSock = sendBufferFlush_same [where self = "rBuffer r"]
  show ?thesis
    using assms
    by (auto simp: routineTurn_def deferTurn_def flushTurn_def endTurn_def fileTurn_def sendBufferFailFree_def Let_def
        elim!: bindrE split: splits_asm RoutineType.split_asm dest!: fileSock dirSock flushSock)
qed

lemma serverOk_answers:
  assumes "serverOk C sv" "s \<in> C" "answers s es" "svEvents sv1 = svEvents sv @ es"
    and "distinct (routineSockets sv1)" "set (routineSockets sv1) \<subseteq> C" "raSize (svRoutines sv1) = length (raArray (svRoutines sv1))"
  shows "serverOk C sv1"
  using assms by (auto simp: serverOk_def openAfter_append openAfter_answers)

lemma goneEvents_answers: "answers (sbSocket (rBuffer r)) (goneEvents r)"
  by (simp add: goneEvents_def)

lemma set_take_drop: "set (take i xs @ drop (Suc i) xs) \<subseteq> set xs"
  by (auto dest: in_set_takeD in_set_dropD)

lemma distinct_take_drop: "distinct xs \<Longrightarrow> distinct (take i xs @ drop (Suc i) xs)"
  using set_take_disj_set_drop_if_distinct [of xs i "Suc i"] by simp

lemma tickLoop_ok:
  assumes "tickLoop fs i sv = Inr sv1" "serverOk C sv"
  shows "serverOk C sv1 \<and> set (routineSockets sv1) \<subseteq> set (routineSockets sv)"
  using assms
proof (induction fs i sv rule: tickLoop.induct)
  case (1 fs i sv)
  let ?ra = "svRoutines sv"
  have len: "raSize ?ra = length (raArray ?ra)"
    using 1(4) by (simp add: serverOk_def)
  show ?case
  proof (cases "raSize ?ra \<le> i")
    case True
    with 1(3,4) show ?thesis
      by (simp add: tickLoop.simps [of fs i sv])
  next
    case False
    let ?r = "raArray ?ra ! i"
    have i: "i < length (raArray ?ra)" "\<not> length (raArray ?ra) \<le> i"
      using False len by auto
    then have in_C: "sbSocket (rBuffer ?r) \<in> C" "sbSocket (rBuffer ?r) \<in> set (routineSockets sv)"
      using 1(4) by (auto simp: serverOk_def routineSockets_def)
    from 1(3) False i(2) obtain t net D where t: "routineTurn fs ?r (svNet sv) (svDeferred sv) = Inr (t, net, D)"
      by (subst (asm) tickLoop.simps) (auto simp: Let_def split: sum.split_asm)
    show ?thesis
    proof (cases t)
      case (Stay r)
      let ?sv = "sv\<lparr>svRoutines := ?ra\<lparr>raArray := (raArray ?ra)[i := r]\<rparr>, svNet := net, svDeferred := D\<rparr>"
      have same: "routineSockets ?sv = routineSockets sv"
        using routineTurn_socket [of fs ?r "svNet sv" "svDeferred sv" r net D] t Stay i(1)
        by (simp add: routineSockets_def map_update list_update_same_conv)
      have ok: "serverOk C ?sv"
        using 1(4) same by (simp add: serverOk_def)
      have "tickLoop fs (i + 1) ?sv = Inr sv1"
        using 1(3) False i(2) t Stay by (subst (asm) tickLoop.simps) (simp add: Let_def)
      from 1(1) [OF refl False i(2) t refl Stay refl this ok] same show ?thesis
        by simp
    next
      case (Gone r)
      let ?sv = "sv\<lparr>svRoutines := RoutineArrayDelIdx ?ra i, svNet := net, svDeferred := D, svEvents := svEvents sv @ goneEvents r\<rparr>"
      have socks: "routineSockets ?sv = take i (routineSockets sv) @ drop (Suc i) (routineSockets sv)"
        by (simp add: routineSockets_def RoutineArrayDelIdx_def take_map drop_map)
      have "sbSocket (rBuffer r) = sbSocket (rBuffer ?r)"
        using routineTurn_gone t Gone by blast
      with goneEvents_answers [of r] have a: "answers (sbSocket (rBuffer ?r)) (goneEvents r)"
        by simp
      have d: "distinct (routineSockets ?sv)"
        unfolding socks using 1(4) by (intro distinct_take_drop) (simp add: serverOk_def)
      have sub: "set (routineSockets ?sv) \<subseteq> set (routineSockets sv)"
        unfolding socks by (rule set_take_drop)
      have ok: "serverOk C ?sv"
      proof (rule serverOk_answers [OF 1(4) in_C(1) a])
        show "raSize (svRoutines ?sv) = length (raArray (svRoutines ?sv))"
          using len i(1) by (simp add: RoutineArrayDelIdx_def)
      qed (use d sub 1(4) in \<open>auto simp: serverOk_def\<close>)
      have "tickLoop fs (i + 1) ?sv = Inr sv1"
        using 1(3) False i(2) t Gone by (subst (asm) tickLoop.simps) (simp add: Let_def)
      from 1(2) [OF refl False i(2) t refl Gone refl this ok] sub show ?thesis
        by auto
    qed
  qed
qed

lemma findSocket_remove1:
  "case findSocket s i rs of
     None \<Rightarrow> s \<notin> set (map (\<lambda>r. sbSocket (rBuffer r)) rs)
   | Some j \<Rightarrow> i \<le> j \<and> j - i < length rs \<and>
       map (\<lambda>r. sbSocket (rBuffer r)) (take (j - i) rs @ drop (Suc (j - i)) rs) = remove1 s (map (\<lambda>r. sbSocket (rBuffer r)) rs)"
proof (induction s i rs rule: findSocket.induct)
  case (2 s i r rs)
  then show ?case
    by (auto simp: Suc_diff_le le_Suc_eq split: option.split_asm option.split) (simp_all add: take_Cons' Suc_diff_Suc Suc_le_eq)
qed simp

lemma RoutineArrayDelSocket_sockets:
  assumes "serverOk C sv"
  shows "routineSockets (sv\<lparr>svEvents := es, svRoutines := RoutineArrayDelSocket (svRoutines sv) s\<rparr>) = remove1 s (routineSockets sv) \<and>
    raSize (RoutineArrayDelSocket (svRoutines sv) s) = length (raArray (RoutineArrayDelSocket (svRoutines sv) s))"
  using findSocket_remove1 [where s = s and i = 0 and rs = "raArray (svRoutines sv)"] assms
  by (auto simp: RoutineArrayDelSocket_def RoutineArrayDelIdx_def routineSockets_def serverOk_def remove1_idem split: option.split_asm option.split)

section \<open>A pass and a run\<close>

text \<open>
  What the sockets still to be visited do: a connection that is readable is open and waits for its answer before
  it asks again, and a new connection gets a descriptor that is not in use.
\<close>

definition passOk :: "nat \<Rightarrow> Ready \<Rightarrow> SelectState \<Rightarrow> Server \<Rightarrow> bool" where
  "passOk i rd st sv \<longleftrightarrow>
     (\<forall>j\<ge>i. j \<in> rdReadable rd \<longrightarrow> j \<notin> serverListenSockets st \<longrightarrow> j \<in> serverReadSockets st \<and> j \<notin> set (routineSockets sv)) \<and>
     (\<forall>l\<ge>i. l \<in> rdReadable rd \<longrightarrow> l \<in> serverListenSockets st \<longrightarrow> rdAccept rd l \<notin> serverReadSockets st) \<and>
     inj_on (rdAccept rd) {l. i \<le> l \<and> l \<in> rdReadable rd \<and> l \<in> serverListenSockets st}"

definition connectionsOk :: "SelectState \<Rightarrow> Server \<Rightarrow> bool" where
  "connectionsOk st sv \<longleftrightarrow> serverListenSockets st \<subseteq> serverReadSockets st \<and> serverOk (connected st) sv"

lemma passOk_next:
  assumes "passOk i rd st sv" "serverListenSockets st1 = serverListenSockets st"
    "serverReadSockets st - {i} \<subseteq> serverReadSockets st1" "serverReadSockets st1 \<subseteq> serverReadSockets st"
    "set (routineSockets sv1) \<subseteq> insert i (set (routineSockets sv))"
  shows "passOk (i + 1) rd st1 sv1"
proof -
  have "inj_on (rdAccept rd) {l. i + 1 \<le> l \<and> l \<in> rdReadable rd \<and> l \<in> serverListenSockets st}"
    using assms(1) unfolding passOk_def by (elim conjE inj_on_subset) auto
  moreover have "j \<in> serverReadSockets st1 \<and> j \<notin> set (routineSockets sv1)"
    if "i + 1 \<le> j" "j \<in> rdReadable rd" "j \<notin> serverListenSockets st" for j
  proof -
    have "j \<in> serverReadSockets st \<and> j \<notin> set (routineSockets sv)" "j \<noteq> i"
      using assms(1) that by (auto simp: passOk_def)
    with assms(3,5) show ?thesis
      by auto
  qed
  ultimately show ?thesis
    using assms(1,4) unfolding passOk_def assms(2) by (simp add: subset_eq) (metis Suc_leD)
qed

lemma onlyAnswers_ok:
  assumes "serverOk C sv" "s \<in> C" "s \<notin> set (routineSockets sv)" "onlyAnswers s sv sv1"
  shows "serverOk C sv1 \<and> set (routineSockets sv1) \<subseteq> insert s (set (routineSockets sv))"
proof -
  obtain es where es: "svEvents sv1 = svEvents sv @ es" "answers s es"
    using assms(4) by (auto simp: onlyAnswers_def)
  have r: "distinct (routineSockets sv1)" "set (routineSockets sv1) \<subseteq> insert s (set (routineSockets sv))"
      "raSize (svRoutines sv1) = length (raArray (svRoutines sv1))"
    using assms by (auto simp: onlyAnswers_def routineSockets_def serverOk_def)
  with serverOk_answers [OF assms(1,2) es(2,1)] assms(1,2) show ?thesis
    by (auto simp: serverOk_def)
qed

lemma close_ok:
  assumes "serverOk C sv" "s \<in> C" "closeConnection s st sv = (st1, sv1)"
  shows "serverOk (C - {s}) sv1 \<and> set (routineSockets sv1) \<subseteq> set (routineSockets sv) - {s}"
proof -
  obtain ss where ss: "openAfter [] (svEvents sv) = Some ss" "set ss = C" and d: "distinct (routineSockets sv)"
    and sub: "set (routineSockets sv) \<subseteq> C"
    using assms(1) by (auto simp: serverOk_def)
  have sv1: "sv1 = sv\<lparr>svEvents := svEvents sv @ [SocketClose s], svRoutines := RoutineArrayDelSocket (svRoutines sv) s\<rparr>"
    using assms(3) by (simp add: closeConnection_def eventSocketCloseInvoke_def)
  note del = RoutineArrayDelSocket_sockets [OF assms(1), where es = "svEvents sv @ [SocketClose s]" and s = s, folded sv1]
  have "openAfter [] (svEvents sv1) = Some (remove1 s ss)"
    using ss assms(2) by (simp add: sv1 openAfter_append)
  moreover have "set (remove1 s ss) = C - {s}"
    using openAfter_distinct [OF ss(1)] ss(2) by simp
  ultimately show ?thesis
    using del d sub by (auto simp: serverOk_def sv1)
qed

lemma readSocket_ok:
  assumes "readSocket env rd i st sv = Inr (st1, sv1)" "connectionsOk st sv" "passOk i rd st sv" "i \<in> rdReadable rd" "envAlloc env"
  shows "connectionsOk st1 sv1 \<and> passOk (i + 1) rd st1 sv1"
proof (cases "i \<in> serverListenSockets st")
  case True
  let ?c = "rdAccept rd i"
  have fresh: "?c \<notin> serverReadSockets st"
    using assms(3,4) True by (simp add: passOk_def)
  have st1: "st1 = st\<lparr>serverMaxSocket := max ?c (serverMaxSocket st), serverReadSockets := insert ?c (serverReadSockets st)\<rparr>"
    and sv1: "sv1 = sv\<lparr>svEvents := svEvents sv @ [SocketAccept ?c]\<rparr>"
    using assms(1) True by (auto simp: readSocket_def Let_def eventSocketAcceptInvoke_def)
  have c: "connected st1 = insert ?c (connected st)" "?c \<notin> connected st" "serverListenSockets st \<subseteq> serverReadSockets st1"
    using assms(2) fresh by (auto simp: connected_def st1 connectionsOk_def)
  have "connectionsOk st1 sv1"
    using assms(2) c by (auto simp: connectionsOk_def serverOk_def st1 sv1 openAfter_append routineSockets_def)
  moreover have "rdAccept rd l \<noteq> ?c" if "i + 1 \<le> l" "l \<in> rdReadable rd" "l \<in> serverListenSockets st" for l
  proof -
    have "inj_on (rdAccept rd) {l. i \<le> l \<and> l \<in> rdReadable rd \<and> l \<in> serverListenSockets st}"
      using assms(3) by (simp add: passOk_def)
    from inj_onD [OF this, of l i] that True assms(4) show ?thesis
      by auto
  qed
  ultimately show ?thesis
    using assms(3) by (auto simp: passOk_def st1 sv1 routineSockets_def inj_on_def)
next
  case False
  with assms(1) obtain r sv2 where h: "handleConnection env i (rdInput rd i) sv = Inr (r, sv2)"
    and e: "(st1, sv1) = (if r \<noteq> 0 then closeConnection i st sv2 else (st, sv2))"
    by (auto simp: readSocket_def elim!: bindrE)
  have i: "i \<in> connected st" "i \<notin> set (routineSockets sv)"
    using False assms(3,4) by (auto simp: passOk_def connected_def)
  have ok: "serverOk (connected st) sv" "serverListenSockets st \<subseteq> serverReadSockets st"
    using assms(2) by (simp_all add: connectionsOk_def)
  from onlyAnswers_ok [OF ok(1) i handleConnection_answers [OF h assms(5)]]
  have sv2: "serverOk (connected st) sv2" "set (routineSockets sv2) \<subseteq> insert i (set (routineSockets sv))"
    by auto
  show ?thesis
  proof (cases "r = 0")
    case True
    with e have st1: "st1 = st" "sv1 = sv2"
      by simp_all
    have "passOk (i + 1) rd st1 sv1"
      by (rule passOk_next [OF assms(3)]) (use sv2(2) st1 in auto)
    with sv2(1) ok(2) st1 show ?thesis
      by (simp add: connectionsOk_def)
  next
    case close: False
    with e have c: "closeConnection i st sv2 = (st1, sv1)"
      by simp
    have st1: "serverReadSockets st1 = serverReadSockets st - {i}" "serverListenSockets st1 = serverListenSockets st"
      using c by (auto simp: closeConnection_def)
    have con: "connected st1 = connected st - {i}"
      by (auto simp: connected_def st1)
    from close_ok [OF sv2(1) i(1) c] have sv1: "serverOk (connected st1) sv1" "set (routineSockets sv1) \<subseteq> set (routineSockets sv) - {i}"
      using sv2(2) con by auto
    have "serverListenSockets st1 \<subseteq> serverReadSockets st1"
      using ok(2) False st1 by auto
    with sv1 have "connectionsOk st1 sv1"
      by (simp add: connectionsOk_def)
    moreover have "passOk (i + 1) rd st1 sv1"
      by (rule passOk_next [OF assms(3)]) (use sv1(2) st1 in auto)
    ultimately show ?thesis ..
  qed
qed

lemma selectLoop_ok:
  assumes "selectLoop fuel env rd i st sv = Some (Inr (st1, sv1))" "connectionsOk st sv" "passOk i rd st sv" "envAlloc env"
  shows "connectionsOk st1 sv1"
  using assms(1-3)
proof (induction fuel arbitrary: i st sv)
  case (Suc fuel)
  show ?case
  proof (cases "serverMaxSocket st < i")
    case True
    with Suc.prems show ?thesis
      by simp
  next
    case False
    with Suc.prems(1) obtain st2 sv2 where
      r: "(if i \<in> rdReadable rd then readSocket env rd i st sv else Inr (st, sv)) = Inr (st2, sv2)"
      and l: "selectLoop fuel env rd (i + 1)
                (if i \<in> rdWritable rd then st2\<lparr>serverWriteSockets := serverWriteSockets st2 - {i}\<rparr> else st2) sv2 = Some (Inr (st1, sv1))"
      by (auto split: sum.split_asm prod.split_asm)
    have "connectionsOk st2 sv2 \<and> passOk (i + 1) rd st2 sv2"
    proof (cases "i \<in> rdReadable rd")
      case True
      with r readSocket_ok [OF _ Suc.prems(2,3) True assms(4)] show ?thesis
        by simp
    next
      case False
      with r Suc.prems(2) passOk_next [OF Suc.prems(3)] show ?thesis
        by auto
    qed
    moreover have "connectionsOk (st2\<lparr>serverWriteSockets := W\<rparr>) sv2 = connectionsOk st2 sv2"
      "passOk (i + 1) rd (st2\<lparr>serverWriteSockets := W\<rparr>) sv2 = passOk (i + 1) rd st2 sv2" for W
      by (simp_all add: connectionsOk_def passOk_def connected_def)
    ultimately show ?thesis
      by (intro Suc.IH [OF l]) auto
  qed
qed simp

lemma serverTick_ok:
  assumes "serverTick fuel env rd st sv = Some (Inr (st1, sv1))" "connectionsOk st sv" "passOk 0 rd st sv" "envAlloc env"
  shows "connectionsOk st1 sv1"
proof (cases "raSize (svRoutines sv) = 0")
  case True
  with assms selectLoop_ok show ?thesis
    by (simp add: serverTick_def)
next
  case False
  with assms(1) obtain sv2 where t: "RoutineTick (envFiles env) (withDeferred st sv) = Inr sv2"
    and l: "selectLoop fuel env rd 0 (st\<lparr>serverWriteSockets := svDeferred sv2\<rparr>) sv2 = Some (Inr (st1, sv1))"
    by (auto simp: serverTick_def split: sum.split_asm)
  have "serverOk (connected st) (withDeferred st sv)" "routineSockets (withDeferred st sv) = routineSockets sv"
    using assms(2) by (simp_all add: connectionsOk_def withDeferred_def serverOk_def routineSockets_def)
  with tickLoop_ok [OF t [unfolded RoutineTick_def]] have "serverOk (connected st) sv2" "set (routineSockets sv2) \<subseteq> set (routineSockets sv)"
    by auto
  then have "connectionsOk (st\<lparr>serverWriteSockets := svDeferred sv2\<rparr>) sv2" "passOk 0 rd (st\<lparr>serverWriteSockets := svDeferred sv2\<rparr>) sv2"
    using assms(2,3) by (auto simp: connectionsOk_def passOk_def connected_def)
  from selectLoop_ok [OF l this assms(4)] show ?thesis .
qed

text \<open>The states of a server that was started with the sockets \<open>sockets\<close>, after any number of turns.\<close>

inductive serverRun :: "Env \<Rightarrow> nat list \<Rightarrow> SelectState \<Rightarrow> Server \<Rightarrow> bool" for env sockets where
  start: "svRoutines sv = \<lparr>raSize = 0, raArray = []\<rparr> \<Longrightarrow> svEvents sv = [] \<Longrightarrow> serverRun env sockets (serverSetup sockets selectInit) sv"
| tick: "serverRun env sockets st sv \<Longrightarrow> passOk 0 rd st sv \<Longrightarrow> serverTick fuel env rd st sv = Some (Inr (st1, sv1)) \<Longrightarrow>
         serverRun env sockets st1 sv1"
| network: "serverRun env sockets st sv \<Longrightarrow> serverRun env sockets st (sv\<lparr>svNet := net1\<rparr>)"

lemma serverRun_ok:
  assumes "serverRun env sockets st sv" "envAlloc env"
  shows "connectionsOk st sv"
  using assms
proof (induction rule: serverRun.induct)
  case (start sv)
  then show ?case
    by (simp add: connectionsOk_def serverOk_def connected_def routineSockets_def serverSetup_def selectInit_def fdSetToSocketArray_def)
next
  case (tick st sv rd fuel st1 sv1)
  then show ?case
    by (blast intro: serverTick_ok)
next
  case (network st sv net1)
  then show ?case
    by (simp add: connectionsOk_def serverOk_def routineSockets_def)
qed


text \<open>A connection is accepted.\<close>

definition acceptReady :: Ready where
  "acceptReady = \<lparr>rdReadable = {3}, rdWritable = {}, rdAccept = (\<lambda>_. 4), rdInput = (\<lambda>_. [])\<rparr>"

lemma accept_tick:
  "serverTick 9 exampleEnv acceptReady (serverSetup [1, 3] selectInit) (plainServer []) =
     Some (Inr (\<lparr>serverListenSockets = {3}, serverReadSockets = {3, 4}, serverWriteSockets = {}, serverMaxSocket = 4\<rparr>,
                (plainServer [])\<lparr>svEvents := [SocketAccept 4]\<rparr>))"
  by (auto simp: serverTick_def plainServer_def serverSetup_def selectInit_def fdSetToSocketArray_def acceptReady_def readSocket_def
      eventSocketAcceptInvoke_def Let_def eval_nat_numeral)

definition acceptState :: SelectState where
  "acceptState = \<lparr>serverListenSockets = {3}, serverReadSockets = {3, 4}, serverWriteSockets = {}, serverMaxSocket = 4\<rparr>"

lemma accept_run: "serverRun exampleEnv [1, 3] acceptState ((plainServer [])\<lparr>svEvents := [SocketAccept 4]\<rparr>)"
proof -
  have run: "serverRun exampleEnv [1, 3] (serverSetup [1, 3] selectInit) (plainServer [])"
    by (rule serverRun.start) (simp_all add: plainServer_def)
  have "passOk 0 acceptReady (serverSetup [1, 3] selectInit) (plainServer [])"
    by (simp add: passOk_def acceptReady_def serverSetup_def selectInit_def fdSetToSocketArray_def inj_on_def)
  from serverRun.tick [OF run this accept_tick] show ?thesis
    by (simp add: acceptState_def)
qed


text \<open>
  Why a connection must wait for its answer: of two routines for one socket only the first goes with the
  connection, and the other one ends after the socket was closed.
\<close>

theorem second_routine_stays:
  assumes "sbSocket (rBuffer a) = s" "sbSocket (rBuffer b) = s" "raArray (svRoutines sv) = [a, b]"
    and "closeConnection s st sv = (st1, sv1)" "rState b AND TYPE_ROUTINE = 0"
  shows "raArray (svRoutines sv1) = [b]" "openAfter [s] (SocketClose s # goneEvents b) = None"
  using assms
  by (auto simp: closeConnection_def RoutineArrayDelSocket_def RoutineArrayDelIdx_def goneEvents_def eventHttpFinishInvoke_def)

end
