(* ===== verification/Window.thy ===== *)
theory Window
  imports Th_Cli Winsock Connections
begin

text \<open>
  The windows of the server in \<open>src/gui/win32\<close>: the list of connections with its counters, which the call backs
  of the server keep (\<open>wrunserv.c\<close>), the tree of adapters, and how the dialog of \<open>wnewserv.c\<close> starts the server.
  The list is a control of the system; its messages are a parameter. The layout of the windows is left out.
\<close>

section \<open>The list of connections\<close>

definition MAX_PATH :: nat where "MAX_PATH = 260"

text \<open>
  The messages to the list: the number of its rows, the text of a row in a column, inserting a row with a text in
  the first column (where, or \<open>None\<close> for failure), setting a text and deleting a row.
\<close>

record 'l ListView =
  lvCount :: "'l \<Rightarrow> nat"
  lvText :: "'l \<Rightarrow> nat \<Rightarrow> nat \<Rightarrow> string option"
  lvInsert :: "'l \<Rightarrow> nat \<Rightarrow> string \<Rightarrow> (nat \<times> 'l) option"
  lvSet :: "'l \<Rightarrow> nat \<Rightarrow> nat \<Rightarrow> string \<Rightarrow> 'l"
  lvDelete :: "'l \<Rightarrow> nat \<Rightarrow> 'l"

record 'l Stats =
  wnList :: 'l
  nActiveConnections :: "32 word"
  nActiveTransfers :: "32 word"
  lblConnections :: string
  lblTransfers :: string
  wnMessages :: "string list"

definition updateConnectionsLabel :: "'l Stats \<Rightarrow> 'l Stats" where
  "updateConnectionsLabel w = w\<lparr>lblConnections := ''Active Connections: '' @ show_nat (unat (nActiveConnections w))\<rparr>"

definition updateTransferLabel :: "'l Stats \<Rightarrow> 'l Stats" where
  "updateTransferLabel w = w\<lparr>lblTransfers := ''Active Transfers: '' @ show_nat (unat (nActiveTransfers w))\<rparr>"

definition shortText :: "string \<Rightarrow> string" where
  "shortText s = take (MAX_PATH - 1) s"

function rowLoop :: "'l ListView \<Rightarrow> 'l \<Rightarrow> string \<Rightarrow> nat \<Rightarrow> nat option" where
  "rowLoop lv l address i =
     (if lvCount lv l \<le> i then None
      else if map_option shortText (lvText lv l i 1) = Some address then Some i
      else rowLoop lv l address (i + 1))"
  by pat_completeness auto
termination by (relation "measure (\<lambda>(lv, l, address, i). lvCount lv l - i)") auto

declare rowLoop.simps [simp del]

definition GetRowByAddress :: "'l ListView \<Rightarrow> 'l \<Rightarrow> string \<Rightarrow> nat option" where
  "GetRowByAddress lv l address = rowLoop lv l (take MAX_PATH address) 0"

text \<open>A row that could not be inserted is set as row \<open>-1\<close>, which the control ignores.\<close>

definition updateRow :: "'l ListView \<Rightarrow> string \<Rightarrow> string \<Rightarrow> string \<Rightarrow> 'l Stats \<Rightarrow> 'l Stats" where
  "updateRow lv address state path w =
     (case GetRowByAddress lv (wnList w) address of
        None \<Rightarrow>
          (case lvInsert lv (wnList w) 0 (shortText state) of
             None \<Rightarrow> w\<lparr>wnMessages := wnMessages w @ [''Error inserting text'']\<rparr>
           | Some (i, l) \<Rightarrow> w\<lparr>wnList := lvSet lv (lvSet lv l i 1 (shortText address)) i 2 (shortText path)\<rparr>)
      | Some i \<Rightarrow> w\<lparr>wnList := lvSet lv (lvSet lv (wnList w) i 0 (shortText state)) i 2 (shortText path)\<rparr>)"

text \<open>The state of a row, at most 11 characters of it, that counts as a transfer when the row goes.\<close>

definition isTransfer :: "string \<Rightarrow> bool" where
  "isTransfer str \<longleftrightarrow> toupperC (chC str 0) = CHR ''G'' \<and> 4 \<le> length str \<and> str ! 3 \<in> {CHR ''0'', CHR ''6'', CHR ''8''}"

definition removeRow :: "'l ListView \<Rightarrow> string \<Rightarrow> 'l Stats \<Rightarrow> 'l Stats" where
  "removeRow lv address w =
     (case GetRowByAddress lv (wnList w) address of
        None \<Rightarrow> w\<lparr>wnMessages := wnMessages w @ [''Attempted to remove a address that didn't exist'']\<rparr>
      | Some row \<Rightarrow>
          let w1 = (case lvText lv (wnList w) row 0 of
                      Some t \<Rightarrow>
                        if isTransfer (take 11 t) then updateTransferLabel (w\<lparr>nActiveTransfers := nActiveTransfers w - 1\<rparr>)
                        else w
                    | None \<Rightarrow> w)
          in w1\<lparr>wnList := lvDelete lv (wnList w1) row\<rparr>)"

text \<open>
  \<open>getpeername\<close> gives the address and port at the other end; when it fails, what is on the stack is read.
\<close>

type_synonym WinPeers = "nat \<Rightarrow> (SockAddr \<times> nat) option"

definition platformGetPort_win :: "SockAddr \<Rightarrow> nat \<Rightarrow> nat" where
  "platformGetPort_win addr sin_port = (case addr of SockOther \<Rightarrow> 0 | _ \<Rightarrow> sin_port)"

definition peerText :: "SockAddr \<times> nat \<Rightarrow> string" where
  "peerText p = fst (platformGetIpString_win (fst p)) @ '':'' @ show_nat (platformGetPort_win (fst p) (snd p))"

definition peerAddress :: "WinPeers \<Rightarrow> nat \<Rightarrow> string res" where
  "peerAddress peers sock = (case peers sock of None \<Rightarrow> Inl Uninitialised | Some p \<Rightarrow> Inr (peerText p))"

definition callbackCloseSocket :: "'l ListView \<Rightarrow> WinPeers \<Rightarrow> nat \<Rightarrow> 'l Stats \<Rightarrow> 'l Stats res" where
  "callbackCloseSocket lv peers sock w =
     bindr (peerAddress peers sock) (\<lambda>temp.
       let w1 = removeRow lv temp w in
       Inr (updateConnectionsLabel (w1\<lparr>nActiveConnections := nActiveConnections w1 - 1\<rparr>)))"

definition callbackNewSocket :: "'l ListView \<Rightarrow> WinPeers \<Rightarrow> nat \<Rightarrow> 'l Stats \<Rightarrow> 'l Stats res" where
  "callbackNewSocket lv peers sock w =
     bindr (peerAddress peers sock) (\<lambda>temp.
       let w1 = updateRow lv temp ''TSYN'' [] w in
       Inr (updateConnectionsLabel (w1\<lparr>nActiveConnections := nActiveConnections w1 + 1\<rparr>)))"

definition callbackHttpEnd :: "'l ListView \<Rightarrow> WinPeers \<Rightarrow> nat \<Rightarrow> string \<Rightarrow> 'l Stats \<Rightarrow> 'l Stats res" where
  "callbackHttpEnd lv peers sock path w =
     bindr (peerAddress peers sock) (\<lambda>temp.
       let w1 = updateRow lv temp ''TSYN'' path w in
       Inr (updateTransferLabel (w1\<lparr>nActiveTransfers := nActiveTransfers w1 - 1\<rparr>)))"

definition callbackHttpStart ::
    "'l ListView \<Rightarrow> WinPeers \<Rightarrow> nat \<Rightarrow> string \<Rightarrow> httpType \<Rightarrow> nat \<Rightarrow> 'l Stats \<Rightarrow> 'l Stats res" where
  "callbackHttpStart lv peers sock path type response w =
     bindr (peerAddress peers sock) (\<lambda>temp.
       let state = httpLetter type # showThree response;
           w1 = (if response \<in> {200, 206, 208} then updateTransferLabel (w\<lparr>nActiveTransfers := nActiveTransfers w + 1\<rparr>) else w)
       in Inr (updateRow lv temp state path w1))"

text \<open>The call backs that \<open>connectionsListCreate\<close> installs, over what the server does.\<close>

fun statsEvent :: "'l ListView \<Rightarrow> WinPeers \<Rightarrow> Event \<Rightarrow> 'l Stats \<Rightarrow> 'l Stats res" where
  "statsEvent lv peers (HttpRespond sock path type response) w = callbackHttpStart lv peers sock path type response w"
| "statsEvent lv peers (HttpFinish sock path type response) w = callbackHttpEnd lv peers sock path w"
| "statsEvent lv peers (SocketAccept sock) w = callbackNewSocket lv peers sock w"
| "statsEvent lv peers (SocketClose sock) w = callbackCloseSocket lv peers sock w"

fun statsEvents :: "'l ListView \<Rightarrow> WinPeers \<Rightarrow> Event list \<Rightarrow> 'l Stats \<Rightarrow> 'l Stats res" where
  "statsEvents lv peers [] w = Inr w"
| "statsEvents lv peers (e # es) w = bindr (statsEvent lv peers e w) (statsEvents lv peers es)"

section \<open>The tree of adapters\<close>

text \<open>What is inserted: an adapter, its addresses, and whether it is expanded.\<close>

definition setupTreeAdapterInformation ::
    "NetworkAdapter list option \<Rightarrow> string \<Rightarrow> nat \<Rightarrow> (string \<times> string list \<times> bool) list" where
  "setupTreeAdapterInformation adapters protocol port =
     (case adapters of
        None \<Rightarrow> [(''Unknown Adapter'', [''Unknown Address:'' @ show_nat port], False)]
      | Some ads \<Rightarrow>
          map (\<lambda>a. (adapterName a, map (adapterUri protocol port) (adapterAddresses a), length (adapterAddresses a) = 1)) ads)"

section \<open>Starting from the dialog\<close>

text \<open>What the dialog holds when its button is pressed, and what the system answers.\<close>

record Dialog =
  dgRootPath :: string
  dgEphemeral :: bool
  dgHttp :: bool
  dgPorts :: string

record WinBoot =
  wbInit :: "string option \<times> IpStack"
  wbAttributes :: "string \<Rightarrow> 32 word option"
  wbIpv6 :: bool
  wbSocket :: "sa_family \<Rightarrow> nat option"
  wbBinds :: "nat \<Rightarrow> bool"
  wbListens :: bool

definition dialogPorts :: "Dialog \<Rightarrow> string" where
  "dialogPorts d = (if dgEphemeral d then ''0'' else if dgHttp d then ''80,8080'' else shortText (dgPorts d))"

definition startServer :: "WinBoot \<Rightarrow> Dialog \<Rightarrow> (string + string \<times> nat list \<times> SelectState \<times> RoutineArray) res" where
  "startServer b d =
     (case wbInit b of
        (Some err, _) \<Rightarrow> Inr (Inl err)
      | (None, stack) \<Rightarrow>
          let str = shortText (dgRootPath d) in
          (case wbAttributes b str of
             None \<Rightarrow> Inr (Inl ''Root path specified is not a directory'')
           | Some word \<Rightarrow>
               if word AND FILE_ATTRIBUTE_DIRECTORY = 0 then Inr (Inl ''Root path specified is not a directory'')
               else
                 bindr (platformServerStartup_win stack (wbSocket b) (wbBinds b) (wbListens b)
                          (if wbIpv6 b then AF_UNSPEC else AF_INET) (dialogPorts d)) (\<lambda>r.
                   case r of
                     Inl err \<Rightarrow> Inr (Inl err)
                   | Inr sockets \<Rightarrow> Inr (Inr (str, sockets, serverSetup sockets selectInit, \<lparr>raSize = 0, raArray = []\<rparr>)))))"

text \<open>The first argument that names a directory.\<close>

fun getDirectoryPathArg :: "(string \<Rightarrow> bool) \<Rightarrow> string list \<Rightarrow> string option" where
  "getDirectoryPathArg isDir [] = None"
| "getDirectoryPathArg isDir (a # argv) = (if isDir a then Some a else getDirectoryPathArg isDir argv)"

section \<open>What the list shows\<close>

text \<open>A list that does what the control documents: \<open>rows\<close> are its rows, each with the texts of the columns.\<close>

definition listViewLaws :: "'l ListView \<Rightarrow> ('l \<Rightarrow> string list list) \<Rightarrow> bool" where
  "listViewLaws lv rows \<longleftrightarrow>
     (\<forall>l. lvCount lv l = length (rows l)) \<and>
     (\<forall>l i c. i < length (rows l) \<longrightarrow> c < 3 \<longrightarrow> lvText lv l i c = Some (rows l ! i ! c)) \<and>
     (\<forall>l t. \<exists>l1. lvInsert lv l 0 t = Some (0, l1) \<and> rows l1 = [t, [], []] # rows l) \<and>
     (\<forall>l i c t. i < length (rows l) \<longrightarrow> c < 3 \<longrightarrow> rows (lvSet lv l i c t) = (rows l)[i := (rows l ! i)[c := t]]) \<and>
     (\<forall>l i. i < length (rows l) \<longrightarrow> rows (lvDelete lv l i) = take i (rows l) @ drop (i + 1) (rows l))"

definition peerOf :: "WinPeers \<Rightarrow> nat \<Rightarrow> string" where
  "peerOf peers s = (case peers s of Some p \<Rightarrow> peerText p | None \<Rightarrow> [])"

text \<open>Every socket has a peer, with an address of its own that fits.\<close>

definition peersDiffer :: "WinPeers \<Rightarrow> nat set \<Rightarrow> bool" where
  "peersDiffer peers S \<longleftrightarrow> (\<forall>s\<in>S. \<exists>p. peers s = Some p \<and> length (peerText p) < MAX_PATH) \<and> inj_on (peerOf peers) S"

definition displays :: "('l \<Rightarrow> string list list) \<Rightarrow> WinPeers \<Rightarrow> nat list \<Rightarrow> 'l Stats \<Rightarrow> bool" where
  "displays rows peers ss w \<longleftrightarrow>
     (\<forall>r\<in>set (rows (wnList w)). length r = 3) \<and> map (\<lambda>r. r ! 1) (rows (wnList w)) = map (peerOf peers) ss \<and>
     nActiveConnections w = word_of_nat (length ss) \<and> distinct ss"

lemma rowLoop_found:
  assumes laws: "listViewLaws lv rows" and "i \<le> k" "k < length (rows l)" "shortText (rows l ! k ! 1) = a"
    and "\<forall>j. i \<le> j \<longrightarrow> j < k \<longrightarrow> shortText (rows l ! j ! 1) \<noteq> a"
  shows "rowLoop lv l a i = Some k"
  using assms(2-)
proof (induction "k - i" arbitrary: i)
  case 0
  then show ?case
    using laws by (subst rowLoop.simps) (simp add: listViewLaws_def)
next
  case (Suc n)
  have r: "rowLoop lv l a (i + 1) = Some k"
    using Suc by (intro Suc.hyps(1)) auto
  have "shortText (rows l ! i ! 1) \<noteq> a" "i < length (rows l)"
    using Suc by auto
  with r show ?case
    using laws by (subst rowLoop.simps) (simp add: listViewLaws_def)
qed

lemma rowLoop_missing:
  assumes laws: "listViewLaws lv rows" and "\<forall>j<length (rows l). shortText (rows l ! j ! 1) \<noteq> a"
  shows "rowLoop lv l a i = None"
proof (induction "length (rows l) - i" arbitrary: i)
  case 0
  then show ?case
    using laws by (subst rowLoop.simps) (simp add: listViewLaws_def)
next
  case (Suc n)
  then have "rowLoop lv l a (i + 1) = None" "i < length (rows l)"
    by auto
  then show ?case
    using laws assms(2) by (subst rowLoop.simps) (simp add: listViewLaws_def)
qed

lemma shortText_same [simp]: "length s < MAX_PATH \<Longrightarrow> shortText s = s" "length s < MAX_PATH \<Longrightarrow> take MAX_PATH s = s"
  by (auto simp: shortText_def)

lemma peerOf_short: "peersDiffer peers S \<Longrightarrow> s \<in> S \<Longrightarrow> length (peerOf peers s) < MAX_PATH"
  by (auto simp: peersDiffer_def peerOf_def)

text \<open>The row of a socket is where the socket is among the open ones.\<close>

lemma row_cell: "displays rows peers ss w \<Longrightarrow> j < length ss \<Longrightarrow> rows (wnList w) ! j ! 1 = peerOf peers (ss ! j)"
  unfolding displays_def by (metis length_map nth_map)

lemma row_count: "displays rows peers ss w \<Longrightarrow> length (rows (wnList w)) = length ss"
  unfolding displays_def by (metis length_map)

lemma find_row:
  assumes laws: "listViewLaws lv rows" and sh: "displays rows peers ss w" and pd: "peersDiffer peers S" and S: "set ss \<subseteq> S" "s \<in> S"
  shows "s \<notin> set ss \<Longrightarrow> GetRowByAddress lv (wnList w) (peerOf peers s) = None"
    and "k < length ss \<Longrightarrow> ss ! k = s \<Longrightarrow> GetRowByAddress lv (wnList w) (peerOf peers s) = Some k"
proof -
  have cell: "shortText (rows (wnList w) ! j ! 1) = peerOf peers (ss ! j)" if "j < length ss" for j
    using row_cell [OF sh that] peerOf_short [OF pd] S(1) that by (metis nth_mem shortText_same(1) subsetD)
  have inj: "peerOf peers (ss ! j) = peerOf peers s \<longleftrightarrow> ss ! j = s" if "j < length ss" for j
    using pd S that by (metis inj_on_def nth_mem peersDiffer_def subsetD)
  have t: "take MAX_PATH (peerOf peers s) = peerOf peers s"
    using peerOf_short [OF pd S(2)] by simp
  show "GetRowByAddress lv (wnList w) (peerOf peers s) = None" if "s \<notin> set ss"
    unfolding GetRowByAddress_def t using rowLoop_missing [OF laws] cell inj that row_count [OF sh] by (metis nth_mem)
  show "GetRowByAddress lv (wnList w) (peerOf peers s) = Some k" if k: "k < length ss" "ss ! k = s"
  proof -
    have "ss ! j \<noteq> s" if "j < k" for j
      using sh k that by (auto simp: displays_def nth_eq_iff_index_eq)
    then have "\<forall>j. 0 \<le> j \<longrightarrow> j < k \<longrightarrow> shortText (rows (wnList w) ! j ! 1) \<noteq> peerOf peers s"
      using cell inj k(1) by (metis less_trans)
    then show ?thesis
      unfolding GetRowByAddress_def t using rowLoop_found [OF laws, of 0 k] cell [OF k(1)] k row_count [OF sh] by simp
  qed
qed

lemma labels_same [simp]:
  "wnList (updateConnectionsLabel w) = wnList w" "nActiveConnections (updateConnectionsLabel w) = nActiveConnections w"
  "wnList (updateTransferLabel w) = wnList w" "nActiveConnections (updateTransferLabel w) = nActiveConnections w"
  by (simp_all add: updateConnectionsLabel_def updateTransferLabel_def)

lemma displays_cong:
  "wnList w1 = wnList w \<Longrightarrow> nActiveConnections w1 = nActiveConnections w \<Longrightarrow> displays rows peers ss w1 = displays rows peers ss w"
  by (simp add: displays_def)

lemma update_known:
  assumes "listViewLaws lv rows" "displays rows peers ss w" "peersDiffer peers S" "set ss \<subseteq> S" "s \<in> set ss"
  shows "displays rows peers ss (updateRow lv (peerOf peers s) state path w)"
proof -
  obtain k where k: "k < length ss" "ss ! k = s"
    using assms(5) by (auto simp: in_set_conv_nth)
  have r: "GetRowByAddress lv (wnList w) (peerOf peers s) = Some k"
    using find_row(2) [OF assms(1-4) _ k] assms(4,5) by auto
  let ?R = "rows (wnList w)"
  have len: "k < length ?R" "length (?R ! k) = 3"
    using k row_count [OF assms(2)] assms(2) by (auto simp: displays_def)
  have new: "rows (lvSet lv (lvSet lv (wnList w) k 0 x) k 2 y) = ?R[k := (?R ! k)[0 := x, 2 := y]]" for x y
    using assms(1) len by (simp add: listViewLaws_def)
  have "map (\<lambda>r. r ! 1) (?R[k := (?R ! k)[0 := x, 2 := y]]) = map (\<lambda>r. r ! 1) ?R" for x y
    using len by (simp add: map_update) (metis len(1) length_map list_update_id nth_map)
  then show ?thesis
    using assms(2) len r new by (auto simp: updateRow_def displays_def dest!: set_update_subset_insert [THEN subsetD])
qed

lemma update_new:
  assumes "listViewLaws lv rows" "displays rows peers ss w" "peersDiffer peers S" "set ss \<subseteq> S" "s \<in> S" "s \<notin> set ss"
    and "w1 = updateRow lv (peerOf peers s) state path w"
  shows "displays rows peers (s # ss) (w1\<lparr>nActiveConnections := nActiveConnections w1 + 1\<rparr>)"
proof -
  have r: "GetRowByAddress lv (wnList w) (peerOf peers s) = None"
    by (rule find_row(1) [OF assms(1-6)])
  obtain l1 where l1: "lvInsert lv (wnList w) 0 (shortText state) = Some (0, l1)" "rows l1 = [shortText state, [], []] # rows (wnList w)"
    using assms(1) unfolding listViewLaws_def by blast
  have new: "rows (lvSet lv (lvSet lv l1 0 1 x) 0 2 y) = [shortText state, x, y] # rows (wnList w)" for x y
    using assms(1) l1(2) by (simp add: listViewLaws_def numeral_2_eq_2)
  have "shortText (peerOf peers s) = peerOf peers s"
    using peerOf_short [OF assms(3,5)] by simp
  with assms(2,6,7) r l1(1) new show ?thesis
    by (simp add: updateRow_def displays_def)
qed

lemma remove1_nth: "distinct xs \<Longrightarrow> k < length xs \<Longrightarrow> remove1 (xs ! k) xs = take k xs @ drop (k + 1) xs"
proof (induction xs arbitrary: k)
  case (Cons x xs)
  then show ?case
    by (cases k) auto
qed simp

lemma remove_known:
  assumes "listViewLaws lv rows" "displays rows peers ss w" "peersDiffer peers S" "set ss \<subseteq> S" "s \<in> set ss"
    and "w1 = removeRow lv (peerOf peers s) w"
  shows "displays rows peers (remove1 s ss) (w1\<lparr>nActiveConnections := nActiveConnections w1 - 1\<rparr>)"
proof -
  obtain k where k: "k < length ss" "ss ! k = s"
    using assms(5) by (auto simp: in_set_conv_nth)
  have r: "GetRowByAddress lv (wnList w) (peerOf peers s) = Some k"
    using find_row(2) [OF assms(1-4) _ k] assms(4,5) by auto
  let ?R = "rows (wnList w)"
  have len: "k < length ?R"
    using k row_count [OF assms(2)] by simp
  have l: "rows (wnList w1) = take k ?R @ drop (k + 1) ?R" and n: "nActiveConnections w1 = nActiveConnections w"
    using assms(1) len r assms(6) by (auto simp: removeRow_def Let_def listViewLaws_def split: option.split)
  have "map (\<lambda>r. r ! 1) (rows (wnList w1)) = map (peerOf peers) (remove1 s ss)"
    using remove1_nth [of ss k] k assms(2) l by (simp add: displays_def take_map drop_map del: map_eq_conv flip: take_map drop_map)
  moreover have "\<forall>r\<in>set (rows (wnList w1)). length r = 3"
    using assms(2) l by (auto simp: displays_def dest: in_set_takeD in_set_dropD)
  moreover have "word_of_nat (length ss) - 1 = (word_of_nat (length (remove1 s ss)) :: 32 word)"
    using assms(5) k(1) by (simp add: length_remove1 of_nat_diff)
  ultimately show ?thesis
    using assms(2) n by (simp add: displays_def)
qed

lemma statsEvents_show:
  assumes "listViewLaws lv rows" "peersDiffer peers S" "displays rows peers ss w" "set ss \<subseteq> S" "eventSocket ` set evs \<subseteq> S"
    and "openAfter ss evs = Some ss1"
  shows "\<exists>w1. statsEvents lv peers evs w = Inr w1 \<and> displays rows peers ss1 w1"
  using assms(3-)
proof (induction evs arbitrary: ss w)
  case (Cons e evs)
  have S: "eventSocket e \<in> S" "eventSocket ` set evs \<subseteq> S"
    using Cons.prems(3) by auto
  have peer: "peerAddress peers (eventSocket e) = Inr (peerOf peers (eventSocket e))"
    using assms(2) S(1) by (auto simp: peerAddress_def peersDiffer_def peerOf_def)
  have step: "\<exists>w1. statsEvent lv peers e w = Inr w1 \<and> displays rows peers ss2 w1"
    if o: "openAfter ss [e] = Some ss2" for ss2
  proof (cases e)
    case (SocketAccept s)
    with o have "s \<notin> set ss" "ss2 = s # ss"
      by (auto split: if_split_asm)
    with update_new [OF assms(1) Cons.prems(1) assms(2) Cons.prems(2) _ _ refl] S(1) SocketAccept peer show ?thesis
      by (auto simp: eventSocket_def callbackNewSocket_def Let_def displays_cong [OF labels_same(1,2)])
  next
    case (SocketClose s)
    with o have "s \<in> set ss" "ss2 = remove1 s ss"
      by (auto split: if_split_asm)
    with remove_known [OF assms(1) Cons.prems(1) assms(2) Cons.prems(2) _ refl] SocketClose peer show ?thesis
      by (auto simp: eventSocket_def callbackCloseSocket_def Let_def displays_cong [OF labels_same(1,2)])
  next
    case (HttpRespond s path type response)
    with o have s: "s \<in> set ss" "ss2 = ss"
      by (auto split: if_split_asm)
    let ?w = "if response \<in> {200, 206, 208} then updateTransferLabel (w\<lparr>nActiveTransfers := nActiveTransfers w + 1\<rparr>) else w"
    have "displays rows peers ss ?w"
      using Cons.prems(1) by (simp add: displays_def)
    from update_known [OF assms(1) this assms(2) Cons.prems(2) s(1)] HttpRespond peer s(2) show ?thesis
      by (auto simp: eventSocket_def callbackHttpStart_def Let_def)
  next
    case (HttpFinish s path type response)
    with o have s: "s \<in> set ss" "ss2 = ss"
      by (auto split: if_split_asm)
    from update_known [OF assms(1) Cons.prems(1) assms(2) Cons.prems(2) s(1)] HttpFinish peer s(2) show ?thesis
      by (auto simp: eventSocket_def callbackHttpEnd_def Let_def displays_def)
  qed
  have "\<exists>ss2. openAfter ss [e] = Some ss2 \<and> openAfter ss2 evs = Some ss1 \<and> set ss2 \<subseteq> S"
    using Cons.prems(2,4) S(1) by (cases e) (auto simp: eventSocket_def dest: notin_set_remove1 split: if_split_asm)
  with step obtain ss2 w2 where "statsEvent lv peers e w = Inr w2" "displays rows peers ss2 w2" "openAfter ss2 evs = Some ss1" "set ss2 \<subseteq> S"
    by blast
  with Cons.IH S(2) show ?case
    by auto
qed simp


text \<open>A list of rows is a list view.\<close>

definition plainList :: "string list list ListView" where
  "plainList =
     \<lparr>lvCount = length, lvText = \<lambda>l i c. if i < length l then Some (l ! i ! c) else None,
      lvInsert = \<lambda>l i t. Some (i, take i l @ [t, [], []] # drop i l), lvSet = \<lambda>l i c t. l[i := (l ! i)[c := t]],
      lvDelete = \<lambda>l i. take i l @ drop (i + 1) l\<rparr>"

definition emptyStats :: "string list list Stats" where
  "emptyStats = \<lparr>wnList = [], nActiveConnections = 0, nActiveTransfers = 0, lblConnections = [], lblTransfers = [], wnMessages = []\<rparr>"

definition examplePeers :: WinPeers where
  "examplePeers s = Some (SockIn ''10.0.0.2'', 1000 + s)"

lemma plainList_laws: "listViewLaws plainList (\<lambda>l. l)"
  by (simp add: listViewLaws_def plainList_def)


text \<open>
  The number of transfers is not right: a request for the header alone counts and is never taken back, and an error
  whose number ends in 0 is taken back although it was never counted.
\<close>

theorem transfers_drift:
  "\<exists>w1. statsEvents plainList examplePeers [SocketAccept 4, HttpRespond 4 ''f'' httpHead 200, SocketClose 4] emptyStats = Inr w1 \<and>
     wnList w1 = [] \<and> nActiveTransfers w1 = 1"
  "\<exists>w1. statsEvents plainList examplePeers [SocketAccept 4, HttpRespond 4 ''f'' httpGet 500, SocketClose 4] emptyStats = Inr w1 \<and>
     wnList w1 = [] \<and> nActiveTransfers w1 = - 1"
proof -
  note defs = emptyStats_def plainList_def examplePeers_def peerAddress_def callbackNewSocket_def callbackHttpStart_def callbackCloseSocket_def
    updateRow_def removeRow_def GetRowByAddress_def rowLoop.simps shortText_def MAX_PATH_def httpLetter_def showThree_def isTransfer_def
    updateConnectionsLabel_def updateTransferLabel_def peerText_def platformGetIpString_win_def platformGetPort_win_def
  have letters: "toupperC (CHR ''H'') = CHR ''H''" "toupperC (CHR ''G'') = CHR ''G''" "dec_digit 0 = CHR ''0''"
    by code_simp+
  show "\<exists>w1. statsEvents plainList examplePeers [SocketAccept 4, HttpRespond 4 ''f'' httpHead 200, SocketClose 4] emptyStats = Inr w1 \<and>
     wnList w1 = [] \<and> nActiveTransfers w1 = 1"
    by (simp add: defs letters show_nat.simps)
  show "\<exists>w1. statsEvents plainList examplePeers [SocketAccept 4, HttpRespond 4 ''f'' httpGet 500, SocketClose 4] emptyStats = Inr w1 \<and>
     wnList w1 = [] \<and> nActiveTransfers w1 = - 1"
    by (simp add: defs letters show_nat.simps)
qed

text \<open>
  What the two programs hand to the loop, the window by \<open>startServer\<close> and the command line by \<open>main\<close>, is the first
  state of a run, with a directory for its root.
\<close>

theorem startServer_run:
  assumes "startServer b d = Inr (Inr (root, sockets, st, ra))"
  shows "serverRun env sockets st \<lparr>svRoutines = ra, svNet = net, svDeferred = {}, svEvents = []\<rparr>"
    and "\<exists>word. wbAttributes b root = Some word \<and> word AND FILE_ATTRIBUTE_DIRECTORY \<noteq> 0"
  using assms by (auto simp: startServer_def Let_def elim!: bindrE intro!: serverRun.start split: splits_asm)

theorem thMain_run:
  assumes "thMain b argv = Inr (rc, out, Some (root, sockets, st, ra))"
  shows "serverRun env sockets st \<lparr>svRoutines = ra, svNet = net, svDeferred = {}, svEvents = []\<rparr>"
  using assms by (auto simp: thMain_def thSetup_def Let_def elim!: bindrE intro!: serverRun.start split: splits_asm)

end
