(* ===== verification/Mockput.thy ===== *)
theory Mockput
  imports Newth_Prelude
begin

text \<open>
  \<open>src/platform/mockput.c\<close>: the functions that stand in for the socket calls and the allocator when the program is
  linked with them. What they do is governed by a set of options, errors to report a number of times, and limits on
  the bytes that pass. A stand-in that is not switched on passes the call on; what the real function gives is a
  parameter.
\<close>

unbundle bit_operations_syntax

section \<open>State\<close>

definition MOCK_ALLOC_NO_MEMORY :: "32 word" where "MOCK_ALLOC_NO_MEMORY = 1"
definition MOCK_CONNECT :: "32 word" where "MOCK_CONNECT = 2"
definition MOCK_RECEIVE :: "32 word" where "MOCK_RECEIVE = 4"
definition MOCK_SEND :: "32 word" where "MOCK_SEND = 8"
definition MOCK_RECEIVE_COUNT :: "32 word" where "MOCK_RECEIVE_COUNT = 16"
definition MOCK_SEND_COUNT :: "32 word" where "MOCK_SEND_COUNT = 32"

definition ENOERR :: int where "ENOERR = 0"
definition EAGAIN :: int where "EAGAIN = 11"
definition ENOMEM :: int where "ENOMEM = 12"

text \<open>
  The variables of the file and \<open>errno\<close>. A stream to receive from is its content and the position in it, one to
  send to what has been written.
\<close>

record Mock =
  mockOptions :: "32 word"
  mockConnectError :: int
  mockReceiveError :: int
  mockSendError :: int
  mockErrorReset :: int
  mockSendMaxBuf :: "64 word"
  mockSendCountBuf :: "64 word"
  mockReceiveMaxBuf :: "64 word"
  mockReceiveCountBuf :: "64 word"
  mockSendStream :: "string option"
  mockReceiveStream :: "(string \<times> nat) option"
  mockLastFree :: "nat option"
  mockLastFileClosed :: "nat option"
  mockErrno :: int

definition hasOption :: "32 word \<Rightarrow> Mock \<Rightarrow> bool" where
  "hasOption opt m \<longleftrightarrow> mockOptions m AND opt \<noteq> 0"

definition mockReset :: "Mock \<Rightarrow> Mock" where
  "mockReset m =
     m\<lparr>mockConnectError := 0, mockReceiveError := 0, mockSendError := 0, mockErrorReset := 0, mockOptions := 0,
       mockReceiveCountBuf := 0, mockReceiveMaxBuf := 0, mockSendCountBuf := 0, mockSendMaxBuf := 0,
       mockLastFree := None, mockLastFileClosed := None, mockReceiveStream := None, mockSendStream := None\<rparr>"

definition mockResetError :: "Mock \<Rightarrow> Mock" where
  "mockResetError m = m\<lparr>mockErrno := ENOERR, mockErrorReset := 0\<rparr>"

section \<open>The stand-ins\<close>

text \<open>An error is reported once more; when that was the last time it is taken back.\<close>

definition countDown :: "int \<Rightarrow> int \<Rightarrow> int \<times> int" where
  "countDown err left =
     (if left \<noteq> 0 then (if left - 1 = 0 then ENOERR else err, left - 1) else (err, left))"

definition wrap_connect :: "(Mock \<Rightarrow> int \<times> Mock) \<Rightarrow> Mock \<Rightarrow> int \<times> Mock" where
  "wrap_connect real m =
     (if hasOption MOCK_CONNECT m then
        if mockConnectError m \<noteq> 0 then
          let (e, n) = countDown (mockConnectError m) (mockErrorReset m) in
          (- 1, m\<lparr>mockErrno := mockConnectError m, mockConnectError := e, mockErrorReset := n\<rparr>)
        else (0, m)
      else real m)"

text \<open>\<open>calloc\<close>, \<open>malloc\<close> and \<open>realloc\<close> are alike.\<close>

definition wrap_alloc :: "(Mock \<Rightarrow> 'p option \<times> Mock) \<Rightarrow> Mock \<Rightarrow> 'p option \<times> Mock" where
  "wrap_alloc real m =
     (if hasOption MOCK_ALLOC_NO_MEMORY m then (None, m\<lparr>mockErrno := ENOMEM\<rparr>) else real m)"

definition wrap_free :: "nat option \<Rightarrow> Mock \<Rightarrow> Mock" where
  "wrap_free ptr m = m\<lparr>mockLastFree := ptr\<rparr>"

definition wrap_fclose :: "int \<Rightarrow> nat \<Rightarrow> Mock \<Rightarrow> int \<times> Mock" where
  "wrap_fclose real file m = (real, m\<lparr>mockLastFileClosed := Some file\<rparr>)"

text \<open>Without a stream the digits are received, from 1 on, over and over.\<close>

fun fillDigits :: "nat \<Rightarrow> nat \<Rightarrow> string" where
  "fillDigits 0 j = []"
| "fillDigits (Suc n) j = (let k = (if 57 < j then 48 else j) in char_of k # fillDigits n (k + 1))"

text \<open>What is received is the second component.\<close>

definition wrap_recv :: "(Mock \<Rightarrow> int \<times> string \<times> Mock) \<Rightarrow> 64 word \<Rightarrow> bool \<Rightarrow> Mock \<Rightarrow> int \<times> string \<times> Mock" where
  "wrap_recv real len peek m =
     (if hasOption MOCK_RECEIVE m then
        if mockReceiveError m \<noteq> 0 then
          let (e, n) = countDown (mockReceiveError m) (mockErrorReset m) in
          (- 1, [], m\<lparr>mockErrno := mockReceiveError m, mockReceiveError := e, mockErrorReset := n\<rparr>)
        else if mockReceiveMaxBuf m = 0 then (- 1, [], m\<lparr>mockErrno := EAGAIN\<rparr>)
        else if hasOption MOCK_RECEIVE_COUNT m \<and> mockReceiveMaxBuf m < mockReceiveCountBuf m then
          (- 1, [], m\<lparr>mockErrno := EAGAIN\<rparr>)
        else
          let r = (if hasOption MOCK_RECEIVE_COUNT m then min len (mockReceiveMaxBuf m - mockReceiveCountBuf m)
                   else min len (mockReceiveMaxBuf m));
              m1 = (if hasOption MOCK_RECEIVE_COUNT m then m\<lparr>mockReceiveCountBuf := mockReceiveCountBuf m + r\<rparr> else m) in
          (case mockReceiveStream m1 of
             Some (s, p) \<Rightarrow>
               let d = take (unat r) (drop p s) in
               if peek then (int (length d), d, m1\<lparr>mockReceiveCountBuf := mockReceiveCountBuf m1 - word_of_nat (length d)\<rparr>)
               else (int (length d), d, m1\<lparr>mockReceiveStream := Some (s, p + length d)\<rparr>)
           | None \<Rightarrow> (int (unat r), fillDigits (unat r) 49, m1))
      else real m)"

definition wrap_send :: "(Mock \<Rightarrow> int \<times> Mock) \<Rightarrow> string \<Rightarrow> Mock \<Rightarrow> int \<times> Mock" where
  "wrap_send real buf m =
     (if hasOption MOCK_SEND m then
        if mockSendError m \<noteq> 0 then
          let (e, n) = countDown (mockSendError m) (mockErrorReset m) in
          (- 1, m\<lparr>mockErrno := mockSendError m, mockSendError := e, mockErrorReset := n\<rparr>)
        else if mockSendMaxBuf m = 0 then (- 1, m\<lparr>mockErrno := EAGAIN\<rparr>)
        else if hasOption MOCK_SEND_COUNT m \<and> mockSendMaxBuf m \<le> mockSendCountBuf m then (- 1, m\<lparr>mockErrno := EAGAIN\<rparr>)
        else
          let room = (if hasOption MOCK_SEND_COUNT m then mockSendMaxBuf m - mockSendCountBuf m else mockSendMaxBuf m);
              r = min (length buf) (unat room);
              m1 = (if hasOption MOCK_SEND_COUNT m then m\<lparr>mockSendCountBuf := mockSendCountBuf m + mockSendMaxBuf m\<rparr> else m) in
          (int r, (case mockSendStream m1 of None \<Rightarrow> m1 | Some t \<Rightarrow> m1\<lparr>mockSendStream := Some (t @ take r buf)\<rparr>))
      else real m)"

section \<open>What they do\<close>

lemmas wrap_defs = wrap_recv_def wrap_send_def wrap_connect_def countDown_def hasOption_def

text \<open>Several calls in a row.\<close>

fun recvMany :: "(Mock \<Rightarrow> int \<times> string \<times> Mock) \<Rightarrow> 64 word list \<Rightarrow> Mock \<Rightarrow> string \<times> Mock" where
  "recvMany real [] m = ([], m)"
| "recvMany real (n # ns) m =
     (let (r, d, m1) = wrap_recv real n False m; (ds, m2) = recvMany real ns m1 in (d @ ds, m2))"

fun sendMany :: "(Mock \<Rightarrow> int \<times> Mock) \<Rightarrow> string list \<Rightarrow> Mock \<Rightarrow> int list \<times> Mock" where
  "sendMany real [] m = ([], m)"
| "sendMany real (d # ds) m =
     (let (r, m1) = wrap_send real d m; (rs, m2) = sendMany real ds m1 in (r # rs, m2))"

definition receiving :: "Mock \<Rightarrow> string \<Rightarrow> nat \<Rightarrow> bool" where
  "receiving m s p \<longleftrightarrow>
     hasOption MOCK_RECEIVE m \<and> hasOption MOCK_RECEIVE_COUNT m \<and> mockReceiveError m = 0 \<and> mockReceiveMaxBuf m \<noteq> 0 \<and>
     mockReceiveCountBuf m \<le> mockReceiveMaxBuf m \<and> mockReceiveStream m = Some (s, p)"

lemma recv_step:
  assumes "receiving m s p" and "k = min (unat n) (unat (mockReceiveMaxBuf m) - unat (mockReceiveCountBuf m))"
  shows "\<exists>m1. wrap_recv real n False m = (int (length (take k (drop p s))), take k (drop p s), m1) \<and>
              receiving m1 s (p + length (take k (drop p s))) \<and> mockReceiveMaxBuf m1 = mockReceiveMaxBuf m \<and>
              unat (mockReceiveCountBuf m1) = unat (mockReceiveCountBuf m) + k"
proof -
  let ?r = "min n (mockReceiveMaxBuf m - mockReceiveCountBuf m)"
  have le: "mockReceiveCountBuf m \<le> mockReceiveMaxBuf m"
    using assms(1) by (simp add: receiving_def)
  have sub: "unat (mockReceiveMaxBuf m - mockReceiveCountBuf m) = unat (mockReceiveMaxBuf m) - unat (mockReceiveCountBuf m)"
    using le by (rule unat_sub)
  have k: "unat ?r = k"
    using sub assms(2) by (simp add: min_def word_le_nat_alt)
  have up: "unat (mockReceiveCountBuf m) + k \<le> unat (mockReceiveMaxBuf m)"
    using assms(2) le by (simp add: word_le_nat_alt)
  have lt: "unat (mockReceiveMaxBuf m) < 18446744073709551616"
    by (rule order_less_le_trans [OF unsigned_less]) simp
  have "unat (mockReceiveCountBuf m + ?r) = unat (mockReceiveCountBuf m) + k"
    using up k lt by (simp add: unat_word_ariths)
  with assms(1) k up show ?thesis
    by (auto simp: receiving_def wrap_recv_def Let_def hasOption_def word_le_nat_alt not_less)
qed

text \<open>
  With a limit on the count, what is received over any sequence of calls is the stream, in order, up to the limit.
\<close>

theorem recv_counted:
  assumes "receiving m s p"
  shows "fst (recvMany real ns m) =
           take (min (sum_list (map unat ns)) (unat (mockReceiveMaxBuf m) - unat (mockReceiveCountBuf m))) (drop p s)"
  using assms
proof (induction ns arbitrary: m p)
  case Nil
  then show ?case
    by simp
next
  case (Cons n ns)
  define k where "k = min (unat n) (unat (mockReceiveMaxBuf m) - unat (mockReceiveCountBuf m))"
  from recv_step [OF Cons.prems k_def] obtain m1 where
    w: "wrap_recv real n False m = (int (length (take k (drop p s))), take k (drop p s), m1)" and
    m1: "receiving m1 s (p + length (take k (drop p s)))" "mockReceiveMaxBuf m1 = mockReceiveMaxBuf m"
      "unat (mockReceiveCountBuf m1) = unat (mockReceiveCountBuf m) + k"
    by blast
  define j where "j = min (sum_list (map unat ns)) (unat (mockReceiveMaxBuf m) - (unat (mockReceiveCountBuf m) + k))"
  have dr: "drop (p + length (take k (drop p s))) s = drop k (drop p s)"
    by (cases "k \<le> length (drop p s)") (auto simp: add.commute)
  have "fst (recvMany real (n # ns) m) = take k (drop p s) @ take j (drop k (drop p s))"
    using Cons.IH [OF m1(1)] m1 w dr by (simp add: split_beta j_def)
  also have "\<dots> = take (k + j) (drop p s)"
    by (simp add: take_add)
  also have "k + j = min (sum_list (map unat (n # ns))) (unat (mockReceiveMaxBuf m) - unat (mockReceiveCountBuf m))"
    by (simp add: k_def j_def)
  finally show ?case .
qed

text \<open>A counted error is reported as often as asked for, then the call goes through.\<close>

definition sending :: "Mock \<Rightarrow> bool" where
  "sending m \<longleftrightarrow> hasOption MOCK_SEND m \<and> \<not> hasOption MOCK_SEND_COUNT m \<and> mockSendMaxBuf m \<noteq> 0"

theorem send_errors:
  assumes "sending m" "mockSendError m \<noteq> 0" "mockErrorReset m = int (length ds)" "ds \<noteq> []"
  shows "\<exists>m1. sendMany real ds m = (replicate (length ds) (- 1), m1) \<and> mockErrno m1 = mockSendError m \<and>
              fst (wrap_send real d m1) = int (min (length d) (unat (mockSendMaxBuf m)))"
  using assms
proof (induction ds arbitrary: m)
  case (Cons x ds)
  show ?case
  proof (cases ds)
    case Nil
    with Cons.prems show ?thesis
      by (simp add: wrap_defs sending_def ENOERR_def Let_def split: option.split)
  next
    case (Cons y ys)
    let ?m = "m\<lparr>mockErrno := mockSendError m, mockErrorReset := int (length ds)\<rparr>"
    have w: "wrap_send real x m = (- 1, ?m)"
      using Cons.prems Cons by (simp add: wrap_defs sending_def)
    have "sending ?m" "mockSendError ?m \<noteq> 0" "mockErrorReset ?m = int (length ds)" "ds \<noteq> []"
      using Cons.prems Cons by (auto simp: sending_def hasOption_def)
    from Cons.IH [OF this] w show ?thesis
      by auto
  qed
qed simp

text \<open>With a limit on the count only one call to send goes through, however little it sent.\<close>

theorem send_counted_once:
  assumes "hasOption MOCK_SEND m" "hasOption MOCK_SEND_COUNT m" "mockSendError m = 0" "0 < mockSendMaxBuf m" "mockSendCountBuf m = 0"
  shows "\<exists>m1. fst (sendMany real [a, b] m) = [int (min (length a) (unat (mockSendMaxBuf m))), - 1]"
  using assms by (auto simp: wrap_defs Let_def split_beta word_gt_0 split: option.split)

text \<open>Peeking takes back what was never counted: the counter wraps around.\<close>

theorem peek_wraps:
  assumes "hasOption MOCK_RECEIVE m" "\<not> hasOption MOCK_RECEIVE_COUNT m" "mockReceiveError m = 0" "mockReceiveMaxBuf m = 1"
    "mockReceiveCountBuf m = 0" "mockReceiveStream m = Some (''x'', 0)"
  shows "\<exists>m1. wrap_recv real 1 True m = (1, ''x'', m1) \<and> mockReceiveCountBuf m1 = - 1"
  using assms by (simp add: wrap_defs)

end
