(* ===== verification/Http_Io.thy ===== *)
theory Http_Io
  imports Network Platform_Str
begin

text \<open>
  \<open>src/client/err.c\<close> and the parts of \<open>src/client/io.c\<close> that work on text: requests, the first line and
  the fields of a response header, and the sizes of HTTP chunks.
\<close>

unbundle bit_operations_syntax

section \<open>Error messages\<close>

text \<open>
  An operation that returns \<open>NULL\<close> or a message returns \<open>ClientErr option\<close>. The messages of \<open>err.c\<close> are
  told apart by their address in the source; \<open>StrError\<close> is \<open>strerror (errno)\<close>, \<open>Message\<close> a literal.
\<close>

datatype ClientErr =
    ErrAbsolutePathIsBeyondMaximumPathLimit
  | ErrAddressNotUnderstood
  | ErrChunkMetadataOverflowsBuffer
  | ErrContentLengthValueCausedBufferOverflow
  | ErrContentLengthValueContainsNonDigitCharacters
  | ErrExceededMaximumAllowedBufferSize
  | ErrHeaderNotAssigned
  | ErrHeaderNotFound
  | ErrIllegalHexCharacter
  | ErrInvalidSite
  | ErrMalformedChunkEncoding
  | ErrMalformedOrImpracticallyLargeReplyFromRemote
  | ErrNoBufferedData
  | ErrNoDataToBeRetrieved
  | ErrNoHostInformation
  | ErrNoQueue
  | ErrNoUriSpecified
  | ErrNotAValidHeaderLine
  | ErrQueueEntryNotReady
  | ErrRequestCompleted
  | ErrSchemeNotRecognized
  | ErrServerReplyNotAcceptable
  | ErrStateOfSocketInvalid
  | ErrTokenBiggerThenBufferLimits
  | ErrTryAgain
  | ErrUnableToGetSystemsWorkingDirectory
  | ErrUnableToResolvePath
  | ErrUnableToWriteToPath
  | ErrUnexpectedEndToChunk
  | ErrUnknownMountType
  | ErrUriWasNotUnderstood
  | StrError Errno
  | Message string

text \<open>The text printed for a message; \<open>strerror (3)\<close> is a parameter.\<close>

fun errText :: "(Errno \<Rightarrow> string) \<Rightarrow> ClientErr \<Rightarrow> string" where
  "errText strerror ErrAbsolutePathIsBeyondMaximumPathLimit = ''Absolute path is beyond maximum path limit''"
| "errText strerror ErrAddressNotUnderstood = ''Address not understood''"
| "errText strerror ErrChunkMetadataOverflowsBuffer = ''Chunk metadata overflows buffer''"
| "errText strerror ErrContentLengthValueCausedBufferOverflow = ''Content-Length value caused buffer overflow''"
| "errText strerror ErrContentLengthValueContainsNonDigitCharacters =
     ''Content-Length value contains non-digit character(s)''"
| "errText strerror ErrExceededMaximumAllowedBufferSize = ''Exceeded maximum allowed buffer size''"
| "errText strerror ErrHeaderNotAssigned = ''Header not assigned''"
| "errText strerror ErrHeaderNotFound = ''Header not found''"
| "errText strerror ErrIllegalHexCharacter = ''Illegal hex character''"
| "errText strerror ErrInvalidSite = ''Invalid site''"
| "errText strerror ErrMalformedChunkEncoding = ''Malformed chunk encoding''"
| "errText strerror ErrMalformedOrImpracticallyLargeReplyFromRemote =
     ''Malformed or impractically large reply from remote''"
| "errText strerror ErrNoBufferedData = ''No buffered data''"
| "errText strerror ErrNoDataToBeRetrieved = ''No data to be retrieved''"
| "errText strerror ErrNoHostInformation = ''No host information''"
| "errText strerror ErrNoQueue = ''No queue''"
| "errText strerror ErrNoUriSpecified = ''No uri specified''"
| "errText strerror ErrNotAValidHeaderLine = ''Not a valid header line''"
| "errText strerror ErrQueueEntryNotReady = ''Queue entry is not ready''"
| "errText strerror ErrRequestCompleted = ''Request completed''"
| "errText strerror ErrSchemeNotRecognized = ''Scheme not recognized''"
| "errText strerror ErrServerReplyNotAcceptable = ''Server reply not acceptable''"
| "errText strerror ErrStateOfSocketInvalid = ''State of socket invalid''"
| "errText strerror ErrTokenBiggerThenBufferLimits = ''Token bigger then buffer limits''"
| "errText strerror ErrTryAgain = ''Try again''"
| "errText strerror ErrUnableToGetSystemsWorkingDirectory = ''Unable to get systems working directory''"
| "errText strerror ErrUnableToResolvePath = ''Unable to resolve path''"
| "errText strerror ErrUnableToWriteToPath = ''Unable to write to path''"
| "errText strerror ErrUnexpectedEndToChunk = ''Unexpected end to chunk''"
| "errText strerror ErrUnknownMountType = ''Unknown mount type''"
| "errText strerror ErrUriWasNotUnderstood = ''Uri was not understood''"
| "errText strerror (StrError e) = strerror e"
| "errText strerror (Message s) = s"

section \<open>Requests\<close>

text \<open>
  \<open>len\<close> counts the literal \<open>http\<close> with its two trailing spaces; \<open>sprintf\<close> prints into the \<open>len + 1\<close>
  bytes allocated. \<open>extra = None\<close> is \<open>NULL\<close>.
\<close>

definition ioHttpRequestGenerateSend :: "string \<Rightarrow> string \<Rightarrow> string option \<Rightarrow> string res" where
  "ioHttpRequestGenerateSend type path extra =
     (let http = HTTP_RES @ HTTP_EOL @ HTTP_EOL @ ''  '';
          len = length type + length path + length http + (case extra of Some x \<Rightarrow> length x | None \<Rightarrow> 0);
          req = type @ '' '' @ path @ '' '' @ HTTP_RES @ HTTP_EOL @ (case extra of Some x \<Rightarrow> x | None \<Rightarrow> []) @ HTTP_EOL
      in if len + 1 < length req + 1 then Inl BufferOverflow else Inr req)"

definition ioHttpRequestGenerateHead :: "string \<Rightarrow> string option \<Rightarrow> string res" where
  "ioHttpRequestGenerateHead path extra = ioHttpRequestGenerateSend ''HEAD'' path extra"

definition ioHttpRequestGenerateGet :: "string \<Rightarrow> string option \<Rightarrow> string res" where
  "ioHttpRequestGenerateGet path extra = ioHttpRequestGenerateSend ''GET'' path extra"

lemma ioHttpRequestGenerateSend_eq:
  "ioHttpRequestGenerateSend type path extra =
     Inr (type @ '' '' @ path @ '' '' @ HTTP_RES @ HTTP_EOL @ (case extra of Some x \<Rightarrow> x | None \<Rightarrow> []) @ HTTP_EOL)"
  by (simp add: ioHttpRequestGenerateSend_def Let_def HTTP_RES_def split: option.split)

section \<open>Response headers\<close>

text \<open>
  The value of a field, or \<open>None\<close> for the message \<open>"Header not found"\<close> (with \<open>*variable = NULL\<close>). The
  field is searched without regard to the line it is on; the spaces behind the colon are skipped.
\<close>

definition ioHttpResponseHeaderFind :: "string \<Rightarrow> string \<Rightarrow> string option" where
  "ioHttpResponseHeaderFind headerFile header =
     (case platformStringFindNeedle headerFile header of
        None \<Rightarrow> None
      | Some i \<Rightarrow>
          (case strchr_from headerFile i (CHR '':'') of
             None \<Rightarrow> None
           | Some s \<Rightarrow>
               (case strchr_from headerFile s CR of
                  None \<Rightarrow> None
                | Some e \<Rightarrow>
                    if chC headerFile (e + 1) = LF then
                      Some (let s1 = s + 1 + length (takeWhile (\<lambda>c. c = CHR '' '') (drop (s + 1) headerFile))
                            in substr headerFile s1 e)
                    else None)))"

text \<open>The two halves of the first line, or \<open>None\<close> for the message \<open>"Not a valid header line"\<close>.\<close>

definition ioHttpResponseHeaderEssential :: "string \<Rightarrow> (string \<times> string) option" where
  "ioHttpResponseHeaderEssential headerFile =
     (case strstr headerFile HTTP_EOL of
        None \<Rightarrow> None
      | Some len \<Rightarrow>
          let s = take len headerFile in
          (case strchr s (CHR '' '') of
             Some p \<Rightarrow> Some (take p s, drop (p + 1) s)
           | None \<Rightarrow> None))"

lemma ioHttpResponseHeaderEssential_line:
  assumes "CHR '' '' \<notin> set scheme" "strstr (scheme @ '' '' @ response @ HTTP_EOL @ rest) HTTP_EOL =
             Some (length scheme + 1 + length response)"
  shows "ioHttpResponseHeaderEssential (scheme @ '' '' @ response @ HTTP_EOL @ rest) = Some (scheme, response)"
  using assms by (simp add: ioHttpResponseHeaderEssential_def Let_def strchr_append)

section \<open>Chunk sizes\<close>

definition IsValidHexCharacter :: "char \<Rightarrow> bool" where
  "IsValidHexCharacter c \<longleftrightarrow> toupperC c \<in> set ''0123456789ABCDEF''"

text \<open>
  The value of one digit by shifts and masks on the character, and the loop over the digits. The
  value is a \<open>size_t\<close>: the bits shifted out are lost.
\<close>

definition chunkDigit :: "char \<Rightarrow> nat" where
  "chunkDigit c = ((code c AND 0xF) + drop_bit 6 (code c)) OR (drop_bit 3 (code c) AND 0x8)"

fun hexToSizeLoop :: "64 word \<Rightarrow> string \<Rightarrow> ClientErr option \<times> 64 word" where
  "hexToSizeLoop v [] = (None, v)"
| "hexToSizeLoop v (c # s) =
     (if IsValidHexCharacter c then hexToSizeLoop (push_bit 4 v OR word_of_nat (chunkDigit c)) s
      else (Some ErrIllegalHexCharacter, v))"

definition ioHttpBodyChunkHexToSize :: "string \<Rightarrow> ClientErr option \<times> 64 word" where
  "ioHttpBodyChunkHexToSize hex = hexToSizeLoop 0 hex"

text \<open>The reference: the digits of a number in base sixteen.\<close>

definition hexDigitVal :: "char \<Rightarrow> nat" where
  "hexDigitVal c = (if isdigitC c then code c - 48 else if isupperC c then code c - 55 else code c - 87)"

definition hexNumber :: "string \<Rightarrow> nat" where
  "hexNumber = foldl (\<lambda>v c. 16 * v + hexDigitVal c) 0"

subsection \<open>Chunk sizes are hexadecimal numbers\<close>

lemma code_set: "c \<in> A \<longleftrightarrow> (code c :: nat) \<in> code ` A"
  by (auto simp: image_iff)

lemma code_toupperC: "code (toupperC c) = (if islowerC c then code c - 32 else code c)"
  by (auto simp: toupperC_def islowerC_def)

lemma hexCharacters:
  "IsValidHexCharacter c \<longleftrightarrow> (48 \<le> code c \<and> code c \<le> 57) \<or> (65 \<le> code c \<and> code c \<le> 70) \<or> (97 \<le> code c \<and> code c \<le> 102)"
proof -
  have "code ` set ''0123456789ABCDEF'' = {48..<58} \<union> {65..<71::nat}"
  proof -
    have "{48..<58} \<union> {65..<71::nat} = set [48..<58] \<union> set [65..<71]" by (simp only: atLeastLessThan_upt)
    also have "\<dots> = set (map code ''0123456789ABCDEF'')" by (auto simp add: upt_rec)
    finally show ?thesis by simp
  qed
  then have "IsValidHexCharacter c \<longleftrightarrow> code (toupperC c) \<in> {48..<58} \<union> {65..<71::nat}"
    by (simp only: IsValidHexCharacter_def code_set [of "toupperC c" "set _"])
  then show ?thesis by (auto simp: code_toupperC islowerC_def)
qed

lemma chunkDigit_val:
  assumes "IsValidHexCharacter c"
  shows "chunkDigit c = hexDigitVal c \<and> hexDigitVal c < 16"
proof -
  let ?P = "\<lambda>n. ((n AND 0xF) + drop_bit 6 n) OR (drop_bit 3 n AND 0x8) =
      (if 48 \<le> n \<and> n \<le> 57 then n - 48 else if 65 \<le> n \<and> n \<le> 90 then n - 55 else n - (87::nat)) \<and>
      (if 48 \<le> n \<and> n \<le> 57 then n - 48 else if 65 \<le> n \<and> n \<le> 90 then n - 55 else n - (87::nat)) < 16"
  have "code c \<in> {48..<58} \<union> {65..<71} \<union> {97..<103}" using assms by (auto simp: hexCharacters)
  moreover have "\<forall>n \<in> {48..<58} \<union> {65..<71} \<union> {97..<103}. ?P n"
    unfolding ball_Un atLeastLessThan_upt
    by (simp add: upt_rec) (simp add: numeral_2_eq_2 [symmetric] numeral_3_eq_3 [symmetric])
  ultimately show ?thesis
    unfolding chunkDigit_def hexDigitVal_def isdigitC_def isupperC_def by blast
qed

lemma hex_digit_valid: "d < 16 \<Longrightarrow> IsValidHexCharacter (hex_digit d) \<and> hexDigitVal (hex_digit d) = d"
  by (auto simp: hexCharacters hex_digit_def hexDigitVal_def isdigitC_def isupperC_def)

lemma push4: "d < 16 \<Longrightarrow> push_bit 4 (w :: 64 word) OR word_of_nat d = push_bit 4 w + word_of_nat d"
proof -
  assume d: "d < 16"
  have "take_bit 4 (word_of_nat d :: 64 word) = word_of_nat (take_bit 4 d)"
    by (simp add: take_bit_of_nat)
  also have "take_bit 4 d = d" using d by (simp add: take_bit_nat_eq_self_iff)
  finally have t: "take_bit 4 (word_of_nat d :: 64 word) = word_of_nat d" .
  have "push_bit 4 w AND take_bit 4 (word_of_nat d) = 0"
    by (rule bit_word_eqI) (auto simp: bit_simps)
  with t show ?thesis by (metis disjunctive_add_eq_or)
qed

lemma hexToSizeLoop_val:
  assumes "list_all IsValidHexCharacter s"
  shows "hexToSizeLoop (word_of_nat v) s = (None, word_of_nat (foldl (\<lambda>v c. 16 * v + hexDigitVal c) v s))"
  using assms
proof (induction s arbitrary: v)
  case (Cons c s)
  then have d: "chunkDigit c = hexDigitVal c" "hexDigitVal c < 16" using chunkDigit_val by simp_all
  have "push_bit 4 (word_of_nat v :: 64 word) OR word_of_nat (hexDigitVal c) = word_of_nat (16 * v + hexDigitVal c)"
    using push4 [OF d(2), of "word_of_nat v"] by (simp add: push_bit_eq_mult)
  with Cons.IH [of "16 * v + hexDigitVal c"] Cons.prems d show ?case by simp
qed simp

text \<open>
  The size of a chunk is the hexadecimal number written, modulo the width of \<open>size_t\<close>, and a
  string with any other character is refused.
\<close>

theorem ioHttpBodyChunkHexToSize_value:
  "ioHttpBodyChunkHexToSize s =
     (if list_all IsValidHexCharacter s then (None, word_of_nat (hexNumber s))
      else (Some ErrIllegalHexCharacter, word_of_nat (hexNumber (takeWhile IsValidHexCharacter s))))"
proof -
  have split: "hexToSizeLoop v (a @ c # b) = (Some ErrIllegalHexCharacter, snd (hexToSizeLoop v a))"
    if "list_all IsValidHexCharacter a" "\<not> IsValidHexCharacter c" for v a c b
    using that by (induction a arbitrary: v) auto
  let ?a = "takeWhile IsValidHexCharacter s"
  have a: "list_all IsValidHexCharacter ?a" by (auto simp: list_all_iff dest: set_takeWhileD)
  show ?thesis
  proof (cases "list_all IsValidHexCharacter s")
    case True
    with hexToSizeLoop_val [of s 0] show ?thesis
      by (simp add: ioHttpBodyChunkHexToSize_def hexNumber_def)
  next
    case False
    then obtain c b where b: "dropWhile IsValidHexCharacter s = c # b" "\<not> IsValidHexCharacter c"
      by (metis dropWhile_eq_Nil_conv hd_dropWhile list.exhaust_sel list_all_iff)
    then have "s = ?a @ c # b" by (metis takeWhile_dropWhile_id)
    with split [OF a b(2), of 0 b] hexToSizeLoop_val [OF a, of 0] False show ?thesis
      by (simp add: ioHttpBodyChunkHexToSize_def hexNumber_def)
  qed
qed

lemma show_hex_valid: "list_all IsValidHexCharacter (show_hex n) \<and> hexNumber (show_hex n) = n"
proof (induction n rule: show_hex.induct)
  case (1 n)
  then show ?case
    by (subst (1 2) show_hex.simps) (auto simp: hexNumber_def hex_digit_valid)
qed

lemma show_hex_size: "ioHttpBodyChunkHexToSize (show_hex n) = (None, word_of_nat n)"
  using show_hex_valid [of n] hexToSizeLoop_val [of "show_hex n" 0]
  by (simp add: ioHttpBodyChunkHexToSize_def hexNumber_def)

end
