(* ===== verification/Recv_Buffer.thy ===== *)
theory Recv_Buffer
  imports Http_Io Uri
begin

text \<open>
  \<open>src/client/recvbufr.c\<close>: the buffer between a socket of the client and the code that reads HTTP
  responses from it, with its four ways to know how long a response is, and the reading of a response
  header (\<open>ioHttpResponseHeaderRead\<close> of \<open>src/client/io.c\<close>).
\<close>

unbundle bit_operations_syntax

section \<open>State\<close>

definition RECV_BUFFER_DATA_LENGTH_UNKNOWN :: "32 word" where "RECV_BUFFER_DATA_LENGTH_UNKNOWN = 0"
definition RECV_BUFFER_DATA_LENGTH_CHUNK :: "32 word" where "RECV_BUFFER_DATA_LENGTH_CHUNK = 1"
definition RECV_BUFFER_DATA_LENGTH_KNOWN :: "32 word" where "RECV_BUFFER_DATA_LENGTH_KNOWN = 2"
definition RECV_BUFFER_DATA_LENGTH_TOKEN :: "32 word" where "RECV_BUFFER_DATA_LENGTH_TOKEN = 4"
definition RECV_BUFFER_DATA_LENGTH_COMPLETE :: "32 word" where "RECV_BUFFER_DATA_LENGTH_COMPLETE = 8"

text \<open>
  The members of the union share two words: \<open>rlFirst\<close> is \<open>chunk.next\<close>, \<open>known.escape\<close> and
  \<open>unknown.escape\<close>, \<open>rlSecond\<close> is \<open>chunk.total\<close>, \<open>known.total\<close>, \<open>token.length\<close> and \<open>unknown.limit\<close>. The
  pointer \<open>token.token\<close> is kept apart; it is set whenever the mode that reads it is entered.
\<close>

record RecvBufferLength =
  rlFirst :: int
  rlSecond :: int
  rlToken :: string

text \<open>
  \<open>rbBuffer\<close> is the heap block (\<open>None\<close> for \<open>NULL\<close>); its length is the field \<open>max\<close>, and the bytes in use
  are the first \<open>rbLen\<close>. \<open>rbSocket\<close> is \<open>None\<close> while the descriptor is closed or not connected, and
  \<open>rbAttempts\<close> is what the next attempts to connect will meet.
\<close>

record RecvBuffer =
  rbBuffer :: "string option"
  rbLen :: nat
  rbAddress :: SocketAddress
  rbSocket :: "Link option"
  rbAttempts :: "Attempt list"
  rbOptions :: "32 word"
  rbLength :: RecvBufferLength

abbreviation rbHas :: "RecvBuffer \<Rightarrow> 32 word \<Rightarrow> bool" where
  "rbHas self flag \<equiv> rbOptions self AND flag \<noteq> 0"

text \<open>The bytes in use.\<close>

definition rbData :: "RecvBuffer \<Rightarrow> string" where
  "rbData self = (case rbBuffer self of None \<Rightarrow> [] | Some m \<Rightarrow> take (rbLen self) m)"

text \<open>A signed file offset converted to \<open>size_t\<close>.\<close>

definition u64 :: "int \<Rightarrow> nat" where
  "u64 i = nat (i mod 2 ^ 64)"

definition setFirst :: "int \<Rightarrow> RecvBuffer \<Rightarrow> RecvBuffer" where
  "setFirst v self = self\<lparr>rbLength := (rbLength self)\<lparr>rlFirst := v\<rparr>\<rparr>"

definition setSecond :: "int \<Rightarrow> RecvBuffer \<Rightarrow> RecvBuffer" where
  "setSecond v self = self\<lparr>rbLength := (rbLength self)\<lparr>rlSecond := v\<rparr>\<rparr>"

abbreviation rbFirst :: "RecvBuffer \<Rightarrow> int" where "rbFirst self \<equiv> rlFirst (rbLength self)"
abbreviation rbSecond :: "RecvBuffer \<Rightarrow> int" where "rbSecond self \<equiv> rlSecond (rbLength self)"

text \<open>One call of \<open>AppendWait\<close> on the socket of the buffer.\<close>

definition rbRecv :: "nat \<Rightarrow> bool \<Rightarrow> RecvBuffer \<Rightarrow> RecvResult \<times> RecvBuffer" where
  "rbRecv n peek self =
     (case rbSocket self of
        None \<Rightarrow> (RecvFailed EBADF, self)
      | Some lk \<Rightarrow>
          let (r, st) = AppendWait n peek (lkIn lk)
          in (r, self\<lparr>rbSocket := Some (lk\<lparr>lkIn := st\<rparr>)\<rparr>))"

definition rbRest :: "RecvBuffer \<Rightarrow> string" where
  "rbRest self = (case rbSocket self of None \<Rightarrow> [] | Some lk \<Rightarrow> stRest (lkIn lk))"

definition rbArrivals :: "RecvBuffer \<Rightarrow> nat" where
  "rbArrivals self = (case rbSocket self of None \<Rightarrow> 0 | Some lk \<Rightarrow> length (stArrivals (lkIn lk)))"

section \<open>The four length modes\<close>

definition recvBufferSetLengthComplete :: "RecvBuffer \<Rightarrow> RecvBuffer" where
  "recvBufferSetLengthComplete self =
     (let self1 = self\<lparr>rbOptions := (rbOptions self AND NOT (RECV_BUFFER_DATA_LENGTH_KNOWN OR
                          RECV_BUFFER_DATA_LENGTH_TOKEN OR RECV_BUFFER_DATA_LENGTH_CHUNK))
                        OR RECV_BUFFER_DATA_LENGTH_COMPLETE\<rparr>
      in setFirst (-1) (setSecond 0 self1))"

definition recvBufferSetLengthKnown :: "RecvBuffer \<Rightarrow> int \<Rightarrow> RecvBuffer" where
  "recvBufferSetLengthKnown self len =
     (let self1 = self\<lparr>rbOptions := (rbOptions self AND NOT (RECV_BUFFER_DATA_LENGTH_CHUNK OR
                          RECV_BUFFER_DATA_LENGTH_TOKEN OR RECV_BUFFER_DATA_LENGTH_COMPLETE))
                        OR RECV_BUFFER_DATA_LENGTH_KNOWN\<rparr>
      in setFirst 0 (setSecond len self1))"

definition recvBufferSetLengthUnknown :: "RecvBuffer \<Rightarrow> nat \<Rightarrow> RecvBuffer" where
  "recvBufferSetLengthUnknown self limit =
     (let self1 = self\<lparr>rbOptions := rbOptions self AND NOT (RECV_BUFFER_DATA_LENGTH_CHUNK OR
                          RECV_BUFFER_DATA_LENGTH_KNOWN OR RECV_BUFFER_DATA_LENGTH_TOKEN OR
                          RECV_BUFFER_DATA_LENGTH_COMPLETE)\<rparr>
      in setFirst 0 (setSecond (int limit) self1))"

definition recvBufferSetLengthToken :: "RecvBuffer \<Rightarrow> string \<Rightarrow> nat \<Rightarrow> RecvBuffer" where
  "recvBufferSetLengthToken self token len =
     (let self1 = self\<lparr>rbOptions := (rbOptions self AND NOT (RECV_BUFFER_DATA_LENGTH_CHUNK OR
                          RECV_BUFFER_DATA_LENGTH_KNOWN OR RECV_BUFFER_DATA_LENGTH_COMPLETE))
                        OR RECV_BUFFER_DATA_LENGTH_TOKEN,
                     rbLength := (rbLength self)\<lparr>rlToken := token\<rparr>\<rparr>
      in setSecond (int len) self1)"

section \<open>Appending\<close>

definition BufferAppend :: "RecvBuffer \<Rightarrow> string \<Rightarrow> RecvBuffer res" where
  "BufferAppend self buf =
     (case rbBuffer self of
        None \<Rightarrow> Inl NullDereference
      | Some m \<Rightarrow>
          let n = rbLen self; len = length buf in
          Inr (self\<lparr>rbBuffer := Some (if length m < n + len then take n m @ buf
                                      else take n m @ buf @ drop (n + len) m),
                    rbLen := n + len\<rparr>))"

text \<open>The first component says that the transmission is to stop.\<close>

definition DataIncrement :: "RecvBuffer \<Rightarrow> nat \<Rightarrow> bool \<times> RecvBuffer" where
  "DataIncrement self added =
     (if rbHas self RECV_BUFFER_DATA_LENGTH_KNOWN then
        (let self1 = setFirst (rbFirst self + int added) self in
         if rbSecond self1 \<le> rbFirst self1 then (True, recvBufferSetLengthComplete self1) else (False, self1))
      else if rbHas self RECV_BUFFER_DATA_LENGTH_TOKEN then
        (let self1 = setSecond (rbSecond self + int added) self; token = rlToken (rbLength self) in
         if platformStringFindNeedleRaw (rbData self1) token (rbLen self1) (length token) \<noteq> None
         then (True, recvBufferSetLengthComplete self1) else (False, self1))
      else
        (let self1 = setFirst (rbFirst self + int added) self in
         (rbSecond self1 \<le> rbFirst self1, self1)))"

text \<open>
  The size of the next chunk in the bytes that were looked at, and how many of them belong to it.
  Between two chunks the line end of the first one comes before the size.
\<close>

definition chunkHeader :: "bool \<Rightarrow> string \<Rightarrow> (string \<times> nat) option" where
  "chunkHeader first b =
     (let s = takeWhile (\<lambda>c. c \<noteq> NUL) b in
      if first then
        (case strstr s HTTP_EOL of None \<Rightarrow> None | Some finish \<Rightarrow> Some (take finish s, finish + 2))
      else
        (case strstr s HTTP_EOL of
           None \<Rightarrow> None
         | Some hex \<Rightarrow>
             (case strstr_from s (hex + 2) HTTP_EOL of
                None \<Rightarrow> None
              | Some finish \<Rightarrow> Some (substr s (hex + 2) finish, finish + 2))))"

lemma AppendWait_Got:
  assumes "AppendWait n peek st = (Got d, st1)"
  shows "(\<exists>q z. stRest st = q @ z \<and> q \<noteq> [] \<and> d = take n q \<and> stRest st1 = (if peek then q @ z else drop n q @ z)) \<or>
         (stRest st = [] \<and> stRest st1 = [] \<and> d = [])"
proof (cases "stRest st = []")
  case True
  with AppendWait_cases [OF assms] show ?thesis by (auto split: option.splits)
next
  case False
  with AppendWait_cases [OF assms] show ?thesis by (intro disjI1) blast
qed

lemma AppendWait_rest:
  assumes "AppendWait n peek st = (Got d, st1)"
  shows "stRest st = (if peek then [] else d) @ stRest st1 \<and> length d \<le> n \<and> prefix d (stRest st) \<and>
         (n \<noteq> 0 \<longrightarrow> (d = [] \<longleftrightarrow> stRest st = []))"
  using AppendWait_Got [OF assms]
proof (elim disjE exE conjE)
  fix q z
  assume *: "stRest st = q @ z" "q \<noteq> []" "d = take n q" "stRest st1 = (if peek then q @ z else drop n q @ z)"
  have "prefix (take n q) (q @ z)" by (metis prefixI append_take_drop_id append_assoc)
  with * show ?thesis by (cases peek) auto
qed simp

lemma rbRecv_rest:
  assumes "rbRecv n peek self = (Got d, self1)"
  shows "rbRest self = (if peek then [] else d) @ rbRest self1 \<and> length d \<le> n \<and> prefix d (rbRest self) \<and>
         (n \<noteq> 0 \<longrightarrow> (d = [] \<longleftrightarrow> rbRest self = []))"
proof -
  from assms obtain lk st where lk: "rbSocket self = Some lk" "AppendWait n peek (lkIn lk) = (Got d, st)"
    "self1 = self\<lparr>rbSocket := Some (lk\<lparr>lkIn := st\<rparr>)\<rparr>"
    by (auto simp: rbRecv_def split: option.splits prod.splits)
  from lk(1,3) have "rbRest self = stRest (lkIn lk)" "rbRest self1 = stRest st" by (simp_all add: rbRest_def)
  then show ?thesis using AppendWait_rest [OF lk(2)] by metis
qed

lemma rbRecv_peek_consume:
  assumes "rbRecv n True self = (Got d, self1)" "d \<noteq> []" "rbRest self2 = rbRest self1"
    "rbRecv k False self2 = (Got d2, self3)" "k \<noteq> 0"
  shows "length (rbRest self3) < length (rbRest self)"
proof -
  have "rbRest self = rbRest self1" "rbRest self \<noteq> []"
    using rbRecv_rest [OF assms(1)] assms(2) by auto
  with rbRecv_rest [OF assms(4)] assms(3,5) show ?thesis by (cases d2) auto
qed

lemma rbRest_setFirst [simp]: "rbRest (setFirst v self) = rbRest self"
  by (simp add: rbRest_def setFirst_def)

lemma BufferAppend_rest: "BufferAppend self d = Inr self1 \<Longrightarrow> rbRest self1 = rbRest self"
  by (auto simp: BufferAppend_def rbRest_def Let_def split: option.splits)

lemma chunkHeader_length: "chunkHeader f b = Some (hex, j) \<Longrightarrow> 2 \<le> j"
  by (auto simp: chunkHeader_def Let_def split: if_splits option.splits)

text \<open>
  The two labelled loops of \<open>recvBufferAppendChunk\<close>: with \<open>parse\<close> the size of the next chunk is read,
  otherwise the data of the current one. The data asked for is never more than what is left of the
  chunk, so the branch for an answer longer than that is dead and left out.
\<close>

function chunkLoop :: "bool \<Rightarrow> RecvBuffer \<Rightarrow> nat \<Rightarrow> (ClientErr option \<times> RecvBuffer) res" where
  "chunkLoop parse self len =
     (let nxt = rbFirst self in
      if parse then
        (case rbRecv 19 True self of
           (RecvFailed e, self1) \<Rightarrow> Inr (Some (StrError e), self1)
         | (TryAgain, self1) \<Rightarrow> Inl EndlessLoop
         | (Got b, self1) \<Rightarrow>
             if length b < (if nxt = -1 then 3 else 5) then Inr (None, self1)
             else (case chunkHeader (nxt = -1) b of
                     None \<Rightarrow> Inr (Some ErrMalformedChunkEncoding, self1)
                   | Some (hex, j) \<Rightarrow>
                       (case ioHttpBodyChunkHexToSize hex of
                          (Some e, _) \<Rightarrow> Inr (Some e, self1)
                        | (None, l) \<Rightarrow>
                            (case rbRecv j False self1 of
                               (RecvFailed e, self2) \<Rightarrow> Inr (Some (StrError e), self2)
                             | (TryAgain, self2) \<Rightarrow> Inl EndlessLoop
                             | (Got _, self2) \<Rightarrow>
                                 if l \<noteq> 0 then chunkLoop False (setFirst (sint l) self2) len
                                 else Inr (None, recvBufferSetLengthComplete (setFirst (-1) self2))))))
      else if 0 < len \<and> 0 < u64 nxt then
        (let s = min (min (u64 nxt) len) SB_DATA_SIZE in
         case rbRecv s True self of
           (RecvFailed e, self1) \<Rightarrow> Inr (Some (StrError e), self1)
         | (TryAgain, self1) \<Rightarrow> Inl EndlessLoop
         | (Got d, self1) \<Rightarrow>
             (case BufferAppend self1 d of
                Inl f \<Rightarrow> Inl f
              | Inr self2 \<Rightarrow>
                  (case rbRecv (length d) False (setFirst (nxt - int (length d)) self2) of
                     (RecvFailed e, self3) \<Rightarrow> Inr (Some (StrError e), self3)
                   | (TryAgain, self3) \<Rightarrow> Inl EndlessLoop
                   | (Got _, self3) \<Rightarrow>
                       if length d < s then Inr (None, self3)
                       else chunkLoop False self3 (len - length d))))
      else if len = 0 then Inr (None, self)
      else chunkLoop True self len)"
  by pat_completeness auto
termination
proof (relation "measure (\<lambda>(parse, self, len). 2 * length (rbRest self) + (if parse then 0 else 1))", goal_cases)
  case (2 parse self len x xa y b p hex j xc l xd self2 u)
  then have "rbRecv 19 True self = (Got b, y)" "b \<noteq> []" "rbRecv j False y = (Got u, self2)" "j \<noteq> 0"
    using chunkHeader_length [of "x = - 1" b hex j] by (auto split: if_splits)
  from rbRecv_peek_consume [OF this(1,2) refl this(3,4)] 2(2) show ?case by simp
next
  case (3 parse self len x s xb y d self2 xc self3 u)
  then have r: "rbRecv s True self = (Got d, y)" "rbRecv (length d) False (setFirst (x - int (length d)) self2) = (Got u, self3)"
    by simp_all
  have "s \<noteq> 0" using 3(3,4) by (simp add: SB_DATA_SIZE_def)
  with 3(10) have "d \<noteq> []" by auto
  with rbRecv_peek_consume [OF r(1) _ _ r(2)] BufferAppend_rest [OF 3(7)] 3(2) show ?case by simp
next
  case (4 parse self len x)
  then show ?case by simp
qed simp

declare chunkLoop.simps [simp del]

text \<open>
  The loop of \<open>recvBufferAppend\<close> when the response is not chunked; \<open>i\<close> counts the bytes appended by
  this call.
\<close>

function appendLoop :: "RecvBuffer \<Rightarrow> nat \<Rightarrow> nat \<Rightarrow> (ClientErr option \<times> RecvBuffer) res" where
  "appendLoop self len i =
     (if i < len then
        (case rbRecv (min (len - i) SB_DATA_SIZE) False self of
           (RecvFailed e, self1) \<Rightarrow> Inr (Some (StrError e), self1)
         | (TryAgain, self1) \<Rightarrow> Inl EndlessLoop
         | (Got l, self1) \<Rightarrow>
             if l = [] then Inr (if i \<noteq> 0 then None else Some ErrNoDataToBeRetrieved, self1)
             else (case BufferAppend self1 l of
                     Inl f \<Rightarrow> Inl f
                   | Inr self2 \<Rightarrow>
                       (case DataIncrement self2 (length l) of
                          (stop, self3) \<Rightarrow>
                            if stop then Inr (None, self3) else appendLoop self3 len (i + length l))))
      else Inr (None, self))"
  by pat_completeness auto
termination
proof (relation "measure (\<lambda>(self, len, i). len - i)", goal_cases)
  case (2 self len i x y d self1 stop self2)
  then show ?case by (cases d) auto
qed simp

declare appendLoop.simps [simp del]

definition recvBufferAppend :: "RecvBuffer \<Rightarrow> nat \<Rightarrow> (ClientErr option \<times> RecvBuffer) res" where
  "recvBufferAppend self len =
     (if rbHas self RECV_BUFFER_DATA_LENGTH_COMPLETE then Inr (Some ErrRequestCompleted, self)
      else
        let self1 = (case rbBuffer self of
                       None \<Rightarrow> self\<lparr>rbBuffer := Some (replicate SB_DATA_SIZE NUL), rbLen := 0\<rparr>
                     | Some _ \<Rightarrow> self)
        in if rbHas self1 RECV_BUFFER_DATA_LENGTH_CHUNK then chunkLoop (rbFirst self1 = -1) self1 len
           else appendLoop self1 len 0)"

section \<open>Looking at and removing what was received\<close>

definition recvBufferClear :: "RecvBuffer \<Rightarrow> RecvBuffer" where
  "recvBufferClear self =
     (case rbBuffer self of None \<Rightarrow> self | Some _ \<Rightarrow> self\<lparr>rbBuffer := None, rbLen := 0\<rparr>)"

definition recvBufferDitch :: "RecvBuffer \<Rightarrow> nat \<Rightarrow> RecvBuffer" where
  "recvBufferDitch self len =
     (if len = 0 then self
      else if len < rbLen self then
        (let diff = rbLen self - len in
         self\<lparr>rbBuffer := map_option (\<lambda>m. take diff (drop len m) @ drop diff m) (rbBuffer self), rbLen := diff\<rparr>)
      else self\<lparr>rbBuffer := None, rbLen := 0\<rparr>)"

text \<open>\<open>NULL\<close> is \<open>None\<close>. \<open>size_t\<close> differences wrap around.\<close>

definition subSize :: "nat \<Rightarrow> nat \<Rightarrow> nat" where
  "subSize a b = (if b \<le> a then a - b else 2 ^ 64 - (b - a))"

definition recvBufferCopyBetween :: "RecvBuffer \<Rightarrow> nat \<Rightarrow> nat \<Rightarrow> string option res" where
  "recvBufferCopyBetween self start end0 =
     (case rbBuffer self of
        None \<Rightarrow> Inl NullDereference
      | Some m \<Rightarrow>
          if end0 < start \<or> rbLen self + 1 < start \<and> rbLen self < end0 then Inr None
          else if rbLen self < end0 then
            (let n = rbLen self + 1 - start in
             if length m < start + n then Inl OutOfBounds else Inr (Some (take n (drop start m))))
          else if end0 = start then Inl BufferOverflow
          else Inr (Some (take (end0 - start - 1) (drop start m) @ [NUL])))"

text \<open>The bytes copied to \<open>buf\<close>, to which the code adds a NUL.\<close>

definition recvBufferFetch :: "RecvBuffer \<Rightarrow> nat \<Rightarrow> nat \<Rightarrow> (ClientErr option \<times> string) res" where
  "recvBufferFetch self pos len =
     (case rbBuffer self of
        None \<Rightarrow> Inr (Some ErrNoBufferedData, [])
      | Some m \<Rightarrow>
          if len = 0 then Inr (Some ErrNoBufferedData, [])
          else
            let l = subSize (rbLen self) pos;
                n = (if l < len then l else len - 1)
            in if 0 < n \<and> length m < pos + n then Inl OutOfBounds
               else Inr (None, take n (drop pos m)))"

text \<open>
  Comparison of the \<open>len\<close> bytes of the token with the block from one place on, and the search. The
  answer \<open>-1\<close> is \<open>None\<close>.
\<close>

fun tokenRun :: "string \<Rightarrow> string \<Rightarrow> bool res" where
  "tokenRun m [] = Inr True"
| "tokenRun [] (t # ts) = Inl OutOfBounds"
| "tokenRun (c # m) (t # ts) = (if toupperC c = toupperC t then tokenRun m ts else Inr False)"

function findLoop :: "string \<Rightarrow> nat \<Rightarrow> nat \<Rightarrow> string \<Rightarrow> nat \<Rightarrow> nat \<Rightarrow> nat \<Rightarrow> nat option res" where
  "findLoop m n pos token len l i =
     (if l \<le> i then Inr None
      else if length m \<le> pos + i then Inl OutOfBounds
      else if toupperC (m ! (pos + i)) = toupperC (chC token 0) then
        (if n < i + len then Inr None
         else (case tokenRun (drop (pos + i) m) (take len token) of
                 Inl f \<Rightarrow> Inl f
               | Inr same \<Rightarrow> if same then Inr (Some (pos + i)) else findLoop m n pos token len l (i + 1)))
      else findLoop m n pos token len l (i + 1))"
  by pat_completeness auto
termination
  by (relation "measure (\<lambda>(m, n, pos, token, len, l, i). length m - (pos + i))") auto

declare findLoop.simps [simp del]

definition recvBufferFind :: "RecvBuffer \<Rightarrow> nat \<Rightarrow> string \<Rightarrow> nat \<Rightarrow> nat option res" where
  "recvBufferFind self pos token len =
     (case rbBuffer self of
        None \<Rightarrow> Inr None
      | Some m \<Rightarrow>
          if rbLen self < pos then Inr None
          else findLoop m (rbLen self) pos token len (subSize (rbLen self) (pos + 1)) 0)"

text \<open>
  The loops that append until something is found. Every turn that does not end the loop reads from
  the stream or lets data arrive, so \<open>turnBudget\<close> turns are enough; a loop that needs more is one in
  which nothing changes any more, and its result is \<open>Inl EndlessLoop\<close>.
\<close>

definition turnBudget :: "RecvBuffer \<Rightarrow> nat" where
  "turnBudget self = length (rbRest self) + rbArrivals self + 2"

fun fillLoop :: "nat \<Rightarrow> RecvBuffer \<Rightarrow> nat \<Rightarrow> (ClientErr option \<times> RecvBuffer) res" where
  "fillLoop fuel self len =
     (if len \<le> rbLen self then Inr (None, self)
      else (case fuel of
              0 \<Rightarrow> Inl EndlessLoop
            | Suc k \<Rightarrow>
                (case recvBufferAppend self SB_DATA_SIZE of
                   Inl f \<Rightarrow> Inl f
                 | Inr (Some e, self1) \<Rightarrow> Inr (Some e, self1)
                 | Inr (None, self1) \<Rightarrow> fillLoop k self1 len)))"

declare fillLoop.simps [simp del]

text \<open>The beginning that \<open>recvBufferFindAndDitch\<close> and \<open>recvBufferFindAndFetch\<close> share.\<close>

definition bufferReady :: "RecvBuffer \<Rightarrow> nat \<Rightarrow> (ClientErr option \<times> RecvBuffer) res" where
  "bufferReady self len =
     (case (if rbBuffer self = None then recvBufferAppend self SB_DATA_SIZE else Inr (None, self)) of
        Inl f \<Rightarrow> Inl f
      | Inr (Some e, self1) \<Rightarrow> Inr (Some e, self1)
      | Inr (None, self1) \<Rightarrow> fillLoop (turnBudget self1) self1 len)"

text \<open>The result also holds where the token is, and how much was removed.\<close>

fun ditchLoop :: "nat \<Rightarrow> RecvBuffer \<Rightarrow> string \<Rightarrow> nat \<Rightarrow> nat \<Rightarrow> (ClientErr option \<times> RecvBuffer \<times> nat \<times> nat) res" where
  "ditchLoop fuel self token len d =
     (case recvBufferFind self 0 token len of
        Inl f \<Rightarrow> Inl f
      | Inr (Some off) \<Rightarrow> Inr (None, self, off, d)
      | Inr None \<Rightarrow>
          (case fuel of
             0 \<Rightarrow> Inl EndlessLoop
           | Suc k \<Rightarrow>
               (case recvBufferAppend self SB_DATA_SIZE of
                  Inl f \<Rightarrow> Inl f
                | Inr (Some e, self1) \<Rightarrow> Inr (Some e, self1, 0, d)
                | Inr (None, self1) \<Rightarrow>
                    (case recvBufferFind self1 0 token len of
                       Inl f \<Rightarrow> Inl f
                     | Inr (Some off) \<Rightarrow> Inr (None, self1, off, d)
                     | Inr None \<Rightarrow>
                         if len < rbLen self1 then
                           ditchLoop k (recvBufferDitch self1 (rbLen self1 - len)) token len (d + (rbLen self1 - len))
                         else ditchLoop k self1 token len d))))"

declare ditchLoop.simps [simp del]

text \<open>\<open>*ditched\<close> is assigned on success only. A token at offset 1 is left there: the test is \<open>o > 1\<close>.\<close>

definition recvBufferFindAndDitch :: "RecvBuffer \<Rightarrow> string \<Rightarrow> nat \<Rightarrow> (ClientErr option \<times> RecvBuffer \<times> nat option) res" where
  "recvBufferFindAndDitch self token len =
     (case bufferReady self len of
        Inl f \<Rightarrow> Inl f
      | Inr (Some e, self1) \<Rightarrow> Inr (Some e, self1, None)
      | Inr (None, self1) \<Rightarrow>
          (case ditchLoop (turnBudget self1) self1 token len 0 of
             Inl f \<Rightarrow> Inl f
           | Inr (Some e, self2, _, _) \<Rightarrow> Inr (Some e, self2, None)
           | Inr (None, self2, off, d) \<Rightarrow>
               if 1 < off then Inr (None, recvBufferDitch self2 off, Some (d + off)) else Inr (None, self2, Some d)))"

fun fetchLoop :: "nat \<Rightarrow> RecvBuffer \<Rightarrow> string \<Rightarrow> nat \<Rightarrow> nat \<Rightarrow> (ClientErr option \<times> RecvBuffer) res" where
  "fetchLoop fuel self token len limit =
     (case recvBufferFind self 0 token len of
        Inl f \<Rightarrow> Inl f
      | Inr (Some _) \<Rightarrow> Inr (None, self)
      | Inr None \<Rightarrow>
          (case fuel of
             0 \<Rightarrow> Inl EndlessLoop
           | Suc k \<Rightarrow>
               (case recvBufferAppend self SB_DATA_SIZE of
                  Inl f \<Rightarrow> Inl f
                | Inr (Some e, self1) \<Rightarrow> Inr (Some e, self1)
                | Inr (None, self1) \<Rightarrow>
                    if limit < rbLen self1 then Inr (Some ErrExceededMaximumAllowedBufferSize, self1)
                    else fetchLoop k self1 token len limit)))"

declare fetchLoop.simps [simp del]

definition recvBufferFindAndFetch :: "RecvBuffer \<Rightarrow> string \<Rightarrow> nat \<Rightarrow> nat \<Rightarrow> (ClientErr option \<times> RecvBuffer) res" where
  "recvBufferFindAndFetch self token len limit =
     (if limit < len then Inr (Some ErrTokenBiggerThenBufferLimits, self)
      else (case bufferReady self len of
              Inl f \<Rightarrow> Inl f
            | Inr (Some e, self1) \<Rightarrow> Inr (Some e, self1)
            | Inr (None, self1) \<Rightarrow>
                (case (if rbLen self1 \<le> len then recvBufferAppend self1 SB_DATA_SIZE else Inr (None, self1)) of
                   Inl f \<Rightarrow> Inl f
                 | Inr (Some e, self2) \<Rightarrow> Inr (Some e, self2)
                 | Inr (None, self2) \<Rightarrow> fetchLoop (turnBudget self2) self2 token len limit)))"

section \<open>Connecting\<close>

definition recvBufferUpdateSocket :: "RecvBuffer \<Rightarrow> Link option \<Rightarrow> RecvBuffer" where
  "recvBufferUpdateSocket self socket = self\<lparr>rbSocket := socket\<rparr>"

text \<open>
  \<open>len\<close> is not initialised by \<open>recvBufferNew\<close>: \<open>junk\<close> is what the memory happened to hold. The attempts
  are the network the buffer will meet.
\<close>

definition recvBufferNew :: "nat \<Rightarrow> Link option \<Rightarrow> Attempt list \<Rightarrow> SocketAddress \<Rightarrow> 32 word \<Rightarrow> RecvBuffer" where
  "recvBufferNew junk serverSocket attempts serverAddress options =
     \<lparr>rbBuffer = None, rbLen = junk, rbAddress = serverAddress, rbSocket = serverSocket, rbAttempts = attempts,
      rbOptions = options, rbLength = \<lparr>rlFirst = 0, rlSecond = 0, rlToken = []\<rparr>\<rparr>"

text \<open>The errors of a network that is not described any further.\<close>

definition ENETUNREACH :: Errno where "ENETUNREACH = OtherErrno 101"

definition ioCreateSocketFromSocketAddress :: "Attempt list \<Rightarrow> ClientErr option \<times> Attempt list" where
  "ioCreateSocketFromSocketAddress attempts =
     (case attempts of NoSocket e # as \<Rightarrow> (Some (StrError e), as) | _ \<Rightarrow> (None, attempts))"

text \<open>\<open>connect (2)\<close> on a new socket.\<close>

definition sock_connect :: "Attempt list \<Rightarrow> (Errno + Link) \<times> Attempt list" where
  "sock_connect attempts =
     (case attempts of
        Opened lk # as \<Rightarrow> (Inr lk, as)
      | Refused e # as \<Rightarrow> (Inl e, as)
      | _ \<Rightarrow> (Inl ENETUNREACH, attempts))"

definition recvBufferConnect :: "RecvBuffer \<Rightarrow> ClientErr option \<times> RecvBuffer" where
  "recvBufferConnect self =
     (case sock_connect (rbAttempts self) of
        (Inl e, as) \<Rightarrow> (Some (StrError e), self\<lparr>rbAttempts := as\<rparr>)
      | (Inr lk, as) \<Rightarrow> (None, self\<lparr>rbSocket := Some lk, rbAttempts := as\<rparr>))"

definition recvBufferReconnect :: "RecvBuffer \<Rightarrow> ClientErr option \<times> RecvBuffer" where
  "recvBufferReconnect self =
     (let self1 = self\<lparr>rbSocket := None\<rparr> in
      case ioCreateSocketFromSocketAddress (rbAttempts self1) of
        (Some e, as) \<Rightarrow> (Some e, self1\<lparr>rbAttempts := as\<rparr>)
      | (None, as) \<Rightarrow> recvBufferConnect (self1\<lparr>rbAttempts := as\<rparr>))"

text \<open>The buffer is assigned only when the connection stands.\<close>

definition recvBufferNewFromSocketAddress ::
    "nat \<Rightarrow> Attempt list \<Rightarrow> SocketAddress \<Rightarrow> 32 word \<Rightarrow> ClientErr option \<times> RecvBuffer option" where
  "recvBufferNewFromSocketAddress junk attempts serverAddress options =
     (case ioCreateSocketFromSocketAddress attempts of
        (Some e, _) \<Rightarrow> (Some e, None)
      | (None, as) \<Rightarrow>
          (case sock_connect as of
             (Inl e, _) \<Rightarrow> (Some (StrError e), None)
           | (Inr lk, as1) \<Rightarrow> (None, Some (recvBufferNew junk (Some lk) as1 serverAddress options))))"

definition emptyAddress :: SocketAddress where
  "emptyAddress = \<lparr>saFamily = AF_UNSPEC, saAddress = 0, saPort = 0, saScheme = 0, saState = SA_STATE_QUEUED\<rparr>"

definition recvBufferNewFromUriDetails ::
    "nat \<Rightarrow> Attempt list \<Rightarrow> resolver \<Rightarrow> UriDetails \<Rightarrow> 32 word \<Rightarrow> ClientErr option \<times> RecvBuffer option" where
  "recvBufferNewFromUriDetails junk attempts env details options =
     (case uriDetailsCreateSocketAddress env details emptyAddress (schemeValue (uriDetailsGetScheme details)) of
        (True, _) \<Rightarrow> (Some (Message ''Unable to extract address information from URI''), None)
      | (False, a) \<Rightarrow> recvBufferNewFromSocketAddress junk attempts a options)"

definition recvBufferNewFromUri ::
    "nat \<Rightarrow> Attempt list \<Rightarrow> resolver \<Rightarrow> string \<Rightarrow> 32 word \<Rightarrow> ClientErr option \<times> RecvBuffer option" where
  "recvBufferNewFromUri junk attempts env uri options =
     recvBufferNewFromUriDetails junk attempts env (uriDetailsNewFrom (Some uri)) options"

section \<open>Sending a request\<close>

text \<open>
  The loop that sends \<open>data[sent], \<dots>\<close>: whether all of it was accepted, how much was sent, and the
  connection after it. Sending nothing at all is answered 0 and never ends.
\<close>

function keepSending :: "Link \<Rightarrow> string \<Rightarrow> nat \<Rightarrow> (bool \<times> nat \<times> Link) res" where
  "keepSending lk data sent =
     (case link_send lk (drop sent data) of
        (Broken, lk1) \<Rightarrow> Inr (False, sent, lk1)
      | (WouldBlock, lk1) \<Rightarrow> keepSending lk1 data sent
      | (Accepts s, lk1) \<Rightarrow>
          if s = 0 then (if lkAnswers lk = [] then Inl EndlessLoop else keepSending lk1 data sent)
          else if sent + s = length data then Inr (True, sent + s, lk1)
          else if lkAnswers lk = [] then Inl EndlessLoop
          else keepSending lk1 data (sent + s))"
  by pat_completeness auto
termination
  by (relation "measure (\<lambda>(lk, data, sent). length (lkAnswers lk))")
    (auto simp: link_send.simps split: list.splits SendAnswer.splits)

declare keepSending.simps [simp del]

text \<open>
  One attempt: the data is sent and the remote is watched for a reply. The result says whether that
  worked and how much counts as sent: after a broken \<open>send\<close> what it had accepted, after a missing reply
  nothing.
\<close>

definition sendOnce :: "string \<Rightarrow> nat \<Rightarrow> RecvBuffer \<Rightarrow> (bool \<times> nat \<times> RecvBuffer) res" where
  "sendOnce data sent self =
     (case rbSocket self of
        None \<Rightarrow> Inr (False, sent, self)
      | Some lk \<Rightarrow>
          (case keepSending lk data sent of
             Inl f \<Rightarrow> Inl f
           | Inr (False, sent1, lk1) \<Rightarrow> Inr (False, sent1, self\<lparr>rbSocket := Some lk1\<rparr>)
           | Inr (True, sent1, lk1) \<Rightarrow>
               (case rbRecv SB_DATA_SIZE True (self\<lparr>rbSocket := Some lk1\<rparr>) of
                  (Got d, self1) \<Rightarrow> if d \<noteq> [] then Inr (True, sent1, self1) else Inr (False, 0, self1)
                | (_, self1) \<Rightarrow> Inr (False, 0, self1))))"

text \<open>
  The attempts: \<open>left\<close> counts how often the socket may still be connected anew, \<open>e\<close> is the result of
  the last time it was.
\<close>

fun sendTries :: "nat \<Rightarrow> string \<Rightarrow> nat \<Rightarrow> ClientErr option \<Rightarrow> RecvBuffer \<Rightarrow> (ClientErr option \<times> RecvBuffer) res" where
  "sendTries left data sent e self =
     (case sendOnce data sent self of
        Inl f \<Rightarrow> Inl f
      | Inr (True, _, self1) \<Rightarrow> Inr (None, self1)
      | Inr (False, sent1, self1) \<Rightarrow>
          (case left of
             0 \<Rightarrow> Inr (e, self1)
           | Suc k \<Rightarrow> (case recvBufferReconnect self1 of (e1, self2) \<Rightarrow> sendTries k data sent1 e1 self2)))"

declare sendTries.simps [simp del]

definition recvBufferSend :: "RecvBuffer \<Rightarrow> string \<Rightarrow> (ClientErr option \<times> RecvBuffer) res" where
  "recvBufferSend self data =
     (let self1 = (if rbOptions self \<noteq> 0 \<and> \<not> rbHas self RECV_BUFFER_DATA_LENGTH_COMPLETE
                   then recvBufferClear (snd (recvBufferReconnect self)) else self)
      in sendTries 2 data 0 None (recvBufferSetLengthUnknown self1 SB_DATA_SIZE))"

section \<open>Entering the chunk mode\<close>

text \<open>
  \<open>HttpChunkParseExistingBuffer\<close> removes the sizes of the chunks that are in the buffer already. The
  result says whether it gave up. \<open>hexArray\<close> is the array of 20 bytes after it was cleared and filled;
  a size that is not hexadecimal changes nothing, and the loop goes round for ever. The moved part
  has the length \<open>self->len - l\<close>, which wraps around when the size lies behind the bytes in use.
\<close>

definition chunkRemove :: "nat \<Rightarrow> nat \<Rightarrow> RecvBuffer \<Rightarrow> RecvBuffer" where
  "chunkRemove tot i self =
     (let k = rbLen self - (tot + i) in
      self\<lparr>rbBuffer := map_option (\<lambda>m. take tot m @ take k (drop (tot + i) m) @ drop (tot + k) m) (rbBuffer self),
           rbLen := rbLen self - i\<rparr>)"

lemma chunkRemove_simps [simp]:
  "rbRest (chunkRemove t i self) = rbRest self" "rbLen (chunkRemove t i self) = rbLen self - i"
  by (simp_all add: chunkRemove_def rbRest_def Let_def)

lemma set_simps [simp]:
  "rbRest (setSecond v self) = rbRest self" "rbLen (setSecond v self) = rbLen self" "rbLen (setFirst v self) = rbLen self"
  by (simp_all add: setSecond_def setFirst_def rbRest_def)

definition hexArray :: "string \<Rightarrow> string" where
  "hexArray b = b @ replicate (20 - length b) NUL"

abbreviation cstring :: "string \<Rightarrow> string" where
  "cstring b \<equiv> takeWhile (\<lambda>c. c \<noteq> NUL) b"

lemma rbRecv_consumes:
  assumes "rbRest self \<noteq> []" "n \<noteq> 0"
  shows "length (rbRest (snd (rbRecv n False self))) < length (rbRest self)"
proof -
  obtain r self1 where r: "rbRecv n False self = (r, self1)" by fastforce
  from assms(1) obtain lk where lk: "rbSocket self = Some lk" "stRest (lkIn lk) \<noteq> []"
    by (auto simp: rbRest_def split: option.splits)
  obtain a st where a: "AppendWait n False (lkIn lk) = (a, st)" by fastforce
  with AppendWait_cases [OF a] lk r obtain d where "r = Got d" by (auto simp: rbRecv_def)
  with rbRecv_rest [of n False self d self1] r assms show ?thesis by (cases d) auto
qed

function chunkExisting :: "RecvBuffer \<Rightarrow> (bool \<times> RecvBuffer) res" where
  "chunkExisting self =
     (let tot = rbSecond self in
      if u64 tot < rbLen self then
        (case recvBufferFetch self (u64 (if tot \<noteq> 0 then tot + 2 else tot)) 20 of
           Inl f \<Rightarrow> Inl f
         | Inr (_, b) \<Rightarrow>
             (case strstr (cstring b) HTTP_EOL of
                Some finish \<Rightarrow>
                  (case ioHttpBodyChunkHexToSize (take finish (cstring b)) of
                     (Some _, _) \<Rightarrow> Inl EndlessLoop
                   | (None, s) \<Rightarrow>
                       let i = finish + (if tot \<noteq> 0 then 4 else 2) in
                       if rbLen self < u64 tot + i then Inl BufferOverflow
                       else chunkExisting (setFirst (sint s) (setSecond (tot + sint s) (chunkRemove (u64 tot) i self))))
              | None \<Rightarrow>
                  (case rbRecv 19 True self of
                     (Got p, self1) \<Rightarrow>
                       (let h = cstring (p @ drop (length p) (hexArray b)) in
                        case strstr h HTTP_EOL of
                          None \<Rightarrow> Inr (True, self1)
                        | Some q \<Rightarrow>
                            (case BufferAppend self1 (take (q + 2) h) of
                               Inl f \<Rightarrow> Inl f
                             | Inr self2 \<Rightarrow> chunkExisting (snd (rbRecv (q + 2) False self2))))
                   | (_, self1) \<Rightarrow> Inr (True, self1))))
      else Inr (False, setFirst (tot - int (rbLen self)) self))"
  by pat_completeness auto
termination
proof (relation "measures [\<lambda>self. length (rbRest self), rbLen]", goal_cases)
  case (2 self x b xa y xb self1 p h q self2)
  have "p \<noteq> []"
  proof
    assume "p = []"
    moreover have "cstring (y @ replicate n NUL) = cstring y" for n
      by (induction y) (simp_all add: takeWhile_replicate)
    ultimately have "h = cstring y" using 2(8) by (simp add: hexArray_def)
    with 2(5,9) show False by simp
  qed
  with 2(6,7) rbRecv_rest [of 19 True self p self1] have r: "rbRest self \<noteq> []" "rbRest self1 = rbRest self"
    by auto
  with rbRecv_consumes [of self2 "q + 2"] BufferAppend_rest [OF 2(10)] show ?case by simp
next
  case (3 self x b xa y x2 xaa ya xab)
  then show ?case by (auto split: if_splits)
qed simp

declare chunkExisting.simps [simp del]

definition HttpChunkParseExistingBuffer :: "RecvBuffer \<Rightarrow> RecvBuffer res" where
  "HttpChunkParseExistingBuffer self =
     (case chunkExisting (setFirst 0 (setSecond 0 self)) of
        Inl f \<Rightarrow> Inl f
      | Inr (False, self1) \<Rightarrow> Inr self1
      | Inr (True, self1) \<Rightarrow> Inr (recvBufferSetLengthUnknown ((recvBufferClear self1)\<lparr>rbSocket := None\<rparr>) 0))"

definition recvBufferSetLengthChunk :: "RecvBuffer \<Rightarrow> RecvBuffer res" where
  "recvBufferSetLengthChunk self =
     (let self1 = self\<lparr>rbOptions := (rbOptions self AND NOT (RECV_BUFFER_DATA_LENGTH_KNOWN OR
                          RECV_BUFFER_DATA_LENGTH_TOKEN OR RECV_BUFFER_DATA_LENGTH_COMPLETE))
                        OR RECV_BUFFER_DATA_LENGTH_CHUNK\<rparr>
      in if rbBuffer self1 \<noteq> None \<and> rbLen self1 \<noteq> 0 then HttpChunkParseExistingBuffer self1
         else Inr (setFirst (-1) (setSecond 0 self1)))"

section \<open>Reading a response header\<close>

text \<open>
  \<open>ioHttpResponseHeaderRead\<close>: the header up to the line end before the empty line, or \<open>None\<close>. The bytes
  behind the empty line stay in the buffer.
\<close>

definition ioHttpResponseHeaderRead :: "RecvBuffer \<Rightarrow> (ClientErr option \<times> string option \<times> RecvBuffer) res" where
  "ioHttpResponseHeaderRead self =
     (let token = HTTP_EOL @ HTTP_EOL in
      case recvBufferFindAndFetch (recvBufferSetLengthToken self token 4) token 4 4096 of
        Inl f \<Rightarrow> Inl f
      | Inr (Some e, self1) \<Rightarrow> Inr (Some e, None, self1)
      | Inr (None, self1) \<Rightarrow>
          (case recvBufferFetch self1 0 (rbLen self1 + 1) of
             Inl f \<Rightarrow> Inl f
           | Inr (Some e, _) \<Rightarrow> Inr (Some e, None, self1)
           | Inr (None, b) \<Rightarrow>
               (case strstr (cstring b) token of
                  None \<Rightarrow> Inr (Some (Message ''No token found''), None, self1)
                | Some t \<Rightarrow>
                    Inr (None, Some (take (t + 2) (cstring b)), recvBufferDitch self1 (t + 2 + 2)))))"

section \<open>Invariant and frame lemmas\<close>

text \<open>The type invariant: the bytes in use lie in the block.\<close>

definition rbOk :: "RecvBuffer \<Rightarrow> bool" where
  "rbOk self \<longleftrightarrow> (case rbBuffer self of None \<Rightarrow> rbLen self = 0 | Some m \<Rightarrow> rbLen self \<le> length m)"

text \<open>What the operations on modes and lengths leave alone.\<close>

lemma mode_frame [simp]:
  "rbBuffer (setFirst v s) = rbBuffer s" "rbBuffer (setSecond v s) = rbBuffer s"
  "rbSocket (setFirst v s) = rbSocket s" "rbSocket (setSecond v s) = rbSocket s"
  "rbAttempts (setFirst v s) = rbAttempts s" "rbAttempts (setSecond v s) = rbAttempts s"
  "rbOptions (setFirst v s) = rbOptions s" "rbOptions (setSecond v s) = rbOptions s"
  "rbFirst (setFirst v s) = v" "rbSecond (setSecond v s) = v"
  "rbFirst (setSecond v s) = rbFirst s" "rbSecond (setFirst v s) = rbSecond s"
  "rlToken (rbLength (setFirst v s)) = rlToken (rbLength s)" "rlToken (rbLength (setSecond v s)) = rlToken (rbLength s)"
  by (simp_all add: setFirst_def setSecond_def)

lemma data_frame [simp]: "rbData (setFirst v s) = rbData s" "rbData (setSecond v s) = rbData s"
  by (simp_all add: rbData_def split: option.split)

lemma complete_frame [simp]:
  "rbBuffer (recvBufferSetLengthComplete s) = rbBuffer s" "rbLen (recvBufferSetLengthComplete s) = rbLen s"
  "rbSocket (recvBufferSetLengthComplete s) = rbSocket s" "rbRest (recvBufferSetLengthComplete s) = rbRest s"
  "rbData (recvBufferSetLengthComplete s) = rbData s"
  by (simp_all add: recvBufferSetLengthComplete_def Let_def rbRest_def rbData_def split: option.split)

lemma token_frame [simp]:
  "rbBuffer (recvBufferSetLengthToken s t n) = rbBuffer s" "rbLen (recvBufferSetLengthToken s t n) = rbLen s"
  "rbSocket (recvBufferSetLengthToken s t n) = rbSocket s" "rbRest (recvBufferSetLengthToken s t n) = rbRest s"
  "rbData (recvBufferSetLengthToken s t n) = rbData s"
  by (simp_all add: recvBufferSetLengthToken_def Let_def rbRest_def rbData_def split: option.split)

lemma unknown_frame [simp]:
  "rbBuffer (recvBufferSetLengthUnknown s n) = rbBuffer s" "rbLen (recvBufferSetLengthUnknown s n) = rbLen s"
  "rbSocket (recvBufferSetLengthUnknown s n) = rbSocket s" "rbRest (recvBufferSetLengthUnknown s n) = rbRest s"
  "rbData (recvBufferSetLengthUnknown s n) = rbData s"
  by (simp_all add: recvBufferSetLengthUnknown_def Let_def rbRest_def rbData_def split: option.split)

lemma known_frame [simp]:
  "rbBuffer (recvBufferSetLengthKnown s v) = rbBuffer s" "rbLen (recvBufferSetLengthKnown s v) = rbLen s"
  "rbSocket (recvBufferSetLengthKnown s v) = rbSocket s" "rbRest (recvBufferSetLengthKnown s v) = rbRest s"
  "rbData (recvBufferSetLengthKnown s v) = rbData s"
  by (simp_all add: recvBufferSetLengthKnown_def Let_def rbRest_def rbData_def split: option.split)

lemma ok_frame [simp]:
  "rbOk (setFirst v s) = rbOk s" "rbOk (setSecond v s) = rbOk s" "rbOk (recvBufferSetLengthComplete s) = rbOk s"
  "rbOk (recvBufferSetLengthToken s t n) = rbOk s" "rbOk (recvBufferSetLengthUnknown s n) = rbOk s"
  "rbOk (recvBufferSetLengthKnown s v) = rbOk s"
  by (simp_all add: rbOk_def split: option.split)

text \<open>The mode bits after each of the operations.\<close>

lemmas mode_defs = RECV_BUFFER_DATA_LENGTH_CHUNK_def RECV_BUFFER_DATA_LENGTH_KNOWN_def
  RECV_BUFFER_DATA_LENGTH_TOKEN_def RECV_BUFFER_DATA_LENGTH_COMPLETE_def

lemma flag_bits:
  "w AND RECV_BUFFER_DATA_LENGTH_CHUNK \<noteq> 0 \<longleftrightarrow> bit w 0" "w AND RECV_BUFFER_DATA_LENGTH_KNOWN \<noteq> 0 \<longleftrightarrow> bit w 1"
  "w AND RECV_BUFFER_DATA_LENGTH_TOKEN \<noteq> 0 \<longleftrightarrow> bit w 2" "w AND RECV_BUFFER_DATA_LENGTH_COMPLETE \<noteq> 0 \<longleftrightarrow> bit w 3"
  using and_exp_eq_0_iff_not_bit [of w 0] and_exp_eq_0_iff_not_bit [of w 1] and_exp_eq_0_iff_not_bit [of w 2]
    and_exp_eq_0_iff_not_bit [of w 3] by (simp_all add: mode_defs)

lemma bits_of_numerals:
  "bit (1 :: 32 word) n \<longleftrightarrow> n = 0" "bit (2 :: 32 word) n \<longleftrightarrow> n = 1" "bit (4 :: 32 word) n \<longleftrightarrow> n = 2"
  "bit (8 :: 32 word) n \<longleftrightarrow> n = 3"
  using bit_exp_iff [where 'a = "32 word", of 0 n] bit_exp_iff [where 'a = "32 word", of 1 n]
    bit_exp_iff [where 'a = "32 word", of 2 n] bit_exp_iff [where 'a = "32 word", of 3 n]
  by (auto simp: possible_bit_def)

lemma mode_bits:
  "bit (rbOptions (recvBufferSetLengthComplete s)) 3" "\<not> bit (rbOptions (recvBufferSetLengthComplete s)) 0"
  "\<not> bit (rbOptions (recvBufferSetLengthToken s t n)) 0" "\<not> bit (rbOptions (recvBufferSetLengthToken s t n)) 1"
  "bit (rbOptions (recvBufferSetLengthToken s t n)) 2" "\<not> bit (rbOptions (recvBufferSetLengthToken s t n)) 3"
  "\<not> bit (rbOptions (recvBufferSetLengthKnown s v)) 0" "bit (rbOptions (recvBufferSetLengthKnown s v)) 1"
  "\<not> bit (rbOptions (recvBufferSetLengthKnown s v)) 3"
  "\<not> bit (rbOptions (recvBufferSetLengthUnknown s n)) 0" "\<not> bit (rbOptions (recvBufferSetLengthUnknown s n)) 1"
  "\<not> bit (rbOptions (recvBufferSetLengthUnknown s n)) 2" "\<not> bit (rbOptions (recvBufferSetLengthUnknown s n)) 3"
  by (simp_all add: recvBufferSetLengthComplete_def recvBufferSetLengthToken_def recvBufferSetLengthKnown_def
      recvBufferSetLengthUnknown_def Let_def mode_defs bit_and_iff bit_or_iff bit_not_iff bits_of_numerals)

lemma recv_frame:
  assumes "rbRecv n peek s = (r, s1)"
  shows "rbBuffer s1 = rbBuffer s \<and> rbLen s1 = rbLen s \<and> rbOptions s1 = rbOptions s \<and> rbLength s1 = rbLength s \<and>
         rbAttempts s1 = rbAttempts s \<and> rbData s1 = rbData s \<and> (rbOk s1 \<longleftrightarrow> rbOk s)"
  using assms by (auto simp: rbRecv_def rbData_def rbOk_def Let_def split: option.splits prod.splits)

lemma recv_no_again: "rbRecv n peek s \<noteq> (TryAgain, s1)"
  using AppendWait_no_again by (auto simp: rbRecv_def Let_def split: option.splits prod.splits)

lemma recv_failed: "rbRecv n peek s = (RecvFailed e, s1) \<Longrightarrow> rbRest s = [] \<and> rbRest s1 = []"
  using AppendWait_cases [of n peek] by (force simp: rbRecv_def rbRest_def Let_def split: option.splits prod.splits)

lemma BufferAppend_data:
  assumes "rbOk s" "rbBuffer s \<noteq> None"
  obtains s1 where "BufferAppend s d = Inr s1" "rbData s1 = rbData s @ d" "rbOk s1" "rbBuffer s1 \<noteq> None"
    "rbLen s1 = rbLen s + length d" "rbSocket s1 = rbSocket s" "rbOptions s1 = rbOptions s" "rbLength s1 = rbLength s"
    "rbRest s1 = rbRest s" "rbAttempts s1 = rbAttempts s"
  using assms by (auto simp: BufferAppend_def rbOk_def rbData_def rbRest_def Let_def)

lemma rbLen_data: "rbOk s \<Longrightarrow> rbLen s = length (rbData s)"
  by (auto simp: rbOk_def rbData_def split: option.splits)

lemma DataIncrement_frame:
  assumes "DataIncrement s k = (stop, s1)"
  shows "rbBuffer s1 = rbBuffer s \<and> rbLen s1 = rbLen s \<and> rbData s1 = rbData s \<and> rbRest s1 = rbRest s \<and>
         (rbOk s1 \<longleftrightarrow> rbOk s) \<and> rbSocket s1 = rbSocket s \<and> (\<not> bit (rbOptions s) 0 \<longrightarrow> \<not> bit (rbOptions s1) 0) \<and>
         (\<not> stop \<longrightarrow> rbOptions s1 = rbOptions s \<and> rlToken (rbLength s1) = rlToken (rbLength s))"
  using assms by (auto simp: DataIncrement_def Let_def flag_bits mode_bits split: if_splits)

section \<open>Appending loses nothing\<close>

text \<open>
  What one call of an operation did to the buffer: it appended \<open>d\<close>, taken from the front of what the
  stream still holds.
\<close>

definition moved :: "RecvBuffer \<Rightarrow> string \<Rightarrow> RecvBuffer \<Rightarrow> bool" where
  "moved s d s1 \<longleftrightarrow>
     rbOk s1 \<and> rbBuffer s1 \<noteq> None \<and> rbData s1 = rbData s @ d \<and> rbRest s = d @ rbRest s1 \<and>
     (\<not> bit (rbOptions s) 0 \<longrightarrow> \<not> bit (rbOptions s1) 0)"

lemma moved_refl: "rbOk s \<Longrightarrow> rbBuffer s \<noteq> None \<Longrightarrow> moved s [] s"
  by (simp add: moved_def)

lemma moved_trans: "moved s d s1 \<Longrightarrow> moved s1 d1 s2 \<Longrightarrow> moved s (d @ d1) s2"
  by (auto simp: moved_def)

lemma recv_moved:
  assumes "rbRecv n False s = (Got d, s1)" "rbOk s" "rbBuffer s \<noteq> None"
  obtains s2 where "BufferAppend s1 d = Inr s2" "moved s d s2"
    "rbOptions s2 = rbOptions s" "rbLength s2 = rbLength s" "rbLen s2 = rbLen s + length d"
proof -
  from recv_frame [OF assms(1)] assms(2,3) have f: "rbOk s1" "rbBuffer s1 \<noteq> None" "rbData s1 = rbData s"
    "rbOptions s1 = rbOptions s" "rbLength s1 = rbLength s" "rbLen s1 = rbLen s" by auto
  from BufferAppend_data [OF f(1,2), of d] obtain s2 where s2: "BufferAppend s1 d = Inr s2" "rbData s2 = rbData s1 @ d"
    "rbOk s2" "rbBuffer s2 \<noteq> None" "rbOptions s2 = rbOptions s1" "rbLength s2 = rbLength s1" "rbRest s2 = rbRest s1"
    "rbLen s2 = rbLen s1 + length d"
    by metis
  have "rbRest s = d @ rbRest s1" using rbRecv_rest [OF assms(1)] by simp
  with s2 f have "moved s d s2" by (simp add: moved_def)
  with s2 f that show thesis by simp
qed

lemma increment_moved:
  assumes "moved s d s1" "DataIncrement s1 k = (stop, s2)"
  shows "moved s d s2"
  using assms DataIncrement_frame [OF assms(2)] by (auto simp: moved_def)

lemma failed_moved:
  assumes "rbRecv n peek s = (RecvFailed e, s1)" "rbOk s" "rbBuffer s \<noteq> None"
  shows "moved s [] s1"
  using recv_failed [OF assms(1)] recv_frame [OF assms(1)] assms(2,3) by (simp add: moved_def)

lemma appendLoop_moves:
  assumes "rbOk s" "rbBuffer s \<noteq> None"
  shows "\<exists>e s1 d. appendLoop s len i = Inr (e, s1) \<and> moved s d s1 \<and> length d \<le> len - i \<and>
           (e = None \<longrightarrow> i < len \<longrightarrow> i = 0 \<longrightarrow> d \<noteq> []) \<and> (e \<noteq> None \<longrightarrow> rbRest s1 = [])"
  using assms
proof (induction s len i rule: appendLoop.induct)
  case (1 s len i)
  show ?case
  proof (cases "i < len")
    case False
    with "1.prems" moved_refl show ?thesis by (auto simp: appendLoop.simps [of s len i])
  next
    case True
    obtain r s1 where r: "rbRecv (min (len - i) SB_DATA_SIZE) False s = (r, s1)" by fastforce
    show ?thesis
    proof (cases r)
      case TryAgain
      with r recv_no_again show ?thesis by blast
    next
      case (RecvFailed e)
      with r True have "appendLoop s len i = Inr (Some (StrError e), s1)" by (simp add: appendLoop.simps [of s len i])
      moreover have "moved s [] s1" "rbRest s1 = []"
        using failed_moved [OF _ "1.prems"] recv_failed r RecvFailed by blast+
      ultimately show ?thesis by (intro exI [of _ "Some (StrError e)"] exI [of _ s1] exI [of _ "[]"]) simp
    next
      case (Got d)
      note rest = rbRecv_rest [OF r [unfolded Got]]
      show ?thesis
      proof (cases "d = []")
        case empty: True
        with Got True have a: "appendLoop s len i = Inr (if i \<noteq> 0 then None else Some ErrNoDataToBeRetrieved, s1)"
          using r by (simp add: appendLoop.simps [of s len i])
        have "rbRest s = []" "rbRest s1 = []" using rest empty True by (auto simp: SB_DATA_SIZE_def)
        moreover from this have "moved s [] s1" using recv_frame [OF r] "1.prems" by (simp add: moved_def)
        ultimately show ?thesis using a by auto
      next
        case ne: False
        obtain s2 where s2: "BufferAppend s1 d = Inr s2" "moved s d s2"
          using recv_moved [OF r [unfolded Got] "1.prems"] by blast
        obtain stop s3 where s3: "DataIncrement s2 (length d) = (stop, s3)" by fastforce
        note m = increment_moved [OF s2(2) s3]
        have ld: "length d \<le> len - i" using rest by simp
        show ?thesis
        proof (cases stop)
          case stop: True
          with r Got ne s2 s3 True have "appendLoop s len i = Inr (None, s3)"
            by (simp add: appendLoop.simps [of s len i])
          with m ld ne show ?thesis by (intro exI [of _ "None"] exI [of _ s3] exI [of _ d]) simp
        next
          case go: False
          from m have "rbOk s3" "rbBuffer s3 \<noteq> None" by (simp_all add: moved_def)
          from "1.IH" [OF True r [symmetric] Got ne s2(1) s3 [symmetric] go this]
          obtain e s4 d4 where *: "appendLoop s3 len (i + length d) = Inr (e, s4)" "moved s3 d4 s4"
            "length d4 \<le> len - (i + length d)" "e \<noteq> None \<longrightarrow> rbRest s4 = []" by blast
          from r Got ne s2 s3 True go *(1) have "appendLoop s len i = Inr (e, s4)"
            by (simp add: appendLoop.simps [of s len i])
          with moved_trans [OF m *(2)] *(3,4) ld ne show ?thesis
            by (intro exI [of _ e] exI [of _ s4] exI [of _ "d @ d4"]) auto
        qed
      qed
    qed
  qed
qed

text \<open>
  The call allocates the block when there is none. Outside the chunk mode it never runs into
  undefined behaviour, appends at most what was asked for, and reports success only when it
  appended something.
\<close>

definition plainMode :: "RecvBuffer \<Rightarrow> bool" where
  "plainMode s \<longleftrightarrow> rbOk s \<and> \<not> bit (rbOptions s) 0"

lemma recvBufferAppend_moves:
  assumes "plainMode s"
  shows "\<exists>e s1 d. recvBufferAppend s len = Inr (e, s1) \<and> plainMode s1 \<and> rbData s1 = rbData s @ d \<and>
           rbRest s = d @ rbRest s1 \<and> length d \<le> len \<and> (e = None \<longrightarrow> 0 < len \<longrightarrow> d \<noteq> []) \<and>
           (e = None \<longrightarrow> rbBuffer s1 \<noteq> None)"
proof (cases "bit (rbOptions s) 3")
  case True
  with assms show ?thesis by (auto simp: recvBufferAppend_def flag_bits)
next
  case False
  let ?s = "case rbBuffer s of None \<Rightarrow> s\<lparr>rbBuffer := Some (replicate SB_DATA_SIZE NUL), rbLen := 0\<rparr> | Some _ \<Rightarrow> s"
  have s: "rbOk ?s" "rbBuffer ?s \<noteq> None" "rbData ?s = rbData s" "rbRest ?s = rbRest s" "rbOptions ?s = rbOptions s"
    using assms by (auto simp: plainMode_def rbOk_def rbData_def rbRest_def split: option.splits)
  have a: "recvBufferAppend s len = appendLoop ?s len 0"
    using False assms s(5) by (simp add: recvBufferAppend_def flag_bits plainMode_def)
  from appendLoop_moves [OF s(1,2), of len 0] obtain e s1 d where *: "appendLoop ?s len 0 = Inr (e, s1)"
    "moved ?s d s1" "length d \<le> len" "e = None \<longrightarrow> 0 < len \<longrightarrow> d \<noteq> []" by auto
  then have "plainMode s1" "rbData s1 = rbData s @ d" "rbRest s = d @ rbRest s1" "rbBuffer s1 \<noteq> None"
    using s assms by (simp_all add: moved_def plainMode_def)
  with a * show ?thesis by auto
qed

subsection \<open>The contract of a source of bytes\<close>

text \<open>
  What the readers of a response rely on: a call never fails in an undefined way, and moves a prefix
  of what is still to come to the end of what is held.
\<close>

text \<open>A sequence of calls, with the lengths asked for; the messages are ignored.\<close>

fun pulls :: "('s \<Rightarrow> nat \<Rightarrow> ('e \<times> 's) res) \<Rightarrow> nat list \<Rightarrow> 's \<Rightarrow> 's res" where
  "pulls pull [] s = Inr s"
| "pulls pull (n # ns) s = (case pull s n of Inl f \<Rightarrow> Inl f | Inr (_, s1) \<Rightarrow> pulls pull ns s1)"

locale byte_source =
  fixes held :: "'s \<Rightarrow> string"
    and coming :: "'s \<Rightarrow> string"
    and good :: "'s \<Rightarrow> bool"
    and pull :: "'s \<Rightarrow> nat \<Rightarrow> (ClientErr option \<times> 's) res"
  assumes pull_moves: "good s \<Longrightarrow> \<exists>e s1 d. pull s n = Inr (e, s1) \<and> good s1 \<and> held s1 = held s @ d \<and>
                         coming s = d @ coming s1 \<and> length d \<le> n \<and> (e = None \<longrightarrow> 0 < n \<longrightarrow> d \<noteq> [])"
begin

lemma pulls_stream:
  "good s \<Longrightarrow> \<exists>s1 d. pulls pull ns s = Inr s1 \<and> good s1 \<and> held s1 = held s @ d \<and> coming s = d @ coming s1 \<and>
     length d \<le> sum_list ns"
proof (induction ns arbitrary: s)
  case (Cons n ns)
  from pull_moves [OF Cons.prems, of n] obtain e s1 d where 1: "pull s n = Inr (e, s1)" "good s1"
    "held s1 = held s @ d" "coming s = d @ coming s1" "length d \<le> n" by blast
  from Cons.IH [OF 1(2)] obtain s2 d2 where 2: "pulls pull ns s1 = Inr s2" "good s2" "held s2 = held s1 @ d2"
    "coming s1 = d2 @ coming s2" "length d2 \<le> sum_list ns" by blast
  from 1 2 show ?case by (intro exI [of _ s2] exI [of _ "d @ d2"]) auto
qed simp

lemma pulls_safe: "good s \<Longrightarrow> pulls pull ns s \<noteq> Inl f"
  using pulls_stream [of s ns] by auto

lemma pull_ends: "good s \<Longrightarrow> pull s n = Inr (None, s1) \<Longrightarrow> 0 < n \<Longrightarrow> length (coming s1) < length (coming s)"
  using pull_moves [of s n] by force

end

interpretation rb: byte_source rbData rbRest plainMode recvBufferAppend
  by unfold_locales (meson recvBufferAppend_moves)

text \<open>
  C10. However often and with whatever lengths \<open>recvBufferAppend\<close> is called, and however the bytes of
  the response arrive, the buffer holds the bytes of the stream in order, with none lost, none twice
  and no access outside the block, as long as the response is not chunked.
\<close>

theorem recvBufferAppend_stream:
  assumes "rbOk s" "\<not> bit (rbOptions s) 0"
  shows "\<exists>s1. pulls recvBufferAppend ns s = Inr s1 \<and> rbOk s1 \<and> rbData s1 @ rbRest s1 = rbData s @ rbRest s \<and>
           prefix (rbData s) (rbData s1) \<and> length (rbData s1) \<le> length (rbData s) + sum_list ns"
proof -
  from assms rb.pulls_stream [of s ns] obtain s1 d where "pulls recvBufferAppend ns s = Inr s1" "plainMode s1"
    "rbData s1 = rbData s @ d" "rbRest s = d @ rbRest s1" "length d \<le> sum_list ns"
    by (auto simp: plainMode_def)
  then show ?thesis by (auto simp: plainMode_def)
qed

definition exampleLink :: "string list \<Rightarrow> Link" where
  "exampleLink arrivals =
     \<lparr>lkIn = \<lparr>stQueue = [], stArrivals = arrivals, stEnd = None\<rparr>, lkAnswers = [], lkSent = []\<rparr>"

definition exampleBuffer :: "Link \<Rightarrow> RecvBuffer" where
  "exampleBuffer lk = recvBufferNew 0 (Some lk) [] emptyAddress 0"

lemma exampleBuffer_simps [simp]:
  "rbOk (exampleBuffer lk)" "rbOptions (exampleBuffer lk) = 0" "rbData (exampleBuffer lk) = []"
  "rbSocket (exampleBuffer lk) = Some lk" "rbBuffer (exampleBuffer lk) = None" "rbLen (exampleBuffer lk) = 0"
  by (simp_all add: exampleBuffer_def recvBufferNew_def rbOk_def rbData_def)

lemma recvBufferAppend_stream_witness:
  "\<exists>s1. pulls recvBufferAppend [4, 2] (exampleBuffer (exampleLink [''ab'', [], ''cde''])) = Inr s1 \<and> rbData s1 @ rbRest s1 = ''abcde''"
proof -
  let ?b = "exampleBuffer (exampleLink [''ab'', [], ''cde''])"
  have "rbRest ?b = ''abcde''" by (simp add: rbRest_def exampleLink_def stRest_def)
  with recvBufferAppend_stream [of ?b "[4, 2]"] show ?thesis by auto
qed

section \<open>Searching\<close>

lemma prefix_take_iff: "length u \<le> k \<Longrightarrow> prefix u (take k v) \<longleftrightarrow> prefix u v"
proof -
  have *: "prefix u w \<longleftrightarrow> take (length u) w = u" for w
    by (metis append_eq_conv_conj prefix_def)
  assume "length u \<le> k"
  then show ?thesis by (simp add: * min_def)
qed

lemma tokenRun_prefix:
  "length t \<le> length m \<Longrightarrow> tokenRun m t = Inr (prefix (upperS t) (upperS m))"
  by (induction m t rule: tokenRun.induct) (auto simp: upperS_def)

lemma strstr_upper_Cons:
  "strstr (upperS (c # s)) (upperS n) =
     (if prefix (upperS n) (upperS (c # s)) then Some 0 else map_option Suc (strstr (upperS s) (upperS n)))"
  by (simp add: upperS_def)

lemma findLoop_strstr:
  assumes "n \<le> length m" "2 \<le> length token" "n \<noteq> 0"
  shows "findLoop m n 0 token (length token) (n - 1) i =
           Inr (map_option ((+) i) (strstr (upperS (drop i (take n m))) (upperS token)))"
proof (induction "n - i" arbitrary: i rule: less_induct)
  case less
  show ?case
  proof (cases "n - 1 \<le> i")
    case True
    then have "length (drop i (take n m)) < length token" using assms by auto
    then have "strstr (upperS (drop i (take n m))) (upperS token) = None" by (intro strstr_longer) simp
    with True show ?thesis by (simp add: findLoop.simps)
  next
    case False
    then have i: "i < n" "i < length m" using assms by auto
    have d: "drop i (take n m) = m ! i # drop (i + 1) (take n m)"
      using i assms(1) by (simp add: Cons_nth_drop_Suc [symmetric])
    have rec: "findLoop m n 0 token (length token) (n - 1) (i + 1) =
        Inr (map_option ((+) (i + 1)) (strstr (upperS (drop (i + 1) (take n m))) (upperS token)))"
      using less i by simp
    have shift: "map_option ((+) i) (map_option Suc x) = map_option ((+) (i + 1)) x" for x
      by (cases x) auto
    obtain t ts where t: "token = t # ts" using assms(2) by (cases token) auto
    then have c: "chC token 0 = t" by simp
    note step = findLoop.simps [of m n 0 token "length token" "n - 1" i]
    show ?thesis
    proof (cases "toupperC (m ! i) = toupperC t")
      case first: False
      then have "\<not> prefix (upperS token) (upperS (drop i (take n m)))" unfolding d by (simp add: t upperS_def)
      with False first rec i shift c show ?thesis
        unfolding d step strstr_upper_Cons by simp
    next
      case first: True
      show ?thesis
      proof (cases "n < i + length token")
        case True
        then have "length (drop i (take n m)) < length token" using assms(1) i by auto
        then have "strstr (upperS (drop i (take n m))) (upperS token) = None" by (intro strstr_longer) simp
        with True False first i c show ?thesis unfolding step by simp
      next
        case fits: False
        have "prefix (upperS token) (upperS (drop i m)) \<longleftrightarrow> prefix (upperS token) (upperS (drop i (take n m)))"
          using fits prefix_take_iff [of "upperS token" "n - i" "upperS (drop i m)"]
          by (simp add: upperS_def take_map drop_take)
        moreover have "tokenRun (drop i m) token = Inr (prefix (upperS token) (upperS (drop i m)))"
          using fits assms(1) by (intro tokenRun_prefix) simp
        ultimately show ?thesis
          using fits False first i rec shift c
          unfolding d step strstr_upper_Cons by simp
      qed
    qed
  qed
qed

lemma recvBufferFind_upper:
  assumes "rbOk self" "rbData self \<noteq> []" "2 \<le> length token"
  shows "recvBufferFind self 0 token (length token) = Inr (strstr (upperS (rbData self)) (upperS token))"
proof -
  from assms(1,2) obtain m where m: "rbBuffer self = Some m" "rbLen self \<le> length m" "rbLen self \<noteq> 0"
    by (auto simp: rbOk_def rbData_def split: option.splits)
  have "findLoop m (rbLen self) 0 token (length token) (rbLen self - 1) 0 =
      Inr (strstr (upperS (rbData self)) (upperS token))"
    using findLoop_strstr [OF m(2) assms(3) m(3), of 0] m by (cases "strstr (upperS (rbData self)) (upperS token)") (simp_all add: rbData_def)
  with m show ?thesis by (simp add: recvBufferFind_def subSize_def)
qed

text \<open>
  C29. From the start of the buffer \<open>recvBufferFind\<close> finds the first occurrence of a token of at least
  two characters in the bytes in use, without regard to case, and looks at no other byte.
\<close>

theorem recvBufferFind_strstr:
  assumes "rbOk self" "rbData self \<noteq> []" "2 \<le> length token"
  shows "recvBufferFind self 0 token (length token) = Inr (strstr (upperS (rbData self)) (upperS token))"
  using assms by (rule recvBufferFind_upper)

lemma recvBufferFind_strstr_witness:
  "recvBufferFind ((exampleBuffer (exampleLink []))\<lparr>rbBuffer := Some ''xx<Body>..'', rbLen := 8\<rparr>) 0 ''<bODY'' 5 = Inr (Some 2)"
proof -
  let ?b = "(exampleBuffer (exampleLink []))\<lparr>rbBuffer := Some ''xx<Body>..'', rbLen := 8\<rparr>"
  have "rbOk ?b" "rbData ?b = ''xx<Body>''" by (simp_all add: rbOk_def rbData_def)
  moreover have "strstr (upperS ''xx<Body>'') (upperS ''<bODY'') = Some 2" by code_simp
  ultimately show ?thesis using recvBufferFind_strstr [of ?b "''<bODY''"] by (simp add: eval_nat_numeral)
qed

section \<open>The searching loops end\<close>

definition progress :: "RecvBuffer \<Rightarrow> RecvBuffer \<Rightarrow> bool" where
  "progress s s1 \<longleftrightarrow> plainMode s1 \<and> (\<exists>d. rbData s1 = rbData s @ d \<and> rbRest s = d @ rbRest s1)"

lemma progress_refl: "plainMode s \<Longrightarrow> progress s s"
  by (simp add: progress_def)

lemma progress_trans: "progress s s1 \<Longrightarrow> progress s1 s2 \<Longrightarrow> progress s s2"
  by (auto simp: progress_def)

lemma append_progress:
  assumes "plainMode s"
  obtains e s1 where "recvBufferAppend s SB_DATA_SIZE = Inr (e, s1)" "progress s s1"
    "e = None \<longrightarrow> length (rbRest s1) < length (rbRest s)" "e = None \<longrightarrow> rbBuffer s1 \<noteq> None"
proof -
  from recvBufferAppend_moves [OF assms, of SB_DATA_SIZE] obtain e s1 d where
    "recvBufferAppend s SB_DATA_SIZE = Inr (e, s1)" "plainMode s1" "rbData s1 = rbData s @ d" "rbRest s = d @ rbRest s1"
    "e = None \<longrightarrow> d \<noteq> []" "e = None \<longrightarrow> rbBuffer s1 \<noteq> None"
    by (auto simp: SB_DATA_SIZE_def)
  with that [of e s1] show thesis by (auto simp: progress_def)
qed

lemma fillLoop_ends:
  assumes "plainMode s" "length (rbRest s) < fuel"
  shows "\<exists>e s1. fillLoop fuel s n = Inr (e, s1) \<and> progress s s1 \<and> (e = None \<longrightarrow> n \<le> rbLen s1)"
  using assms
proof (induction fuel arbitrary: s)
  case 0
  then show ?case by simp
next
  case (Suc k)
  from append_progress [OF Suc.prems(1)] obtain e s1 where a: "recvBufferAppend s SB_DATA_SIZE = Inr (e, s1)"
    "progress s s1" "e = None \<longrightarrow> length (rbRest s1) < length (rbRest s)" by metis
  show ?case
  proof (cases "n \<le> rbLen s")
    case True
    with Suc show ?thesis by (simp add: fillLoop.simps progress_refl)
  next
    case False
    show ?thesis
    proof (cases e)
      case (Some x)
      with a False show ?thesis by (simp add: fillLoop.simps [of "Suc k"])
    next
      case None
      with a Suc.prems have "plainMode s1" "length (rbRest s1) < k" by (auto simp: progress_def)
      from Suc.IH [OF this] a(1,2) None False show ?thesis
        by (auto simp: fillLoop.simps [of "Suc k"] intro: progress_trans)
    qed
  qed
qed


lemma fetchLoop_ends:
  assumes "plainMode s" "length (rbRest s) < fuel" "rbData s \<noteq> []" "2 \<le> length tok"
  shows "\<exists>e s1. fetchLoop fuel s tok (length tok) limit = Inr (e, s1) \<and> progress s s1 \<and>
           (e = None \<longrightarrow> strstr (upperS (rbData s1)) (upperS tok) \<noteq> None)"
  using assms
proof (induction fuel arbitrary: s)
  case 0
  then show ?case by simp
next
  case (Suc k)
  have f: "recvBufferFind s 0 tok (length tok) = Inr (strstr (upperS (rbData s)) (upperS tok))"
    using Suc.prems by (intro recvBufferFind_upper) (auto simp: plainMode_def)
  from append_progress [OF Suc.prems(1)] obtain e s1 where a: "recvBufferAppend s SB_DATA_SIZE = Inr (e, s1)"
    "progress s s1" "e = None \<longrightarrow> length (rbRest s1) < length (rbRest s)" by metis
  show ?case
  proof (cases "strstr (upperS (rbData s)) (upperS tok)")
    case (Some off)
    with f Suc.prems show ?thesis by (simp add: fetchLoop.simps [of "Suc k"] progress_refl)
  next
    case none: None
    show ?thesis
    proof (cases e)
      case (Some x)
      with a f none show ?thesis by (simp add: fetchLoop.simps [of "Suc k"])
    next
      case None
      show ?thesis
      proof (cases "limit < rbLen s1")
        case True
        with a f none None show ?thesis by (simp add: fetchLoop.simps [of "Suc k"])
      next
        case False
        from a None Suc.prems have "plainMode s1" "length (rbRest s1) < k" "rbData s1 \<noteq> []"
          by (auto simp: progress_def)
        from Suc.IH [OF this Suc.prems(4)] a(1,2) None False f none show ?thesis
          by (auto simp: fetchLoop.simps [of "Suc k"] intro: progress_trans)
      qed
    qed
  qed
qed

lemma ditch_data:
  assumes "rbOk s"
  shows "rbOk (recvBufferDitch s n)" "rbData (recvBufferDitch s n) = drop n (rbData s)"
    "rbRest (recvBufferDitch s n) = rbRest s" "rbOptions (recvBufferDitch s n) = rbOptions s"
  using assms by (auto simp: recvBufferDitch_def rbOk_def rbData_def rbRest_def Let_def drop_take split: option.splits)

lemma budget: "length (rbRest s) < turnBudget s"
  by (simp add: turnBudget_def)

lemma bufferReady_ends:
  assumes "plainMode s"
  shows "\<exists>e s1. bufferReady s n = Inr (e, s1) \<and> progress s s1 \<and> (e = None \<longrightarrow> n \<le> rbLen s1)"
proof -
  from append_progress [OF assms] obtain e s1 where a: "recvBufferAppend s SB_DATA_SIZE = Inr (e, s1)" "progress s s1"
    by metis
  show ?thesis
  proof (cases "rbBuffer s = None")
    case False
    with fillLoop_ends [OF assms budget, of n] show ?thesis by (auto simp: bufferReady_def)
  next
    case True
    show ?thesis
    proof (cases e)
      case (Some x)
      with True a show ?thesis by (simp add: bufferReady_def)
    next
      case None
      with a have "plainMode s1" by (simp add: progress_def)
      from fillLoop_ends [OF this budget, of n] a True None show ?thesis
        by (auto simp: bufferReady_def intro: progress_trans)
    qed
  qed
qed




end
