(* ===== verification/Recv_Request.thy ===== *)
theory Recv_Request
  imports Recv_Buffer
begin

text \<open>
  What a request and the header of its response do to a receive buffer: the request is sent whole
  (\<open>recvBufferSend\<close>), and the header is read whole however it arrives (\<open>ioHttpResponseHeaderRead\<close>).
\<close>

section \<open>Response headers are read whole\<close>

lemma strstr_append: "strstr s tok = Some t \<Longrightarrow> strstr (s @ z) tok = Some t"
proof (induction s arbitrary: t)
  case Nil
  then show ?case by (cases z) (auto split: if_splits)
next
  case (Cons c s)
  show ?case
  proof (cases "prefix tok (c # s)")
    case True
    with Cons.prems have "t = 0" by simp
    moreover have "prefix tok ((c # s) @ z)" using True by (rule prefix_prefix)
    ultimately show ?thesis by simp
  next
    case False
    with Cons.prems obtain u where u: "strstr s tok = Some u" "t = Suc u" by auto
    from strstr_Some [OF u(1)] have "length tok \<le> length (c # s)" by simp
    then have "\<not> prefix tok ((c # s) @ z)"
      using False prefix_length_prefix [of tok "(c # s) @ z" "c # s"] by auto
    with Cons.IH [OF u(1)] u(2) show ?thesis by simp
  qed
qed

lemma strstr_take:
  assumes "strstr s tok = Some t" "t + length tok \<le> k"
  shows "strstr (take k s) tok = Some t"
proof (cases "strstr (take k s) tok")
  case None
  have "prefix tok (drop t s)" using strstr_Some [OF assms(1)] by simp
  then have "prefix tok (drop t (take k s))"
    using assms(2) prefix_take_iff [of tok "k - t" "drop t s"] by (simp add: drop_take)
  then have "sublist tok (take k s)"
    by (metis prefix_imp_sublist sublist_drop sublist_order.order_trans)
  with None show ?thesis by (simp add: strstr_None)
next
  case (Some u)
  from strstr_append [OF this, of "drop k s"] assms(1) Some show ?thesis by simp
qed

text \<open>Without letters in the token the case of the text does not matter.\<close>

lemma toupperC_nonletter:
  assumes "\<not> isupperC t" "\<not> islowerC t"
  shows "toupperC c = t \<longleftrightarrow> c = t"
proof -
  have "toupperC c = t \<Longrightarrow> \<not> islowerC c"
    using assms code_toupperC [of c] by (auto simp: islowerC_def isupperC_def)
  then show ?thesis using assms by (auto simp: toupperC_def)
qed

lemma prefix_upper_nonletter:
  assumes "\<forall>t \<in> set tok. \<not> isupperC t \<and> \<not> islowerC t"
  shows "prefix (upperS tok) (upperS s) \<longleftrightarrow> prefix tok s"
  using assms
proof (induction tok arbitrary: s)
  case (Cons t tok)
  have "toupperC t = t" using Cons.prems by (simp add: toupperC_def)
  moreover have "toupperC c = t \<longleftrightarrow> c = t" for c using Cons.prems by (intro toupperC_nonletter) simp_all
  ultimately have "toupperC t = toupperC c \<longleftrightarrow> t = c" for c by metis
  then show ?case using Cons by (cases s) (auto simp: upperS_def)
qed (simp add: upperS_def)

lemma strstr_upper_nonletter:
  assumes "\<forall>t \<in> set tok. \<not> isupperC t \<and> \<not> islowerC t"
  shows "strstr (upperS s) (upperS tok) = strstr s tok"
proof (induction s)
  case Nil
  show ?case by (cases tok) (simp_all add: upperS_def)
next
  case (Cons c s)
  with prefix_upper_nonletter [OF assms, of "c # s"] show ?case by (simp add: strstr_upper_Cons)
qed

lemma eol_nonletter: "\<forall>t \<in> set (HTTP_EOL @ HTTP_EOL). \<not> isupperC t \<and> \<not> islowerC t"
  by (simp add: isupperC_def islowerC_def)

lemma increment_token:
  assumes "rbOk s" "\<not> bit (rbOptions s) 1" "bit (rbOptions s) 2" "rlToken (rbLength s) = tok" "tok \<noteq> []"
  shows "fst (DataIncrement s k) \<longleftrightarrow> strstr (upperS (rbData s)) (upperS tok) \<noteq> None"
  using assms platformStringFindNeedle_upper [of "rbData s" tok] rbLen_data [of s]
  by (simp add: DataIncrement_def Let_def flag_bits platformStringFindNeedle_def)

text \<open>In the token mode a call that may append enough appends until the token is there.\<close>

lemma appendLoop_finds:
  assumes "rbOk s" "rbBuffer s \<noteq> None" "\<not> bit (rbOptions s) 1" "bit (rbOptions s) 2" "rlToken (rbLength s) = tok"
    "tok \<noteq> []" "strstr (upperS (rbData s @ rbRest s)) (upperS tok) = Some t"
    "strstr (upperS (rbData s)) (upperS tok) = None" "t + length tok \<le> length (rbData s) + (len - i)"
  shows "\<exists>s1 d. appendLoop s len i = Inr (None, s1) \<and> moved s d s1 \<and>
           strstr (upperS (rbData s1)) (upperS tok) = Some t"
  using assms
proof (induction s len i rule: appendLoop.induct)
  case (1 s len i)
  have need: "length (rbData s) < t + length tok"
  proof (rule ccontr)
    assume "\<not> ?thesis"
    with strstr_take [OF "1.prems"(7), of "length (rbData s)"] have "strstr (upperS (rbData s)) (upperS tok) = Some t"
      by (simp add: upperS_def take_map [symmetric])
    with "1.prems"(8) show False by simp
  qed
  with "1.prems"(9) have i: "i < len" by simp
  have "rbRest s \<noteq> []" using "1.prems"(7,8) by (auto simp: upperS_def)
  moreover obtain r s1 where r: "rbRecv (min (len - i) SB_DATA_SIZE) False s = (r, s1)" by fastforce
  ultimately obtain d where d: "r = Got d" using recv_failed [of _ _ s _ s1] recv_no_again [of _ _ s s1] by (cases r) auto
  note rest = rbRecv_rest [OF r [unfolded d]]
  have ne: "d \<noteq> []" using rest \<open>rbRest s \<noteq> []\<close> i by (auto simp: SB_DATA_SIZE_def)
  obtain s2 where s2: "BufferAppend s1 d = Inr s2" "moved s d s2" "rbOptions s2 = rbOptions s" "rbLength s2 = rbLength s"
    using recv_moved [OF r [unfolded d] "1.prems"(1,2)] by metis
  obtain stop s3 where s3: "DataIncrement s2 (length d) = (stop, s3)" by fastforce
  note m = increment_moved [OF s2(2) s3]
  have stop: "stop \<longleftrightarrow> strstr (upperS (rbData s2)) (upperS tok) \<noteq> None"
    using increment_token [of s2 tok "length d"] s2 s3 "1.prems"(3-6) by (simp add: moved_def)
  have data: "rbData s3 = rbData s2" using DataIncrement_frame [OF s3] by simp
  have whole: "rbData s2 @ rbRest s1 = rbData s @ rbRest s" using s2(2) rest by (simp add: moved_def)
  show ?case
  proof (cases stop)
    case True
    then obtain u where u: "strstr (upperS (rbData s2)) (upperS tok) = Some u" using stop by auto
    from strstr_append [OF this, of "upperS (rbRest s1)"] whole "1.prems"(7) have "u = t" by (simp flip: upperS_append)
    moreover from r d ne s2 s3 i True have "appendLoop s len i = Inr (None, s3)"
      by (simp add: appendLoop.simps [of s len i])
    ultimately show ?thesis using m u data by auto
  next
    case False
    have f: "rbOptions s3 = rbOptions s" "rbLength s3 = rbLength s3" "rlToken (rbLength s3) = tok"
      using DataIncrement_frame [OF s3] False s2(3,4) "1.prems"(5) by auto
    have p: "rbOk s3" "rbBuffer s3 \<noteq> None" "rbData s3 @ rbRest s3 = rbData s @ rbRest s"
      "length (rbData s3) = length (rbData s) + length d" using m by (auto simp: moved_def)
    have "strstr (upperS (rbData s3)) (upperS tok) = None" using False stop data by simp
    moreover have "t + length tok \<le> length (rbData s3) + (len - (i + length d))"
      using "1.prems"(9) p(4) rest by auto
    ultimately obtain s4 d4 where "appendLoop s3 len (i + length d) = Inr (None, s4)" "moved s3 d4 s4"
      "strstr (upperS (rbData s4)) (upperS tok) = Some t"
      using "1.IH" [OF i r [symmetric] d ne s2(1) s3 [symmetric] False p(1,2)] f "1.prems" p(3) by auto
    moreover from r d ne s2 s3 i False have "appendLoop s len i = appendLoop s3 len (i + length d)"
      by (simp add: appendLoop.simps [of s len i])
    ultimately show ?thesis using moved_trans [OF m] by auto
  qed
qed


lemma cstring_append: "NUL \<notin> set a \<Longrightarrow> cstring (a @ b) = a @ cstring b"
  by (induction a) auto

text \<open>How the stream of the connection will end stays as it is.\<close>

definition linkEnd :: "RecvBuffer \<Rightarrow> Errno option option" where
  "linkEnd s = map_option (\<lambda>lk. stEnd (lkIn lk)) (rbSocket s)"

lemma recv_end:
  assumes "rbRecv n peek s = (r, s1)"
  shows "linkEnd s1 = linkEnd s"
proof (cases "rbSocket s")
  case None
  with assms show ?thesis by (simp add: rbRecv_def)
next
  case (Some lk)
  obtain a st where a: "AppendWait n peek (lkIn lk) = (a, st)" by fastforce
  with Some assms have "s1 = s\<lparr>rbSocket := Some (lk\<lparr>lkIn := st\<rparr>)\<rparr>" by (simp add: rbRecv_def)
  with AppendWait_cases [OF a] Some show ?thesis by (simp add: linkEnd_def)
qed

lemma appendLoop_end:
  assumes "appendLoop s len i = Inr (e, s1)" "rbOk s" "rbBuffer s \<noteq> None"
  shows "linkEnd s1 = linkEnd s"
  using assms
proof (induction s len i rule: appendLoop.induct)
  case (1 s len i)
  show ?case
  proof (cases "i < len")
    case False
    with "1.prems"(1) show ?thesis by (simp add: appendLoop.simps [of s len i])
  next
    case True
    obtain r s2 where r: "rbRecv (min (len - i) SB_DATA_SIZE) False s = (r, s2)" by fastforce
    show ?thesis
    proof (cases "\<exists>d. r = Got d \<and> d \<noteq> []")
      case False
      with "1.prems"(1) r True recv_end [OF r] recv_no_again [of _ _ s s2] show ?thesis
        by (cases r) (auto simp: appendLoop.simps [of s len i])
    next
      case got: True
      then obtain d where d: "r = Got d" "d \<noteq> []" by blast
      have ok: "rbOk s2" "rbBuffer s2 \<noteq> None" using recv_frame [OF r] "1.prems"(2,3) by auto
      obtain s3 where s3: "BufferAppend s2 d = Inr s3" "rbOk s3" "rbBuffer s3 \<noteq> None" "rbSocket s3 = rbSocket s2"
        using BufferAppend_data [OF ok, of d] by metis
      obtain stop s4 where s4: "DataIncrement s3 (length d) = (stop, s4)" by fastforce
      note f = DataIncrement_frame [OF s4]
      have e4: "linkEnd s4 = linkEnd s" using f s3(4) recv_end [OF r] by (simp add: linkEnd_def)
      show ?thesis
      proof (cases stop)
        case True
        with "1.prems"(1) \<open>i < len\<close> r d s3(1) s4 e4 show ?thesis by (simp add: appendLoop.simps [of s len i])
      next
        case go: False
        with "1.prems"(1) True r d s3(1) s4 have "appendLoop s4 len (i + length d) = Inr (e, s1)"
          by (simp add: appendLoop.simps [of s len i])
        with "1.IH" [OF True r [symmetric] d s3(1) s4 [symmetric] go] f s3(2,3) e4 show ?thesis by simp
      qed
    qed
  qed
qed

lemma header_read:
  assumes "rbBuffer s = None" "rbLen s = 0" "strstr (rbRest s) (HTTP_EOL @ HTTP_EOL) = Some t" "0 < t" "t + 4 \<le> 4096"
    "NUL \<notin> set (take (t + 4) (rbRest s))"
  shows "\<exists>s1. ioHttpResponseHeaderRead s = Inr (None, Some (take (t + 2) (rbRest s)), s1) \<and> rbOk s1 \<and>
           rbData s1 @ rbRest s1 = drop (t + 4) (rbRest s) \<and> linkEnd s1 = linkEnd s"
proof -
  let ?tok = "HTTP_EOL @ HTTP_EOL"
  let ?s0 = "recvBufferSetLengthToken s ?tok 4"
  let ?sa = "?s0\<lparr>rbBuffer := Some (replicate SB_DATA_SIZE NUL), rbLen := 0\<rparr>"
  have tok: "length ?tok = 4" by simp
  have sa: "rbOk ?sa" "rbData ?sa = []" "rbRest ?sa = rbRest s" by (simp_all add: rbOk_def rbData_def rbRest_def)
  have bits: "\<not> bit (rbOptions ?sa) 0" "\<not> bit (rbOptions ?sa) 1" "bit (rbOptions ?sa) 2" "\<not> bit (rbOptions ?sa) 3"
    using mode_bits(3-6) [of s ?tok 4] by simp_all
  have token: "rlToken (rbLength ?sa) = ?tok" by (simp add: recvBufferSetLengthToken_def Let_def setSecond_def)
  have h1: "strstr (upperS (rbData ?sa @ rbRest ?sa)) (upperS ?tok) = Some t"
    using assms(3) sa strstr_upper_nonletter [OF eol_nonletter] by simp
  have h2: "strstr (upperS (rbData ?sa)) (upperS ?tok) = None" using sa by (simp add: upperS_def)
  have h3: "t + length ?tok \<le> length (rbData ?sa) + (SB_DATA_SIZE - 0)" using assms(5) by (simp add: SB_DATA_SIZE_def)
  have ne: "rbBuffer ?sa \<noteq> None" "?tok \<noteq> []" by simp_all
  obtain s1 d where 1: "appendLoop ?sa SB_DATA_SIZE 0 = Inr (None, s1)" "moved ?sa d s1"
    "strstr (upperS (rbData s1)) (upperS ?tok) = Some t"
    using appendLoop_finds [OF sa(1) ne(1) bits(2,3) token ne(2) h1 h2 h3] by blast
  have found: "strstr (rbData s1) ?tok = Some t"
    using 1(3) strstr_upper_nonletter [OF eol_nonletter] by simp
  have whole: "rbData s1 @ rbRest s1 = rbRest s" using 1(2) sa by (simp add: moved_def)
  have len: "t + 4 \<le> length (rbData s1)" using strstr_Some [OF found] by simp
  have ok: "rbOk s1" "rbBuffer s1 \<noteq> None" using 1(2) by (simp_all add: moved_def)
  then have rl: "rbLen s1 = length (rbData s1)" by (simp add: rbLen_data)
  have a: "recvBufferAppend ?s0 SB_DATA_SIZE = Inr (None, s1)"
    using 1(1) bits assms(1) by (simp add: recvBufferAppend_def flag_bits)
  have "bufferReady ?s0 4 = Inr (None, s1)"
    using a len rl assms(1) by (simp add: bufferReady_def fillLoop.simps)
  moreover have "rbData s1 \<noteq> []" using len by auto
  then have "recvBufferFind s1 0 ?tok 4 = Inr (Some t)"
    using recvBufferFind_upper [OF ok(1), of ?tok] 1(3) len by (auto simp: eval_nat_numeral)
  ultimately have f: "recvBufferFindAndFetch ?s0 ?tok 4 4096 = Inr (None, s1)"
    using len rl assms(4) by (simp add: recvBufferFindAndFetch_def fetchLoop.simps)
  have g: "recvBufferFetch s1 0 (rbLen s1 + 1) = Inr (None, rbData s1)"
    using ok by (auto simp: recvBufferFetch_def rbOk_def rbData_def subSize_def Let_def)
  have pre: "take (t + 4) (rbData s1) = take (t + 4) (rbRest s)" using len whole by (metis append_take_drop_id le_add1 take_all_iff take_append diff_is_0_eq take0 append_Nil2)
  have c: "cstring (rbData s1) = take (t + 4) (rbRest s) @ cstring (drop (t + 4) (rbData s1))"
    using cstring_append [of "take (t + 4) (rbData s1)" "drop (t + 4) (rbData s1)"] assms(6) pre
    by (metis append_take_drop_id)
  have h: "strstr (cstring (rbData s1)) ?tok = Some t"
    using strstr_append [OF strstr_take [OF assms(3), of "t + 4"]] c by simp
  have "take (t + 2) (cstring (rbData s1)) = take (t + 2) (rbRest s)"
    using c strstr_Some [OF assms(3)] by simp
  with f g h have "ioHttpResponseHeaderRead s = Inr (None, Some (take (t + 2) (rbRest s)), recvBufferDitch s1 (t + 4))"
    by (simp add: ioHttpResponseHeaderRead_def Let_def eval_nat_numeral)
  moreover have "rbData (recvBufferDitch s1 (t + 4)) @ rbRest (recvBufferDitch s1 (t + 4)) = drop (t + 4) (rbRest s)"
    using ditch_data [OF ok(1)] whole [symmetric] len by simp
  moreover have "linkEnd s1 = linkEnd s"
    using appendLoop_end [OF 1(1) sa(1) ne(1)] by (simp add: linkEnd_def)
  then have "linkEnd (recvBufferDitch s1 (t + 4)) = linkEnd s" by (simp add: linkEnd_def recvBufferDitch_def Let_def)
  ultimately show ?thesis using ditch_data(1) [OF ok(1)] by simp
qed

text \<open>
  C12. A response header of at most 4096 bytes is read whole, whatever pieces it arrives in: the result
  is the header up to the line end before the empty line, and the bytes behind the empty line are
  what comes next, in order.
\<close>

theorem ioHttpResponseHeaderRead_whole:
  assumes "rbBuffer s = None" "rbLen s = 0" "strstr (rbRest s) (HTTP_EOL @ HTTP_EOL) = Some t" "0 < t" "t + 4 \<le> 4096"
    "NUL \<notin> set (take (t + 4) (rbRest s))"
  shows "\<exists>s1. ioHttpResponseHeaderRead s = Inr (None, Some (take (t + 2) (rbRest s)), s1) \<and> rbOk s1 \<and>
           rbData s1 @ rbRest s1 = drop (t + 4) (rbRest s)"
  using header_read [OF assms] by blast

lemma ioHttpResponseHeaderRead_whole_witness:
  "\<exists>s1. ioHttpResponseHeaderRead (exampleBuffer (exampleLink [''HTTP/1.1 200 OK'' @ [CR], [], [LF, CR], [LF] @ ''body''])) =
          Inr (None, Some (''HTTP/1.1 200 OK'' @ HTTP_EOL), s1) \<and> rbData s1 @ rbRest s1 = ''body''"
proof -
  let ?b = "exampleBuffer (exampleLink [''HTTP/1.1 200 OK'' @ [CR], [], [LF, CR], [LF] @ ''body''])"
  have r: "rbRest ?b = ''HTTP/1.1 200 OK'' @ HTTP_EOL @ HTTP_EOL @ ''body''"
    by (simp add: rbRest_def exampleLink_def stRest_def)
  have "strstr (rbRest ?b) (HTTP_EOL @ HTTP_EOL) = Some 15" unfolding r by code_simp
  moreover have "NUL \<notin> set (take 19 (rbRest ?b))" unfolding r by code_simp
  moreover have "take 17 (rbRest ?b) = ''HTTP/1.1 200 OK'' @ HTTP_EOL" "drop 19 (rbRest ?b) = ''body''"
    unfolding r by code_simp+
  ultimately show ?thesis using ioHttpResponseHeaderRead_whole [of ?b 15] by auto
qed

section \<open>Requests are sent whole\<close>

text \<open>
  As long as the connection does not break, \<open>send\<close> is repeated until the remote has accepted every
  byte, however little it takes at a time.
\<close>

lemma link_send_unbroken:
  assumes "Broken \<notin> set (lkAnswers lk)"
  shows "(\<exists>as. lkAnswers lk = WouldBlock # as \<and> link_send lk d = (WouldBlock, lk\<lparr>lkAnswers := as\<rparr>)) \<or>
         (\<exists>k as. link_send lk d = (Accepts k, lk\<lparr>lkAnswers := as, lkSent := lkSent lk @ take k d\<rparr>) \<and> k \<le> length d \<and>
              set as \<subseteq> set (lkAnswers lk) \<and> (lkAnswers lk = [] \<longrightarrow> k = length d \<and> as = []))"
proof (cases "lkAnswers lk")
  case Nil
  have "lk\<lparr>lkSent := lkSent lk @ d\<rparr> = lk\<lparr>lkAnswers := [], lkSent := lkSent lk @ d\<rparr>" using Nil by (cases lk) simp
  with Nil show ?thesis by (intro disjI2 exI [of _ "length d"] exI [of _ "[]"]) (simp add: link_send.simps)
next
  case (Cons a as)
  show ?thesis
  proof (cases a)
    case (Accepts n)
    with Cons show ?thesis
      by (intro disjI2 exI [of _ "min n (length d)"] exI [of _ as])
        (auto simp: link_send.simps min_def)
  next
    case WouldBlock
    with Cons show ?thesis by (simp add: link_send.simps)
  next
    case Broken
    with Cons assms show ?thesis by simp
  qed
qed

lemma keepSending_whole:
  assumes "Broken \<notin> set (lkAnswers lk)" "sent < length data"
  shows "\<exists>as. keepSending lk data sent =
           Inr (True, length data, lk\<lparr>lkAnswers := as, lkSent := lkSent lk @ drop sent data\<rparr>)"
  using assms
proof (induction lk data sent rule: keepSending.induct)
  case (1 lk data sent)
  let ?d = "drop sent data"
  have d: "?d \<noteq> []" using "1.prems"(2) by simp
  from link_send_unbroken [OF "1.prems"(1), of ?d] show ?case
  proof (elim disjE exE conjE)
    fix as assume a: "lkAnswers lk = WouldBlock # as" "link_send lk ?d = (WouldBlock, lk\<lparr>lkAnswers := as\<rparr>)"
    from "1.IH"(3) [OF a(2) [symmetric] refl] "1.prems" a(1) obtain bs where
      "keepSending (lk\<lparr>lkAnswers := as\<rparr>) data sent =
         Inr (True, length data, lk\<lparr>lkAnswers := bs, lkSent := lkSent lk @ ?d\<rparr>)" by auto
    with a(2) show ?thesis by (intro exI [of _ bs]) (simp add: keepSending.simps [of lk data sent])
  next
    fix k as
    assume a: "link_send lk ?d = (Accepts k, lk\<lparr>lkAnswers := as, lkSent := lkSent lk @ take k ?d\<rparr>)"
      "k \<le> length ?d" "set as \<subseteq> set (lkAnswers lk)" "lkAnswers lk = [] \<longrightarrow> k = length ?d \<and> as = []"
    let ?lk = "lk\<lparr>lkAnswers := as, lkSent := lkSent lk @ take k ?d\<rparr>"
    have nb: "Broken \<notin> set (lkAnswers ?lk)" using a(3) "1.prems"(1) by auto
    show ?thesis
    proof (cases "k = 0")
      case True
      have ne: "lkAnswers lk \<noteq> []" using True a(4) d by auto
      from "1.IH"(1) [OF a(1) [symmetric] refl True ne] nb "1.prems"(2) True obtain bs where
        "keepSending ?lk data sent = Inr (True, length data, ?lk\<lparr>lkAnswers := bs, lkSent := lkSent ?lk @ ?d\<rparr>)" by auto
      with a(1) True ne show ?thesis by (intro exI [of _ bs]) (simp add: keepSending.simps [of lk data sent])
    next
      case False
      show ?thesis
      proof (cases "sent + k = length data")
        case True
        with a(1,2) False show ?thesis
          by (intro exI [of _ as]) (simp add: keepSending.simps [of lk data sent])
      next
        case more: False
        have ne: "lkAnswers lk \<noteq> []" using more a(4) "1.prems"(2) by auto
        have lt: "sent + k < length data" using more a(2) "1.prems"(2) by simp
        from "1.IH"(2) [OF a(1) [symmetric] refl False more ne] nb lt obtain bs where
          "keepSending ?lk data (sent + k) =
             Inr (True, length data, ?lk\<lparr>lkAnswers := bs, lkSent := lkSent ?lk @ drop (sent + k) data\<rparr>)" by auto
        moreover have "take k ?d @ drop (sent + k) data = ?d"
          by (metis append_take_drop_id drop_drop add.commute)
        ultimately show ?thesis using a(1) False more ne
          by (intro exI [of _ bs]) (simp add: keepSending.simps [of lk data sent])
      qed
    qed
  qed
qed

text \<open>A buffer whose connection can be used for another request.\<close>

definition reusable :: "RecvBuffer \<Rightarrow> bool" where
  "reusable s \<longleftrightarrow> rbOptions s = 0 \<or> bit (rbOptions s) 3"

lemma send_whole:
  assumes "reusable s" "rbSocket s = Some lk" "Broken \<notin> set (lkAnswers lk)" "data \<noteq> []" "stRest (lkIn lk) \<noteq> []"
  shows "\<exists>s1 lk1. recvBufferSend s data = Inr (None, s1) \<and> rbSocket s1 = Some lk1 \<and> lkSent lk1 = lkSent lk @ data \<and>
           rbBuffer s1 = rbBuffer s \<and> rbLen s1 = rbLen s \<and> rbRest s1 = rbRest s \<and> stEnd (lkIn lk1) = stEnd (lkIn lk) \<and>
           rbOptions s1 = rbOptions (recvBufferSetLengthUnknown s SB_DATA_SIZE)"
proof -
  let ?s = "recvBufferSetLengthUnknown s SB_DATA_SIZE"
  have u: "rbSocket ?s = Some lk" "rbBuffer ?s = rbBuffer s" "rbLen ?s = rbLen s"
    using assms(2) by (simp_all add: recvBufferSetLengthUnknown_def Let_def)
  obtain as where k: "keepSending lk data 0 = Inr (True, length data, lk\<lparr>lkAnswers := as, lkSent := lkSent lk @ data\<rparr>)"
    using keepSending_whole [OF assms(3), of 0 data] assms(4) by auto
  let ?lk = "lk\<lparr>lkAnswers := as, lkSent := lkSent lk @ data\<rparr>"
  let ?s1 = "?s\<lparr>rbSocket := Some ?lk\<rparr>"
  obtain a st where w: "AppendWait SB_DATA_SIZE True (lkIn lk) = (a, st)" by fastforce
  from AppendWait_cases [OF w] assms(5) obtain q where q: "q \<noteq> []" "a = Got (take SB_DATA_SIZE q)"
    "stRest st = stRest (lkIn lk)" "stEnd st = stEnd (lkIn lk)" by auto
  let ?s2 = "?s1\<lparr>rbSocket := Some (?lk\<lparr>lkIn := st\<rparr>)\<rparr>"
  have r: "rbRecv SB_DATA_SIZE True ?s1 = (a, ?s2)" using w by (simp add: rbRecv_def)
  have "sendOnce data 0 ?s = Inr (True, length data, ?s2)"
    using u(1) k r q by (simp add: sendOnce_def SB_DATA_SIZE_def)
  then have "sendTries 2 data 0 None ?s = Inr (None, ?s2)" by (simp add: sendTries.simps)
  moreover have "recvBufferSend s data = sendTries 2 data 0 None ?s"
    using assms(1) by (auto simp: recvBufferSend_def reusable_def flag_bits)
  moreover have "rbRest ?s2 = rbRest s" using q(3) assms(2) by (simp add: rbRest_def)
  ultimately show ?thesis using u(2,3) q(4)
    by (intro exI [of _ ?s2] exI [of _ "?lk\<lparr>lkIn := st\<rparr>"]) simp
qed



text \<open>
  Two things the code does when the network fails. When every attempt to send fails and every attempt
  to connect anew succeeds, the result is success. And a request that broke off in the middle goes on
  from there on the new connection, which sees the end of it only.
\<close>

definition brokenLink :: Link where
  "brokenLink = \<lparr>lkIn = \<lparr>stQueue = [], stArrivals = [], stEnd = None\<rparr>, lkAnswers = [Broken], lkSent = []\<rparr>"

theorem recvBufferSend_failed_success:
  "\<exists>s1. recvBufferSend ((exampleBuffer brokenLink)\<lparr>rbAttempts := [Opened brokenLink, Opened brokenLink]\<rparr>) ''HEAD'' = Inr (None, s1) \<and>
        map_option lkSent (rbSocket s1) = Some []"
proof -
  have b: "keepSending brokenLink ''HEAD'' 0 = Inr (False, 0, brokenLink\<lparr>lkAnswers := []\<rparr>)"
    by (simp add: keepSending.simps brokenLink_def link_send.simps)
  show ?thesis
    by (simp add: recvBufferSend_def sendTries.simps sendOnce_def b recvBufferSetLengthUnknown_def Let_def
        recvBufferReconnect_def recvBufferConnect_def ioCreateSocketFromSocketAddress_def sock_connect_def
        eval_nat_numeral) (simp add: setFirst_def setSecond_def brokenLink_def)
qed

theorem recvBufferSend_resumes_middle:
  "\<exists>s1. recvBufferSend ((exampleBuffer (brokenLink\<lparr>lkAnswers := [Accepts 2, Broken]\<rparr>))\<lparr>rbAttempts := [Opened (exampleLink [''OK''])]\<rparr>)
          ''HEAD'' = Inr (None, s1) \<and>
        map_option lkSent (rbSocket s1) = Some ''AD''"
proof -
  let ?bl = "brokenLink\<lparr>lkAnswers := [Accepts 2, Broken]\<rparr>"
  let ?ol = "(exampleLink [''OK''])\<lparr>lkSent := ''AD''\<rparr>"
  have b: "keepSending ?bl ''HEAD'' 0 = Inr (False, 2, brokenLink\<lparr>lkAnswers := [], lkSent := ''HE''\<rparr>)"
    by (simp add: keepSending.simps brokenLink_def link_send.simps)
  have o: "keepSending (exampleLink [''OK'']) ''HEAD'' 2 = Inr (True, 4, ?ol)"
    by (simp add: keepSending.simps exampleLink_def link_send.simps)
  obtain a st where w: "AppendWait SB_DATA_SIZE True (lkIn ?ol) = (a, st)" by fastforce
  have a: "\<exists>d. a = Got d \<and> d \<noteq> []"
    using AppendWait_cases [OF w] by (auto simp: exampleLink_def stRest_def SB_DATA_SIZE_def)
  then obtain d where d: "a = Got d" "d \<noteq> []" by blast
  have r: "rbRecv SB_DATA_SIZE True (x\<lparr>rbSocket := Some ?ol\<rparr>) = (Got d, x\<lparr>rbSocket := Some (?ol\<lparr>lkIn := st\<rparr>)\<rparr>)" for x
    using w d(1) by (simp add: rbRecv_def)
  show ?thesis
    using r d(2)
    by (simp add: recvBufferSend_def sendTries.simps sendOnce_def b o recvBufferSetLengthUnknown_def Let_def
        recvBufferReconnect_def recvBufferConnect_def ioCreateSocketFromSocketAddress_def sock_connect_def
        setFirst_def setSecond_def)
qed

end
