(* ===== verification/Recv_Chunk.thy ===== *)
theory Recv_Chunk
  imports Recv_Request
begin

text \<open>
  Responses in chunks: what the decoder of \<open>recvBufferAppend\<close> does with any stream of bytes, and that
  it gives back what a server divided into chunks.
\<close>

section \<open>Chunked responses\<close>

text \<open>
  Whatever the remote sends, reading in the chunk mode is free of undefined behaviour, and what is
  appended is a subsequence of the bytes consumed: the sizes are left out, nothing is reordered.
\<close>

definition sifted :: "RecvBuffer \<Rightarrow> nat \<Rightarrow> RecvBuffer \<Rightarrow> bool" where
  "sifted s len s1 \<longleftrightarrow> rbOk s1 \<and> rbBuffer s1 \<noteq> None \<and>
     (\<exists>d c. rbData s1 = rbData s @ d \<and> rbRest s = c @ rbRest s1 \<and> subseq d c \<and> length d \<le> len)"

lemma sifted_none:
  "rbOk s1 \<Longrightarrow> rbBuffer s1 \<noteq> None \<Longrightarrow> rbData s1 = rbData s \<Longrightarrow> rbRest s = c @ rbRest s1 \<Longrightarrow> sifted s len s1"
  unfolding sifted_def by (intro conjI exI [of _ "[]"] exI [of _ c]) simp_all

lemma sifted_step:
  assumes "rbData s1 = rbData s @ d" "rbRest s = d @ rbRest s1" "length d \<le> len" "sifted s1 (len - length d) s2"
  shows "sifted s len s2"
proof -
  from assms(4) obtain e c where *: "rbOk s2" "rbBuffer s2 \<noteq> None" "rbData s2 = rbData s1 @ e" "rbRest s1 = c @ rbRest s2"
    "subseq e c" "length e \<le> len - length d" by (auto simp: sifted_def)
  have "subseq (d @ e) (d @ c)" using *(5) by (intro list_emb_append_mono) simp_all
  with * assms(1-3) show ?thesis
    unfolding sifted_def by (intro conjI exI [of _ "d @ e"] exI [of _ "d @ c"]) auto
qed

lemma sifted_skip:
  assumes "rbData s1 = rbData s" "rbRest s = c @ rbRest s1" "sifted s1 len s2"
  shows "sifted s len s2"
proof -
  from assms(3) obtain e c2 where *: "rbOk s2" "rbBuffer s2 \<noteq> None" "rbData s2 = rbData s1 @ e" "rbRest s1 = c2 @ rbRest s2"
    "subseq e c2" "length e \<le> len" by (auto simp: sifted_def)
  with assms(1,2) show ?thesis
    unfolding sifted_def by (intro conjI exI [of _ e] exI [of _ "c @ c2"]) (auto intro: subseq_order.trans)
qed

text \<open>Reading again what was looked at.\<close>

lemma peek_consume:
  assumes "rbRecv n True s = (Got d, s1)" "rbSocket s2 = rbSocket s1" "rbRecv (length d) False s2 = (r, s3)" "n \<noteq> 0"
  shows "rbRest s = rbRest s1 \<and> (d \<noteq> [] \<longrightarrow> r = Got d \<and> rbRest s = d @ rbRest s3) \<and> (d = [] \<longrightarrow> rbRest s = [] \<and> rbRest s3 = [])"
proof -
  have p: "rbRest s = rbRest s1" "prefix d (rbRest s)" "d = [] \<longleftrightarrow> rbRest s = []"
    using rbRecv_rest [OF assms(1)] assms(4) by auto
  have s2: "rbRest s2 = rbRest s1" using assms(2) by (simp add: rbRest_def)
  show ?thesis
  proof (cases "d = []")
    case True
    with p s2 have z: "rbRest s2 = []" by simp
    show ?thesis
    proof (cases r)
      case (Got x)
      with rbRecv_rest [of _ False s2 x s3] assms(3) z have "rbRest s3 = []" by auto
      with p True show ?thesis by simp
    next
      case TryAgain
      with assms(3) recv_no_again show ?thesis by blast
    next
      case (RecvFailed e)
      with recv_failed assms(3) have "rbRest s3 = []" by blast
      with p True show ?thesis by simp
    qed
  next
    case False
    from assms(1,2) obtain lk st where lk: "rbSocket s2 = Some lk" "lkIn lk = st" "AppendWait n True (lkIn (the (rbSocket s))) = (Got d, st)"
      by (auto simp: rbRecv_def split: option.splits prod.splits)
    from AppendWait_cases [OF lk(3)] False obtain q z where q: "d = take n q" "q \<noteq> []" "stQueue st = q" "stRest st = q @ z"
      by (auto split: option.splits)
    have len: "length d \<le> length q" using q by simp
    from assms(3) lk obtain st3 where st3: "AppendWait (length d) False st = (r, st3)" "rbRest s3 = stRest st3"
      by (auto simp: rbRecv_def rbRest_def split: prod.splits)
    have dq: "take (length d) (stQueue (stPull st)) = d"
    proof -
      have "prefix q (stQueue (stPull st))" using q(3) by (auto simp: stPull_def split: list.split)
      then obtain y where "stQueue (stPull st) = q @ y" by (auto simp: prefix_def)
      with q(1) show ?thesis by (simp add: min_def)
    qed
    moreover have "stQueue (stPull st) \<noteq> []" using dq False by auto
    ultimately have "r = Got d"
      using st3(1) by (auto simp: AppendWait.simps [of _ _ st] sock_recv_def Let_def)
    with rbRecv_rest [of _ False s2 d s3] assms(3) s2 p False show ?thesis by auto
  qed
qed

lemma parse_step:
  assumes "rbOk s" "rbBuffer s \<noteq> None"
  shows "(\<exists>e s1. chunkLoop True s len = Inr (e, s1) \<and> sifted s len s1) \<or>
         (\<exists>s2 x. chunkLoop True s len = chunkLoop False s2 len \<and> rbOk s2 \<and> rbBuffer s2 \<noteq> None \<and>
            rbData s2 = rbData s \<and> x \<noteq> [] \<and> rbRest s = x @ rbRest s2)"
proof -
  note simps = chunkLoop.simps [of True s len]
  obtain r s1 where r: "rbRecv 19 True s = (r, s1)" by fastforce
  note f = recv_frame [OF r]
  consider (fail) e where "r = RecvFailed e" | (got) b where "r = Got b"
    using r recv_no_again by (cases r) blast+
  then show ?thesis
  proof cases
    case fail
    have "sifted s len s1"
      using f recv_failed [OF r [unfolded fail]] assms by (intro sifted_none [where c = "[]"]) simp_all
    with r fail show ?thesis by (simp add: simps)
  next
    case got
    have rest1: "rbRest s = rbRest s1" "b = [] \<longleftrightarrow> rbRest s = []" using rbRecv_rest [OF r [unfolded got]] by simp_all
    have same: "sifted s len s1" using f rest1 assms by (intro sifted_none [where c = "[]"]) simp_all
    consider (short) "length b < (if rbFirst s = -1 then 3 else 5)"
      | (bad) "\<not> length b < (if rbFirst s = -1 then 3 else 5)" "chunkHeader (rbFirst s = -1) b = None"
      | (head) hex j e l where "\<not> length b < (if rbFirst s = -1 then 3 else 5)"
          "chunkHeader (rbFirst s = -1) b = Some (hex, j)" "ioHttpBodyChunkHexToSize hex = (e, l)"
      by (metis surj_pair option.exhaust)
    then show ?thesis
    proof cases
      case head
      show ?thesis
      proof (cases e)
        case (Some x)
        with same r got head show ?thesis by (simp add: simps)
      next
        case None
        obtain r2 s2 where r2: "rbRecv j False s1 = (r2, s2)" by fastforce
        have ne: "rbRest s1 \<noteq> []" using rest1 head(1) by (auto split: if_splits)
        then obtain x where x: "r2 = Got x" using r2 recv_failed recv_no_again by (cases r2) blast+
        note w = rbRecv_rest [OF r2 [unfolded x]]
        note f2 = recv_frame [OF r2]
        have "x \<noteq> []" using w ne chunkHeader_length [OF head(2)] by auto
        moreover have "rbRest s = x @ rbRest s2" using w rest1 by simp
        moreover from this have "sifted s len (recvBufferSetLengthComplete (setFirst (-1) s2))"
          using f f2 assms by (intro sifted_none [where c = x]) simp_all
        ultimately show ?thesis
          using r got head None r2 x f f2 assms by (cases "l = 0") (auto simp: simps)
      qed
    qed (use same r got in \<open>simp_all add: simps\<close>)
  qed
qed

lemma iterate_step:
  assumes "rbOk s" "rbBuffer s \<noteq> None"
  shows "(\<exists>e s1. chunkLoop False s len = Inr (e, s1) \<and> sifted s len s1) \<or>
         (\<exists>s2 d. chunkLoop False s len = chunkLoop False s2 (len - length d) \<and> rbOk s2 \<and> rbBuffer s2 \<noteq> None \<and>
            rbData s2 = rbData s @ d \<and> d \<noteq> [] \<and> length d \<le> len \<and> rbRest s = d @ rbRest s2) \<or>
         chunkLoop False s len = chunkLoop True s len"
proof -
  note simps = chunkLoop.simps [of False s len]
  consider (data) "0 < len" "0 < u64 (rbFirst s)" | (full) "len = 0" | (turn) "len \<noteq> 0" "u64 (rbFirst s) = 0"
    by blast
  then show ?thesis
  proof cases
    case full
    then have "sifted s len s" using assms by (intro sifted_none [where c = "[]"]) simp_all
    with full show ?thesis by (simp add: chunkLoop.simps [of False s 0])
  next
    case turn
    then show ?thesis by (simp add: simps)
  next
    case data
    let ?n = "min (min (u64 (rbFirst s)) len) SB_DATA_SIZE"
    have n: "?n \<noteq> 0" using data by (simp add: SB_DATA_SIZE_def)
    obtain r s1 where r: "rbRecv ?n True s = (r, s1)" by fastforce
    note f = recv_frame [OF r]
    consider (fail) e where "r = RecvFailed e" | (got) d where "r = Got d"
      using r recv_no_again by (cases r) blast+
    then show ?thesis
    proof cases
      case fail
      have "sifted s len s1"
        using f recv_failed [OF r [unfolded fail]] assms by (intro sifted_none [where c = "[]"]) simp_all
      with r fail data show ?thesis by (simp add: simps)
    next
      case got
      have ld: "length d \<le> ?n" using rbRecv_rest [OF r [unfolded got]] by simp
      obtain s2 where s2: "BufferAppend s1 d = Inr s2" "rbData s2 = rbData s1 @ d" "rbOk s2" "rbBuffer s2 \<noteq> None"
        "rbSocket s2 = rbSocket s1"
        using BufferAppend_data [of s1 d] f assms by metis
      obtain r3 s3 where r3: "rbRecv (length d) False (setFirst (rbFirst s - int (length d)) s2) = (r3, s3)" by fastforce
      note f3 = recv_frame [OF r3]
      note pc = peek_consume [OF r [unfolded got] _ r3 n]
      show ?thesis
      proof (cases "d = []")
        case True
        have "sifted s len s3" using True pc s2 f f3 assms by (intro sifted_none [where c = "[]"]) auto
        moreover have "r3 \<noteq> TryAgain" using r3 recv_no_again by blast
        ultimately show ?thesis using r got s2 r3 True n data by (cases r3) (simp_all add: simps Let_def)
      next
        case False
        with pc s2 have r3d: "r3 = Got d" "rbRest s = d @ rbRest s3" by auto
        have s3: "rbOk s3" "rbBuffer s3 \<noteq> None" "rbData s3 = rbData s @ d" using s2 f f3 by simp_all
        then have "sifted s len s3"
          unfolding sifted_def using r3d(2) ld by (intro conjI exI [of _ d]) auto
        moreover have "chunkLoop False s len = (if length d < ?n then Inr (None, s3) else chunkLoop False s3 (len - length d))"
          using r got s2(1) r3 r3d(1) data by (simp add: simps Let_def)
        ultimately show ?thesis using s3 r3d ld False by (cases "length d < ?n") auto
      qed
    qed
  qed
qed

lemma chunkLoop_sifts:
  assumes "rbOk s" "rbBuffer s \<noteq> None"
  shows "\<exists>e s1. chunkLoop parse s len = Inr (e, s1) \<and> sifted s len s1"
  using assms
proof (induction "2 * length (rbRest s) + (if parse then 0 else 1)" arbitrary: parse s len rule: less_induct)
  case less
  show ?case
  proof (cases parse)
    case True
    from parse_step [OF less.prems, of len] show ?thesis
    proof (elim disjE exE conjE)
      fix s2 x
      assume *: "chunkLoop True s len = chunkLoop False s2 len" "rbOk s2" "rbBuffer s2 \<noteq> None" "rbData s2 = rbData s"
        "x \<noteq> []" "rbRest s = x @ rbRest s2"
      have "2 * length (rbRest s2) + 1 < 2 * length (rbRest s)" using *(5,6) by (cases x) auto
      with less.hyps [of s2 False len] * True obtain e s1 where "chunkLoop False s2 len = Inr (e, s1)" "sifted s2 len s1"
        by auto
      with sifted_skip [OF *(4,6)] * True show ?thesis by auto
    qed (use True in auto)
  next
    case False
    from iterate_step [OF less.prems, of len] show ?thesis
    proof (elim disjE exE conjE)
      fix s2 d
      assume *: "chunkLoop False s len = chunkLoop False s2 (len - length d)" "rbOk s2" "rbBuffer s2 \<noteq> None"
        "rbData s2 = rbData s @ d" "d \<noteq> []" "length d \<le> len" "rbRest s = d @ rbRest s2"
      have "2 * length (rbRest s2) + 1 < 2 * length (rbRest s) + 1" using *(5,7) by (cases d) auto
      with less.hyps [of s2 False "len - length d"] * False obtain e s1 where
        "chunkLoop False s2 (len - length d) = Inr (e, s1)" "sifted s2 (len - length d) s1" by auto
      with sifted_step [OF *(4,7,6)] * False show ?thesis by auto
    next
      assume "chunkLoop False s len = chunkLoop True s len"
      with less.hyps [of s True len] less.prems False show ?thesis by auto
    qed (use False in auto)
  qed
qed

text \<open>
  C16. The type invariant of the buffer survives every call of \<open>recvBufferAppend\<close>, whatever the mode and
  whatever the remote sends: the call has a defined result, the bytes in use stay inside the block,
  what was in the buffer stays in front, and at most \<open>len\<close> bytes are added, all of them received.
\<close>

theorem recvBufferAppend_type:
  assumes "rbOk s"
  shows "\<exists>e s1. recvBufferAppend s len = Inr (e, s1) \<and> rbOk s1 \<and>
           (\<exists>d c. rbData s1 = rbData s @ d \<and> rbRest s = c @ rbRest s1 \<and> subseq d c \<and> length d \<le> len)"
proof (cases "bit (rbOptions s) 0 \<and> \<not> bit (rbOptions s) 3")
  case False
  then consider "bit (rbOptions s) 3" | "plainMode s" using assms by (auto simp: plainMode_def)
  then show ?thesis
  proof cases
    case 1
    with assms show ?thesis by (auto simp: recvBufferAppend_def flag_bits)
  next
    case 2
    from recvBufferAppend_moves [OF this, of len] show ?thesis by (auto simp: plainMode_def)
  qed
next
  case True
  let ?s = "case rbBuffer s of None \<Rightarrow> s\<lparr>rbBuffer := Some (replicate SB_DATA_SIZE NUL), rbLen := 0\<rparr> | Some _ \<Rightarrow> s"
  have s: "rbOk ?s" "rbBuffer ?s \<noteq> None" "rbData ?s = rbData s" "rbRest ?s = rbRest s" "rbOptions ?s = rbOptions s"
    using assms by (auto simp: rbOk_def rbData_def rbRest_def split: option.splits)
  have a: "recvBufferAppend s len = chunkLoop (rbFirst ?s = -1) ?s len"
    using True s(5) by (simp add: recvBufferAppend_def flag_bits Let_def)
  from chunkLoop_sifts [OF s(1,2), of "rbFirst ?s = -1" len] s(3,4) a show ?thesis by (auto simp: sifted_def)
qed

lemma recvBufferAppend_type_witness:
  "\<exists>e s1. recvBufferAppend ((exampleBuffer (exampleLink [''x'']))\<lparr>rbOptions := 1\<rparr>) 9 = Inr (e, s1) \<and> rbOk s1"
proof -
  have "rbOk ((exampleBuffer (exampleLink [''x'']))\<lparr>rbOptions := 1\<rparr>)" by (simp add: rbOk_def)
  from recvBufferAppend_type [OF this, of 9] show ?thesis by blast
qed

subsection \<open>Decoding what a server sends\<close>

definition chunkText :: "string \<Rightarrow> string" where
  "chunkText d = show_hex (length d) @ HTTP_EOL @ d @ HTTP_EOL"

definition chunkedBody :: "string list \<Rightarrow> string" where
  "chunkedBody ds = concat (map chunkText ds) @ ''0'' @ HTTP_EOL @ HTTP_EOL"

text \<open>The socket of the buffer has received exactly \<open>q\<close> and nothing else will arrive.\<close>

definition holds :: "RecvBuffer \<Rightarrow> string \<Rightarrow> bool" where
  "holds s q \<longleftrightarrow> (\<exists>lk. rbSocket s = Some lk \<and> stQueue (lkIn lk) = q \<and> stArrivals (lkIn lk) = [])"

lemma holds_rest: "holds s q \<Longrightarrow> rbRest s = q"
  by (auto simp: holds_def rbRest_def stRest_def)

lemma holds_recv:
  assumes "holds s q" "q \<noteq> []"
  obtains s1 where "rbRecv n peek s = (Got (take n q), s1)" "holds s1 (if peek then q else drop n q)"
proof -
  from assms obtain lk where lk: "rbSocket s = Some lk" "stQueue (lkIn lk) = q" "stArrivals (lkIn lk) = []"
    by (auto simp: holds_def)
  with AppendWait_queue [of "lkIn lk" n peek] assms(2) that show thesis
    by (auto simp: rbRecv_def holds_def split: if_splits)
qed

lemma holds_frame: "rbSocket s1 = rbSocket s \<Longrightarrow> holds s1 q = holds s q"
  by (simp add: holds_def)

definition reads :: "RecvBuffer \<Rightarrow> string \<Rightarrow> string \<Rightarrow> int \<Rightarrow> RecvBuffer \<Rightarrow> bool" where
  "reads s d q nxt s1 \<longleftrightarrow> rbOk s1 \<and> rbBuffer s1 \<noteq> None \<and> holds s1 q \<and> rbFirst s1 = nxt \<and> rbData s1 = rbData s @ d"

text \<open>The data of one chunk.\<close>

lemma u64_small: "n < 2 ^ 63 \<Longrightarrow> u64 (int n) = n"
  by (simp add: u64_def)

lemma chunk_piece:
  assumes "rbOk s" "rbBuffer s \<noteq> None" "holds s (d @ q)" "rbFirst s = int (length d)" "d \<noteq> []" "length d < len"
    "length d < 2 ^ 63"
  shows "\<exists>s1. chunkLoop False s len = chunkLoop False s1 (len - min (length d) SB_DATA_SIZE) \<and>
           reads s (take SB_DATA_SIZE d) (drop SB_DATA_SIZE d @ q) (int (length (drop SB_DATA_SIZE d))) s1"
proof -
  let ?n = "min (length d) SB_DATA_SIZE"
  have u: "u64 (rbFirst s) = length d" using assms by (simp add: u64_small)
  have n: "min (min (u64 (rbFirst s)) len) SB_DATA_SIZE = ?n" using assms(6) u by simp
  obtain s1 where r1: "rbRecv ?n True s = (Got (take ?n (d @ q)), s1)" "holds s1 (d @ q)"
    using holds_recv [OF assms(3), of ?n True] assms(5) by auto
  have t: "take ?n (d @ q) = take SB_DATA_SIZE d" by (simp add: min_def)
  note f1 = recv_frame [OF r1(1)]
  obtain s2 where s2: "BufferAppend s1 (take SB_DATA_SIZE d) = Inr s2" "rbData s2 = rbData s @ take SB_DATA_SIZE d"
    "rbOk s2" "rbBuffer s2 \<noteq> None" "rbSocket s2 = rbSocket s1"
    using BufferAppend_data [of s1 "take SB_DATA_SIZE d"] f1 assms(1,2) by metis
  let ?s2 = "setFirst (rbFirst s - int ?n) s2"
  have "holds ?s2 (d @ q)" using r1(2) s2(5) by (simp add: holds_def)
  then obtain s3 where r3: "rbRecv ?n False ?s2 = (Got (take ?n (d @ q)), s3)" "holds s3 (drop ?n (d @ q))"
    using holds_recv [of ?s2 "d @ q" ?n False] assms(5) by auto
  note f3 = recv_frame [OF r3(1)]
  have "chunkLoop False s len = chunkLoop False s3 (len - ?n)"
    using chunkLoop.simps [of False s len] assms(5,6) u n r1(1) t s2(1) r3(1)
    by (simp add: Let_def min.commute)
  moreover have "drop ?n (d @ q) = drop SB_DATA_SIZE d @ q" by (simp add: min_def)
  ultimately show ?thesis
    using f3 s2 r3(2) assms(4) by (auto simp: reads_def min_def)
qed

lemma chunk_data:
  assumes "rbOk s" "rbBuffer s \<noteq> None" "holds s (d @ q)" "rbFirst s = int (length d)" "length d < len" "length d < 2 ^ 63"
  shows "\<exists>s1. chunkLoop False s len = chunkLoop False s1 (len - length d) \<and> reads s d q 0 s1"
  using assms
proof (induction "length d" arbitrary: s d len rule: less_induct)
  case less
  show ?case
  proof (cases "d = []")
    case True
    with less.prems show ?thesis by (intro exI [of _ s]) (simp add: reads_def)
  next
    case False
    from chunk_piece [OF less.prems(1-4) False less.prems(5,6)] obtain s1 where
      1: "chunkLoop False s len = chunkLoop False s1 (len - min (length d) SB_DATA_SIZE)"
      "reads s (take SB_DATA_SIZE d) (drop SB_DATA_SIZE d @ q) (int (length (drop SB_DATA_SIZE d))) s1" by blast
    let ?d = "drop SB_DATA_SIZE d"
    have "length ?d < length d" using False by (simp add: SB_DATA_SIZE_def)
    moreover have "length ?d < len - min (length d) SB_DATA_SIZE" using less.prems(5) by (auto simp: min_def)
    ultimately obtain s2 where 2: "chunkLoop False s1 (len - min (length d) SB_DATA_SIZE) =
        chunkLoop False s2 (len - min (length d) SB_DATA_SIZE - length ?d)" "reads s1 ?d q 0 s2"
      using less.hyps [of ?d s1 "len - min (length d) SB_DATA_SIZE"] 1(2) less.prems(6) by (auto simp: reads_def)
    have "len - min (length d) SB_DATA_SIZE - length ?d = len - length d" by (simp add: min_def)
    with 1 2 show ?thesis by (auto simp: reads_def)
  qed
qed

text \<open>The size of one chunk.\<close>

lemma hex_no_eol: "c \<in> set (show_hex n) \<Longrightarrow> c \<noteq> CR \<and> c \<noteq> NUL"
proof -
  assume "c \<in> set (show_hex n)"
  then have "IsValidHexCharacter c" using show_hex_valid [of n] by (auto simp: list_all_iff)
  then show ?thesis by (auto simp: hexCharacters)
qed

lemma strstr_eol_after:
  assumes "CR \<notin> set a"
  shows "strstr (a @ HTTP_EOL @ z) HTTP_EOL = Some (length a)"
  using assms by (induction a) auto

lemma show_hex_length: "n < 16 ^ k \<Longrightarrow> 0 < k \<Longrightarrow> length (show_hex n) \<le> k"
proof (induction n arbitrary: k rule: show_hex.induct)
  case (1 n)
  show ?case
  proof (cases "n < 16")
    case True
    with 1 show ?thesis by (simp add: show_hex.simps [of n])
  next
    case False
    then obtain j where k: "k = Suc j" "0 < j" using "1.prems" by (cases k; cases "k - 1") auto
    then have "n div 16 < 16 ^ j" using "1.prems" by (simp add: less_mult_imp_div_less mult.commute)
    with "1.IH" [OF False _ k(2)] False k(1) show ?thesis by (simp add: show_hex.simps [of n])
  qed
qed

lemma show_hex_zero: "show_hex 0 = ''0''"
  by code_simp

lemma show_hex_ne: "show_hex n \<noteq> []"
  by (subst show_hex.simps) simp

lemma chunkHeader_size:
  fixes n :: nat
  defines "h \<equiv> show_hex n"
  assumes "pre = (if first then [] else HTTP_EOL)" "length h \<le> 15"
  shows "chunkHeader first (take 19 (pre @ h @ HTTP_EOL @ q)) = Some (h, length pre + length h + 2)"
proof -
  have hn: "CR \<notin> set h" "NUL \<notin> set h" using hex_no_eol by (auto simp: h_def)
  obtain z where z: "take 19 (pre @ h @ HTTP_EOL @ q) = pre @ h @ HTTP_EOL @ z"
    using assms(2,3) by (cases first) (auto simp: take_Cons')
  have c: "cstring (pre @ h @ HTTP_EOL @ z) = pre @ h @ HTTP_EOL @ cstring z"
    using hn(2) cstring_append [of "pre @ h @ HTTP_EOL" z] assms(2) by (cases first) auto
  show ?thesis
  proof (cases first)
    case True
    with z c assms(2) strstr_eol_after [OF hn(1)] show ?thesis by (simp add: chunkHeader_def Let_def)
  next
    case False
    with z c assms(2) strstr_eol_after [OF hn(1), of "cstring z"] show ?thesis
      by (simp add: chunkHeader_def Let_def strstr_from_def substr_def)
  qed
qed

lemma chunk_size:
  assumes "rbOk s" "rbBuffer s \<noteq> None" "holds s (pre @ show_hex n @ HTTP_EOL @ q)" "n < 2 ^ 60"
    "rbFirst s = -1 \<and> pre = [] \<or> rbFirst s = 0 \<and> pre = HTTP_EOL"
  shows "\<exists>s1. chunkLoop True s len =
           (if n = 0 then Inr (None, recvBufferSetLengthComplete s1) else chunkLoop False s1 len) \<and>
           reads s [] q (if n = 0 then -1 else int n) s1"
proof -
  let ?all = "pre @ show_hex n @ HTTP_EOL @ q"
  have first: "pre = (if rbFirst s = -1 then [] else HTTP_EOL)" using assms(5) by auto
  have l15: "length (show_hex n) \<le> 15" using show_hex_length [of n 15] assms(4) by simp
  have l1: "1 \<le> length (show_hex n)" using show_hex_ne [of n] by (cases "show_hex n") auto
  obtain s1 where r1: "rbRecv 19 True s = (Got (take 19 ?all), s1)" "holds s1 ?all"
    using holds_recv [OF assms(3), of 19 True] by auto
  let ?j = "length pre + length (show_hex n) + 2"
  obtain s2 where r2: "rbRecv ?j False s1 = (Got (take ?j ?all), s2)" "holds s2 (drop ?j ?all)"
    using holds_recv [OF r1(2), of ?j False] by auto
  have q: "drop ?j ?all = q" by simp
  have enough: "\<not> length (take 19 ?all) < (if rbFirst s = -1 then 3 else 5)" using assms(5) l1 by auto
  note f1 = recv_frame [OF r1(1)] and f2 = recv_frame [OF r2(1)]
  have w: "(word_of_nat n :: 64 word) = 0 \<longleftrightarrow> n = 0" using assms(4) by (auto simp: word_of_nat_eq_0_iff dest: dvd_imp_le)
  show ?thesis
  proof (cases "n = 0")
    case True
    have "chunkLoop True s len = Inr (None, recvBufferSetLengthComplete (setFirst (-1) s2))"
      using chunkLoop.simps [of True s len] r1(1) enough chunkHeader_size [OF first l15, of q] show_hex_size [of n] r2(1) True
      by (simp add: Let_def)
    moreover have "reads s [] q (-1) (setFirst (-1) s2)" using f1 f2 r2(2) q assms(1,2) by (simp add: reads_def holds_def)
    ultimately show ?thesis using True by auto
  next
    case False
    have "chunkLoop True s len = chunkLoop False (setFirst (int n) s2) len"
      using chunkLoop.simps [of True s len] r1(1) enough chunkHeader_size [OF first l15, of q] show_hex_size [of n] r2(1) False w
        sint_size [of n] assms(4) by (simp add: Let_def)
    moreover have "reads s [] q (int n) (setFirst (int n) s2)" using f1 f2 r2(2) q assms(1,2) by (simp add: reads_def holds_def)
    ultimately show ?thesis using False by auto
  qed
qed


lemma chunk_list:
  assumes "rbOk s" "rbBuffer s \<noteq> None" "holds s (pre @ chunkedBody ds @ extra)"
    "rbFirst s = -1 \<and> pre = [] \<or> rbFirst s = 0 \<and> pre = HTTP_EOL"
    "\<forall>d \<in> set ds. d \<noteq> [] \<and> length d < 2 ^ 60" "length (concat ds) < len"
  shows "\<exists>s1. chunkLoop True s len = Inr (None, recvBufferSetLengthComplete s1) \<and> reads s (concat ds) (HTTP_EOL @ extra) (-1) s1"
  using assms
proof (induction ds arbitrary: s pre len)
  case Nil
  have "holds s (pre @ show_hex 0 @ HTTP_EOL @ HTTP_EOL @ extra)"
    using Nil.prems(3) unfolding show_hex_zero by (simp add: chunkedBody_def)
  from chunk_size [OF Nil.prems(1,2) this _ Nil.prems(4), of len] show ?case by (auto simp: reads_def)
next
  case (Cons d ds)
  let ?q = "HTTP_EOL @ chunkedBody ds @ extra"
  have "holds s (pre @ show_hex (length d) @ HTTP_EOL @ d @ ?q)"
    using Cons.prems(3) by (simp add: chunkedBody_def chunkText_def)
  from chunk_size [OF Cons.prems(1,2) this _ Cons.prems(4), of len] Cons.prems(5) obtain s1 where
    1: "chunkLoop True s len = chunkLoop False s1 len" "reads s [] (d @ ?q) (int (length d)) s1" by auto
  have l: "length d < len" "length d < 2 ^ 63" using Cons.prems(5,6) by (auto intro: less_trans)
  from chunk_data [of s1 d ?q len] 1(2) l obtain s2 where
    2: "chunkLoop False s1 len = chunkLoop False s2 (len - length d)" "reads s1 d ?q 0 s2" by (auto simp: reads_def)
  have 3: "chunkLoop False s2 (len - length d) = chunkLoop True s2 (len - length d)"
    using chunkLoop.simps [of False s2 "len - length d"] 2(2) l by (simp add: reads_def u64_def)
  have "length (concat ds) < len - length d" using Cons.prems(6) by simp
  with Cons.IH [of s2 HTTP_EOL "len - length d"] 2(2) Cons.prems(5) obtain s3 where
    "chunkLoop True s2 (len - length d) = Inr (None, recvBufferSetLengthComplete s3)"
    "reads s2 (concat ds) (HTTP_EOL @ extra) (-1) s3" by (auto simp: reads_def)
  with 1 2 3 show ?case by (auto simp: reads_def)
qed

lemma chunked_body_read:
  assumes "rbOk s" "bit (rbOptions s) 0" "\<not> bit (rbOptions s) 3" "rbFirst s = -1"
    "holds s (chunkedBody ds @ extra)" "\<forall>d \<in> set ds. d \<noteq> [] \<and> length d < 2 ^ 60" "length (concat ds) < len"
  shows "\<exists>s1. recvBufferAppend s len = Inr (None, s1) \<and> rbData s1 = rbData s @ concat ds \<and>
           bit (rbOptions s1) 3 \<and> rbRest s1 = HTTP_EOL @ extra"
proof -
  let ?s = "case rbBuffer s of None \<Rightarrow> s\<lparr>rbBuffer := Some (replicate SB_DATA_SIZE NUL), rbLen := 0\<rparr> | Some _ \<Rightarrow> s"
  have s: "rbOk ?s" "rbBuffer ?s \<noteq> None" "rbData ?s = rbData s" "rbSocket ?s = rbSocket s" "rbOptions ?s = rbOptions s"
    "rbFirst ?s = -1"
    using assms(1,4) by (auto simp: rbOk_def rbData_def split: option.splits)
  have "recvBufferAppend s len = chunkLoop True ?s len"
    using assms(2,3) s(5,6) by (simp add: recvBufferAppend_def flag_bits Let_def)
  moreover have "holds ?s ([] @ chunkedBody ds @ extra)" using assms(5) s(4) by (simp add: holds_def)
  then obtain s1 where "chunkLoop True ?s len = Inr (None, recvBufferSetLengthComplete s1)"
    "reads ?s (concat ds) (HTTP_EOL @ extra) (-1) s1"
    using chunk_list [OF s(1,2) _ _ assms(6,7), of "[]" extra] s(6) by auto
  ultimately show ?thesis
    using s(3) mode_bits(1) [of s1] holds_rest [of s1] by (intro exI [of _ "recvBufferSetLengthComplete s1"]) (auto simp: reads_def)
qed

text \<open>
  C5. When a chunked body has arrived, one call that asks for more than its length decodes all of it:
  the buffer gets the data of the chunks one after the other and the transmission counts as complete.
  The line end behind the last chunk is left in the stream.
\<close>

theorem recvBufferAppend_chunked:
  assumes "rbOk s" "bit (rbOptions s) 0" "\<not> bit (rbOptions s) 3" "rbFirst s = -1"
    "holds s (chunkedBody ds @ extra)" "\<forall>d \<in> set ds. d \<noteq> [] \<and> length d < 2 ^ 60" "length (concat ds) < len"
  shows "\<exists>s1. recvBufferAppend s len = Inr (None, s1) \<and> rbData s1 = rbData s @ concat ds \<and>
           bit (rbOptions s1) 3 \<and> rbRest s1 = HTTP_EOL @ extra"
  using assms by (rule chunked_body_read)

definition queuedLink :: "string \<Rightarrow> Link" where
  "queuedLink q = \<lparr>lkIn = \<lparr>stQueue = q, stArrivals = [], stEnd = None\<rparr>, lkAnswers = [], lkSent = []\<rparr>"

definition chunkBuffer :: "string \<Rightarrow> RecvBuffer" where
  "chunkBuffer q = setFirst (-1) ((exampleBuffer (queuedLink q))\<lparr>rbOptions := RECV_BUFFER_DATA_LENGTH_CHUNK\<rparr>)"

lemma chunkBuffer_simps [simp]:
  "rbOk (chunkBuffer q)" "bit (rbOptions (chunkBuffer q)) 0" "\<not> bit (rbOptions (chunkBuffer q)) 3"
  "rbFirst (chunkBuffer q) = -1" "holds (chunkBuffer q) q" "rbData (chunkBuffer q) = []"
  by (simp_all add: chunkBuffer_def exampleBuffer_def recvBufferNew_def rbOk_def rbData_def holds_def queuedLink_def mode_defs
      bits_of_numerals)

lemma recvBufferAppend_chunked_witness:
  "\<exists>s1. recvBufferAppend (chunkBuffer (''3'' @ HTTP_EOL @ ''abc'' @ HTTP_EOL @ ''2'' @ HTTP_EOL @ ''de'' @ HTTP_EOL @
            ''0'' @ HTTP_EOL @ HTTP_EOL)) 8192 = Inr (None, s1) \<and> rbData s1 = ''abcde''"
proof -
  have b: "chunkedBody [''abc'', ''de''] =
      ''3'' @ HTTP_EOL @ ''abc'' @ HTTP_EOL @ ''2'' @ HTTP_EOL @ ''de'' @ HTTP_EOL @ ''0'' @ HTTP_EOL @ HTTP_EOL"
    by (simp add: chunkedBody_def chunkText_def show_hex.simps hex_digit_def char_of_eq_iff)
  from recvBufferAppend_chunked [of "chunkBuffer (chunkedBody [''abc'', ''de''])" "[''abc'', ''de'']" "[]" 8192]
  show ?thesis unfolding b by auto
qed

text \<open>
  A peer that closes the connection between two chunks, before the last one: the call reports success
  and changes nothing, so that a loop which waits for more data never ends.
\<close>

lemma AppendWait_closed: "stRest st = [] \<Longrightarrow> stArrivals st = [] \<Longrightarrow> stEnd st = None \<Longrightarrow> AppendWait n peek st = (Got [], st)"
  by (simp add: AppendWait.simps [of n peek st] sock_recv_def stPull_def stRest_def Let_def)

theorem recvBufferAppend_closed_stuck:
  assumes "rbSocket s = Some lk" "stRest (lkIn lk) = []" "stArrivals (lkIn lk) = []" "stEnd (lkIn lk) = None"
    "rbBuffer s \<noteq> None" "bit (rbOptions s) 0" "\<not> bit (rbOptions s) 3" "rbFirst s = 0 \<or> rbFirst s = -1" "0 < len"
  shows "recvBufferAppend s len = Inr (None, s)"
proof -
  have r: "rbRecv 19 True s = (Got [], s)"
    using assms(1) AppendWait_closed [OF assms(2-4)] by (simp add: rbRecv_def)
  then have "chunkLoop True s len = Inr (None, s)" by (simp add: chunkLoop.simps [of True s len] Let_def)
  moreover have "rbFirst s = 0 \<Longrightarrow> chunkLoop False s len = chunkLoop True s len"
    using assms(9) by (simp add: chunkLoop.simps [of False s len] u64_def)
  ultimately show ?thesis
    using assms(5-8) by (auto simp: recvBufferAppend_def flag_bits Let_def)
qed

end
