(* ===== verification/Chunk_Strip.thy ===== *)
theory Chunk_Strip
  imports Recv_Chunk
begin

text \<open>
  \<open>ioHttpBodyChunkStrip\<close> of \<open>src/client/io.c\<close>: the chunked encoding is taken out of a buffer in place, and the
  length left in the current chunk is kept between calls. \<open>mem\<close> is the whole block of the caller, of which the
  first \<open>m\<close> bytes hold data; the function reads up to one byte further.
\<close>

section \<open>The function\<close>

definition byteAt :: "string \<Rightarrow> nat \<Rightarrow> char res" where
  "byteAt mem i = (if i < length mem then Inr (mem ! i) else Inl OutOfBounds)"

definition eolAt :: "string \<Rightarrow> nat \<Rightarrow> bool res" where
  "eolAt mem i =
     bindr (byteAt mem i) (\<lambda>c. if c \<noteq> CR then Inr False else bindr (byteAt mem (i + 1)) (\<lambda>d. Inr (d = LF)))"

text \<open>The end of the size in front of the first chunk, looked for in the first \<open>l\<close> bytes.\<close>

definition firstSize :: "string \<Rightarrow> nat \<Rightarrow> string res" where
  "firstSize mem l =
     (if CR \<in> set (take l mem) then Inr (cstring (takeWhile (\<lambda>c. c \<noteq> CR) mem))
      else if length mem < l then Inl OutOfBounds else Inr [])"

text \<open>The end of the size of a later chunk, from \<open>j\<close> on and before \<open>l\<close>; \<open>None\<close> for none.\<close>

function sizeEnd :: "string \<Rightarrow> nat \<Rightarrow> nat \<Rightarrow> nat option res" where
  "sizeEnd mem j l =
     (if l \<le> j then Inr None else bindr (eolAt mem j) (\<lambda>b. if b then Inr (Some j) else sizeEnd mem (j + 1) l))"
  by pat_completeness auto
termination by (relation "measure (\<lambda>(mem, j, l). l - j)") auto

text \<open>\<open>memmove\<close> of the bytes from \<open>s\<close> to \<open>m\<close> to position \<open>i\<close>. The difference is a \<open>size_t\<close>.\<close>

definition moveDown :: "string \<Rightarrow> nat \<Rightarrow> nat \<Rightarrow> nat \<Rightarrow> string res" where
  "moveDown mem i s m =
     (if m < s \<or> length mem < m then Inl BufferOverflow
      else Inr (take i mem @ substr mem s m @ drop (i + (m - s)) mem))"

declare sizeEnd.simps [simp del]

text \<open>
  The loop. \<open>len\<close> is what is left of the chunk, \<open>chunk\<close> the array for the text of a size, which keeps the last
  one. A size that is not a number counts as the last chunk.
\<close>

function stripLoop ::
    "string \<Rightarrow> nat \<Rightarrow> 64 word \<Rightarrow> nat \<Rightarrow> string \<Rightarrow> (ClientErr option \<times> string \<times> nat \<times> 64 word) res" where
  "stripLoop mem m len i chunk =
     (if m \<le> i then Inr (None, mem, m, len)
      else if len \<noteq> 0 then stripLoop mem m (len - 1) (i + 1) chunk
      else
        case eolAt mem i of
          Inl e \<Rightarrow> Inl e
        | Inr False \<Rightarrow> Inr (Some ErrUnexpectedEndToChunk, mem, m, len)
        | Inr True \<Rightarrow>
            let l = (if m < i + 2 + 19 then m else i + 2 + 19) in
            (case sizeEnd mem (i + 2) l of
               Inl e \<Rightarrow> Inl e
             | Inr found \<Rightarrow>
                 if found = None \<and> i + 2 \<le> l then Inr (Some ErrChunkMetadataOverflowsBuffer, mem, i, len)
                 else
                   let chunk1 = (case found of Some j \<Rightarrow> cstring (substr mem (i + 2) j) | None \<Rightarrow> chunk) in
                   if chunk1 = [] then Inr (Some ErrMalformedOrImpracticallyLargeReplyFromRemote, mem, m, len)
                   else
                     let (e, v) = ioHttpBodyChunkHexToSize chunk1; s = i + length chunk1 + 4 in
                     if e = None \<and> v \<noteq> 0 then
                       (case moveDown mem i s m of
                          Inl e \<Rightarrow> Inl e
                        | Inr mem1 \<Rightarrow> stripLoop mem1 (m - (s - i)) v i chunk1)
                     else Inr (None, mem, subSize m 5, - 1)))"
  by pat_completeness auto
termination
  by (relation "measure (\<lambda>(mem, m, len, i, chunk). m - i)") auto

declare stripLoop.simps [simp del]

definition ioHttpBodyChunkStrip :: "string \<Rightarrow> nat \<Rightarrow> 64 word \<Rightarrow> (ClientErr option \<times> string \<times> nat \<times> 64 word) res" where
  "ioHttpBodyChunkStrip mem m len =
     (if len = - 1 then
        bindr (firstSize mem (if 19 < m then 19 else m)) (\<lambda>chunk.
          if chunk = [] then Inr (Some ErrMalformedOrImpracticallyLargeReplyFromRemote, mem, m, 0)
          else
            let (e, v) = ioHttpBodyChunkHexToSize chunk; s = length chunk + 2 in
            if e = None \<and> v \<noteq> 0 then bindr (moveDown mem 0 s m) (\<lambda>mem1. stripLoop mem1 (m - s) v 0 chunk)
            else Inr (None, mem, subSize m 3, - 1))
      else stripLoop mem m len 0 [])"

section \<open>What it computes\<close>

lemma byteAt_append [simp]: "byteAt (a @ c # b) (length a) = Inr c"
  by (simp add: byteAt_def)

lemma eolAt_eol: "eolAt (a @ HTTP_EOL @ b) (length a) = Inr True"
  using byteAt_append [of a CR "LF # b"] byteAt_append [of "a @ [CR]" LF b] by (simp add: eolAt_def)

lemma eolAt_other: "c \<noteq> CR \<Longrightarrow> eolAt (a @ c # b) (length a) = Inr False"
  by (simp add: eolAt_def)

lemma sizeEnd_finds:
  assumes "CR \<notin> set h" "length a + length h < l"
  shows "sizeEnd (a @ h @ HTTP_EOL @ b) (length a) l = Inr (Some (length a + length h))"
  using assms
proof (induction h arbitrary: a)
  case Nil
  then show ?case using eolAt_eol [of a b] by (simp add: sizeEnd.simps)
next
  case (Cons c h)
  let ?mem = "a @ (c # h) @ HTTP_EOL @ b"
  have e: "eolAt ?mem (length a) = Inr False" using Cons.prems by (auto simp: eolAt_def)
  have "sizeEnd ?mem (length a) l = sizeEnd ?mem (length a + 1) l"
    using e Cons.prems sizeEnd.simps [of ?mem "length a" l] by simp
  then show ?case using Cons.IH [of "a @ [c]"] Cons.prems by simp
qed

lemma word_nonzero: "0 < n \<Longrightarrow> n < 2 ^ 64 \<Longrightarrow> (word_of_nat n :: 64 word) \<noteq> 0"
  using nat_dvd_not_less [of n "2 ^ 64"] by (simp only: word_of_nat_eq_0_iff len_num1 len_bit0 mult_1_right) simp

lemma stripLoop_skip:
  "i + n \<le> m \<Longrightarrow> n + k < 2 ^ 64 \<Longrightarrow>
   stripLoop mem m (word_of_nat (n + k)) i chunk = stripLoop mem m (word_of_nat k) (i + n) chunk"
proof (induction n arbitrary: i)
  case (Suc n)
  have "(word_of_nat (Suc n + k) :: 64 word) \<noteq> 0"
    using word_nonzero [of "Suc n + k"] Suc.prems(2) by simp
  moreover have "(word_of_nat (Suc n + k) :: 64 word) - 1 = word_of_nat (n + k)" by simp
  ultimately have "stripLoop mem m (word_of_nat (Suc n + k)) i chunk = stripLoop mem m (word_of_nat (n + k)) (i + 1) chunk"
    using Suc.prems(1) stripLoop.simps [of mem m "word_of_nat (Suc n + k)" i chunk] by (simp del: of_nat_add of_nat_Suc add_Suc)
  with Suc.IH [of "i + 1"] Suc.prems show ?case by (simp del: of_nat_add of_nat_Suc)
qed simp

lemma hex_facts:
  assumes "n < 2 ^ 64"
  shows "CR \<notin> set (show_hex n)" "cstring (show_hex n) = show_hex n" "length (show_hex n) \<le> 16" "show_hex n \<noteq> []"
proof -
  show "CR \<notin> set (show_hex n)" using hex_no_eol by blast
  show "cstring (show_hex n) = show_hex n" unfolding takeWhile_eq_all_conv using hex_no_eol by blast
  show "length (show_hex n) \<le> 16" using show_hex_length [of n 16] assms by simp
  show "show_hex n \<noteq> []" by (rule show_hex_ne)
qed

lemma moveDown_gap:
  "m = length (a @ b @ q) \<Longrightarrow> s = length (a @ b) \<Longrightarrow>
   moveDown (a @ b @ q @ z) (length a) s m = Inr (a @ q @ drop (length a + length q) (a @ b @ q @ z))"
  by (simp add: moveDown_def substr_def)

lemma stripLoop_step:
  assumes "i < m" "eolAt mem i = Inr True" "sizeEnd mem (i + 2) (if m < i + 2 + 19 then m else i + 2 + 19) = Inr (Some j)"
    "cstring (substr mem (i + 2) j) = h" "h \<noteq> []" "ioHttpBodyChunkHexToSize h = (None, v)"
  shows "stripLoop mem m 0 i chunk =
    (if v \<noteq> 0 then (case moveDown mem i (i + length h + 4) m of
       Inl e \<Rightarrow> Inl e | Inr mem1 \<Rightarrow> stripLoop mem1 (m - (i + length h + 4 - i)) v i h)
     else Inr (None, mem, subSize m 5, - 1))"
  unfolding stripLoop.simps [of mem m 0] Let_def assms(2,3) sum.case option.case assms(4) using assms(1,5,6) by simp

text \<open>The header of a later chunk: it goes, and its size counts from there.\<close>

lemma stripLoop_header:
  assumes "n < 2 ^ 64" "m = length (pre @ HTTP_EOL @ show_hex n @ HTTP_EOL @ q)"
  shows "\<exists>t. stripLoop (pre @ HTTP_EOL @ show_hex n @ HTTP_EOL @ q @ z) m 0 (length pre) chunk =
     (if n = 0 then Inr (None, pre @ t, subSize m 5, - 1)
      else stripLoop (pre @ q @ t) (length (pre @ q)) (word_of_nat n) (length pre) (show_hex n))"
proof -
  let ?h = "show_hex n" and ?mem = "pre @ HTTP_EOL @ show_hex n @ HTTP_EOL @ q @ z"
  note h = hex_facts [OF assms(1)]
  let ?l = "if m < length pre + 2 + 19 then m else length pre + 2 + 19"
  have eol: "length HTTP_EOL = 2" by simp
  have e: "eolAt ?mem (length pre) = Inr True" using eolAt_eol [of pre "?h @ HTTP_EOL @ q @ z"] by simp
  have f: "sizeEnd ?mem (length pre + 2) ?l = Inr (Some (length pre + 2 + length ?h))"
    using sizeEnd_finds [of ?h "pre @ HTTP_EOL" ?l "q @ z"] h assms(2) eol by (simp add: ac_simps)
  have s: "substr ?mem (length pre + 2) (length pre + 2 + length ?h) = ?h"
    by (simp add: substr_def eol)
  have v: "ioHttpBodyChunkHexToSize ?h = (None, word_of_nat n)" by (rule show_hex_size)
  have z: "(word_of_nat n :: 64 word) = 0 \<longleftrightarrow> n = 0" using assms(1) word_nonzero [of n] by auto
  have mv: "moveDown ?mem (length pre) (length pre + length ?h + 4) m =
      Inr (pre @ q @ drop (length pre + length q) ?mem)"
    using moveDown_gap [of m pre "HTTP_EOL @ ?h @ HTTP_EOL" q "length pre + length ?h + 4" z] assms(2) by simp
  have d: "m - (length pre + length ?h + 4 - length pre) = length (pre @ q)" using assms(2) by (simp add: eol)
  have lt: "length pre < m" using assms(2) eol by simp
  have t: "cstring (substr ?mem (length pre + 2) (length pre + 2 + length ?h)) = ?h"
    unfolding s by (rule h(2))
  show ?thesis
    unfolding stripLoop_step [OF lt e f t h(4) v] z mv sum.case d
    by (auto intro: exI [of _ "drop (length pre + length q) ?mem"])
qed

text \<open>What follows the data of a chunk: later chunks and then \<open>q\<close>.\<close>

definition laterChunks :: "string list \<Rightarrow> string" where
  "laterChunks ds = concat (map (\<lambda>d. HTTP_EOL @ show_hex (length d) @ HTTP_EOL @ d) ds)"

lemma stripLoop_chunks:
  assumes "\<forall>d\<in>set ds. d \<noteq> [] \<and> length d < 2 ^ 64"
  shows "\<exists>t c. stripLoop (pre @ laterChunks ds @ q @ z) (length (pre @ laterChunks ds @ q)) 0 (length pre) chunk =
    stripLoop ((pre @ concat ds) @ q @ t) (length ((pre @ concat ds) @ q)) 0 (length (pre @ concat ds)) c"
  using assms
proof (induction ds arbitrary: pre z chunk)
  case Nil
  then show ?case by (auto simp: laterChunks_def)
next
  case (Cons d ds)
  let ?q = "d @ laterChunks ds @ q"
  have n: "length d < 2 ^ 64" "length d \<noteq> 0" using Cons.prems by auto
  from stripLoop_header [OF n(1) refl, of pre ?q z chunk] n(2) obtain t where
    1: "stripLoop (pre @ laterChunks (d # ds) @ q @ z) (length (pre @ laterChunks (d # ds) @ q)) 0 (length pre) chunk =
      stripLoop (pre @ ?q @ t) (length (pre @ ?q)) (word_of_nat (length d)) (length pre) (show_hex (length d))"
    by (auto simp: laterChunks_def)
  have 2: "\<dots> = stripLoop ((pre @ d) @ laterChunks ds @ q @ t) (length ((pre @ d) @ laterChunks ds @ q)) 0 (length (pre @ d))
      (show_hex (length d))"
    using stripLoop_skip [of "length pre" "length d" "length (pre @ ?q)" 0] n by simp
  from Cons.IH [of "pre @ d" t "show_hex (length d)"] Cons.prems show ?case unfolding 1 2 by simp
qed

lemma takeWhile_upto: "x \<notin> set h \<Longrightarrow> takeWhile (\<lambda>c. c \<noteq> x) (h @ x # b) = h"
  by (induction h) auto

lemma in_set_take: "length h < n \<Longrightarrow> x \<in> set (take n (h @ x # b))"
  by (cases "n - length h") auto

lemma strip_first:
  assumes "n < 2 ^ 64" "n \<noteq> 0"
  shows "\<exists>t. ioHttpBodyChunkStrip (show_hex n @ HTTP_EOL @ q @ z) (length (show_hex n @ HTTP_EOL @ q)) (- 1) =
    stripLoop (q @ t) (length q) (word_of_nat n) 0 (show_hex n)"
proof -
  let ?h = "show_hex n" let ?mem = "?h @ HTTP_EOL @ q @ z" let ?m = "length (?h @ HTTP_EOL @ q)"
  note h = hex_facts [OF assms(1)]
  have eol: "length HTTP_EOL = 2" "HTTP_EOL = [CR, LF]" by simp_all
  have tw: "takeWhile (\<lambda>c. c \<noteq> CR) ?mem = ?h" using takeWhile_upto [OF h(1)] by simp
  have "length ?h < (if 19 < ?m then 19 else ?m)" using h(3) by simp
  from in_set_take [OF this] have "CR \<in> set (take (if 19 < ?m then 19 else ?m) ?mem)" by simp
  then have f: "firstSize ?mem (if 19 < ?m then 19 else ?m) = Inr ?h" by (simp only: firstSize_def tw h(2) if_True)
  have v: "ioHttpBodyChunkHexToSize ?h = (None, word_of_nat n)" by (rule show_hex_size)
  have z: "(word_of_nat n :: 64 word) \<noteq> 0" using assms word_nonzero [of n] by simp
  have mv: "moveDown ?mem 0 (length ?h + 2) ?m = Inr (q @ drop (length q) ?mem)"
    using moveDown_gap [of ?m "[]" "?h @ HTTP_EOL" q "length ?h + 2" z] by simp
  have d: "?m - (length ?h + 2) = length q" by simp
  have "ioHttpBodyChunkStrip ?mem ?m (- 1) = stripLoop (q @ drop (length q) ?mem) (length q) (word_of_nat n) 0 ?h"
    unfolding ioHttpBodyChunkStrip_def if_P [OF refl] f bindr.simps v prod.case Let_def mv d using z h(4) by simp
  then show ?thesis by blast
qed

text \<open>A buffer that ends in the data of a chunk, and one that ends with the last chunk.\<close>

lemma stripLoop_partial:
  assumes "\<forall>d\<in>set ds. d \<noteq> [] \<and> length d < 2 ^ 64" "d1 @ d2 \<noteq> []" "length (d1 @ d2) < 2 ^ 64"
    and "q = HTTP_EOL @ show_hex (length (d1 @ d2)) @ HTTP_EOL @ d1"
  shows "\<exists>t. stripLoop (pre @ laterChunks ds @ q @ z) (length (pre @ laterChunks ds @ q)) 0 (length pre) chunk =
    Inr (None, (pre @ concat ds @ d1) @ t, length (pre @ concat ds @ d1), word_of_nat (length d2))"
proof -
  let ?pre = "pre @ concat ds" and ?n = "length (d1 @ d2)"
  from stripLoop_chunks [OF assms(1), of pre q z chunk] obtain t c where
    1: "stripLoop (pre @ laterChunks ds @ q @ z) (length (pre @ laterChunks ds @ q)) 0 (length pre) chunk =
      stripLoop (?pre @ q @ t) (length (?pre @ q)) 0 (length ?pre) c" by blast
  have n: "?n \<noteq> 0" using assms(2) by simp
  from stripLoop_header [OF assms(3), of "length (?pre @ q)" ?pre d1 t c] assms(4) n obtain u where
    2: "stripLoop (?pre @ q @ t) (length (?pre @ q)) 0 (length ?pre) c =
      stripLoop (?pre @ d1 @ u) (length (?pre @ d1)) (word_of_nat ?n) (length ?pre) (show_hex ?n)" by auto
  have 3: "\<dots> = stripLoop (?pre @ d1 @ u) (length (?pre @ d1)) (word_of_nat (length d2)) (length ?pre + length d1) (show_hex ?n)"
    using stripLoop_skip [of "length ?pre" "length d1" "length (?pre @ d1)" "length d2"] assms(3) by simp
  show ?thesis unfolding 1 2 3 by (subst stripLoop.simps) simp
qed

lemma stripLoop_last:
  assumes "\<forall>d\<in>set ds. d \<noteq> [] \<and> length d < 2 ^ 64" "q = HTTP_EOL @ ''0'' @ HTTP_EOL"
    and "m = length (pre @ laterChunks ds @ q)"
  shows "\<exists>t. stripLoop (pre @ laterChunks ds @ q @ z) m 0 (length pre) chunk =
    Inr (None, (pre @ concat ds) @ t, length (pre @ concat ds), - 1)"
proof -
  let ?pre = "pre @ concat ds"
  from stripLoop_chunks [OF assms(1), of pre q z chunk] obtain t c where
    1: "stripLoop (pre @ laterChunks ds @ q @ z) (length (pre @ laterChunks ds @ q)) 0 (length pre) chunk =
      stripLoop (?pre @ q @ t) (length (?pre @ q)) 0 (length ?pre) c" by blast
  have q: "q = HTTP_EOL @ show_hex 0 @ HTTP_EOL @ []" using assms(2) by (simp add: show_hex_zero)
  from stripLoop_header [of 0 "length (?pre @ q)" ?pre "[]" t c] obtain u where
    2: "stripLoop (?pre @ q @ t) (length (?pre @ q)) 0 (length ?pre) c = Inr (None, ?pre @ u, subSize (length (?pre @ q)) 5, - 1)"
    by (auto simp: q)
  have "subSize (length (?pre @ q)) 5 = length ?pre" using assms(2) by (simp add: subSize_def)
  with 2 show ?thesis unfolding assms(3) 1 by auto
qed

lemma laterChunks_text: "laterChunks ds @ HTTP_EOL @ r = HTTP_EOL @ concat (map chunkText ds) @ r"
  by (induction ds) (auto simp: laterChunks_def chunkText_def)



text \<open>
  A packet that ends between the carriage return and the line feed of the first size moves a negative number
  of bytes, and an ending as RFC 7230 demands it, with an empty line behind the last chunk, leaves two bytes of
  the encoding in the data.
\<close>

theorem chunk_strip_split_header: "ioHttpBodyChunkStrip (''4'' @ [CR]) 2 (- 1) = Inl BufferOverflow"
proof -
  have "show_hex 4 = ''4''" by (simp add: show_hex.simps hex_digit_def char_of_eq_iff)
  with show_hex_size [of 4] show ?thesis by (simp add: ioHttpBodyChunkStrip_def firstSize_def moveDown_def)
qed

theorem chunk_strip_trailing_line:
  "ioHttpBodyChunkStrip (''0'' @ HTTP_EOL @ HTTP_EOL) 5 (- 1) = Inr (None, ''0'' @ HTTP_EOL @ HTTP_EOL, 2, - 1)"
  using show_hex_size [of 0] show_hex_zero by (simp add: ioHttpBodyChunkStrip_def firstSize_def subSize_def)

end
