(* ===== verification/Windows_Laws.thy ===== *)
theory Windows_Laws
  imports Windows_Sys Server
begin

text \<open>
  What holds of the Windows layer: where a request is answered from, that dates and addresses of files mean the
  same as in the POSIX layer, and where files and directories go wrong.
\<close>

section \<open>Requests\<close>

lemma combine_win:
  assumes "2 \<le> length p" "\<not> isDivider (last p)"
  shows "platformPathCombine_win p q = Inr (p @ BACKSLASH # dropWhile isDivider q)"
proof -
  obtain n where l: "length p = Suc (Suc n)" using assms(1) by (metis add_2_eq_Suc le_Suc_ex)
  then have ne: "p \<noteq> []" by auto
  then have "stripIdx_win p (length p - 1) = Suc n" using assms(2) by (simp add: l last_conv_nth)
  then show ?thesis using ne l by (simp add: platformPathCombine_win_def)
qed

lemma web_win:
  assumes "2 \<le> length root" "\<not> isDivider (last root)" "CHR ''/'' \<notin> set root" "chC p 0 = CHR ''/''"
    and "length root + length p + 1 < FILENAME_MAX_win"
  shows "platformPathWebToSystem_win root p = Inr (0, Some (root @ BACKSLASH # map toBackslash (dropWhile isDivider p)))"
proof -
  obtain q where q: "p = CHR ''/'' # q" using assms(4) by (cases p) (auto simp: chC_def)
  have "map toBackslash root = root" using assms(3) by (auto simp: toBackslash_def intro!: map_idI)
  moreover have "length (dropWhile isDivider q) \<le> length q" by (rule length_dropWhile_le)
  then have "chC (root @ BACKSLASH # map toBackslash (dropWhile isDivider p)) (length root + length p) = NUL"
    using q by (simp add: chC_def isDivider_def)
  ultimately show ?thesis
    using combine_win [OF assms(1,2), of p] assms(5) by (simp add: platformPathWebToSystem_win_def Let_def toBackslash_def)
qed

lemma sublist_toBackslash:
  assumes "sublist (BACKSLASH # ''..'') (map toBackslash q)" "BACKSLASH \<notin> set q"
  shows "sublist ''/..'' q"
proof -
  let ?slash = "\<lambda>c. if c = BACKSLASH then CHR ''/'' else c"
  have "map ?slash (map toBackslash q) = q" using assms(2) by (auto simp: toBackslash_def intro!: map_idI)
  then show ?thesis using map_mono_sublist [OF assms(1), of ?slash] by simp
qed

lemma request_no_up: "httpClientReadUri buffer = Inr (Some p) \<Longrightarrow> \<not> sublist ''/..'' p"
  by (auto simp: httpClientReadUri_def hexConvertStringToAscii_def res_simps hexStripUp_safe split: option.splits)




text \<open>The elements of a path, and what they lead to when \<open>..\<close> goes up.\<close>

fun elements :: "string \<Rightarrow> string list" where
  "elements [] = [[]]"
| "elements (c # s) = (if c = BACKSLASH then [] # elements s else (c # hd (elements s)) # tl (elements s))"

fun resolveUps :: "string list \<Rightarrow> string list \<Rightarrow> string list" where
  "resolveUps st [] = rev st"
| "resolveUps st (e # es) =
     (if e = ''.'' then resolveUps st es else if e = ''..'' then resolveUps (tl st) es else resolveUps (e # st) es)"

lemma elements_ne [simp]: "elements s \<noteq> []"
  by (induction s) auto

lemma elements_divider: "elements (a @ BACKSLASH # b) = elements a @ elements b"
  by (induction a) auto

lemma elements_plain: "BACKSLASH \<notin> set a \<Longrightarrow> elements a = [a]"
  by (induction a) auto

lemma resolveUps_plain: "''.'' \<notin> set es \<Longrightarrow> ''..'' \<notin> set es \<Longrightarrow> resolveUps st (es @ fs) = resolveUps (rev es @ st) fs"
  by (induction es arbitrary: st) auto

text \<open>
  C33. On Windows a request can leave the root directory: only \<open>/..\<close> is removed from it, and a backslash
  divides as well. For every file name \<open>f\<close> the request for \<open>/a\..\..\f\<close> is answered from the file \<open>f\<close> in the
  directory above the root.
\<close>

theorem win_request_escapes:
  assumes "2 \<le> length root" "\<not> isDivider (last root)" "CHR ''/'' \<notin> set root" "''.'' \<notin> set (elements root)"
    and "''..'' \<notin> set (elements root)" "set f \<inter> {CHR ''/'', BACKSLASH, CHR '' '', CHR ''%''} = {}" "f \<noteq> ''.''" "f \<noteq> ''..''"
    and "length root + length f + 11 < FILENAME_MAX_win"
    and "web = ''/a'' @ [BACKSLASH] @ ''..'' @ [BACKSLASH] @ ''..'' @ [BACKSLASH] @ f"
  shows "httpClientReadUri (''GET '' @ web @ '' HTTP/1.1'') = Inr (Some web) \<and>
    (\<exists>path. platformPathWebToSystem_win root web = Inr (0, Some path) \<and>
       resolveUps [] (elements path) = butlast (elements root) @ [f])"
proof -
  have f: "CHR ''/'' \<notin> set f" "BACKSLASH \<notin> set f" "CHR '' '' \<notin> set f" "CHR ''%'' \<notin> set f" using assms(6) by auto
  have "\<not> sublist ''/..'' web"
  proof
    assume "sublist ''/..'' web"
    then obtain x y where "web = x @ CHR ''/'' # ''..'' @ y" by (auto simp: sublist_def)
    then have "web = CHR ''/'' # ''..'' @ y"
      using f(1) assms(10) by (cases x) (auto simp: append_eq_Cons_conv append_eq_append_conv2 Cons_eq_append_conv)
    then show False using assms(10) by simp
  qed
  moreover have "CHR ''%'' \<notin> set web" "CHR '' '' \<notin> set web" using f assms(10) by auto
  ultimately have "hexConvertStringToAscii web = Inr web" "CHR '' '' \<notin> set web"
    by (simp_all add: hexConvertStringToAscii_def hexDecode_plain hexStripUp_id)
  then have "httpClientReadUri (''GET '' @ web @ '' HTTP/1.1'') = Inr (Some web)"
    using strchr_append [of "CHR '' ''" web "''HTTP/1.1''"] by (simp add: httpClientReadUri_def strchr_from_def substr_def)
  moreover have "dropWhile isDivider web = ''a'' @ [BACKSLASH] @ ''..'' @ [BACKSLASH] @ ''..'' @ [BACKSLASH] @ f"
    using assms(10) by (simp add: isDivider_def)
  moreover have "map toBackslash f = f" using f(1) by (auto simp: toBackslash_def intro!: map_idI)
  ultimately have p: "platformPathWebToSystem_win root web =
      Inr (0, Some (root @ BACKSLASH # ''a'' @ BACKSLASH # ''..'' @ BACKSLASH # ''..'' @ BACKSLASH # f))"
    using web_win [OF assms(1-3), of web] assms(9,10) by (simp add: chC_def toBackslash_def)
  obtain es e where es: "elements root = es @ [e]" by (metis append_butlast_last_id elements_ne)
  have "resolveUps [] (elements (root @ BACKSLASH # ''a'' @ BACKSLASH # ''..'' @ BACKSLASH # ''..'' @ BACKSLASH # f)) = es @ [f]"
    unfolding elements_divider using resolveUps_plain [OF assms(4,5)] assms(7,8) f(2) by (simp add: elements_plain es)
  then show ?thesis
    using p es \<open>httpClientReadUri _ = _\<close> by simp
qed

lemma win_request_escapes_witness:
  "\<exists>path. platformPathWebToSystem_win (''C:'' @ BACKSLASH # ''www'') (''/a'' @ [BACKSLASH] @ ''..'' @ [BACKSLASH] @ ''..'' @ [BACKSLASH] @ ''boot.ini'') =
      Inr (0, Some path) \<and> resolveUps [] (elements path) = [''C:'', ''boot.ini'']"
proof -
  have e: "elements (''C:'' @ BACKSLASH # ''www'') = [''C:'', ''www'']" by code_simp
  show ?thesis
    using win_request_escapes [of "''C:'' @ BACKSLASH # ''www''" "''boot.ini''"] unfolding e
    by (simp add: isDivider_def FILENAME_MAX_win_def)
qed

section \<open>Dates\<close>

text \<open>The structure of Windows for a date of the POSIX layer.\<close>

definition systemTime :: "PlatformTimeStruct \<Rightarrow> SystemTime" where
  "systemTime t =
     \<lparr>wYear = word_of_int (tm_year t + 1900), wMonth = word_of_int (tm_mon t + 1), wDayOfWeek = word_of_int (tm_wday t),
      wDay = word_of_int (tm_mday t), wHour = word_of_int (tm_hour t), wMinute = word_of_int (tm_min t),
      wSecond = word_of_int (tm_sec t), wMilliseconds = 0\<rparr>"

lemma uint_small: "0 \<le> x \<Longrightarrow> x < 65536 \<Longrightarrow> uint (word_of_int x :: 16 word) = x"
  by (simp add: uint_word_of_int)

lemma unat_small: "0 \<le> x \<Longrightarrow> x < 65536 \<Longrightarrow> unat (word_of_int x :: 16 word) = nat x"
  by (simp add: unat_eq_nat_uint uint_word_of_int)

lemma showPadded_two:
  assumes "0 \<le> n" "n < 100"
  shows "showPadded 2 (word_of_int n) = two_digits n"
proof (cases "n < 10")
  case True
  then have "show_nat (nat n) = [dec_digit (nat n)]" by (subst show_nat.simps) simp
  moreover have "dec_digit 0 = CHR ''0''" by code_simp
  ultimately show ?thesis using True assms by (simp add: showPadded_def two_digits_def unat_small)
next
  case False
  then have "show_nat (nat n) = [dec_digit (nat n div 10), dec_digit (nat n mod 10)]"
  proof -
    have "\<not> nat n < 10" "nat n div 10 < 10" using False assms by linarith+
    then show ?thesis by (subst show_nat.simps, subst show_nat.simps) simp
  qed
  then show ?thesis using assms by (simp add: showPadded_def two_digits_def unat_small)
qed

lemma show_nat_four:
  assumes "1000 \<le> n" "n \<le> 9999"
  shows "length (show_nat n) = 4"
proof -
  have longer: "length (show_nat k) = Suc (length (show_nat (k div 10)))" if "\<not> k < 10" for k
    by (subst show_nat.simps) (simp add: that)
  have digit: "length (show_nat k) = 1" if "k < 10" for k by (subst show_nat.simps) (simp add: that)
  have one: "100 \<le> n div 10" "n div 10 \<le> 999" using div_le_mono [OF assms(1), of 10] div_le_mono [OF assms(2), of 10] by simp_all
  have two: "10 \<le> n div 10 div 10" "n div 10 div 10 \<le> 99" using div_le_mono [OF one(1), of 10] div_le_mono [OF one(2), of 10] by simp_all
  have "\<not> n < 10" "\<not> n div 10 < 10" "\<not> n div 10 div 10 < 10" "n div 10 div 10 div 10 < 10"
    using assms one two div_le_mono [OF two(2), of 10] by linarith+
  from longer [OF this(1)] longer [OF this(2)] longer [OF this(3)] digit [OF this(4)] show ?thesis by linarith
qed

lemma SystemTimeToStr_systemTime:
  assumes "validTime t" "1000 \<le> tm_year t + 1900"
  shows "SystemTimeToStr (systemTime t) = Inr
      (dayNames ! nat (tm_wday t) @ '', '' @ two_digits (tm_mday t) @ '' '' @ monthNames ! nat (tm_mon t) @ '' '' @
       show_nat (nat (tm_year t + 1900)) @ '' '' @ two_digits (tm_hour t) @ '':'' @ two_digits (tm_min t) @ '':'' @
       two_digits (tm_sec t) @ '' GMT'')"
proof -
  have v: "0 \<le> tm_sec t" "tm_sec t < 60" "0 \<le> tm_min t" "tm_min t < 60" "0 \<le> tm_hour t" "tm_hour t < 24"
    "1 \<le> tm_mday t" "tm_mday t \<le> 31" "0 \<le> tm_mon t" "tm_mon t < 12" "0 \<le> tm_wday t" "tm_wday t < 7"
    "tm_year t + 1900 \<le> 9999" using assms(1) by (auto simp: validTime_def)
  have y: "showPadded 4 (word_of_int (tm_year t + 1900)) = show_nat (nat (tm_year t + 1900))"
    using v assms(2) show_nat_four [of "nat (tm_year t + 1900)"] by (simp add: showPadded_def unat_small del: of_int_add)
  have d: "\<not> (6::16 word) < word_of_int (tm_wday t)" "word_of_int (tm_mon t + 1) \<noteq> (0::16 word)"
    "\<not> (12::16 word) < word_of_int (tm_mon t + 1)"
    using v by (simp_all add: word_less_def uint_small word_uint_eq_iff del: of_int_add)
  show ?thesis
    using v y d by (simp add: SystemTimeToStr_def systemTime_def showPadded_two unat_small nat_add_distrib del: of_int_add)
qed

lemma compare_systemTime:
  assumes "validTime t1" "validTime t2"
  shows "platformTimeStructCompare_win (systemTime t1) (systemTime t2) = platformTimeStructCompare t1 t2"
proof -
  have s: "uint (wYear (systemTime t)) = tm_year t + 1900 \<and> uint (wMonth (systemTime t)) = tm_mon t + 1 \<and>
      uint (wDay (systemTime t)) = tm_mday t \<and> uint (wHour (systemTime t)) = tm_hour t \<and>
      uint (wMinute (systemTime t)) = tm_min t \<and> uint (wSecond (systemTime t)) = tm_sec t" if "validTime t" for t
    using that by (auto simp: validTime_def systemTime_def uint_small simp del: of_int_add)
  show ?thesis
    using s [OF assms(1)] s [OF assms(2)]
    by (simp add: platformTimeStructCompare_win_def platformTimeStructCompare_def word_less_def algebra_simps)
qed

text \<open>
  A date means the same on Windows and on POSIX systems: it is printed as the same text, the text is
  read back as the same date, and two dates compare alike.
\<close>

theorem platform_dates_agree:
  assumes "validTime t1" "validTime t2" "1000 \<le> tm_year t1 + 1900"
  shows "\<exists>s. platformTimeStructToStr t1 = Some s \<and> platformTimeStructToStr_win (systemTime t1) = Inr s \<and>
    platformTimeGetFromHttpStr_win s u = (False, systemTime t1) \<and>
    platformTimeStructCompare_win (systemTime t1) (systemTime t2) = platformTimeStructCompare t1 t2"
proof -
  let ?s = "dayNames ! nat (tm_wday t1) @ '', '' @ two_digits (tm_mday t1) @ '' '' @ monthNames ! nat (tm_mon t1) @ '' '' @
       show_nat (nat (tm_year t1 + 1900)) @ '' '' @ two_digits (tm_hour t1) @ '':'' @ two_digits (tm_min t1) @ '':'' @
       two_digits (tm_sec t1) @ '' GMT''"
  have p: "platformTimeStructToStr t1 = Some ?s" by (rule platformTimeStructToStr_Some [OF assms(1)])
  then have "length ?s < 30" by (simp add: platformTimeStructToStr_def Let_def split: if_split_asm)
  then have "platformTimeStructToStr_win (systemTime t1) = Inr ?s"
    unfolding platformTimeStructToStr_win_def SystemTimeToStr_systemTime [OF assms(1,3)] by simp
  moreover have "platformTimeGetFromHttpStr_win ?s u = (False, systemTime t1)"
    using sscanf_date [OF assms(1)] assms(1) dayNames_ok [of "tm_wday t1"] monthNames_ok [of "tm_mon t1"]
    by (simp add: platformTimeGetFromHttpStr_win_def validTime_def scanStr_def scanShort_def scanNum_def systemTime_def)
  ultimately show ?thesis using p compare_systemTime [OF assms(1,2)] by blast
qed

section \<open>Addresses of files\<close>

lemma upper_lower: "toupperC (tolowerC c) = toupperC c"
  by (auto simp: tolowerC_def toupperC_def isupperC_def islowerC_def)

lemma case_divider: "(toupperC c = CHR ''/'') = (c = CHR ''/'')" "(tolowerC c = CHR ''/'') = (c = CHR ''/'')"
  by (auto simp: tolowerC_def toupperC_def isupperC_def islowerC_def char_of_eq_iff take_bit_eq_mod)

lemma drive_marks: "isalnumC d \<Longrightarrow> d \<noteq> CHR ''/'' \<and> tolowerC d \<noteq> NUL"
  by (auto simp: isalnumC_def isdigitC_def tolowerC_def isupperC_def islowerC_def char_of_eq_iff take_bit_eq_mod)

lemma toupper_marks:
  "toupperC (CHR '':'') = CHR '':''" "toupperC BACKSLASH = BACKSLASH" "toupperC (CHR ''f'') = CHR ''F''"
  "toupperC (CHR ''i'') = CHR ''I''" "toupperC (CHR ''l'') = CHR ''L''" "toupperC (CHR ''e'') = CHR ''E''"
  by code_simp+

text \<open>
  C38. The address of a file of Windows leads back to its path, in capital letters: the drive and every
  backslash are restored.
\<close>

theorem file_scheme_roundtrip_win:
  assumes "realPath path = Some a" "a = d # '':'' @ BACKSLASH # s" "isalnumC d" "CHR ''/'' \<notin> set s"
  shows "\<exists>u. platformPathSystemToFileScheme_win realPath path = Inr (Some u) \<and>
    platformPathFileSchemeToSystem_win u = Some (upperS a)"
proof -
  let ?lower = "map (\<lambda>c. if c = BACKSLASH then CHR ''/'' else tolowerC c)"
  let ?upper = "\<lambda>c. if c = CHR ''/'' then BACKSLASH else toupperC c"
  have restored: "?upper (if c = BACKSLASH then CHR ''/'' else tolowerC c) = toupperC c" if "c \<noteq> CHR ''/''" for c
    using that by (simp add: case_divider upper_lower toupper_marks)
  have "platformPathSystemToFileScheme_win realPath path =
      Inr (Some (''file://'' @ CHR ''/'' # tolowerC d # CHR ''/'' # ?lower s))"
    using assms(1,2) by (simp add: platformPathSystemToFileScheme_win_def ParseDosToFileScheme_def)
  moreover have "map ?upper (?lower s) = upperS s"
    unfolding upperS_def map_map o_def by (rule map_cong [OF refl], rule restored) (use assms(4) in auto)
  ultimately show ?thesis
    using drive_marks [OF assms(3)] assms(2)
    by (simp add: platformPathFileSchemeToSystem_win_def platformPathFileSchemePathToSystem_win_def
        ParseFileSchemePathToDos_def chC_def upperS_def upper_lower toupper_marks case_divider)
qed

lemma file_scheme_roundtrip_win_witness:
  "\<exists>u. platformPathSystemToFileScheme_win Some (''C:'' @ BACKSLASH # ''Docs'') = Inr (Some u) \<and>
    platformPathFileSchemeToSystem_win u = Some (''C:'' @ BACKSLASH # ''DOCS'')"
proof -
  have u: "upperS (''C:'' @ BACKSLASH # ''Docs'') = ''C:'' @ BACKSLASH # ''DOCS''" by code_simp
  show ?thesis
    unfolding u [symmetric]
    by (rule file_scheme_roundtrip_win [where d = "CHR ''C''" and s = "''Docs''"]) (simp_all add: isalnumC_def isupperC_def)
qed

section \<open>Files\<close>

text \<open>
  What is documented of \<open>SetFilePointer\<close>, for a handle with a position and a size: an offset from the beginning
  becomes the position, the offset 0 from the current position reports it and from the end moves there; the
  answer is the new position in two halves.
\<close>

definition setsPointer :: "'h SetPtr \<Rightarrow> ('h \<Rightarrow> nat) \<Rightarrow> ('h \<Rightarrow> nat) \<Rightarrow> bool" where
  "setsPointer setPtr position bytes \<longleftrightarrow>
     (\<forall>h low high. 0 \<le> sint (quadPart low high) \<longrightarrow> (\<exists>h1. setPtr h low high FILE_BEGIN = (Some (low, high), h1) \<and>
        position h1 = unat (quadPart low high) \<and> bytes h1 = bytes h)) \<and>
     (\<forall>h. position h < 2 ^ 63 \<longrightarrow> (\<exists>h1. setPtr h 0 0 FILE_CURRENT =
        (Some (lowPart (word_of_nat (position h)), highPart (word_of_nat (position h))), h1) \<and>
        position h1 = position h \<and> bytes h1 = bytes h)) \<and>
     (\<forall>h. bytes h < 2 ^ 63 \<longrightarrow> (\<exists>h1. setPtr h 0 0 FILE_END =
        (Some (lowPart (word_of_nat (bytes h)), highPart (word_of_nat (bytes h))), h1) \<and>
        position h1 = bytes h \<and> bytes h1 = bytes h))"

lemma setsPointer_begin:
  "setsPointer setPtr position bytes \<Longrightarrow> 0 \<le> sint (quadPart low high) \<Longrightarrow> \<exists>h1. setPtr h low high FILE_BEGIN = (Some (low, high), h1) \<and>
     position h1 = unat (quadPart low high) \<and> bytes h1 = bytes h"
  unfolding setsPointer_def by blast

lemma setsPointer_current:
  "setsPointer setPtr position bytes \<Longrightarrow> position h < 2 ^ 63 \<Longrightarrow> \<exists>h1. setPtr h 0 0 FILE_CURRENT =
     (Some (lowPart (word_of_nat (position h)), highPart (word_of_nat (position h))), h1) \<and>
     position h1 = position h \<and> bytes h1 = bytes h"
  unfolding setsPointer_def by blast

lemma setsPointer_end:
  "setsPointer setPtr position bytes \<Longrightarrow> bytes h < 2 ^ 63 \<Longrightarrow> \<exists>h1. setPtr h 0 0 FILE_END =
     (Some (lowPart (word_of_nat (bytes h)), highPart (word_of_nat (bytes h))), h1) \<and>
     position h1 = bytes h \<and> bytes h1 = bytes h"
  unfolding setsPointer_def by blast

lemma quad_parts [simp]: "quadPart (lowPart q) (highPart q) = q"
  by (rule bit_word_eqI) (auto simp: quadPart_def lowPart_def highPart_def bit_simps)

lemma quad_low [simp]: "lowPart (quadPart low high) = low"
  by (rule bit_word_eqI) (auto simp: quadPart_def lowPart_def bit_simps)

lemma quad_high [simp]: "highPart (quadPart low high) = high"
  by (rule bit_word_eqI) (auto simp: quadPart_def highPart_def bit_simps dest: bit_imp_le_length)

lemma unat_quadPart: "unat (quadPart low high) = unat high * 2 ^ 32 + unat low"
proof -
  have "quadPart low high = push_bit 32 (ucast high) + ucast low"
    unfolding quadPart_def by (rule disjunctive_add_eq_or [symmetric]) (rule bit_word_eqI, auto simp: bit_simps dest: bit_imp_le_length)
  moreover have "unat low < 2 ^ 32" "unat high < 2 ^ 32" using unsigned_less [of low] unsigned_less [of high] by simp_all
  ultimately show ?thesis
    by (simp add: unat_word_ariths push_bit_eq_mult unsigned_ucast_eq take_bit_nat_eq_self)
qed

lemma parts_of_nat:
  assumes "n < 2 ^ 64"
  shows "unat (lowPart (word_of_nat n)) = n mod 2 ^ 32" "unat (highPart (word_of_nat n)) = n div 2 ^ 32"
proof -
  show "unat (lowPart (word_of_nat n)) = n mod 2 ^ 32" by (simp add: lowPart_def unsigned_ucast_eq unsigned_of_nat take_bit_eq_mod mod_mod_cancel)
  have "unat (word_of_nat n :: 64 word) = n" using assms by (simp add: unat_of_nat)
  moreover have "n div 2 ^ 32 < 2 ^ 32" using assms by (simp add: div_less_iff_less_mult)
  ultimately show "unat (highPart (word_of_nat n)) = n div 2 ^ 32"
    by (simp add: highPart_def unsigned_ucast_eq unat_drop_bit_eq take_bit_eq_mod drop_bit_eq_div unat_div_distrib)
qed

text \<open>
  On Windows asking whether a file is at its end moves its position: the lower half is set again, but with
  the upper half of the size. A position in the last four gigabytes of the file is kept, any other is lost.
\<close>

theorem platformFileAtEnd_position:
  assumes "setsPointer setPtr position bytes" "position h < 2 ^ 63" "bytes h < 2 ^ 63"
  shows "\<exists>h1. platformFileAtEnd_win setPtr h = (if bytes h \<le> position h then 1 else 0, h1) \<and> bytes h1 = bytes h \<and>
    position h1 = bytes h div 2 ^ 32 * 2 ^ 32 + position h mod 2 ^ 32"
proof -
  let ?q = "\<lambda>n. word_of_nat n :: 64 word"
  have small: "sint (?q n) = int n" if "n < 2 ^ 63" for n using that by (rule sint_size)
  from setsPointer_current [OF assms(1,2)]
  obtain h1 where h1: "setPtr h 0 0 FILE_CURRENT = (Some (lowPart (?q (position h)), highPart (?q (position h))), h1)"
    "bytes h1 = bytes h" by blast
  then have "bytes h1 < 2 ^ 63" using assms(3) by simp
  from setsPointer_end [OF assms(1) this] h1(2)
  obtain h2 where h2: "setPtr h1 0 0 FILE_END = (Some (lowPart (?q (bytes h)), highPart (?q (bytes h))), h2)"
    "bytes h2 = bytes h" by auto
  let ?low = "lowPart (?q (position h))" and ?high = "highPart (?q (bytes h))"
  have reached: "unat (quadPart ?low ?high) = bytes h div 2 ^ 32 * 2 ^ 32 + position h mod 2 ^ 32"
    using assms(2,3) by (simp add: unat_quadPart parts_of_nat)
  moreover have "bytes h div 2 ^ 32 < 2 ^ 31" using assms(3) by (simp add: div_less_iff_less_mult)
  ultimately have "unat (quadPart ?low ?high) < 2 ^ 63" by simp
  then have "0 \<le> sint (quadPart ?low ?high)" using small [of "unat (quadPart ?low ?high)"] by simp
  from setsPointer_begin [OF assms(1) this]
  obtain h3 where h3: "setPtr h2 ?low ?high FILE_BEGIN = (Some (?low, ?high), h3)"
    "position h3 = unat (quadPart ?low ?high)" "bytes h3 = bytes h2" by blast
  have "platformFileAtEnd_win setPtr h = (if bytes h \<le> position h then 1 else 0, h3)"
    using h1(1) h2(1) h3(1) small assms(2,3) by (simp add: platformFileAtEnd_win_def platformFileTell_win_def)
  then show ?thesis using h2(2) h3(2,3) reached by auto
qed

text \<open>A file as its size and position.\<close>

definition exampleSetPtr :: "(nat \<times> nat) SetPtr" where
  "exampleSetPtr h low high method =
     (let p = (if method = FILE_BEGIN then unat (quadPart low high) else if method = FILE_CURRENT then snd h else fst h) in
      (Some (lowPart (word_of_nat p), highPart (word_of_nat p)), (fst h, p)))"

lemma exampleSetPtr_sets: "setsPointer exampleSetPtr snd fst"
  unfolding setsPointer_def exampleSetPtr_def FILE_BEGIN_def FILE_CURRENT_def FILE_END_def
  by (auto simp: Let_def)

lemma platformFileAtEnd_position_witness:
  "platformFileAtEnd_win exampleSetPtr (5 * 2 ^ 30, 10) = (0, (5 * 2 ^ 30, 2 ^ 32 + 10))"
  using platformFileAtEnd_position [OF exampleSetPtr_sets, of "(5 * 2 ^ 30, 10)"] by auto

text \<open>
  A write in two steps: \<open>WriteFile\<close> takes \<open>k\<close> bytes first and all that it is given afterwards. The file
  has the first \<open>k\<close> bytes twice, and more bytes are reported than there were.
\<close>

theorem platformFileWrite_repeats:
  assumes "k < length d" "writeFile h d = Some (k, h1)" "writeFile h1 d = Some (length d, h2)"
    and "content h1 = content h @ take k d" "content h2 = content h1 @ d"
  shows "platformFileWrite_win writeFile h d = Some (k + length d, h2) \<and> content h2 = content h @ take k d @ d"
  using assms by (cases d) (simp_all add: platformFileWrite_win_def writeLoop_win.simps)

section \<open>Directories\<close>

fun readAll_win :: "nat \<Rightarrow> PlatformDir_win \<Rightarrow> FindData list" where
  "readAll_win 0 d = []"
| "readAll_win (Suc n) d = (case platformDirRead_win d of (None, d1) \<Rightarrow> [] | (Some e, d1) \<Rightarrow> e # readAll_win n d1)"

lemma readAll_error: "wdError d \<noteq> 0 \<Longrightarrow> readAll_win n d = []"
  by (cases n) (auto simp: platformDirRead_win_def)

lemma readAll_left: "wdError d = 0 \<Longrightarrow> length (wdLeft d) < n \<Longrightarrow> readAll_win n d = wdNext d # wdLeft d"
proof (induction n arbitrary: d)
  case (Suc n)
  show ?case
  proof (cases "wdLeft d")
    case Nil
    then show ?thesis using Suc.prems by (simp add: platformDirRead_win_def readAll_error)
  next
    case (Cons e es)
    then show ?thesis using Suc by (simp add: platformDirRead_win_def)
  qed
qed simp

text \<open>
  Reading an open directory gives every entry that matched once, in the order of \<open>FindFirstFile\<close> and
  \<open>FindNextFile\<close>, and then no more.
\<close>

theorem platformDirRead_enumerates:
  assumes "platformDirOpen_win findFirst realPath (Some p) = Some d" "length (findFirst q) < n"
    and "q = (if last p = BACKSLASH then p @ ''*'' else p @ [BACKSLASH, CHR ''*''])"
  shows "readAll_win n d = findFirst q"
  using assms readAll_left [of d n] by (auto simp: platformDirOpen_win_def split: if_split_asm list.split_asm)

lemma platformDirRead_enumerates_witness:
  "\<exists>d. platformDirOpen_win (\<lambda>_. [\<lparr>cFileName = ''a'', dwFileAttributes = 0, nFileSize = 1\<rparr>]) Some (Some ''C:'') = Some d \<and>
    readAll_win 5 d = [\<lparr>cFileName = ''a'', dwFileAttributes = 0, nFileSize = 1\<rparr>]"
proof -
  let ?find = "\<lambda>_. [\<lparr>cFileName = ''a'', dwFileAttributes = 0, nFileSize = 1\<rparr>]"
  have "platformDirOpen_win ?find Some (Some ''C:'') \<noteq> None" by (simp add: platformDirOpen_win_def FILENAME_MAX_win_def)
  then obtain d where d: "platformDirOpen_win ?find Some (Some ''C:'') = Some d" by blast
  from platformDirRead_enumerates [OF d _ refl, of 5] show ?thesis using d by simp
qed

section \<open>Addresses of sockets\<close>

lemma nTopLoop_no_colon: "i \<noteq> 0 \<Longrightarrow> CHR '':'' \<notin> set s \<Longrightarrow> nTopLoop i s best mx = (best, mx)"
  by (induction s arbitrary: i) auto

lemma dotted_no_colon: "CHR '':'' \<notin> set (ipv4Dotted a b c d)"
  using show_nat_digits [of "unat a"] show_nat_digits [of "unat b"] show_nat_digits [of "unat c"] show_nat_digits [of "unat d"]
  by (auto simp: ipv4Dotted_def)

lemma dotted_zeros: "length (takeWhile (\<lambda>x. x = CHR '':'' \<or> x = CHR ''0'') (ipv4Dotted a b c d)) \<le> 3"
proof -
  have l: "length (show_nat (unat a)) \<le> 3"
    by (intro show_nat_length) (use unsigned_less [of a, where ?'a = nat] in simp_all)
  have "takeWhile P (s @ CHR ''.'' # t) = takeWhile P s" if "\<not> P (CHR ''.'')" for P s t
    using that by (induction s) auto
  then show ?thesis
    using l length_takeWhile_le [of "\<lambda>x. x = CHR '':'' \<or> x = CHR ''0''" "show_nat (unat a)"] by (simp add: ipv4Dotted_def)
qed

text \<open>
  An IPv4 address that reached a socket of IPv6 is shown as the IPv4 address it is: the zeros are
  shortened to \<open>::\<close>, and the prefix \<open>::ffff:\<close> taken off.
\<close>

theorem platformGetIpString_mapped:
  "platformGetIpString_win (SockIn6 (replicate 10 0 @ [255, 255, a, b, c, d])) = (ipv4Dotted a b c d, Some AF_INET)"
proof -
  let ?v4 = "ipv4Dotted a b c d"
  have "hex_digit 0 = CHR ''0''" "hex_digit 15 = CHR ''f''" by code_simp+
  then have hex: "show_hex 0 = ''0''" "show_hex 65535 = ''ffff''"
    by (simp_all add: show_hex.simps [of 0] show_hex.simps [of 65535] show_hex.simps [of 4095] show_hex.simps [of 255]
        show_hex.simps [of 15])
  have zeros: "replicate 10 (0 :: 8 word) = [0, 0, 0, 0, 0, 0, 0, 0, 0, 0]" by (simp add: numeral_eq_Suc)
  have t: "ipv6Text (replicate 10 0 @ [255, 255, a, b, c, d]) = ''0:0:0:0:0:ffff:'' @ ?v4"
    unfolding zeros using hex by (simp add: ipv6Text_def ipv6Group_def zeros)
  have "nTopLoop 0 (''0:0:0:0:0:ffff:'' @ ?v4) 0 2 = (0, 10)"
    using dotted_no_colon [of a b c d] dotted_zeros [of a b c d] by (simp add: nTopLoop_no_colon)
  then have "ipv6NTop (replicate 10 0 @ [255, 255, a, b, c, d]) = ''::ffff:'' @ ?v4"
    unfolding ipv6NTop_def t by simp
  then show ?thesis by (simp add: platformGetIpString_win_def)
qed

end
