(* ===== verification/Dos_Sys.thy ===== *)
theory Dos_Sys
  imports Windows_Laws
begin

text \<open>
  \<open>src/platform/doswatb.c\<close>, the layer for DOS with the Watt-32 library. Much of it is, letter for letter, the code
  of another layer: paths are those of the Windows layer, dates those of the POSIX one. The rest is running a
  command, the addresses of drives, and what is read from directories. Names carry the suffix \<open>_dos\<close>.
\<close>

section \<open>Keys\<close>

text \<open>\<open>key\<close> is what \<open>_bios_keybrd\<close> has to give, if anything. The answer keeps the server running unless it is \<open>False\<close>.\<close>

definition platformShouldExit :: "16 word option \<Rightarrow> bool" where
  "platformShouldExit key =
     (case key of None \<Rightarrow> True | Some k \<Rightarrow> \<not> (k = 0x2d00 \<or> k = 0x2e03 \<or> k = 0x11b))"

section \<open>Paths\<close>

definition platformPathCombine_dos :: "string \<Rightarrow> string \<Rightarrow> string res" where
  "platformPathCombine_dos = platformPathCombine_win"

text \<open>\<open>i\<close> is the length of the path, which is never empty.\<close>

definition platformPathWebToSystem_dos :: "string \<Rightarrow> string \<Rightarrow> (nat \<times> string option) res" where
  "platformPathWebToSystem_dos rootPath webPath =
     (let absolutePathLen = length rootPath + length webPath + 1 in
      if FILENAME_MAX_win \<le> absolutePathLen then Inr (500, None)
      else bindr (platformPathCombine_dos rootPath webPath)
             (\<lambda>p. let internal = map toBackslash p in
                if internal = [] then Inl OutOfBounds
                else Inr (0, Some (if last internal = BACKSLASH then butlast internal else internal))))"

definition platformPathSystemToFileScheme_dos :: "(string \<Rightarrow> string option) \<Rightarrow> string \<Rightarrow> string option res" where
  "platformPathSystemToFileScheme_dos = platformPathSystemToFileScheme_win"

text \<open>A path of a drive alone, \<open>/c\<close>, stands for its root.\<close>

definition platformPathFileSchemePathToSystem_dos :: "string \<Rightarrow> string option" where
  "platformPathFileSchemePathToSystem_dos path =
     (if length path < 3 then
        (if length path = 2 \<and> path ! 0 = CHR ''/'' then
           (let drive = toupperC (path ! 1) in
            if code drive < code (CHR ''A'') \<or> code (CHR ''Z'') < code drive then None
            else Some [drive, CHR '':'', BACKSLASH])
         else None)
      else
        let drive = toupperC (path ! 1); r = ParseFileSchemePathToDos path in
        if r ! 0 = drive \<and> r ! 1 = CHR '':'' \<and> r ! 2 = BACKSLASH then Some r else None)"

definition platformPathFileSchemeToSystem_dos :: "string \<Rightarrow> string option" where
  "platformPathFileSchemeToSystem_dos path =
     (if \<not> (toupperC (chC path 0) = CHR ''F'' \<and> toupperC (chC path 1) = CHR ''I'' \<and> toupperC (chC path 2) = CHR ''L'' \<and>
            toupperC (chC path 3) = CHR ''E'' \<and> chC path 4 = CHR '':'' \<and> chC path 5 = CHR ''/'' \<and> chC path 6 = CHR ''/'' \<and>
            chC path 7 = CHR ''/'')
      then None else platformPathFileSchemePathToSystem_dos (drop 7 path))"

definition platformGetDiskPath_dos :: "(string \<Rightarrow> string option) \<Rightarrow> string \<Rightarrow> string option" where
  "platformGetDiskPath_dos = platformGetDiskPath_win"

definition platformPathLast_dos :: "string \<Rightarrow> string option" where
  "platformPathLast_dos = platformPathLast_win"

definition platformTempDirectoryGet_dos :: "(string \<Rightarrow> string option) \<Rightarrow> bool \<Rightarrow> string option" where
  "platformTempDirectoryGet_dos env fallbackIsDir =
     (case env ''TEMP'' of
        Some t \<Rightarrow> Some t
      | None \<Rightarrow>
          if env ''TMP'' \<noteq> None then None
          else (case env ''TMPDIR'' of Some t \<Rightarrow> Some t | None \<Rightarrow> if fallbackIsDir then Some ''.'' else None))"

section \<open>Dates\<close>

definition platformTimeStructToStr_dos :: "PlatformTimeStruct \<Rightarrow> string option" where
  "platformTimeStructToStr_dos = platformTimeStructToStr"

definition platformTimeStructCompare_dos :: "PlatformTimeStruct \<Rightarrow> PlatformTimeStruct \<Rightarrow> int" where
  "platformTimeStructCompare_dos = platformTimeStructCompare"

definition platformTimeGetFromHttpStr_dos :: "string \<Rightarrow> PlatformTimeStruct \<Rightarrow> bool \<times> PlatformTimeStruct" where
  "platformTimeGetFromHttpStr_dos = platformTimeGetFromHttpStr"

text \<open>\<open>gmtime\<close> is \<open>gmtime (3)\<close>; its \<open>NULL\<close> is only looked for by \<open>platformGetTimeStruct\<close>.\<close>

definition platformGetTime_dos :: "(int \<Rightarrow> PlatformTimeStruct option) \<Rightarrow> int \<Rightarrow> string option res" where
  "platformGetTime_dos gmtime clock =
     (case gmtime clock of None \<Rightarrow> Inl NullDereference | Some t \<Rightarrow> Inr (platformTimeStructToStr t))"

definition platformGetTimeStruct_dos :: "(int \<Rightarrow> PlatformTimeStruct option) \<Rightarrow> int \<Rightarrow> bool \<times> PlatformTimeStruct option" where
  "platformGetTimeStruct_dos gmtime clock = (gmtime clock = None, gmtime clock)"

section \<open>Running a command\<close>

text \<open>
  In real mode \<open>size_t\<close> has 16 bits. The answer of \<open>NotEnoughMemory\<close> comes from the registers behind the
  attempt to allocate all memory: the carry flag, \<open>ax\<close> and \<open>bx\<close>.
\<close>

definition NotEnoughMemory :: "bool \<Rightarrow> 16 word \<Rightarrow> 16 word \<Rightarrow> int" where
  "NotEnoughMemory cflag ax bx = (if \<not> cflag then -1 else if ax \<noteq> 8 then -1 else if 0x2000 \<le> bx then 0 else 1)"

fun countArgs :: "string list \<Rightarrow> 16 word \<Rightarrow> 16 word" where
  "countArgs [] z = z - 1"
| "countArgs (a # as) z = countArgs as (z + word_of_nat (length a) + 1)"

definition CountArgLength :: "string list \<Rightarrow> 16 word" where
  "CountArgLength args = countArgs args 0"

definition DOSCMDMAX :: nat where "DOSCMDMAX = 128"

text \<open>
  The tail of the command in its array of \<open>DOSCMDMAX\<close> bytes: the length in front, the text, and a line feed in
  the place of its NUL.
\<close>

definition BuildCmdTail :: "string list \<Rightarrow> (nat \<times> string) res" where
  "BuildCmdTail args =
     (let s = ''/C'' @ concat (map (\<lambda>a. CHR '' '' # a) args) in
      if DOSCMDMAX < 1 + length s + 1 then Inl BufferOverflow else Inr (length s, s @ [LF]))"

text \<open>
  \<open>comspec\<close> is the variable \<open>COMSPEC\<close>, \<open>exec\<close> the answer of DOS to running a program with a tail: \<open>None\<close>, or the
  error in \<open>ax\<close>. The result is the message for the caller and what was printed.
\<close>

definition platformExecRunWait_real ::
    "string option \<Rightarrow> int \<Rightarrow> (string \<Rightarrow> nat \<times> string \<Rightarrow> nat option) \<Rightarrow> string list \<Rightarrow> (string option \<times> string) res" where
  "platformExecRunWait_real comspec memory exec args =
     (let p = (case comspec of Some c \<Rightarrow> c | None \<Rightarrow> ''COMMAND.COM'') in
      if unat (CountArgLength args) < DOSCMDMAX - 5 then
        (if memory = 1 then Inr (Some ''Command not run due to low free memory'', [])
         else if memory = -1 then Inr (Some ''Command not run due unexpected result during free memory check'', [])
         else bindr (BuildCmdTail args) (\<lambda>command.
           case exec p command of
             None \<Rightarrow> Inr (None, [])
           | Some ax \<Rightarrow>
               if ax = 2 \<or> ax = 3 then
                 Inr (Some ''Could not find %COMSPEC% or COMMAND.COM. Check system disk or set enviroment variable'', [])
               else Inr (Some ''COMMAND.COM did not return gracefully'', ''E'' @ show_nat ax @ '': '')))
      else Inr (Some ''Command is too long'', []))"

text \<open>
  Elsewhere the NULs between the arguments, which lie one behind the other in one block, are overwritten by
  spaces again, and the line up to its line feed is given to \<open>system (3)\<close>. Without arguments \<open>a[0]\<close> is \<open>NULL\<close>,
  which asks \<open>system\<close> whether there is a command processor.
\<close>

definition commandLine :: "string list \<Rightarrow> string option" where
  "commandLine args =
     (if args = [] then None
      else Some (takeWhile (\<lambda>c. c \<noteq> LF) (takeWhile (\<lambda>c. c \<noteq> NUL) (butlast (concat (map (\<lambda>s. s @ '' '') args)) @ [NUL]))))"

section \<open>Directories\<close>

definition PATH_MAX_dos :: nat where "PATH_MAX_dos = 512"

definition platformDirEntryIsHidden_dos :: "PlatformDirEntry \<Rightarrow> bool" where
  "platformDirEntryIsHidden_dos entry \<longleftrightarrow> chC (d_name entry) 0 = CHR ''.''"

text \<open>\<open>realPath\<close> is \<open>_fixpath\<close>. The block for the path has no room for the divider.\<close>

definition platformDirEntryGetStats_dos :: "Files \<Rightarrow> PlatformDirEntry \<Rightarrow> PlatformDir \<Rightarrow> PlatformFileStat option res" where
  "platformDirEntryGetStats_dos fs entry dir =
     bindr (platformPathCombine_dos (pd_path dir) (d_name entry)) (\<lambda>tmp.
       if length (pd_path dir) + length (d_name entry) + 1 \<le> length tmp then Inl BufferOverflow else Inr (fs tmp))"

definition platformDirEntryIsDirectory_dos ::
    "(string \<Rightarrow> string) \<Rightarrow> Files \<Rightarrow> PlatformDirEntry \<Rightarrow> PlatformDir \<Rightarrow> PlatformFileStat option \<Rightarrow> bool res" where
  "platformDirEntryIsDirectory_dos fixpath fs entry pd st =
     (case st of
        Some s \<Rightarrow> Inr (st_isdir s)
      | None \<Rightarrow>
          bindr (platformPathCombine_dos (take (PATH_MAX_dos - 1) (pd_path pd)) (d_name entry)) (\<lambda>tmp2.
            if PATH_MAX_dos \<le> length tmp2 then Inl BufferOverflow
            else Inr (case fs (fixpath tmp2) of Some s \<Rightarrow> st_isdir s | None \<Rightarrow> False)))"

section \<open>Network\<close>

text \<open>\<open>ip\<close> is the text of the address of the machine.\<close>

definition platformGetAdapterInformation_dos :: "string \<Rightarrow> NetworkAdapter list" where
  "platformGetAdapterInformation_dos ip = platformFindOrCreateAdapterIp [] ''Loaded Packet Driver'' 0 ip"

definition platformServerStartup_dos ::
    "nat option \<Rightarrow> (nat \<Rightarrow> bool) \<Rightarrow> bool \<Rightarrow> string \<Rightarrow> (string + nat list) res" where
  "platformServerStartup_dos sock binds listens ports =
     (case sock of
        None \<Rightarrow> Inr (Inl ''Unable to acquire IPV4 socket from system'')
      | Some s \<Rightarrow>
          bindr (platformBindPort binds AF_INET ports)
            (\<lambda>(r, _).
               if r \<noteq> 0 then Inr (Inl ''Unable to bind to designated port numbers'')
               else if \<not> listens then Inr (Inl ''Unable to listen to assigned socket'')
               else Inr (Inr [1, s])))"

definition platformCloseBindSockets_dos :: "nat list \<Rightarrow> nat list" where
  "platformCloseBindSockets_dos sockets = [1..<hd sockets + 1]"

definition platformGetIpString_dos :: "sa_family \<Rightarrow> string \<Rightarrow> string \<times> sa_family" where
  "platformGetIpString_dos family ip = (if family = AF_INET then ip else ''???'', family)"

definition platformGetPort_dos :: "sa_family \<Rightarrow> nat \<Rightarrow> nat" where
  "platformGetPort_dos family sin_port = (if family = AF_INET then sin_port else 0)"

section \<open>What holds of it\<close>

lemma unat_countArgs:
  assumes "unat z + sum_list (map (\<lambda>a. length a + 1) args) < 2 ^ 16" "args \<noteq> [] \<or> z \<noteq> 0"
  shows "unat (countArgs args z) = unat z + sum_list (map (\<lambda>a. length a + 1) args) - 1"
  using assms
proof (induction args arbitrary: z)
  case Nil
  then show ?case by (simp add: unat_sub_if' word_le_nat_alt Suc_le_eq unat_gt_0)
next
  case (Cons a as)
  have "unat (z + word_of_nat (length a) + 1) = unat z + length a + 1"
    using Cons.prems(1) by (simp add: unat_word_ariths unat_of_nat)
  moreover from this have "z + word_of_nat (length a) + 1 \<noteq> 0" by (metis add_is_0 unsigned_0 zero_neq_one)
  ultimately show ?case using Cons.IH [of "z + word_of_nat (length a) + 1"] Cons.prems(1) by simp
qed

lemma length_tail: "length (concat (map (\<lambda>a. c # a) args)) = sum_list (map (\<lambda>a. length a + 1) args)"
  by (induction args) auto

text \<open>
  C40. The check on the length of the arguments is the right one: whatever passes it fits the 128 bytes of the
  command, and its length the byte in front.
\<close>

theorem command_tail_fits:
  assumes "sum_list (map (\<lambda>a. length a + 1) args) < 2 ^ 16" "unat (CountArgLength args) < DOSCMDMAX - 5"
  shows "\<exists>t. BuildCmdTail args = Inr (length t - 1, t) \<and> length t < DOSCMDMAX"
proof -
  have ne: "args \<noteq> []" using assms(2) by (auto simp: CountArgLength_def DOSCMDMAX_def unsigned_minus_1_eq_mask mask_eq_exp_minus_1)
  have "sum_list (map (\<lambda>a. length a + 1) args) - 1 < 123"
    using assms unat_countArgs [of 0 args] ne by (simp add: CountArgLength_def DOSCMDMAX_def)
  then show ?thesis by (auto simp: BuildCmdTail_def DOSCMDMAX_def length_tail Let_def)
qed

lemma command_tail_fits_witness: "\<exists>t. BuildCmdTail [''dir'', ''/w''] = Inr (length t - 1, t) \<and> length t < 128"
  using command_tail_fits [of "[''dir'', ''/w'']"] by (simp add: CountArgLength_def DOSCMDMAX_def)

text \<open>The status of an entry is never had in bounds, unless the path of the directory ends with a divider.\<close>

theorem platformDirEntryGetStats_overflow:
  assumes "2 \<le> length (pd_path dir)" "\<not> isDivider (last (pd_path dir))" "\<not> isDivider (chC (d_name entry) 0)"
  shows "platformDirEntryGetStats_dos fs entry dir = Inl BufferOverflow"
proof -
  have "dropWhile isDivider (d_name entry) = d_name entry" using assms(3) by (cases "d_name entry") (auto simp: chC_def)
  then show ?thesis
    using combine_win [OF assms(1,2), of "d_name entry"]
    by (simp add: platformDirEntryGetStats_dos_def platformPathCombine_dos_def)
qed

text \<open>With \<open>TMP\<close> set and \<open>TEMP\<close> not there is no directory for temporary files.\<close>

theorem temp_directory_lost:
  "platformTempDirectoryGet_dos [''TMP'' \<mapsto> t] True = None \<and> platformTempDirectoryGet_win [''TMP'' \<mapsto> t] True = None"
  by (simp add: platformTempDirectoryGet_dos_def platformTempDirectoryGet_win_def)

text \<open>
  A request is answered from the same path on DOS as on Windows, without a divider at its end.
\<close>

theorem web_dos:
  assumes "2 \<le> length root" "\<not> isDivider (last root)" "CHR ''/'' \<notin> set root" "chC p 0 = CHR ''/''"
    and "length root + length p + 1 < FILENAME_MAX_win"
  shows "\<exists>path. platformPathWebToSystem_win root p = Inr (0, Some path) \<and>
    platformPathWebToSystem_dos root p = Inr (0, Some (if last path = BACKSLASH then butlast path else path))"
proof -
  have "map toBackslash root = root" using assms(3) by (auto simp: toBackslash_def intro!: map_idI)
  then show ?thesis
    using web_win [OF assms] combine_win [OF assms(1,2), of p] assms(1,5)
    by (simp add: platformPathWebToSystem_dos_def platformPathCombine_dos_def toBackslash_def Let_def)
qed

end
