(* ===== verification/Xml.thy ===== *)
theory Xml
  imports Platform_Str
begin

text \<open>
  \<open>src/client/xml.c\<close>: finding elements and attributes in an HTML page. A pointer into the page is an
  offset from the string that was passed in. The comparison \<open>end < next\<close> of \<open>XmlFindElement\<close> has
  \<open>next = NULL\<close> when no further element begins; the null pointer compares below every other, as on
  every platform the program supports.
\<close>

section \<open>Operations\<close>

definition XmlElementGetAttributes :: "string \<Rightarrow> string option" where
  "XmlElementGetAttributes element =
     (case strchr element (CHR ''<'') of
        None \<Rightarrow> None
      | Some p \<Rightarrow>
          (case strchr_from element p (CHR ''>'') of
             None \<Rightarrow> None
           | Some e \<Rightarrow>
               if (case strchr_from element (p + 1) (CHR ''<'') of Some n \<Rightarrow> n < e | None \<Rightarrow> False) then None
               else
                 let i = p + 1 + length (takeWhile (\<lambda>c. c = CHR '' '') (drop (p + 1) element)) in
                 (case strchr_from element i (CHR '' '') of
                    None \<Rightarrow> None
                  | Some j \<Rightarrow> if e < j then None else Some (substr element (j + 1) e))))"

text \<open>The tests on the element that opens at \<open>p\<close>, when the next one opens at \<open>nxt\<close>.\<close>

definition elementHere :: "string \<Rightarrow> string \<Rightarrow> nat \<Rightarrow> nat \<Rightarrow> bool" where
  "elementHere xml element p nxt \<longleftrightarrow>
     (case strchr_from xml (p + 1) (CHR ''>'') of
        None \<Rightarrow> False
      | Some e \<Rightarrow>
          e < nxt \<and>
          (let sw = dropWhile (\<lambda>c. c = CHR '' '' \<or> c = CHR ''<'') (drop p xml)
           in sw \<noteq> [] \<and> length element \<le> length sw \<and> needleRun sw element = length element))"

function findElementLoop :: "string \<Rightarrow> string \<Rightarrow> nat option" where
  "findElementLoop xml element =
     (case strchr xml (CHR ''<'') of
        None \<Rightarrow> None
      | Some p \<Rightarrow>
          (case strchr_from xml (p + 1) (CHR ''<'') of
             None \<Rightarrow> None
           | Some nxt \<Rightarrow>
               if elementHere xml element p nxt then Some p
               else map_option ((+) nxt) (findElementLoop (drop nxt xml) element)))"
  by pat_completeness auto
termination
  by (relation "measure (\<lambda>(xml, element). length xml)")
    (auto simp: strchr_from_def dest!: strchr_Some)

declare findElementLoop.simps [simp del]

definition XmlFindElement :: "string \<Rightarrow> string \<Rightarrow> nat option" where
  "XmlFindElement xml element = findElementLoop xml element"

definition XmlExtractElement :: "string \<Rightarrow> string \<Rightarrow> string option" where
  "XmlExtractElement xml element =
     (case XmlFindElement xml element of
        None \<Rightarrow> None
      | Some p \<Rightarrow>
          (case strchr_from xml p (CHR ''>'') of
             None \<Rightarrow> None
           | Some e \<Rightarrow> let len = e - p in if len = 0 then None else Some (substr xml p (p + (len + 1)))))"

text \<open>The first quote of either kind behind the \<open>=\<close>: its offset, or \<open>None\<close> when there is none.\<close>

definition quoteAfter :: "string \<Rightarrow> nat \<Rightarrow> nat option" where
  "quoteAfter t eq =
     (case (strchr_from t eq SQUOTE, strchr_from t eq DQUOTE) of
        (Some s, Some d) \<Rightarrow> Some (if s < d then s else d)
      | (Some s, None) \<Rightarrow> Some s
      | (None, Some d) \<Rightarrow> Some d
      | (None, None) \<Rightarrow> None)"

text \<open>
  The value of an attribute. The loop for a value without quotes reads \<open>*i != 0 || *i == qc\<close> with
  \<open>qc\<close> a space: it stops at the end of the string only.
\<close>

definition XmlExtractAttributeValue :: "string \<Rightarrow> string option" where
  "XmlExtractAttributeValue attribute =
     (case strchr attribute (CHR ''='') of
        None \<Rightarrow> None
      | Some eq \<Rightarrow>
          (case quoteAfter attribute eq of
             Some q \<Rightarrow> Some (takeWhile (\<lambda>c. c \<noteq> attribute ! q) (drop (q + 1) attribute))
           | None \<Rightarrow> Some (drop (eq + 1) attribute)))"

text \<open>
  The block for the result has room for the name, the value, a character more, and two more with
  quotes; \<open>sprintf\<close> of the format \<open>%s=%c%s%c\<close> writes both \<open>%c\<close> in either case, as NUL without quotes.
\<close>

definition XmlExtractAttribute :: "string \<Rightarrow> string \<Rightarrow> string option res" where
  "XmlExtractAttribute element attribute =
     (case XmlElementGetAttributes element of
        None \<Rightarrow> Inr None
      | Some a \<Rightarrow>
          (case platformStringFindWord a attribute of
             None \<Rightarrow> Inr None
           | Some k \<Rightarrow>
               let t = drop k a; i = take (length attribute) t in
               (case XmlExtractAttributeValue t of
                  None \<Rightarrow> Inr (Some i)
                | Some v \<Rightarrow>
                    (case strchr t (CHR ''='') of
                       None \<Rightarrow> Inr None
                     | Some eq \<Rightarrow>
                         let q = quoteAfter t eq;
                             qc = (case q of Some j \<Rightarrow> t ! j | None \<Rightarrow> NUL);
                             len = length attribute + length v + 1 + (if qc \<noteq> NUL then 2 else 0);
                             r = i @ ''='' @ [qc] @ v @ [qc]
                         in if len + 1 < length r + 1 then Inl BufferOverflow else Inr (Some r)))))"

definition XmlFindAttribute :: "string \<Rightarrow> string \<Rightarrow> nat option" where
  "XmlFindAttribute element attribute =
     (case XmlElementGetAttributes element of
        None \<Rightarrow> None
      | Some a \<Rightarrow>
          (case platformStringFindWord a attribute of
             None \<Rightarrow> None
           | Some t \<Rightarrow> (case strstr element a of None \<Rightarrow> None | Some f \<Rightarrow> Some (f + t))))"

section \<open>Finding an element\<close>

text \<open>
  What is looked for: an opening bracket that is closed before the next one opens, with the name
  behind it (after spaces) in any case. There has to be a next one.
\<close>

definition tagAt :: "string \<Rightarrow> string \<Rightarrow> nat \<Rightarrow> bool" where
  "tagAt xml element p \<longleftrightarrow>
     p < length xml \<and> xml ! p = CHR ''<'' \<and>
     (\<exists>e nxt. strchr (drop (p + 1) xml) (CHR ''>'') = Some e \<and> strchr (drop (p + 1) xml) (CHR ''<'') = Some nxt \<and> e < nxt) \<and>
     (let sw = dropWhile (\<lambda>c. c = CHR '' '' \<or> c = CHR ''<'') (drop p xml)
      in sw \<noteq> [] \<and> prefix (upperS element) (upperS sw))"

lemma prefix_upper_run:
  "length n \<le> length h \<and> needleRun h n = length n \<longleftrightarrow> prefix (upperS n) (upperS h)"
  using prefix_length_le [of "upperS n" "upperS h"] by (auto simp: needleRun_full)

lemma tagAt_drop: "tagAt (drop k xml) element j \<longleftrightarrow> tagAt xml element (k + j)"
proof (cases "k + j < length xml")
  case True
  have "drop (j + 1) (drop k xml) = drop (k + j + 1) xml" "drop j (drop k xml) = drop (k + j) xml"
    by (simp_all add: add.commute)
  with True show ?thesis by (simp only: tagAt_def) (simp add: add.commute less_diff_conv)
qed (simp add: tagAt_def not_less)

lemma elementHere_tagAt:
  assumes p: "strchr xml (CHR ''<'') = Some p" and n: "strchr_from xml (p + 1) (CHR ''<'') = Some nxt"
  shows "elementHere xml element p nxt \<longleftrightarrow> tagAt xml element p"
proof -
  from n obtain m where m: "strchr (drop (p + 1) xml) (CHR ''<'') = Some m" "nxt = p + 1 + m"
    by (auto simp: strchr_from_def)
  have "p < length xml" "xml ! p = CHR ''<''" using strchr_Some [OF p] by auto
  with m show ?thesis
    by (cases "strchr (drop (p + 1) xml) (CHR ''>'')")
      (auto simp: elementHere_def tagAt_def strchr_from_def Let_def prefix_upper_run [symmetric])
qed

lemma findElementLoop_step:
  assumes p: "strchr xml (CHR ''<'') = Some p" and n: "strchr_from xml (p + 1) (CHR ''<'') = Some nxt"
  shows "findElementLoop xml element =
           (if tagAt xml element p then Some p else map_option ((+) nxt) (findElementLoop (drop nxt xml) element))"
  using findElementLoop.simps [of xml element] p n elementHere_tagAt [OF p n, of element] by simp

lemma tagAt_before:
  assumes p: "strchr xml (CHR ''<'') = Some p"
  shows "j < p \<Longrightarrow> \<not> tagAt xml element j"
    and "strchr_from xml (p + 1) (CHR ''<'') = Some nxt \<Longrightarrow> p < j \<Longrightarrow> j < nxt \<Longrightarrow> \<not> tagAt xml element j"
    and "strchr_from xml (p + 1) (CHR ''<'') = None \<Longrightarrow> p \<le> j \<Longrightarrow> \<not> tagAt xml element j"
proof -
  show "j < p \<Longrightarrow> \<not> tagAt xml element j"
    using strchr_Some [OF p] by (force simp: tagAt_def in_set_conv_nth)
next
  assume n: "strchr_from xml (p + 1) (CHR ''<'') = Some nxt" and j: "p < j" "j < nxt"
  then obtain m where m: "strchr (drop (p + 1) xml) (CHR ''<'') = Some m" "nxt = p + 1 + m"
    by (auto simp: strchr_from_def)
  have l: "j - (p + 1) < m" using j m(2) by simp
  have ml: "m < length xml - (p + 1)" using strchr_Some [OF m(1)] by simp
  have "drop (p + 1) xml ! (j - (p + 1)) \<in> set (take m (drop (p + 1) xml))"
    using l strchr_Some [OF m(1)] by (metis in_set_conv_nth length_take less_imp_le min.absorb2 nth_take)
  moreover have "drop (p + 1) xml ! (j - (p + 1)) = xml ! (p + 1 + (j - (p + 1)))"
    by (rule nth_drop) (use ml in arith)
  then have "drop (p + 1) xml ! (j - (p + 1)) = xml ! j" using j by simp
  ultimately show "\<not> tagAt xml element j" using strchr_Some [OF m(1)] by (auto simp: tagAt_def)
next
  assume "strchr_from xml (p + 1) (CHR ''<'') = None" and j: "p \<le> j"
  then have "CHR ''<'' \<notin> set (drop (p + 1) xml)" by (simp add: strchr_from_def strchr_None)
  moreover have "set (drop (j + 1) xml) \<subseteq> set (drop (p + 1) xml)" using j by (simp add: set_drop_subset_set_drop)
  ultimately show "\<not> tagAt xml element j" by (auto simp: tagAt_def dest!: strchr_Some nth_mem)
qed

lemma findElementLoop_first:
  "case findElementLoop xml element of
     None \<Rightarrow> \<forall>j. \<not> tagAt xml element j
   | Some p \<Rightarrow> tagAt xml element p \<and> (\<forall>j<p. \<not> tagAt xml element j)"
proof (induction xml element rule: findElementLoop.induct)
  case (1 xml element)
  show ?case
  proof (cases "strchr xml (CHR ''<'')")
    case None
    then have "\<not> tagAt xml element j" for j by (auto simp: tagAt_def strchr_None dest: nth_mem)
    moreover have "findElementLoop xml element = None" using findElementLoop.simps [of xml element] None by simp
    ultimately show ?thesis by simp
  next
    case (Some p)
    note before = tagAt_before [OF Some]
    show ?thesis
    proof (cases "strchr_from xml (p + 1) (CHR ''<'')")
      case None
      then have "findElementLoop xml element = None" by (subst findElementLoop.simps) (simp add: Some)
      then show ?thesis using before(1,3) None by (auto simp: not_less [symmetric])
    next
      case nxt: (Some nxt)
      note step = findElementLoop_step [OF Some nxt, of element]
      show ?thesis
      proof (cases "tagAt xml element p")
        case True
        then show ?thesis using step before(1) by simp
      next
        case False
        have gap: "j < nxt \<Longrightarrow> \<not> tagAt xml element j" for j
          using before(1) [of j] before(2) [OF nxt, of j] False by (cases "j = p") (auto simp: linorder_neq_iff)
        have "case findElementLoop (drop nxt xml) element of
               None \<Rightarrow> \<forall>j. \<not> tagAt (drop nxt xml) element j
             | Some k \<Rightarrow> tagAt (drop nxt xml) element k \<and> (\<forall>j<k. \<not> tagAt (drop nxt xml) element j)"
          using False
          by (intro "1.IH" [OF Some nxt]) (simp add: elementHere_tagAt [OF Some nxt])
        then show ?thesis
          using False step gap by (auto simp: tagAt_drop split: option.splits) (metis add_diff_inverse_nat nat_add_left_cancel_less)+
      qed
    qed
  qed
qed

text \<open>
  The search finds the first element of the page that has the name, as long as another element
  begins behind it, and it finds nothing only when there is none.
\<close>

theorem XmlFindElement_first:
  "case XmlFindElement xml element of
     None \<Rightarrow> \<forall>j. \<not> tagAt xml element j
   | Some p \<Rightarrow> tagAt xml element p \<and> (\<forall>j<p. \<not> tagAt xml element j)"
  unfolding XmlFindElement_def by (rule findElementLoop_first)

lemma XmlFindElement_first_witness:
  "XmlFindElement ''<p>a<b>c</b>'' ''b'' = Some 4 \<and> tagAt ''<p>a<b>c</b>'' ''b'' 4 \<and> \<not> tagAt ''<p>a<b>c</b>'' ''b'' 0"
proof -
  have "XmlFindElement ''<p>a<b>c</b>'' ''b'' = Some 4" by code_simp
  then show ?thesis using XmlFindElement_first [of "''<p>a<b>c</b>''" "''b''"] by simp
qed

section \<open>Attributes\<close>

text \<open>An element with one attribute, as a page has it: \<open><name attr=value>\<close> and whatever follows.\<close>

definition plainName :: "string \<Rightarrow> bool" where
  "plainName n \<longleftrightarrow> n \<noteq> [] \<and> set n \<inter> set '' <>='' = {}"

definition oneAttribute :: "string \<Rightarrow> string \<Rightarrow> string \<Rightarrow> string \<Rightarrow> string" where
  "oneAttribute name attr v z = ''<'' @ name @ '' '' @ attr @ ''='' @ v @ ''>'' @ z"

lemma plainName_simps [simp]:
  assumes "plainName n"
  shows "n \<noteq> []" "CHR '' '' \<notin> set n" "CHR ''<'' \<notin> set n" "CHR ''>'' \<notin> set n" "CHR ''='' \<notin> set n"
  using assms by (auto simp: plainName_def)

lemma attributes_of_element:
  assumes "plainName name" "CHR ''<'' \<notin> set a" "CHR ''>'' \<notin> set a"
  shows "XmlElementGetAttributes (''<'' @ name @ '' '' @ a @ ''>'' @ z) = Some a"
proof -
  let ?e = "''<'' @ name @ '' '' @ a @ ''>'' @ z"
  let ?gt = "length name + length a + 2"
  have g: "strchr_from ?e 0 (CHR ''>'') = Some ?gt"
    using assms strchr_append [of "CHR ''>''" "''<'' @ name @ '' '' @ a" z] by (simp add: strchr_from_def)
  have n: "case strchr_from ?e 1 (CHR ''<'') of Some n \<Rightarrow> \<not> n < ?gt | None \<Rightarrow> True"
    using assms strchr_append_notin [of "CHR ''<''" "name @ '' '' @ a @ ''>''" z]
    by (auto simp: strchr_from_def split: option.split)
  have t: "takeWhile (\<lambda>c. c = CHR '' '') (drop 1 ?e) = []"
    using assms(1) by (cases name) (auto dest: plainName_simps(1,2))
  have s: "strchr_from ?e 1 (CHR '' '') = Some (length name + 1)"
    using assms(1) strchr_append [of "CHR '' ''" name "a @ ''>'' @ z"] by (simp add: strchr_from_def)
  have "substr ?e (length name + 2) ?gt = a" by (simp add: substr_def)
  then show ?thesis
    using g n t s by (simp add: XmlElementGetAttributes_def Let_def split: option.splits)
qed

lemma findWord_attribute:
  assumes "plainName attr"
  shows "platformStringFindWord (attr @ ''='' @ v) attr = Some 0"
  using assms by (simp add: platformStringFindWord_def platformStringFindNeedle_upper strstr_hit chC_def nth_append
      wordDelimiter_def)

lemma quoteAfter_at:
  assumes "CHR ''='' \<notin> set attr" "q = SQUOTE \<or> q = DQUOTE"
  shows "quoteAfter (attr @ ''='' @ [q] @ v) (length attr) = Some (length attr + 1)"
  using assms(2) by (auto simp: quoteAfter_def strchr_from_def split: option.split)

lemma quoteAfter_none:
  assumes "SQUOTE \<notin> set v" "DQUOTE \<notin> set v"
  shows "quoteAfter (attr @ ''='' @ v) (length attr) = None"
  using assms strchr_None [of v SQUOTE] strchr_None [of v DQUOTE] by (auto simp: quoteAfter_def strchr_from_def)

lemma attribute_value:
  assumes "plainName attr" "q = SQUOTE \<or> q = DQUOTE" "q \<notin> set v"
  shows "XmlExtractAttributeValue (attr @ ''='' @ [q] @ v @ [q] @ z) = Some v"
proof -
  have "strchr (attr @ ''='' @ [q] @ v @ [q] @ z) (CHR ''='') = Some (length attr)"
    using strchr_append [of "CHR ''=''" attr] assms(1) by simp
  moreover have "takeWhile (\<lambda>c. c \<noteq> q) (v @ q # z) = v" using assms(3) by (auto simp: takeWhile_eq_all_conv [THEN iffD2] takeWhile_append)
  ultimately show ?thesis
    using quoteAfter_at [of attr q "v @ [q] @ z"] assms(1,2) by (simp add: XmlExtractAttributeValue_def nth_append)
qed

lemma attribute_value_unquoted:
  assumes "plainName attr" "SQUOTE \<notin> set v" "DQUOTE \<notin> set v"
  shows "XmlExtractAttributeValue (attr @ ''='' @ v) = Some v"
  using strchr_append [of "CHR ''=''" attr v] quoteAfter_none [OF assms(2,3), of attr] assms(1)
  by (simp add: XmlExtractAttributeValue_def)

lemma strstr_first_attribute:
  assumes "plainName name" "plainName attr"
  shows "strstr (''<'' @ name @ '' '' @ attr @ ''='' @ w @ z) (attr @ ''='' @ w) = Some (length name + 2)"
proof (rule strstr_SomeI)
  let ?e = "''<'' @ name @ '' '' @ attr @ ''='' @ w @ z"
  show "prefix (attr @ ''='' @ w) (drop (length name + 2) ?e)" by simp
next
  fix j assume j: "j < length name + 2"
  let ?e = "''<'' @ name @ '' '' @ attr @ ''='' @ w @ z"
  show "\<not> prefix (attr @ ''='' @ w) (drop j ?e)"
  proof
    assume "prefix (attr @ ''='' @ w) (drop j ?e)"
    then obtain y where "drop j ?e = attr @ ''='' @ w @ y" by (auto simp: prefix_def)
    then have "drop j ?e ! length attr = CHR ''=''" by (simp add: nth_append)
    then have "?e ! (j + length attr) = CHR ''=''" using j by (subst (asm) nth_drop) auto
    moreover have "?e ! (j + length attr) = (''<'' @ name @ '' '' @ attr) ! (j + length attr)"
      using j nth_append [of "''<'' @ name @ '' '' @ attr" "''='' @ w @ z" "j + length attr"] by simp
    ultimately have eq: "(''<'' @ name @ '' '' @ attr) ! (j + length attr) = CHR ''=''" by (simp only:)
    have "(''<'' @ name @ '' '' @ attr) ! (j + length attr) \<in> set (''<'' @ name @ '' '' @ attr)"
      using j by (intro nth_mem) simp
    then have "CHR ''='' \<in> set (''<'' @ name @ '' '' @ attr)" unfolding eq .
    then show False using assms by simp
  qed
qed

text \<open>
  C37. The attribute of an element is found at its own place in the page, in front of everything that
  follows it there, and its quoted value comes back whole.
\<close>

theorem XmlFindAttribute_value:
  assumes "plainName name" "plainName attr" "q = SQUOTE \<or> q = DQUOTE" "set v \<inter> {q, CHR ''<'', CHR ''>''} = {}"
  shows "\<exists>k. XmlFindAttribute (oneAttribute name attr ([q] @ v @ [q]) z) attr = Some k \<and>
             drop k (oneAttribute name attr ([q] @ v @ [q]) z) = attr @ ''='' @ [q] @ v @ [q] @ ''>'' @ z \<and>
             XmlExtractAttributeValue (drop k (oneAttribute name attr ([q] @ v @ [q]) z)) = Some v"
proof -
  let ?w = "[q] @ v @ [q]"
  let ?e = "oneAttribute name attr ?w z"
  have v: "q \<notin> set v" "CHR ''<'' \<notin> set v" "CHR ''>'' \<notin> set v" using assms(4) by auto
  have "XmlElementGetAttributes ?e = Some (attr @ ''='' @ ?w)"
    using attributes_of_element [OF assms(1), of "attr @ ''='' @ ?w" z] assms(2,3) v by (auto simp: oneAttribute_def)
  moreover have "strstr ?e (attr @ ''='' @ ?w) = Some (length name + 2)"
    using strstr_first_attribute [OF assms(1,2), of ?w "''>'' @ z"] by (simp add: oneAttribute_def)
  ultimately have "XmlFindAttribute ?e attr = Some (length name + 2)"
    using findWord_attribute [OF assms(2), of ?w] by (simp add: XmlFindAttribute_def)
  moreover have "drop (length name + 2) ?e = attr @ ''='' @ [q] @ v @ [q] @ ''>'' @ z" by (simp add: oneAttribute_def)
  ultimately show ?thesis using attribute_value [OF assms(2,3) v(1), of "''>'' @ z"] by simp
qed

theorem XmlFindAttribute_value_witness:
  "\<exists>k. XmlFindAttribute ''<a href='x.txt'>x</a>'' ''href'' = Some k \<and>
       XmlExtractAttributeValue (drop k ''<a href='x.txt'>x</a>'') = Some ''x.txt''"
  using XmlFindAttribute_value [of "''a''" "''href''" SQUOTE "''x.txt''" "''x</a>''"]
  by (auto simp: oneAttribute_def plainName_def)

text \<open>
  An attribute whose value has no quotes: the block for the result is two bytes too small for
  what \<open>sprintf\<close> writes, whatever the page continues with.
\<close>

theorem XmlExtractAttribute_unquoted:
  assumes "plainName name" "plainName attr" "set v \<inter> {SQUOTE, DQUOTE, CHR ''<'', CHR ''>''} = {}"
  shows "XmlExtractAttribute (oneAttribute name attr v z) attr = Inl BufferOverflow"
proof -
  have v: "SQUOTE \<notin> set v" "DQUOTE \<notin> set v" "CHR ''<'' \<notin> set v" "CHR ''>'' \<notin> set v" using assms(3) by auto
  have "XmlElementGetAttributes (oneAttribute name attr v z) = Some (attr @ ''='' @ v)"
    using attributes_of_element [OF assms(1), of "attr @ ''='' @ v" z] assms(2) v by (simp add: oneAttribute_def)
  moreover have "strchr (attr @ ''='' @ v) (CHR ''='') = Some (length attr)"
    using strchr_append [of "CHR ''=''" attr v] assms(2) by simp
  ultimately show ?thesis
    using findWord_attribute [OF assms(2), of v] attribute_value_unquoted [OF assms(2) v(1,2)] quoteAfter_none [OF v(1,2), of attr]
    by (simp add: XmlExtractAttribute_def Let_def)
qed

theorem XmlExtractAttribute_unquoted_witness:
  "XmlExtractAttribute ''<a href=x.txt>x</a>'' ''href'' = Inl BufferOverflow"
  using XmlExtractAttribute_unquoted [of "''a''" "''href''" "''x.txt''" "''x</a>''"]
  by (simp add: oneAttribute_def plainName_def)

text \<open>
  The attribute is looked for in the page by the text of all attributes, which may occur in the name
  of the element already; the last element of a page is never found.
\<close>

theorem XmlFindAttribute_in_name: "XmlFindAttribute ''<b b>x</b>'' ''b'' = Some 1"
  by code_simp

theorem XmlFindElement_last_missed: "XmlFindElement ''<p>text'' ''p'' = None"
  by code_simp

end
