(* ===== verification/Http_Client.thy ===== *)
theory Http_Client
  imports Recv_Chunk Xml Posix_Sys
begin

text \<open>
  The helper functions of \<open>src/client/site/http.c\<close>: what a response means, which fields of its header
  are used and how they set the receive buffer up, the links of a directory page, and the header lines
  of a request.
\<close>

section \<open>Responses\<close>

definition HttpResponseOk :: "string \<Rightarrow> bool" where
  "HttpResponseOk response \<longleftrightarrow> chC response 0 = CHR ''2''"

text \<open>An error constant of the system is \<open>Inl\<close>, the numbers 0 and -1 are \<open>Inr\<close>.\<close>

definition HttpResponseToSystemError :: "string \<Rightarrow> Errno + int" where
  "HttpResponseToSystemError response =
     (let c = chC response in
      if c 0 = CHR ''1'' \<or> c 0 = CHR ''2'' then Inr 0
      else if c 0 = CHR ''4'' \<and> c 1 = CHR ''0'' then
        (if c 2 = CHR ''0'' then Inl EFAULT
         else if c 2 = CHR ''1'' \<or> c 2 = CHR ''2'' \<or> c 2 = CHR ''3'' then Inl EPERM
         else if c 2 = CHR ''4'' then Inl ENOENT
         else Inr (-1))
      else Inr (-1))"

definition HttpResponseIsDir :: "string \<Rightarrow> int" where
  "HttpResponseIsDir header =
     (let attached = (case ioHttpResponseHeaderFind header ''Content-Disposition'' of
                        None \<Rightarrow> False
                      | Some p \<Rightarrow> platformStringFindNeedle p ''attachment'' \<noteq> None)
      in if attached then 0
         else (case ioHttpResponseHeaderFind header ''Content-Type'' of
                 None \<Rightarrow> -1
               | Some p \<Rightarrow> if platformStringFindNeedle p ''text/html'' \<noteq> None then 1 else -1))"

section \<open>Links of a directory page\<close>

text \<open>\<open>Inl\<close> is a path that is \<open>NULL\<close>, or a search that starts behind the NUL of the link.\<close>

definition LinkPathIsDirectSub :: "UriDetails \<Rightarrow> string \<Rightarrow> bool res" where
  "LinkPathIsDirectSub path link =
     (case strstr link ''://'' of
        Some _ \<Rightarrow>
          (let linkUri = uriDetailsNewFrom (Some link) in
           if uScheme linkUri \<noteq> None \<and> uScheme linkUri = uScheme path \<and> uHost linkUri \<noteq> None \<and>
              uHost linkUri = uHost path \<and> uriDetailsGetPort linkUri = uriDetailsGetPort path then
             (case (uPath linkUri, uPath path) of
                (Some lp, Some pp) \<Rightarrow>
                  if strstr lp pp = Some 0 then
                    (if length lp < length pp + 1 then Inl OutOfBounds
                     else Inr (strchr (drop (length pp + 1) lp) (CHR ''/'') = None))
                  else Inr False
              | _ \<Rightarrow> Inl NullDereference)
           else Inr False)
      | None \<Rightarrow>
          if chC link 0 = CHR ''.'' then Inr False
          else if chC link 0 = CHR ''/'' then
            (case uPath path of
               None \<Rightarrow> Inl NullDereference
             | Some pp \<Rightarrow>
                 if strstr link pp = Some 0 then
                   (let pathLen = length pp; linkLen = length link in
                    if linkLen \<le> pathLen \<or> pathLen + 1 = linkLen \<and> chC link pathLen = CHR ''/'' then Inr False
                    else (case strchr_from link (pathLen + 1) (CHR ''/'') of
                            Some last1 \<Rightarrow> Inr (last1 = linkLen - 1)
                          | None \<Rightarrow> Inr True))
                 else Inr False)
          else Inr True)"

text \<open>\<open>p\<close> moves behind every \<open>/\<close> that is followed by neither the end nor another \<open>/\<close>.\<close>

definition relativeStart :: "string \<Rightarrow> nat" where
  "relativeStart link =
     foldl (\<lambda>p i. if link ! i = CHR ''/'' \<and> chC link (i + 1) \<noteq> NUL \<and> chC link (i + 1) \<noteq> CHR ''/'' then i + 1 else p)
       0 [0..<length link]"

definition LinkPathConvertToRelativeSubdirectory :: "string \<Rightarrow> string" where
  "LinkPathConvertToRelativeSubdirectory link = drop (relativeStart link) link"

text \<open>
  A directory listing. Of every entry only the name is ever set. \<open>hdAsOf\<close> is the time of the last
  reload, 0 for never.
\<close>

record HttpSiteDirectoryListing =
  hdAsOf :: int
  hdIdx :: nat
  hdEntry :: "string list"
  hdFullUri :: "string option"

definition DirectoryListingCreate :: "string option \<Rightarrow> HttpSiteDirectoryListing" where
  "DirectoryListingCreate uriPath = \<lparr>hdAsOf = 0, hdIdx = 0, hdEntry = [], hdFullUri = uriPath\<rparr>"

definition DirectoryListingAdd :: "HttpSiteDirectoryListing \<Rightarrow> string \<Rightarrow> HttpSiteDirectoryListing" where
  "DirectoryListingAdd self name = self\<lparr>hdEntry := hdEntry self @ [name]\<rparr>"

definition DirectoryListingSetReloadDate :: "int \<Rightarrow> HttpSiteDirectoryListing \<Rightarrow> HttpSiteDirectoryListing" where
  "DirectoryListingSetReloadDate now self = self\<lparr>hdAsOf := now\<rparr>"

definition DirectoryListingClear :: "HttpSiteDirectoryListing \<Rightarrow> HttpSiteDirectoryListing" where
  "DirectoryListingClear self = self\<lparr>hdEntry := [], hdFullUri := None, hdIdx := 0, hdAsOf := 0\<rparr>"

text \<open>Moving the stream to an element. The result -1 is the largest value of \<open>size_t\<close>.\<close>

definition FastForwardToElement :: "RecvBuffer \<Rightarrow> string \<Rightarrow> (nat \<times> RecvBuffer) res" where
  "FastForwardToElement self element =
     (let e = ''<'' @ element in
      case recvBufferFindAndDitch self e (length e) of
        Inl f \<Rightarrow> Inl f
      | Inr (Some _, self1, _) \<Rightarrow> Inr (ULONG_MAX, self1)
      | Inr (None, self1, d) \<Rightarrow> Inr (case d of Some n \<Rightarrow> n | None \<Rightarrow> 0, self1))"

definition BufferToEndElement :: "RecvBuffer \<Rightarrow> string \<Rightarrow> (ClientErr option \<times> RecvBuffer) res" where
  "BufferToEndElement self element =
     (let e = ''</'' @ element @ ''>'' in recvBufferFindAndFetch self e (length e) 2048)"

text \<open>The array \<open>buf\<close> is cleared before; what it holds as a string are the bytes before the first NUL.\<close>

definition FastForwardOverElement :: "RecvBuffer \<Rightarrow> string \<Rightarrow> (nat \<times> RecvBuffer) res" where
  "FastForwardOverElement self element =
     (case FastForwardToElement self element of
        Inl f \<Rightarrow> Inl f
      | Inr (r, self1) \<Rightarrow>
          (case recvBufferFetch self1 0 2047 of
             Inl f \<Rightarrow> Inl f
           | Inr (_, buf) \<Rightarrow>
               (case XmlExtractElement (cstring buf) element of
                  None \<Rightarrow> Inr (r, self1)
                | Some found \<Rightarrow>
                    Inr ((r + length found) mod 2 ^ 64, recvBufferDitch self1 (length found)))))"

text \<open>The next link, or \<open>None\<close>: also when the next \<open>a\<close> element has no \<open>href\<close>.\<close>

definition HtmlExtractNextLink :: "RecvBuffer \<Rightarrow> nat \<Rightarrow> (string option \<times> nat \<times> RecvBuffer) res" where
  "HtmlExtractNextLink self written =
     (case FastForwardToElement self ''a'' of
        Inl f \<Rightarrow> Inl f
      | Inr (w, self1) \<Rightarrow>
          let written1 = (written + w) mod 2 ^ 64 in
          (case BufferToEndElement self1 ''a'' of
             Inl f \<Rightarrow> Inl f
           | Inr (Some _, self2) \<Rightarrow> Inr (None, written1, self2)
           | Inr (None, self2) \<Rightarrow>
               (case recvBufferFetch self2 0 2048 of
                  Inl f \<Rightarrow> Inl f
                | Inr (Some _, _) \<Rightarrow> Inr (None, written1, self2)
                | Inr (None, b) \<Rightarrow>
                    let buf = cstring b in
                    (case XmlFindElement buf ''a'' of
                       None \<Rightarrow> Inr (None, written1, self2)
                     | Some e \<Rightarrow>
                         (case XmlFindAttribute (drop e buf) ''href'' of
                            None \<Rightarrow> Inr (None, written1, self2)
                          | Some a \<Rightarrow>
                              (case XmlExtractAttributeValue (drop a (drop e buf)) of
                                 None \<Rightarrow> Inr (None, written1, self2)
                               | Some v \<Rightarrow>
                                   (case FastForwardOverElement self2 ''a'' of
                                      Inl f \<Rightarrow> Inl f
                                    | Inr (w2, self3) \<Rightarrow> Inr (Some v, (written1 + w2) mod 2 ^ 64, self3))))))))"

section \<open>Header fields\<close>

text \<open>
  The loop over the digits of a \<open>Content-Length\<close>: \<open>tmp\<close> is an \<open>off_t\<close> whose overflow wraps around (the
  comparison with the last value is there to notice it). The second component is \<open>*length\<close>.
\<close>

fun contentLengthLoop :: "int \<Rightarrow> int \<Rightarrow> string \<Rightarrow> ClientErr option \<times> int" where
  "contentLengthLoop tmp len [] = (None, len)"
| "contentLengthLoop tmp len (c # s) =
     (if isdigitC c then
        (let tmp1 = sint (word_of_int (tmp * 10 + int (digit_val c)) :: 64 word) in
         if len < tmp1 then contentLengthLoop tmp1 tmp1 s else (Some ErrContentLengthValueCausedBufferOverflow, len))
      else (Some ErrContentLengthValueContainsNonDigitCharacters, len))"

definition HttpGetContentLength :: "string \<Rightarrow> int \<Rightarrow> ClientErr option \<times> int" where
  "HttpGetContentLength header len =
     (case ioHttpResponseHeaderFind header ''content-length'' of
        None \<Rightarrow> (Some ErrHeaderNotFound, len)
      | Some cd \<Rightarrow>
          let i = (case strchr cd CR of Some k \<Rightarrow> take k cd | None \<Rightarrow> cd)
          in contentLengthLoop 0 0 (dropWhile (\<lambda>c. \<not> isdigitC c) i))"

definition HTTP_CHUCKED_MODE :: "8 word" where "HTTP_CHUCKED_MODE = 1"
definition HTTP_CONTENT_ATTACHMENT :: "8 word" where "HTTP_CONTENT_ATTACHMENT = 2"

record HttpResponseHeader =
  hrModifiedDate :: "PlatformTimeStruct option"
  hrLength :: int
  hrFileName :: "string option"
  hrProtocol :: "8 word"

definition emptyResponseHeader :: HttpResponseHeader where
  "emptyResponseHeader = \<lparr>hrModifiedDate = None, hrLength = 0, hrFileName = None, hrProtocol = 0\<rparr>"

definition emptyTime :: PlatformTimeStruct where
  "emptyTime = \<lparr>tm_sec = 0, tm_min = 0, tm_hour = 0, tm_mday = 0, tm_mon = 0, tm_year = 0, tm_wday = 0\<rparr>"

text \<open>The text between the quotes; a doubled quote does not end it.\<close>

fun quotedName :: "string \<Rightarrow> string" where
  "quotedName [] = []"
| "quotedName [c] = (if c = DQUOTE then [] else [c])"
| "quotedName (c # d # s) =
     (if c = DQUOTE then (if d = DQUOTE then c # d # quotedName s else []) else c # quotedName (d # s))"

text \<open>
  The file name behind the \<open>=\<close> that follows offset \<open>p\<close> of the field. Quotes or not, the name is taken
  from the second character on; behind the end of the field that is a read out of bounds.
\<close>

definition dispositionName :: "string \<Rightarrow> nat \<Rightarrow> string option \<Rightarrow> string option res" where
  "dispositionName v p old =
     (case strchr_from v p (CHR ''='') of
        None \<Rightarrow> Inr old
      | Some q \<Rightarrow>
          (case dropWhile (\<lambda>c. c = CHR '' '') (drop (q + 1) v) of
             [] \<Rightarrow> Inl OutOfBounds
           | c # s \<Rightarrow>
               let name = (if c = DQUOTE then quotedName s else s)
               in Inr (if name \<noteq> [] then Some name else old)))"

definition populateDisposition :: "string \<Rightarrow> HttpResponseHeader \<Rightarrow> HttpResponseHeader res" where
  "populateDisposition v self =
     (let attach = self\<lparr>hrProtocol := hrProtocol self OR HTTP_CONTENT_ATTACHMENT\<rparr>;
          named = (\<lambda>h f. case f of
                           None \<Rightarrow> Inr h
                         | Some p \<Rightarrow> bindr (dispositionName v p (hrFileName h)) (\<lambda>n. Inr (h\<lparr>hrFileName := n\<rparr>)));
          f = platformStringFindNeedle v ''filename''
      in case platformStringFindNeedle v ''attachment'' of
           Some p \<Rightarrow>
             if (case f of None \<Rightarrow> True | Some k \<Rightarrow> p < k) then named attach f else Inr self
         | None \<Rightarrow> (case f of None \<Rightarrow> Inr self | Some k \<Rightarrow> named attach (Some k)))"

definition HeadersPopulate :: "string \<Rightarrow> HttpResponseHeader \<Rightarrow> HttpResponseHeader res" where
  "HeadersPopulate header self =
     (let self1 = (case ioHttpResponseHeaderFind header ''Transfer-Encoding'' of
                     Some v \<Rightarrow>
                       if platformStringFindWord v ''Chunked'' \<noteq> None
                       then self\<lparr>hrProtocol := hrProtocol self OR HTTP_CHUCKED_MODE\<rparr> else self
                   | None \<Rightarrow> self\<lparr>hrLength := snd (HttpGetContentLength header (hrLength self))\<rparr>);
          self2 = (case ioHttpResponseHeaderFind header ''Last-Modified'' of
                     Some v \<Rightarrow>
                       self1\<lparr>hrModifiedDate :=
                         Some (snd (platformTimeGetFromHttpStr v
                                 (case hrModifiedDate self1 of Some t \<Rightarrow> t | None \<Rightarrow> emptyTime)))\<rparr>
                   | None \<Rightarrow> self1)
      in case ioHttpResponseHeaderFind header ''Content-Disposition'' of
           Some v \<Rightarrow> populateDisposition v self2
         | None \<Rightarrow> Inr self2)"

definition HeadersCompute :: "RecvBuffer \<Rightarrow> HttpResponseHeader \<Rightarrow> string \<Rightarrow> RecvBuffer res" where
  "HeadersCompute socket headerResponse mode =
     (if toupperC (chC mode 0) = CHR ''G'' \<and> toupperC (chC mode 1) = CHR ''E'' \<and> toupperC (chC mode 2) = CHR ''T'' then
        (if hrProtocol headerResponse AND HTTP_CHUCKED_MODE \<noteq> 0 then recvBufferSetLengthChunk socket
         else if u64 (hrLength headerResponse) = rbLen socket then Inr (recvBufferSetLengthComplete socket)
         else Inr (setFirst (int (rbLen socket)) (recvBufferSetLengthKnown socket (hrLength headerResponse))))
      else Inr (recvBufferSetLengthComplete socket))"

section \<open>Request headers\<close>

definition GenerateHostHeader :: "string option \<Rightarrow> UriDetails \<Rightarrow> ClientErr option \<times> string option" where
  "GenerateHostHeader self details =
     (case uHost details of
        None \<Rightarrow> (Some (Message ''No host information''), self)
      | Some h \<Rightarrow> (None, platformHeapStringAppend self (''Host: '' @ h @ HTTP_EOL)))"

definition GenerateConnectionHeader :: "string option \<Rightarrow> string option" where
  "GenerateConnectionHeader self = platformHeapStringAppend self (''Connection: Keep-Alive'' @ HTTP_EOL)"

section \<open>The length of a body\<close>

lemma digit_val_dec_digit: "d < 10 \<Longrightarrow> digit_val (dec_digit d) = d"
  by (simp add: dec_digit_def)

lemma sint_small: "0 \<le> v \<Longrightarrow> v < 2 ^ 63 \<Longrightarrow> sint (word_of_int v :: 64 word) = v"
  by transfer (simp add: signed_take_bit_int_eq_self)

text \<open>The digits of a number without leading zeros: every prefix is smaller than the next one.\<close>

lemma contentLength_step:
  assumes "d < 10" "0 < v * 10 + int d" "v * 10 + int d < 2 ^ 63" "0 \<le> v"
  shows "contentLengthLoop v v (dec_digit d # s) = contentLengthLoop (v * 10 + int d) (v * 10 + int d) s"
proof -
  have "sint (word_of_int (v * 10 + int d) :: 64 word) = v * 10 + int d" using assms by (intro sint_small) auto
  moreover have "v < v * 10 + int d" using assms by (cases "v = 0") auto
  ultimately show ?thesis using assms(1) by (simp add: isdigit_dec_digit digit_val_dec_digit Let_def)
qed

lemma contentLength_digits:
  assumes "0 < n" "int n < 2 ^ 63"
  shows "contentLengthLoop 0 0 (show_nat n @ s) = contentLengthLoop (int n) (int n) s"
  using assms
proof (induction n arbitrary: s rule: show_nat.induct)
  case (1 n)
  show ?case
  proof (cases "n < 10")
    case True
    with contentLength_step [of n 0 s] "1.prems" show ?thesis by (simp add: show_nat.simps [of n])
  next
    case False
    have split: "int (n div 10) * 10 + int (n mod 10) = int n" by presburger
    have "contentLengthLoop 0 0 (show_nat (n div 10) @ dec_digit (n mod 10) # s) =
        contentLengthLoop (int (n div 10)) (int (n div 10)) (dec_digit (n mod 10) # s)"
      using "1.IH" [OF False] False "1.prems" by simp
    also have "\<dots> = contentLengthLoop (int n) (int n) s"
      using contentLength_step [of "n mod 10" "int (n div 10)" s] "1.prems" unfolding split by simp
    finally show ?thesis using False by (simp add: show_nat.simps [of n])
  qed
qed

lemma show_nat_no_CR: "strchr (show_nat n) CR = None"
  using show_nat_digits [of n] by (auto simp: strchr_None isdigitC_def)

text \<open>
  A \<open>Content-Length\<close> field with a positive number gives that number, up to the largest file offset;
  the number 0 is refused as an overflow.
\<close>

theorem HttpGetContentLength_value:
  assumes "ioHttpResponseHeaderFind header ''content-length'' = Some (show_nat n)" "int n < 2 ^ 63"
  shows "HttpGetContentLength header old =
           (if n = 0 then (Some ErrContentLengthValueCausedBufferOverflow, 0) else (None, int n))"
proof -
  have d: "dropWhile (\<lambda>c. \<not> isdigitC c) (show_nat n) = show_nat n"
    using show_nat_digits [of n] by (cases "show_nat n") auto
  have z: "show_nat 0 = ''0''" by code_simp
  have "contentLengthLoop 0 0 ''0'' = (Some ErrContentLengthValueCausedBufferOverflow, 0)" by code_simp
  with assms contentLength_digits [of n "[]"] z d show ?thesis
    by (simp add: HttpGetContentLength_def show_nat_no_CR Let_def)
qed

lemma HttpGetContentLength_value_witness:
  "HttpGetContentLength (''content-length: 89'' @ HTTP_EOL) 0 = (None, 89)"
proof -
  have "show_nat 89 = ''89''" by code_simp
  moreover have "ioHttpResponseHeaderFind (''content-length: 89'' @ HTTP_EOL) ''content-length'' = Some ''89''" by code_simp
  ultimately show ?thesis using HttpGetContentLength_value [of "''content-length: 89'' @ HTTP_EOL" 89 0] by simp
qed

section \<open>Links\<close>

text \<open>A sibling whose name only begins like the directory counts as lying in it, and a link to the
  directory itself by its full address is read behind its end.\<close>

theorem LinkPathIsDirectSub_sibling:
  "LinkPathIsDirectSub (uriDetailsNewFrom (Some ''http://h/a'')) ''/ab'' = Inr True"
  by code_simp

theorem LinkPathIsDirectSub_self:
  "LinkPathIsDirectSub (uriDetailsNewFrom (Some ''http://h/a'')) ''http://h/a'' = Inl OutOfBounds"
  by code_simp

text \<open>A name in a \<open>Content-Disposition\<close> without quotes loses its first character.\<close>

theorem dispositionName_unquoted: "dispositionName ''attachment; filename=abc'' 12 None = Inr (Some ''bc'')"
  by code_simp

end
