(* ===== verification/File_Site.thy ===== *)
theory File_Site
  imports Posix_Sys Http_Io
begin

text \<open>
  \<open>src/client/site/file.c\<close>: a site whose files are those of the local system. Before that, the data of
  \<open>src/client/site.h\<close> that all kinds of sites share, and the part of the operating system the file site
  calls: a disk of files and directories, and streams on it (\<open>fopen (3)\<close> and its companions, without
  their buffering).
\<close>

section \<open>Metadata of a file\<close>

datatype SiteFileType = SITE_FILE_TYPE_FILE | SITE_FILE_TYPE_DIRECTORY | SITE_FILE_TYPE_NOTHING | SITE_FILE_TYPE_UNKNOWN

text \<open>\<open>None\<close> is \<open>NULL\<close>. Whether \<open>name\<close> is a block of its own or points into \<open>path\<close> is not modelled.\<close>

record SiteFileMeta =
  smModifiedDate :: "PlatformTimeStruct option"
  smLength :: int
  smName :: "string option"
  smPath :: "string option"
  smType :: SiteFileType

definition emptyMeta :: SiteFileMeta where
  "emptyMeta = \<lparr>smModifiedDate = None, smLength = 0, smName = None, smPath = None, smType = SITE_FILE_TYPE_UNKNOWN\<rparr>"

section \<open>The disk\<close>

datatype Node = FileNode string PlatformTimeStruct | DirNode "PlatformDirEntry list" PlatformTimeStruct | OtherNode PlatformTimeStruct

text \<open>
  \<open>dkRealpath\<close> is \<open>realpath (3)\<close>, \<open>dkRefuse\<close> why \<open>fopen (3)\<close> refuses to open a path in a mode,
  \<open>dkStatErr\<close> why \<open>stat (2)\<close> fails where there is nothing to be had, \<open>dkRoom\<close> the number of bytes
  that can still be written, \<open>dkErrno\<close> the last error of the system and \<open>dkNow\<close> the time.
\<close>

record Disk =
  dkNode :: "string \<Rightarrow> Node option"
  dkRealpath :: "string \<Rightarrow> string option"
  dkRefuse :: "string \<Rightarrow> string \<Rightarrow> Errno option"
  dkStatErr :: "string \<Rightarrow> Errno"
  dkCwd :: "string option"
  dkRoom :: nat
  dkErrno :: Errno
  dkNow :: PlatformTimeStruct

fun nodeStat :: "Node \<Rightarrow> PlatformFileStat" where
  "nodeStat (FileNode b t) = \<lparr>st_size = length b, st_isdir = False, st_isreg = True, st_mtime = t\<rparr>"
| "nodeStat (DirNode es t) = \<lparr>st_size = 4096, st_isdir = True, st_isreg = False, st_mtime = t\<rparr>"
| "nodeStat (OtherNode t) = \<lparr>st_size = 0, st_isdir = False, st_isreg = False, st_mtime = t\<rparr>"

definition diskFiles :: "Disk \<Rightarrow> Files" where
  "diskFiles dk path = map_option nodeStat (dkNode dk path)"

definition diskContent :: "Disk \<Rightarrow> string \<Rightarrow> string" where
  "diskContent dk path = (case dkNode dk path of Some (FileNode b t) \<Rightarrow> b | _ \<Rightarrow> [])"

text \<open>An open stream: its path, where it is in the file, whether it appends, and its end of file flag.\<close>

record PlatformFile =
  pfPath :: string
  pfPos :: nat
  pfWrites :: bool
  pfAppends :: bool
  pfEof :: bool

definition platformFileOpen :: "Disk \<Rightarrow> string \<Rightarrow> string \<Rightarrow> PlatformFile option \<times> Disk" where
  "platformFileOpen dk path mode =
     (let f = \<lparr>pfPath = path, pfPos = 0, pfWrites = (mode \<noteq> ''rb''), pfAppends = (mode = ''ab''), pfEof = False\<rparr>;
          fail = (\<lambda>e. (None, dk\<lparr>dkErrno := e\<rparr>));
          create = (\<lambda>b. dk\<lparr>dkNode := (dkNode dk)(path \<mapsto> FileNode b (dkNow dk))\<rparr>)
      in case dkRefuse dk path mode of
           Some e \<Rightarrow> fail e
         | None \<Rightarrow>
             (case dkNode dk path of
                None \<Rightarrow> if mode = ''rb'' then fail ENOENT else (Some f, create [])
              | Some (DirNode es t) \<Rightarrow> if mode = ''rb'' then (Some f, dk) else fail EISDIR
              | Some (FileNode b t) \<Rightarrow> if mode = ''wb'' then (Some f, create []) else (Some f, dk)
              | Some (OtherNode t) \<Rightarrow> (Some f, dk)))"

definition platformFileSeek :: "PlatformFile \<Rightarrow> int \<Rightarrow> PlatformFile option" where
  "platformFileSeek f offset = (if offset < 0 then None else Some (f\<lparr>pfPos := nat offset, pfEof := False\<rparr>))"

definition platformFileAtEnd :: "PlatformFile \<Rightarrow> bool" where
  "platformFileAtEnd f = pfEof f"

text \<open>\<open>fread\<close>: a directory and a stream opened for writing give an error, which is a count of 0 too.\<close>

definition platformFileRead :: "Disk \<Rightarrow> nat \<Rightarrow> PlatformFile \<Rightarrow> string \<times> PlatformFile" where
  "platformFileRead dk n f =
     (case dkNode dk (pfPath f) of
        Some (FileNode b t) \<Rightarrow>
          if pfWrites f then ([], f)
          else
            let d = take n (drop (pfPos f) b)
            in (d, f\<lparr>pfPos := pfPos f + length d, pfEof := (pfEof f \<or> length d < n)\<rparr>)
      | _ \<Rightarrow> ([], f))"

text \<open>\<open>fwrite\<close>: the number of bytes written, less than asked for when the disk is full.\<close>

definition platformFileWrite :: "Disk \<Rightarrow> string \<Rightarrow> PlatformFile \<Rightarrow> nat \<times> PlatformFile \<times> Disk" where
  "platformFileWrite dk d f =
     (case dkNode dk (pfPath f) of
        Some (FileNode b t) \<Rightarrow>
          if \<not> pfWrites f then (0, f, dk\<lparr>dkErrno := EBADF\<rparr>)
          else
            let w = take (dkRoom dk) d;
                p = (if pfAppends f then length b else pfPos f);
                b1 = take p b @ replicate (p - length b) NUL @ w @ drop (p + length w) b
            in (length w, f\<lparr>pfPos := p + length w\<rparr>,
                dk\<lparr>dkNode := (dkNode dk)(pfPath f \<mapsto> FileNode b1 t), dkRoom := dkRoom dk - length w,
                   dkErrno := (if length w < length d then OtherErrno 28 else dkErrno dk)\<rparr>)
      | _ \<Rightarrow> (0, f, dk\<lparr>dkErrno := EBADF\<rparr>))"

section \<open>The site\<close>

record FileSite =
  fsFullUri :: "string option"
  fsFile :: "PlatformFile option"
  fsMeta :: SiteFileMeta

text \<open>The structure after \<open>memset\<close>.\<close>

definition emptyFileSite :: FileSite where
  "emptyFileSite = \<lparr>fsFullUri = None, fsFile = None, fsMeta = emptyMeta\<rparr>"

definition UpdateFileUri :: "Disk \<Rightarrow> FileSite \<Rightarrow> string \<Rightarrow> FileSite" where
  "UpdateFileUri dk self path = self\<lparr>fsFullUri := platformPathSystemToFileScheme (dkRealpath dk) path\<rparr>"

definition FillFileMeta :: "Disk \<Rightarrow> string \<Rightarrow> SiteFileMeta \<Rightarrow> SiteFileMeta" where
  "FillFileMeta dk path meta =
     (let uri = platformPathSystemToFileScheme (dkRealpath dk) path;
          meta1 = meta\<lparr>smPath := uri, smName := (case uri of Some u \<Rightarrow> uriPathLast u | None \<Rightarrow> smName meta)\<rparr>
      in case platformFileStat (diskFiles dk) path of
           None \<Rightarrow>
             meta1\<lparr>smType := (if dkStatErr dk path = ENOENT then SITE_FILE_TYPE_NOTHING else SITE_FILE_TYPE_UNKNOWN),
                   smLength := 0\<rparr>
         | Some st \<Rightarrow>
             meta1\<lparr>smLength := int (st_size st),
                   smType := (if platformFileStatIsFile st then SITE_FILE_TYPE_FILE
                              else if platformFileStatIsDirectory st then SITE_FILE_TYPE_DIRECTORY
                              else SITE_FILE_TYPE_UNKNOWN),
                   smModifiedDate := Some (st_mtime st)\<rparr>)"

definition ResolveToSystemPath :: "string option \<Rightarrow> string \<Rightarrow> string option res" where
  "ResolveToSystemPath uri path =
     (case uri of
        None \<Rightarrow> Inl NullDereference
      | Some u \<Rightarrow>
          if length u < 7 then Inl OutOfBounds
          else bindr (uriPathAbsoluteAppend (drop 7 u) path)
                 (\<lambda>r. Inr (map_option platformPathFileSchemePathToSystem r)))"

definition fileSiteSchemeFileClose :: "FileSite \<Rightarrow> FileSite" where
  "fileSiteSchemeFileClose self = self\<lparr>fsFile := None, fsMeta := emptyMeta\<rparr>"

definition FileOpen :: "Disk \<Rightarrow> FileSite \<Rightarrow> string \<Rightarrow> string \<Rightarrow> (ClientErr option \<times> FileSite \<times> Disk) res" where
  "FileOpen dk self path mode =
     (let self1 = fileSiteSchemeFileClose self in
      bindr (ResolveToSystemPath (fsFullUri self1) path)
        (\<lambda>full. case full of
           None \<Rightarrow> Inr (Some (StrError (dkErrno dk)), self1, dk)
         | Some p \<Rightarrow>
             (case platformFileOpen dk p mode of
                (None, dk1) \<Rightarrow> Inr (Some (StrError (dkErrno dk1)), self1, dk1)
              | (Some f, dk1) \<Rightarrow>
                  Inr (None, self1\<lparr>fsFile := Some f, fsMeta := FillFileMeta dk1 p (fsMeta self1)\<rparr>, dk1))))"

text \<open>The result of setting the directory, with the error of the system it leaves.\<close>

definition fileSiteSchemeWorkingDirectorySet :: "Disk \<Rightarrow> FileSite \<Rightarrow> string \<Rightarrow> (int \<times> FileSite \<times> Disk) res" where
  "fileSiteSchemeWorkingDirectorySet dk self path =
     (case fsFullUri self of
        None \<Rightarrow> Inl NullDereference
      | Some u \<Rightarrow>
          if platformPathFileSchemeToSystem u = None then Inr (-1, self, dk)
          else bindr (uriPathAbsoluteAppend (drop 7 u) path)
                 (\<lambda>full. case full of
                    None \<Rightarrow> Inr (-1, self, dk)
                  | Some p \<Rightarrow>
                      let native = platformPathFileSchemePathToSystem p in
                      (case platformFileStat (diskFiles dk) native of
                         None \<Rightarrow> Inr (1, self, dk\<lparr>dkErrno := ENOENT\<rparr>)
                       | Some st \<Rightarrow>
                           if platformFileStatIsDirectory st then
                             (case platformPathSystemToFileScheme (dkRealpath dk) native of
                                Some fp \<Rightarrow> Inr (0, self\<lparr>fsFullUri := Some fp\<rparr>, dk)
                              | None \<Rightarrow> Inr (-1, self, dk))
                           else Inr (1, self, dk\<lparr>dkErrno := ENOTDIR\<rparr>))))"

definition fileSiteSchemeFree :: "FileSite \<Rightarrow> FileSite" where
  "fileSiteSchemeFree self = fileSiteSchemeFileClose self"

definition fileSiteSchemeWorkingDirectoryGet :: "FileSite \<Rightarrow> string option" where
  "fileSiteSchemeWorkingDirectoryGet self = fsFullUri self"

definition fileSiteSchemeNew :: "Disk \<Rightarrow> FileSite \<Rightarrow> string option \<Rightarrow> ClientErr option \<times> FileSite" where
  "fileSiteSchemeNew dk self path =
     (let self1 = self\<lparr>fsFullUri := None\<rparr> in
      case path of
        Some p \<Rightarrow>
          (case platformPathFileSchemeToSystem p of
             None \<Rightarrow> (Some (StrError (dkErrno dk)), self1)
           | Some sysDir \<Rightarrow>
               (case platformFileStat (diskFiles dk) sysDir of
                  None \<Rightarrow> (Some (StrError (dkStatErr dk sysDir)), self1)
                | Some st \<Rightarrow>
                    if platformFileStatIsDirectory st then (None, UpdateFileUri dk self1 sysDir)
                    else (Some (StrError ENOTDIR), self1)))
      | None \<Rightarrow>
          (case dkCwd dk of
             None \<Rightarrow> (Some (Message ''Unable to get systems working directory''), self1)
           | Some sysDir \<Rightarrow> (None, UpdateFileUri dk self1 sysDir)))"

section \<open>Directory listings\<close>

definition fileSiteSchemeDirectoryListingEntryStat ::
    "Disk \<Rightarrow> PlatformDir \<Rightarrow> SiteFileMeta \<Rightarrow> SiteFileMeta \<Rightarrow> (ClientErr option \<times> SiteFileMeta) res" where
  "fileSiteSchemeDirectoryListingEntryStat dk listing entry meta =
     (case smName entry of
        None \<Rightarrow> Inl NullDereference
      | Some n \<Rightarrow>
          bindr (platformPathCombine (pd_path listing) n)
            (\<lambda>entryPath. case platformFileStat (diskFiles dk) entryPath of
               None \<Rightarrow> Inr (Some (StrError (dkStatErr dk entryPath)), meta)
             | Some st \<Rightarrow>
                 Inr (None, \<lparr>smModifiedDate = Some (st_mtime st), smLength = int (st_size st),
                             smName = platformPathLast entryPath, smPath = Some entryPath,
                             smType = (if platformFileStatIsFile st then SITE_FILE_TYPE_FILE
                                       else if platformFileStatIsDirectory st then SITE_FILE_TYPE_DIRECTORY
                                       else SITE_FILE_TYPE_UNKNOWN)\<rparr>)))"

text \<open>\<open>opendir (3)\<close> on a directory gives the entries it holds.\<close>

definition platformDirOpen :: "Disk \<Rightarrow> string \<Rightarrow> PlatformDir option" where
  "platformDirOpen dk path =
     (case dkNode dk path of Some (DirNode es t) \<Rightarrow> Some \<lparr>pd_path = path, pd_left = es\<rparr> | _ \<Rightarrow> None)"

definition fileSiteSchemeDirectoryListingOpen :: "Disk \<Rightarrow> FileSite \<Rightarrow> string \<Rightarrow> PlatformDir option res" where
  "fileSiteSchemeDirectoryListingOpen dk self path =
     (case fsFullUri self of
        None \<Rightarrow> Inl NullDereference
      | Some u \<Rightarrow>
          bindr (uriPathAbsoluteAppend u path)
            (\<lambda>full. case full of
               None \<Rightarrow> Inr None
             | Some p \<Rightarrow>
                 (case platformPathFileSchemeToSystem p of
                    None \<Rightarrow> Inr None
                  | Some native \<Rightarrow>
                      (case platformFileStat (diskFiles dk) native of
                         None \<Rightarrow> Inr None
                       | Some st \<Rightarrow>
                           if platformFileStatIsDirectory st then Inr (platformDirOpen dk native) else Inr None))))"

text \<open>The listing left is \<open>None\<close> when looking at the entry freed it.\<close>

fun readEntries :: "Disk \<Rightarrow> string \<Rightarrow> PlatformDirEntry list \<Rightarrow> (SiteFileMeta option \<times> PlatformDir option) res" where
  "readEntries dk path [] = Inr (None, Some \<lparr>pd_path = path, pd_left = []\<rparr>)"
| "readEntries dk path (e # es) =
     (let listing = \<lparr>pd_path = path, pd_left = es\<rparr>; name = d_name e in
      if name = [] then Inr (None, Some listing)
      else if chC name 0 = CHR ''.'' then readEntries dk path es
      else bindr (platformDirEntryIsDirectory (diskFiles dk) e listing None)
             (\<lambda>(isDir, freed).
                Inr (Some (emptyMeta\<lparr>smName := Some name,
                             smType := (if isDir then SITE_FILE_TYPE_DIRECTORY else SITE_FILE_TYPE_FILE)\<rparr>),
                     if freed then None else Some listing)))"

definition fileSiteSchemeDirectoryListingRead ::
    "Disk \<Rightarrow> PlatformDir option \<Rightarrow> (SiteFileMeta option \<times> PlatformDir option) res" where
  "fileSiteSchemeDirectoryListingRead dk listing =
     (case listing of
        None \<Rightarrow> Inl UseAfterFree
      | Some d \<Rightarrow> readEntries dk (pd_path d) (pd_left d))"

section \<open>Reading and writing\<close>

definition fileSiteSchemeFileAtEnd :: "FileSite \<Rightarrow> bool res" where
  "fileSiteSchemeFileAtEnd self =
     (case fsFile self of None \<Rightarrow> Inl NullDereference | Some f \<Rightarrow> Inr (platformFileAtEnd f))"

definition fileSiteSchemeFileRead :: "Disk \<Rightarrow> FileSite \<Rightarrow> nat \<Rightarrow> (string \<times> FileSite) res" where
  "fileSiteSchemeFileRead dk self n =
     (case fsFile self of
        None \<Rightarrow> Inl NullDereference
      | Some f \<Rightarrow> (case platformFileRead dk n f of (d, f1) \<Rightarrow> Inr (d, self\<lparr>fsFile := Some f1\<rparr>)))"

definition fileSiteSchemeStatOpenMeta :: "Disk \<Rightarrow> FileSite \<Rightarrow> string \<Rightarrow> SiteFileMeta option res" where
  "fileSiteSchemeStatOpenMeta dk self path =
     bindr (ResolveToSystemPath (fsFullUri self) path)
       (\<lambda>full. Inr (map_option (\<lambda>p. FillFileMeta dk p emptyMeta) full))"

definition fileSiteSchemeFileOpenRead ::
    "Disk \<Rightarrow> FileSite \<Rightarrow> string \<Rightarrow> int \<Rightarrow> int \<Rightarrow> (ClientErr option \<times> FileSite \<times> Disk) res" where
  "fileSiteSchemeFileOpenRead dk self path start end0 =
     bindr (FileOpen dk self path ''rb'')
       (\<lambda>(e, self1, dk1).
          if e = None \<and> start \<noteq> -1 then
            Inr (e, self1\<lparr>fsFile := (case fsFile self1 of
                             Some f \<Rightarrow> (case platformFileSeek f start of Some f1 \<Rightarrow> Some f1 | None \<Rightarrow> Some f)
                           | None \<Rightarrow> None)\<rparr>, dk1)
          else Inr (e, self1, dk1))"

definition fileSiteSchemeFileOpenAppend ::
    "Disk \<Rightarrow> FileSite \<Rightarrow> string \<Rightarrow> int \<Rightarrow> int \<Rightarrow> (ClientErr option \<times> FileSite \<times> Disk) res" where
  "fileSiteSchemeFileOpenAppend dk self path start end0 =
     bindr (FileOpen dk self path ''ab'')
       (\<lambda>(e, self1, dk1).
          case (e, fsFile self1) of
            (None, Some f) \<Rightarrow>
              (case platformFileSeek f start of
                 Some f1 \<Rightarrow> Inr (None, self1\<lparr>fsFile := Some f1\<rparr>, dk1)
               | None \<Rightarrow> Inr (Some (StrError (OtherErrno 22)), self1, dk1\<lparr>dkErrno := OtherErrno 22\<rparr>))
          | _ \<Rightarrow> Inr (e, self1, dk1))"

definition fileSiteSchemeFileOpenWrite :: "Disk \<Rightarrow> FileSite \<Rightarrow> string \<Rightarrow> (ClientErr option \<times> FileSite \<times> Disk) res" where
  "fileSiteSchemeFileOpenWrite dk self path = FileOpen dk self path ''wb''"

definition fileSiteSchemeFileWrite :: "Disk \<Rightarrow> FileSite \<Rightarrow> string \<Rightarrow> (nat \<times> FileSite \<times> Disk) res" where
  "fileSiteSchemeFileWrite dk self d =
     (case fsFile self of
        None \<Rightarrow> Inl NullDereference
      | Some f \<Rightarrow> (case platformFileWrite dk d f of (n, f1, dk1) \<Rightarrow> Inr (n, self\<lparr>fsFile := Some f1\<rparr>, dk1)))"

end
