(* ===== verification/Http_Site.thy ===== *)
theory Http_Site
  imports Http_Client File_Site Hex_Codec
begin

text \<open>
  \<open>src/client/site/http.c\<close>: a site whose files are fetched from an HTTP server. The state is the address
  of the current directory, the file that is open and the receive buffer of the connection. The address
  structure of the site is never set or read behind its creation and left out.
\<close>

section \<open>State\<close>

record HttpSiteOpenFile =
  hoFullUri :: string
  hoStart :: int
  hoEnd :: int
  hoMeta :: SiteFileMeta

record HttpSite =
  hsFullUri :: "string option"
  hsFile :: "HttpSiteOpenFile option"
  hsSocket :: RecvBuffer

section \<open>Requests\<close>

text \<open>
  What the operations on a site share: the request for a path is sent and the header of the response
  is read. \<open>GenerateHostHeader\<close> and \<open>GenerateConnectionHeader\<close> add the lines \<open>extra\<close>.
\<close>

definition hostLines :: "UriDetails \<Rightarrow> string option" where
  "hostLines details = GenerateConnectionHeader (snd (GenerateHostHeader None details))"

definition sendRequest :: "HttpSite \<Rightarrow> string \<Rightarrow> (ClientErr option \<times> HttpSite) res" where
  "sendRequest self request =
     (case recvBufferSend (hsSocket self) request of
        Inl f \<Rightarrow> Inl f
      | Inr (e, rb) \<Rightarrow> Inr (e, self\<lparr>hsSocket := rb\<rparr>))"

definition readHeader :: "HttpSite \<Rightarrow> (ClientErr option \<times> string option \<times> HttpSite) res" where
  "readHeader self =
     (case ioHttpResponseHeaderRead (hsSocket self) of
        Inl f \<Rightarrow> Inl f
      | Inr (e, h, rb) \<Rightarrow> Inr (e, h, self\<lparr>hsSocket := rb\<rparr>))"

definition clearSocket :: "HttpSite \<Rightarrow> HttpSite" where
  "clearSocket self = self\<lparr>hsSocket := recvBufferClear (hsSocket self)\<rparr>"

section \<open>The working directory\<close>

definition rootPath :: "UriDetails \<Rightarrow> UriDetails" where
  "rootPath details = (case uPath details of None \<Rightarrow> details\<lparr>uPath := Some ''/''\<rparr> | Some _ \<Rightarrow> details)"

text \<open>
  The result, and the error of the system it leaves, if it sets one: \<open>Inl\<close> an error constant, \<open>Inr\<close>
  the number 0 or -1. The requests of this function carry no \<open>Host\<close> line.
\<close>

definition httpSiteSchemeWorkingDirectorySet :: "HttpSite \<Rightarrow> string \<Rightarrow> (int \<times> (Errno + int) option \<times> HttpSite) res" where
  "httpSiteSchemeWorkingDirectorySet self path =
     (let details = rootPath (uriDetailsNewFrom (hsFullUri self)) in
      bindr (uriPathAbsoluteAppend (the (uPath details)) path) (\<lambda>np. case np of
        None \<Rightarrow> Inr (-1, Some (Inl EFAULT), self)
      | Some newPath \<Rightarrow>
          bindr (ioHttpRequestGenerateHead newPath None) (\<lambda>send.
          bindr (sendRequest self send) (\<lambda>(e, self1).
            if e \<noteq> None then Inr (-1, None, self1)
            else bindr (readHeader self1) (\<lambda>(e, h, self2).
              case (e, h) of
                (None, Some header) \<Rightarrow>
                  (case ioHttpResponseHeaderEssential header of
                     None \<Rightarrow> Inr (-1, None, self2)
                   | Some (scheme, response) \<Rightarrow>
                       if \<not> HttpResponseOk response then Inr (1, Some (HttpResponseToSystemError response), self2)
                       else if HttpResponseIsDir header = 0 then Inr (1, Some (Inl ENOTDIR), self2)
                       else (case uriDetailsCreateString (details\<lparr>uPath := Some newPath\<rparr>) of
                               None \<Rightarrow> Inr (-1, None, self2)
                             | Some newUri \<Rightarrow> Inr (0, None, self2\<lparr>hsFullUri := Some newUri\<rparr>)))
              | _ \<Rightarrow> Inr (-1, None, self2))))))"

definition httpSiteSchemeWorkingDirectoryGet :: "HttpSite \<Rightarrow> string option" where
  "httpSiteSchemeWorkingDirectoryGet self = hsFullUri self"

definition httpSiteSchemeFileClose :: "HttpSite \<Rightarrow> HttpSite" where
  "httpSiteSchemeFileClose self = self\<lparr>hsFile := None\<rparr>"

definition httpSiteSchemeFree :: "HttpSite \<Rightarrow> HttpSite" where
  "httpSiteSchemeFree self = clearSocket (httpSiteSchemeFileClose self)"

text \<open>
  A new site. \<open>junk\<close> is the length an uninitialised receive buffer starts with, \<open>attempts\<close> what the
  attempts to connect meet. The site is unusable, and \<open>None\<close>, when no connection was made.
\<close>

definition httpSiteSchemeNew ::
    "nat \<Rightarrow> Attempt list \<Rightarrow> resolver \<Rightarrow> string option \<Rightarrow> (ClientErr option \<times> HttpSite option) res" where
  "httpSiteSchemeNew junk attempts env path =
     (case path of
        None \<Rightarrow> Inr (Some ErrNoUriSpecified, None)
      | Some p \<Rightarrow>
          let details = rootPath (uriDetailsNewFrom (Some p)) in
          (case recvBufferNewFromUriDetails junk attempts env details 0 of
             (Some e, _) \<Rightarrow> Inr (Some e, None)
           | (None, None) \<Rightarrow> Inr (None, None)
           | (None, Some rb) \<Rightarrow>
               let self = \<lparr>hsFullUri = None, hsFile = None, hsSocket = rb\<rparr> in
               bindr (ioHttpRequestGenerateHead (the (uPath details)) (hostLines details)) (\<lambda>send.
               bindr (sendRequest self send) (\<lambda>(e, self1).
                 if e \<noteq> None then Inr (e, Some self1)
                 else bindr (readHeader self1) (\<lambda>(e, h, self2).
                   case (e, h) of
                     (None, Some header) \<Rightarrow>
                       (case ioHttpResponseHeaderEssential header of
                          None \<Rightarrow> Inr (Some (Message ''Not a valid header line''), Some self2)
                        | Some (scheme, response) \<Rightarrow>
                            if \<not> HttpResponseOk response then Inr (Some ErrServerReplyNotAcceptable, Some self2)
                            else Inr (None, Some (if HttpResponseIsDir header \<noteq> 0
                                                  then self2\<lparr>hsFullUri := uriDetailsCreateString details\<rparr> else self2)))
                   | _ \<Rightarrow> Inr (e, Some self2))))))"

section \<open>Directory listings\<close>

definition httpSiteSchemeDirectoryListingEntryStat ::
    "HttpSite \<Rightarrow> HttpSiteDirectoryListing \<Rightarrow> SiteFileMeta \<Rightarrow> SiteFileMeta \<Rightarrow> Errno \<Rightarrow>
     (ClientErr option \<times> SiteFileMeta \<times> HttpSite) res" where
  "httpSiteSchemeDirectoryListingEntryStat self l entry meta sockErr =
     (let details = uriDetailsNewFrom (hdFullUri l) in
      case (uPath details, smName entry) of
        (None, _) \<Rightarrow> Inr (Some ErrUriWasNotUnderstood, meta, self)
      | (Some p, None) \<Rightarrow> Inl NullDereference
      | (Some p, Some name) \<Rightarrow>
          bindr (uriPathCombine p name) (\<lambda>entryPath.
          bindr (ioHttpRequestGenerateHead entryPath None) (\<lambda>request.
          bindr (sendRequest self request) (\<lambda>(e, self1).
            if e \<noteq> None then Inr (Some (StrError sockErr), meta, self1)
            else bindr (readHeader self1) (\<lambda>(e, h, self2).
              case (e, h) of
                (None, Some response) \<Rightarrow>
                  bindr (HeadersPopulate response emptyResponseHeader) (\<lambda>header.
                    Inr (None, \<lparr>smModifiedDate = hrModifiedDate header, smLength = hrLength header,
                                smName = (case hrFileName header of Some n \<Rightarrow> Some n | None \<Rightarrow> uriPathLast entryPath),
                                smPath = Some entryPath,
                                smType = (if hrFileName header \<noteq> None then SITE_FILE_TYPE_FILE
                                          else SITE_FILE_TYPE_DIRECTORY)\<rparr>, self2))
              | _ \<Rightarrow> Inr (Some (StrError sockErr), meta, self2))))))"

text \<open>
  One link of the page: the query is cut off, and the name of a direct subdirectory is decoded and
  added. \<open>while ((p = strrchr (n, '/'))) p[0] = 0\<close> cuts the name at its first divider.
\<close>

definition addLink :: "UriDetails \<Rightarrow> string \<Rightarrow> HttpSiteDirectoryListing \<Rightarrow> HttpSiteDirectoryListing res" where
  "addLink details file dl =
     (let f = (case strchr file (CHR ''?'') of Some q \<Rightarrow> take q file | None \<Rightarrow> file) in
      if strchr file (CHR ''?'') \<noteq> None \<and> f = [] then Inr dl
      else bindr (LinkPathIsDirectSub details f) (\<lambda>sub.
             if sub then
               (let n = takeWhile (\<lambda>c. c \<noteq> CHR ''/'') (LinkPathConvertToRelativeSubdirectory f) in
                bindr (hexConvertStringToAscii n) (\<lambda>name. Inr (DirectoryListingAdd dl (cstring name))))
             else Inr dl))"

text \<open>
  The loop over the links. Every link ends with \<open>FastForwardOverElement\<close>, which need not move the
  stream. A turn that neither takes bytes from the socket or the buffer nor lets data arrive finds the
  same link again and again; the turns that do are at most \<open>linkBudget\<close>.
\<close>

fun linkLoop ::
    "nat \<Rightarrow> UriDetails \<Rightarrow> RecvBuffer \<Rightarrow> nat \<Rightarrow> HttpSiteDirectoryListing \<Rightarrow> (HttpSiteDirectoryListing \<times> RecvBuffer) res" where
  "linkLoop fuel details rb written dl =
     bindr (HtmlExtractNextLink rb written) (\<lambda>(file, written1, rb1).
       case file of
         None \<Rightarrow> Inr (dl, rb1)
       | Some f \<Rightarrow>
           (case fuel of
              0 \<Rightarrow> Inl EndlessLoop
            | Suc k \<Rightarrow> bindr (addLink details f dl) (linkLoop k details rb1 written1)))"

declare linkLoop.simps [simp del]

definition linkBudget :: "RecvBuffer \<Rightarrow> nat" where
  "linkBudget rb = length (rbData rb) + 2 * length (rbRest rb) + rbArrivals rb + 1"

definition httpSiteSchemeDirectoryListingOpen ::
    "int \<Rightarrow> HttpSite \<Rightarrow> string \<Rightarrow> (HttpSiteDirectoryListing option \<times> HttpSite) res" where
  "httpSiteSchemeDirectoryListingOpen now self path =
     (case hsFullUri self of
        None \<Rightarrow> Inr (None, self)
      | Some u \<Rightarrow>
          let details = uriDetailsNewFrom (Some u) in
          (case uPath details of
             None \<Rightarrow> Inl NullDereference
           | Some cur \<Rightarrow>
               bindr (uriPathAbsoluteAppend cur path) (\<lambda>a. case a of
                 None \<Rightarrow> Inr (None, clearSocket self)
               | Some absPath \<Rightarrow>
                   bindr (ioHttpRequestGenerateGet absPath (hostLines details)) (\<lambda>request.
                   bindr (sendRequest (clearSocket self) request) (\<lambda>(e, self1).
                     if e \<noteq> None then Inr (None, clearSocket self1)
                     else bindr (readHeader self1) (\<lambda>(e, h, self2).
                       case (e, h) of
                         (None, Some header) \<Rightarrow>
                           (case ioHttpResponseHeaderEssential header of
                              None \<Rightarrow> Inr (None, clearSocket self2)
                            | Some (scheme, response) \<Rightarrow>
                                if \<not> (HttpResponseOk response \<or> HttpResponseIsDir header = 0) then
                                  Inr (None, clearSocket self2)
                                else
                                  bindr (HeadersPopulate header emptyResponseHeader) (\<lambda>hr.
                                  bindr (HeadersCompute (hsSocket self2) hr ''GET'') (\<lambda>rb.
                                  bindr (FastForwardToElement rb ''body'') (\<lambda>(w1, rb1).
                                  bindr (FastForwardOverElement rb1 ''body'') (\<lambda>(w2, rb2).
                                  bindr (linkLoop (linkBudget rb2) (details\<lparr>uPath := Some absPath\<rparr>) rb2 ((w1 + w2) mod 2 ^ 64)
                                           (DirectoryListingCreate (Some absPath))) (\<lambda>(dl, rb3).
                                    let dl1 = DirectoryListingSetReloadDate now dl;
                                        self3 = clearSocket (self2\<lparr>hsSocket := rb3\<rparr>)
                                    in Inr (if hdEntry dl1 = [] then None else Some dl1, self3)))))))
                       | _ \<Rightarrow> Inr (None, clearSocket self2)))))))"

definition httpSiteSchemeDirectoryListingRead ::
    "HttpSiteDirectoryListing \<Rightarrow> SiteFileMeta option \<times> HttpSiteDirectoryListing" where
  "httpSiteSchemeDirectoryListingRead l =
     (if hdIdx l < length (hdEntry l) then
        (Some (emptyMeta\<lparr>smName := Some (hdEntry l ! hdIdx l)\<rparr>), l\<lparr>hdIdx := hdIdx l + 1\<rparr>)
      else (None, l))"

section \<open>Files\<close>

definition httpSiteSchemeFileAtEnd :: "HttpSite \<Rightarrow> int" where
  "httpSiteSchemeFileAtEnd self =
     (let rb = hsSocket self in
      if rbHas rb RECV_BUFFER_DATA_LENGTH_UNKNOWN then -1
      else if rbHas rb RECV_BUFFER_DATA_LENGTH_COMPLETE \<and> rbLen rb = 0 then 1
      else 0)"

text \<open>The bytes read, or \<open>None\<close> for the result -1.\<close>

definition httpSiteSchemeFileRead :: "HttpSite \<Rightarrow> nat \<Rightarrow> (string option \<times> HttpSite) res" where
  "httpSiteSchemeFileRead self n =
     (let deliver = (\<lambda>rb. let k = min n (rbLen rb) in
                        Inr (Some (take k (rbData rb)), self\<lparr>hsSocket := recvBufferDitch rb k\<rparr>))
      in if rbLen (hsSocket self) < n then
           (case recvBufferAppend (hsSocket self) (n - rbLen (hsSocket self)) of
              Inl f \<Rightarrow> Inl f
            | Inr (e, rb) \<Rightarrow>
                if e = None \<or> e = Some ErrNoDataToBeRetrieved \<or> e = Some ErrRequestCompleted then deliver rb
                else Inr (None, self\<lparr>hsSocket := rb\<rparr>))
         else deliver (hsSocket self))"

text \<open>
  The common part of the two functions that ask for a file: the response to a \<open>GET\<close> of the resolved
  path, with the receive buffer set up for the given mode. The status of the response is not looked at.
\<close>

definition requestFile ::
    "HttpSite \<Rightarrow> string \<Rightarrow> string \<Rightarrow> (ClientErr option \<times> (string \<times> HttpResponseHeader) option \<times> HttpSite) res" where
  "requestFile self path mode =
     (let d = uriDetailsNewFrom (hsFullUri self) in
      case uPath d of
        None \<Rightarrow> Inr (Some ErrUriWasNotUnderstood, None, self)
      | Some cur \<Rightarrow>
          bindr (uriPathAbsoluteAppend cur path) (\<lambda>r. case r of
            None \<Rightarrow> Inl NullDereference
          | Some resolvedPath \<Rightarrow>
              bindr (ioHttpRequestGenerateGet resolvedPath (hostLines d)) (\<lambda>request.
              bindr (sendRequest (clearSocket self) request) (\<lambda>(e, self1).
                if e \<noteq> None then Inr (e, None, self1)
                else bindr (readHeader self1) (\<lambda>(e, h, self2).
                  case (e, h) of
                    (None, Some header) \<Rightarrow>
                      (case ioHttpResponseHeaderEssential header of
                         None \<Rightarrow> Inr (Some (Message ''Not a valid header line''), None, self2)
                       | Some _ \<Rightarrow>
                           bindr (HeadersPopulate header emptyResponseHeader) (\<lambda>hr.
                           bindr (HeadersCompute (hsSocket self2) hr mode) (\<lambda>rb.
                             Inr (None, Some (resolvedPath, hr), self2\<lparr>hsSocket := rb\<rparr>))))
                  | _ \<Rightarrow> Inr (e, None, self2))))))"

definition httpSiteSchemeStatOpenMeta :: "HttpSite \<Rightarrow> string \<Rightarrow> (SiteFileMeta option \<times> HttpSite) res" where
  "httpSiteSchemeStatOpenMeta self path =
     bindr (requestFile self path ''HEAD'') (\<lambda>(e, r, self1).
       case r of
         None \<Rightarrow> Inr (None, self1)
       | Some (resolvedPath, hr) \<Rightarrow>
           let meta = \<lparr>smModifiedDate = hrModifiedDate hr, smLength = hrLength hr,
                       smName = (case hrFileName hr of Some f \<Rightarrow> Some f | None \<Rightarrow> uriPathLast resolvedPath),
                       smPath = Some resolvedPath,
                       smType = (if hrFileName hr \<noteq> None then SITE_FILE_TYPE_FILE else SITE_FILE_TYPE_DIRECTORY)\<rparr>
           in Inr (if smName meta = None then None else Some meta, self1))"

text \<open>
  The name an opened file gets. A name in the header is replaced by the end of the path when it equals
  what follows the first character of it, and that end lies in the path itself (no divider behind it).
\<close>

definition openName :: "string \<Rightarrow> string option \<Rightarrow> string option" where
  "openName resolvedPath fileName =
     (case fileName of
        None \<Rightarrow> uriPathLast resolvedPath
      | Some f \<Rightarrow>
          (case uriPathLast resolvedPath of
             Some p \<Rightarrow> if last resolvedPath \<noteq> CHR ''/'' \<and> drop 1 p = f then Some p else Some f
           | None \<Rightarrow> Some f))"

definition httpSiteSchemeFileOpenRead ::
    "HttpSite \<Rightarrow> string \<Rightarrow> int \<Rightarrow> int \<Rightarrow> (ClientErr option \<times> HttpSite) res" where
  "httpSiteSchemeFileOpenRead self path start end0 =
     bindr (requestFile self path ''GET'') (\<lambda>(e, r, self1).
       case r of
         None \<Rightarrow> Inr (e, self1)
       | Some (resolvedPath, hr) \<Rightarrow>
           let meta = \<lparr>smModifiedDate = hrModifiedDate hr, smLength = hrLength hr,
                       smName = openName resolvedPath (hrFileName hr),
                       smPath = Some resolvedPath,
                       smType = (if hrProtocol hr AND HTTP_CONTENT_ATTACHMENT \<noteq> 0 then SITE_FILE_TYPE_FILE
                                 else SITE_FILE_TYPE_DIRECTORY)\<rparr>
           in Inr (None, (httpSiteSchemeFileClose self1)\<lparr>hsFile :=
                           Some \<lparr>hoFullUri = resolvedPath, hoStart = start, hoEnd = end0, hoMeta = meta\<rparr>\<rparr>))"

definition httpSiteSchemeFileOpenWrite :: "HttpSite \<Rightarrow> string \<Rightarrow> ClientErr option" where
  "httpSiteSchemeFileOpenWrite self path = Some (StrError EACCES)"

text \<open>\<open>None\<close> is -1, with \<open>EBADF\<close> as the error of the system.\<close>

definition httpSiteSchemeFileWrite :: "HttpSite \<Rightarrow> string \<Rightarrow> nat option \<times> Errno" where
  "httpSiteSchemeFileWrite self d = (None, EBADF)"

section \<open>A body is delivered whole\<close>

text \<open>
  A receive buffer whose peer sends the rest of the body and closes without an error: what the buffer
  holds and what is still to come is the rest of the body. With a known length, the bytes to come are
  as many as are missing.
\<close>

definition httpReady :: "RecvBuffer \<Rightarrow> bool" where
  "httpReady rb \<longleftrightarrow> rbOk rb \<and> \<not> bit (rbOptions rb) 0 \<and> \<not> bit (rbOptions rb) 2 \<and>
     (\<exists>lk. rbSocket rb = Some lk \<and> stEnd (lkIn lk) = None) \<and>
     (bit (rbOptions rb) 3 \<longrightarrow> rbRest rb = []) \<and>
     (bit (rbOptions rb) 1 \<and> \<not> bit (rbOptions rb) 3 \<longrightarrow> rbFirst rb + int (length (rbRest rb)) = rbSecond rb)"

definition bodyLeft :: "HttpSite \<Rightarrow> string" where
  "bodyLeft s = rbData (hsSocket s) @ rbRest (hsSocket s)"

lemma recv_open:
  assumes "rbRecv n False s = (r, s1)" "rbSocket s = Some lk" "stEnd (lkIn lk) = None"
  obtains d where "r = Got d" "rbRest s = d @ rbRest s1" "n \<noteq> 0 \<longrightarrow> (d = [] \<longleftrightarrow> rbRest s = [])" "length d \<le> n"
    "\<exists>lk1. rbSocket s1 = Some lk1 \<and> stEnd (lkIn lk1) = None"
proof -
  obtain a st where a: "AppendWait n False (lkIn lk) = (a, st)" by fastforce
  have s1: "r = a" "s1 = s\<lparr>rbSocket := Some (lk\<lparr>lkIn := st\<rparr>)\<rparr>" using assms(1,2) a by (auto simp: rbRecv_def)
  have "stEnd st = None" using AppendWait_cases [OF a] assms(3) by simp
  then have link: "\<exists>lk1. rbSocket s1 = Some lk1 \<and> stEnd (lkIn lk1) = None" using s1(2) by simp
  obtain d where d: "r = Got d" using AppendWait_cases [OF a] assms(3) s1(1) by (cases "stRest (lkIn lk) = []") auto
  note rest = rbRecv_rest [OF assms(1) [unfolded d]]
  have "rbRest s = d @ rbRest s1" using rest by simp
  moreover have "n \<noteq> 0 \<longrightarrow> (d = [] \<longleftrightarrow> rbRest s = [])" using rest by blast
  moreover have "length d \<le> n" using rest by blast
  ultimately show thesis using that d link by blast
qed

lemma increment_ready:
  assumes "DataIncrement s (length d) = (stop, s1)" "rbOk s" "\<not> bit (rbOptions s) 0" "\<not> bit (rbOptions s) 2" "\<not> bit (rbOptions s) 3"
    "\<exists>lk. rbSocket s = Some lk \<and> stEnd (lkIn lk) = None"
    "bit (rbOptions s) 1 \<longrightarrow> rbFirst s + int (length (d @ rbRest s)) = rbSecond s"
  shows "httpReady s1 \<and> (\<not> stop \<longrightarrow> \<not> bit (rbOptions s1) 3)"
proof (cases "bit (rbOptions s) 1")
  case True
  let ?s = "setFirst (rbFirst s + int (length d)) s"
  show ?thesis
  proof (cases "rbSecond s \<le> rbFirst s + int (length d)")
    case stop: True
    then have "length (rbRest s) = 0" using assms(7) True unfolding length_append by linarith
    then have "rbRest s = []" by simp
    moreover have "s1 = recvBufferSetLengthComplete ?s" "stop" using assms(1) True stop
      by (auto simp: DataIncrement_def flag_bits Let_def)
    moreover have "\<not> bit (rbOptions (recvBufferSetLengthComplete ?s)) 2"
      by (simp add: recvBufferSetLengthComplete_def Let_def mode_defs bit_and_iff bit_or_iff bit_not_iff bits_of_numerals)
    ultimately show ?thesis using assms(2,6) mode_bits(1,2) [of ?s] by (simp add: httpReady_def)
  next
    case False
    then have "s1 = ?s" "\<not> stop" using assms(1) True by (auto simp: DataIncrement_def flag_bits Let_def)
    with assms True False show ?thesis by (simp add: httpReady_def)
  qed
next
  case False
  then have "s1 = setFirst (rbFirst s + int (length d)) s" using assms(1,4) by (auto simp: DataIncrement_def flag_bits Let_def)
  with assms False show ?thesis by (simp add: httpReady_def)
qed

lemma appendLoop_ready:
  assumes "httpReady s" "rbBuffer s \<noteq> None" "\<not> bit (rbOptions s) 3"
  shows "\<exists>e s1 d. appendLoop s len i = Inr (e, s1) \<and> (e = None \<or> e = Some ErrNoDataToBeRetrieved) \<and> httpReady s1 \<and>
           rbData s1 = rbData s @ d \<and> rbRest s = d @ rbRest s1 \<and> (i < len \<longrightarrow> rbRest s \<noteq> [] \<longrightarrow> d \<noteq> [])"
  using assms
proof (induction s len i rule: appendLoop.induct)
  case (1 s len i)
  show ?case
  proof (cases "i < len")
    case False
    with "1.prems" show ?thesis by (simp add: appendLoop.simps [of s len i])
  next
    case True
    let ?n = "min (len - i) SB_DATA_SIZE"
    have n: "?n \<noteq> 0" using True by (simp add: SB_DATA_SIZE_def)
    obtain r s1 where r: "rbRecv ?n False s = (r, s1)" by fastforce
    obtain lk where lk: "rbSocket s = Some lk" "stEnd (lkIn lk) = None" using "1.prems"(1) by (auto simp: httpReady_def)
    obtain d where d: "r = Got d" "rbRest s = d @ rbRest s1" "d = [] \<longleftrightarrow> rbRest s = []"
      "\<exists>lk1. rbSocket s1 = Some lk1 \<and> stEnd (lkIn lk1) = None"
      using recv_open [OF r lk] n by metis
    note f = recv_frame [OF r]
    show ?thesis
    proof (cases "d = []")
      case empty: True
      have "httpReady s1" using f "1.prems"(1) d empty by (simp add: httpReady_def)
      moreover have "appendLoop s len i = Inr (if i \<noteq> 0 then None else Some ErrNoDataToBeRetrieved, s1)"
        using True empty r d(1) by (simp add: appendLoop.simps [of s len i])
      ultimately show ?thesis using f d empty by auto
    next
      case ne: False
      have ok: "rbOk s1" "rbBuffer s1 \<noteq> None" using f "1.prems" by (auto simp: httpReady_def)
      obtain s2 where s2: "BufferAppend s1 d = Inr s2" "rbData s2 = rbData s1 @ d" "rbOk s2" "rbBuffer s2 \<noteq> None"
        "rbSocket s2 = rbSocket s1" "rbOptions s2 = rbOptions s1" "rbLength s2 = rbLength s1" "rbRest s2 = rbRest s1"
        using BufferAppend_data [OF ok, of d] by metis
      obtain stop s3 where s3: "DataIncrement s2 (length d) = (stop, s3)" by fastforce
      have rdy: "httpReady s3 \<and> (\<not> stop \<longrightarrow> \<not> bit (rbOptions s3) 3)"
        by (rule increment_ready [OF s3 s2(3)]) (use s2 f d "1.prems" in \<open>auto simp: httpReady_def\<close>)
      note fr = DataIncrement_frame [OF s3]
      show ?thesis
      proof (cases stop)
        case stop: True
        have "appendLoop s len i = Inr (None, s3)" using True ne r d(1) s2(1) s3 stop by (simp add: appendLoop.simps [of s len i])
        with rdy fr s2 f d ne show ?thesis by (intro exI [of _ None] exI [of _ s3] exI [of _ d]) auto
      next
        case go: False
        from "1.IH" [OF True r [symmetric] d(1) ne s2(1) s3 [symmetric] go] rdy go fr s2(4) obtain e s4 d4 where
          *: "appendLoop s3 len (i + length d) = Inr (e, s4)" "e = None \<or> e = Some ErrNoDataToBeRetrieved" "httpReady s4"
          "rbData s4 = rbData s3 @ d4" "rbRest s3 = d4 @ rbRest s4" by auto
        have "appendLoop s len i = Inr (e, s4)" using True ne r d(1) s2(1) s3 go *(1) by (simp add: appendLoop.simps [of s len i])
        with * fr s2 f d ne show ?thesis by (intro exI [of _ e] exI [of _ s4] exI [of _ "d @ d4"]) auto
      qed
    qed
  qed
qed

lemma recvBufferAppend_ready:
  assumes "httpReady s"
  shows "\<exists>e s1 d. recvBufferAppend s len = Inr (e, s1) \<and>
           (e = None \<or> e = Some ErrNoDataToBeRetrieved \<or> e = Some ErrRequestCompleted) \<and> httpReady s1 \<and>
           rbData s1 = rbData s @ d \<and> rbRest s = d @ rbRest s1 \<and> (0 < len \<longrightarrow> rbRest s \<noteq> [] \<longrightarrow> d \<noteq> [])"
proof (cases "bit (rbOptions s) 3")
  case True
  with assms show ?thesis by (simp add: recvBufferAppend_def flag_bits httpReady_def)
next
  case False
  let ?s = "case rbBuffer s of None \<Rightarrow> s\<lparr>rbBuffer := Some (replicate SB_DATA_SIZE NUL), rbLen := 0\<rparr> | Some _ \<Rightarrow> s"
  have s: "httpReady ?s" "rbBuffer ?s \<noteq> None" "\<not> bit (rbOptions ?s) 3" "rbData ?s = rbData s" "rbRest ?s = rbRest s"
    using assms False by (auto simp: httpReady_def rbOk_def rbData_def rbRest_def split: option.splits)
  moreover have "recvBufferAppend s len = appendLoop ?s len 0"
    using False assms by (auto simp: recvBufferAppend_def flag_bits httpReady_def split: option.split)
  ultimately show ?thesis using appendLoop_ready [OF s(1-3), of len 0] by auto
qed

lemma ditch_ready: "httpReady rb \<Longrightarrow> httpReady (recvBufferDitch rb n) \<and> rbRest (recvBufferDitch rb n) = rbRest rb"
  using ditch_data(1) [of rb n]
  by (auto simp: httpReady_def recvBufferDitch_def Let_def rbRest_def)

lemma httpRead_ready:
  assumes "httpReady (hsSocket s)"
  shows "\<exists>d s1. httpSiteSchemeFileRead s n = Inr (Some d, s1) \<and> httpReady (hsSocket s1) \<and> bodyLeft s = d @ bodyLeft s1 \<and>
           (0 < n \<longrightarrow> bodyLeft s \<noteq> [] \<longrightarrow> d \<noteq> []) \<and> hsFullUri s1 = hsFullUri s \<and> hsFile s1 = hsFile s"
proof -
  have deliver: "\<exists>d s1. Inr (Some (take (min n (rbLen rb)) (rbData rb)), s\<lparr>hsSocket := recvBufferDitch rb (min n (rbLen rb))\<rparr>) =
        (Inr (Some d, s1) :: (string option \<times> HttpSite) res) \<and> httpReady (hsSocket s1) \<and>
        rbData rb @ rbRest rb = d @ bodyLeft s1 \<and> (0 < n \<longrightarrow> rbData rb \<noteq> [] \<longrightarrow> d \<noteq> []) \<and>
        hsFullUri s1 = hsFullUri s \<and> hsFile s1 = hsFile s"
    if "httpReady rb" for rb
  proof -
    have ok: "rbOk rb" using that by (simp add: httpReady_def)
    show ?thesis
      using ditch_ready [OF that] ditch_data [OF ok] rbLen_data [OF ok] by (auto simp: bodyLeft_def)
  qed
  show ?thesis
  proof (cases "rbLen (hsSocket s) < n")
    case False
    then have "0 < n \<longrightarrow> rbData (hsSocket s) \<noteq> []" using assms rbLen_data by (auto simp: httpReady_def)
    with False deliver [OF assms] show ?thesis by (auto simp: httpSiteSchemeFileRead_def Let_def bodyLeft_def)
  next
    case True
    from recvBufferAppend_ready [OF assms, of "n - rbLen (hsSocket s)"] True obtain e rb d where
      a: "recvBufferAppend (hsSocket s) (n - rbLen (hsSocket s)) = Inr (e, rb)"
      "e = None \<or> e = Some ErrNoDataToBeRetrieved \<or> e = Some ErrRequestCompleted" "httpReady rb"
      "rbData rb = rbData (hsSocket s) @ d" "rbRest (hsSocket s) = d @ rbRest rb"
      "rbRest (hsSocket s) \<noteq> [] \<longrightarrow> d \<noteq> []" by (metis zero_less_diff)
    from deliver [OF a(3)] obtain x s1 where x:
      "Inr (Some (take (min n (rbLen rb)) (rbData rb)), s\<lparr>hsSocket := recvBufferDitch rb (min n (rbLen rb))\<rparr>) =
         (Inr (Some x, s1) :: (string option \<times> HttpSite) res)" "httpReady (hsSocket s1)"
      "rbData rb @ rbRest rb = x @ bodyLeft s1" "0 < n \<longrightarrow> rbData rb \<noteq> [] \<longrightarrow> x \<noteq> []"
      "hsFullUri s1 = hsFullUri s" "hsFile s1 = hsFile s" by blast
    have "httpSiteSchemeFileRead s n = Inr (Some x, s1)"
      using True a(1,2) x(1) by (simp only: httpSiteSchemeFileRead_def Let_def if_True sum.case prod.case)
    moreover have "bodyLeft s = x @ bodyLeft s1" using a(4,5) x(3) by (simp add: bodyLeft_def)
    moreover have "bodyLeft s \<noteq> [] \<longrightarrow> rbData rb \<noteq> []" using a(4-6) by (auto simp: bodyLeft_def)
    ultimately show ?thesis using x(2,4-6) by blast
  qed
qed

subsection \<open>From the request to the body\<close>

text \<open>A response that carries its length: the header ends at \<open>t\<close>, and the body is all that follows it.\<close>

definition lengthResponse :: "string \<Rightarrow> nat \<Rightarrow> HttpResponseHeader \<Rightarrow> bool" where
  "lengthResponse rest t hr \<longleftrightarrow>
     strstr rest (HTTP_EOL @ HTTP_EOL) = Some t \<and> 0 < t \<and> t + 4 \<le> 4096 \<and> NUL \<notin> set (take (t + 4) rest) \<and>
     ioHttpResponseHeaderEssential (take (t + 2) rest) \<noteq> None \<and>
     HeadersPopulate (take (t + 2) rest) emptyResponseHeader = Inr hr \<and>
     hrProtocol hr AND HTTP_CHUCKED_MODE = 0 \<and>
     hrLength hr = int (length (drop (t + 4) rest)) \<and> length rest < 2 ^ 63"

text \<open>A site that can be asked for a file, and whose connection will answer with \<open>rest\<close>.\<close>

definition askable :: "HttpSite \<Rightarrow> string \<Rightarrow> bool" where
  "askable s rest \<longleftrightarrow> reusable (hsSocket s) \<and> rbOk (hsSocket s) \<and>
     (\<exists>lk. rbSocket (hsSocket s) = Some lk \<and> Broken \<notin> set (lkAnswers lk) \<and> stRest (lkIn lk) = rest \<and> stEnd (lkIn lk) = None)"

lemma compute_ready:
  assumes "rbOk rb" "linkEnd rb = Some None" "hrProtocol hr AND HTTP_CHUCKED_MODE = 0"
    "hrLength hr = int (length (rbData rb @ rbRest rb))" "length (rbData rb @ rbRest rb) < 2 ^ 63"
  shows "\<exists>rb1. HeadersCompute rb hr ''GET'' = Inr rb1 \<and> httpReady rb1 \<and> rbData rb1 = rbData rb \<and> rbRest rb1 = rbRest rb"
proof -
  have u: "u64 (hrLength hr) = length (rbData rb @ rbRest rb)" using assms(4,5) u64_small by metis
  have g: "toupperC (CHR ''G'') = CHR ''G''" "toupperC (CHR ''E'') = CHR ''E''" "toupperC (CHR ''T'') = CHR ''T''" by code_simp+
  have lk: "\<exists>lk. rbSocket rb = Some lk \<and> stEnd (lkIn lk) = None" using assms(2) by (auto simp: linkEnd_def)
  have l: "rbLen rb = length (rbData rb)" using assms(1) by (rule rbLen_data)
  show ?thesis
  proof (cases "u64 (hrLength hr) = rbLen rb")
    case True
    then have "rbRest rb = []" using u l by simp
    moreover have "\<not> bit (rbOptions (recvBufferSetLengthComplete rb)) 2"
      by (simp add: recvBufferSetLengthComplete_def Let_def mode_defs bit_and_iff bit_or_iff bit_not_iff bits_of_numerals)
    ultimately have "httpReady (recvBufferSetLengthComplete rb)"
      using assms(1) lk mode_bits(1,2) [of rb] by (simp add: httpReady_def)
    then show ?thesis using True assms(3) g by (simp add: HeadersCompute_def chC_def)
  next
    case False
    let ?k = "setFirst (int (rbLen rb)) (recvBufferSetLengthKnown rb (hrLength hr))"
    have "\<not> bit (rbOptions (recvBufferSetLengthKnown rb (hrLength hr))) 2"
      by (simp add: recvBufferSetLengthKnown_def Let_def mode_defs bit_and_iff bit_or_iff bit_not_iff bits_of_numerals)
    moreover have "rbSecond (recvBufferSetLengthKnown rb (hrLength hr)) = hrLength hr"
      by (simp add: recvBufferSetLengthKnown_def Let_def)
    ultimately have "httpReady ?k"
      using assms(1,4) lk l mode_bits(7-9) [of rb "hrLength hr"] by (simp add: httpReady_def)
    then show ?thesis using False assms(3) g by (simp add: HeadersCompute_def chC_def)
  qed
qed

lemma request_reply:
  assumes "askable s rest" "lengthResponse rest t hr"
    "uPath (uriDetailsNewFrom (hsFullUri s)) = Some cur" "uriPathAbsoluteAppend cur path = Inr (Some rp)"
  shows "\<exists>rb. requestFile s path mode =
                bindr (HeadersCompute rb hr mode) (\<lambda>rb1. Inr (None, Some (rp, hr), s\<lparr>hsSocket := rb1\<rparr>)) \<and>
              rbOk rb \<and> rbData rb @ rbRest rb = drop (t + 4) rest \<and> linkEnd rb = Some None"
proof -
  let ?d = "uriDetailsNewFrom (hsFullUri s)"
  let ?rb = "recvBufferClear (hsSocket s)"
  obtain request where rq: "ioHttpRequestGenerateGet rp (hostLines ?d) = Inr request" "request \<noteq> []"
    by (simp add: ioHttpRequestGenerateGet_def ioHttpRequestGenerateSend_eq)
  obtain lk where lk: "rbSocket (hsSocket s) = Some lk" "Broken \<notin> set (lkAnswers lk)" "stRest (lkIn lk) = rest" "stEnd (lkIn lk) = None"
    and ok: "reusable (hsSocket s)" "rbOk (hsSocket s)" using assms(1) by (auto simp: askable_def)
  note resp = assms(2) [unfolded lengthResponse_def]
  have clr: "rbSocket ?rb = Some lk" "reusable ?rb" "rbBuffer ?rb = None" "rbLen ?rb = 0" "rbRest ?rb = rest"
    using lk ok by (auto simp: recvBufferClear_def reusable_def rbOk_def rbRest_def split: option.split)
  have ne: "rest \<noteq> []" using resp by auto
  then obtain rb1 lk1 where 1: "recvBufferSend ?rb request = Inr (None, rb1)" "rbSocket rb1 = Some lk1"
    "rbBuffer rb1 = None" "rbLen rb1 = 0" "rbRest rb1 = rest" "stEnd (lkIn lk1) = None"
    using send_whole [OF clr(2,1) lk(2) rq(2)] lk(3,4) clr(3-5) by force
  have hd: "strstr (rbRest rb1) (HTTP_EOL @ HTTP_EOL) = Some t" "0 < t" "t + 4 \<le> 4096" "NUL \<notin> set (take (t + 4) (rbRest rb1))"
    using resp 1(5) by auto
  obtain rb2 where 2: "ioHttpResponseHeaderRead rb1 = Inr (None, Some (take (t + 2) rest), rb2)" "rbOk rb2"
    "rbData rb2 @ rbRest rb2 = drop (t + 4) rest" "linkEnd rb2 = linkEnd rb1"
    using header_read [OF 1(3,4) hd] 1(5) by metis
  have le: "linkEnd rb2 = Some None" using 2(4) 1(2,6) by (simp add: linkEnd_def)
  obtain sch rsp where es: "ioHttpResponseHeaderEssential (take (t + 2) rest) = Some (sch, rsp)" using resp by auto
  have sr: "sendRequest (clearSocket s) request = Inr (None, s\<lparr>hsSocket := rb1\<rparr>)"
    using 1(1) by (simp add: sendRequest_def clearSocket_def)
  have rh: "readHeader (s\<lparr>hsSocket := rb1\<rparr>) = Inr (None, Some (take (t + 2) rest), s\<lparr>hsSocket := rb2\<rparr>)"
    using 2(1) by (simp add: readHeader_def)
  have "requestFile s path mode = bindr (HeadersCompute rb2 hr mode) (\<lambda>rb1. Inr (None, Some (rp, hr), s\<lparr>hsSocket := rb1\<rparr>))"
    using assms(3,4) rq(1) sr rh es resp by (simp add: requestFile_def Let_def)
  with 2 le show ?thesis by blast
qed

lemma request_ready:
  assumes "askable s rest" "lengthResponse rest t hr"
    "uPath (uriDetailsNewFrom (hsFullUri s)) = Some cur" "uriPathAbsoluteAppend cur path = Inr (Some rp)"
  shows "\<exists>s1. requestFile s path ''GET'' = Inr (None, Some (rp, hr), s1) \<and> httpReady (hsSocket s1) \<and>
           bodyLeft s1 = drop (t + 4) rest \<and> hsFullUri s1 = hsFullUri s"
proof -
  note resp = assms(2) [unfolded lengthResponse_def]
  obtain rb where 1: "requestFile s path ''GET'' =
      bindr (HeadersCompute rb hr ''GET'') (\<lambda>rb1. Inr (None, Some (rp, hr), s\<lparr>hsSocket := rb1\<rparr>))"
    "rbOk rb" "rbData rb @ rbRest rb = drop (t + 4) rest" "linkEnd rb = Some None"
    using request_reply [OF assms, of "''GET''"] by blast
  have "hrLength hr = int (length (rbData rb @ rbRest rb))" "length (rbData rb @ rbRest rb) < 2 ^ 63"
    unfolding 1(3) using resp by auto
  then obtain rb1 where "HeadersCompute rb hr ''GET'' = Inr rb1" "httpReady rb1" "rbData rb1 = rbData rb" "rbRest rb1 = rbRest rb"
    using compute_ready [OF 1(2,4)] resp by metis
  with 1(1,3) show ?thesis by (simp add: bodyLeft_def)
qed

lemma openRead_ready:
  assumes "askable s rest" "lengthResponse rest t hr"
    "uPath (uriDetailsNewFrom (hsFullUri s)) = Some cur" "uriPathAbsoluteAppend cur path = Inr (Some rp)"
  shows "\<exists>s1 f. httpSiteSchemeFileOpenRead s path a b = Inr (None, s1) \<and> httpReady (hsSocket s1) \<and>
           bodyLeft s1 = drop (t + 4) rest \<and> hsFullUri s1 = hsFullUri s \<and> hsFile s1 = Some f \<and>
           smName (hoMeta f) = openName rp (hrFileName hr) \<and>
           smType (hoMeta f) = (if hrProtocol hr AND HTTP_CONTENT_ATTACHMENT \<noteq> 0 then SITE_FILE_TYPE_FILE else SITE_FILE_TYPE_DIRECTORY)"
  using request_ready [OF assms]
  by (auto simp: httpSiteSchemeFileOpenRead_def httpSiteSchemeFileClose_def bodyLeft_def)

text \<open>
  Asking for the status of a file sends a \<open>GET\<close> and then calls the response complete without its body:
  the connection counts as free for the next request while the whole body is still in it.
\<close>

theorem httpSiteSchemeStatOpenMeta_leaves_body:
  assumes "askable s rest" "lengthResponse rest t hr"
    "uPath (uriDetailsNewFrom (hsFullUri s)) = Some cur" "uriPathAbsoluteAppend cur path = Inr (Some rp)"
  shows "\<exists>m s1. httpSiteSchemeStatOpenMeta s path = Inr (m, s1) \<and> reusable (hsSocket s1) \<and> bodyLeft s1 = drop (t + 4) rest"
proof -
  have g: "toupperC (CHR ''H'') = CHR ''H''" by code_simp
  obtain rb where 1: "requestFile s path ''HEAD'' =
      bindr (HeadersCompute rb hr ''HEAD'') (\<lambda>rb1. Inr (None, Some (rp, hr), s\<lparr>hsSocket := rb1\<rparr>))"
    "rbData rb @ rbRest rb = drop (t + 4) rest"
    using request_reply [OF assms, of "''HEAD''"] by blast
  have "HeadersCompute rb hr ''HEAD'' = Inr (recvBufferSetLengthComplete rb)" using g by (simp add: HeadersCompute_def chC_def)
  with 1 mode_bits(1) [of rb] show ?thesis
    by (simp add: httpSiteSchemeStatOpenMeta_def Let_def reusable_def bodyLeft_def)
qed

end
