(* ===== verification/Site.thy ===== *)
theory Site
  imports Http_Site
begin

text \<open>
  \<open>src/client/site.c\<close>: a site of either kind with the operations that select the kind, and the array of
  mounted sites with the active site for reading and the one for writing.
\<close>

section \<open>Sites\<close>

text \<open>
  The number tells apart the blocks and sockets of two sites: \<open>siteNew\<close> gives every site a fresh one.
  \<open>SiteCompare\<close> compares the structures byte by byte, that is, these addresses; a file site that
  holds no block at all is all zero.
\<close>

datatype Site = SITE_FILE nat FileSite | SITE_HTTP nat HttpSite

datatype SiteType = TYPE_FILE | TYPE_HTTP

fun SiteCompare :: "Site \<Rightarrow> Site \<Rightarrow> bool" where
  "SiteCompare (SITE_FILE i a) (SITE_FILE j b) \<longleftrightarrow> a = b \<and> (i = j \<or> a = emptyFileSite)"
| "SiteCompare (SITE_HTTP i a) (SITE_HTTP j b) \<longleftrightarrow> a = b \<and> i = j"
| "SiteCompare _ _ \<longleftrightarrow> False"

definition siteNew ::
    "nat \<Rightarrow> Disk \<Rightarrow> nat \<Rightarrow> Attempt list \<Rightarrow> resolver \<Rightarrow> SiteType \<Rightarrow> string option \<Rightarrow> (ClientErr option \<times> Site option) res" where
  "siteNew fresh dk junk attempts env type path =
     (case type of
        TYPE_FILE \<Rightarrow>
          (case fileSiteSchemeNew dk emptyFileSite path of (e, s) \<Rightarrow> Inr (e, Some (SITE_FILE fresh s)))
      | TYPE_HTTP \<Rightarrow>
          bindr (httpSiteSchemeNew junk attempts env path) (\<lambda>(e, s). Inr (e, map_option (SITE_HTTP fresh) s)))"

fun siteFree :: "Site \<Rightarrow> Site" where
  "siteFree (SITE_FILE i s) = SITE_FILE i (fileSiteSchemeFree s)"
| "siteFree (SITE_HTTP i s) = SITE_HTTP i (httpSiteSchemeFree s)"

fun siteWorkingDirectoryGet :: "Site \<Rightarrow> string option" where
  "siteWorkingDirectoryGet (SITE_FILE i s) = fileSiteSchemeWorkingDirectoryGet s"
| "siteWorkingDirectoryGet (SITE_HTTP i s) = httpSiteSchemeWorkingDirectoryGet s"

text \<open>An error the system is left with by a site: an error constant, or a number that is none.\<close>

definition leaveErrno :: "(Errno + int) option \<Rightarrow> Disk \<Rightarrow> Disk" where
  "leaveErrno e dk =
     (case e of
        None \<Rightarrow> dk
      | Some (Inl c) \<Rightarrow> dk\<lparr>dkErrno := c\<rparr>
      | Some (Inr k) \<Rightarrow> dk\<lparr>dkErrno := OtherErrno (u64 k)\<rparr>)"

fun siteWorkingDirectorySet :: "Disk \<Rightarrow> Site \<Rightarrow> string \<Rightarrow> (int \<times> Site \<times> Disk) res" where
  "siteWorkingDirectorySet dk (SITE_FILE i s) path =
     bindr (fileSiteSchemeWorkingDirectorySet dk s path) (\<lambda>(r, s1, dk1). Inr (r, SITE_FILE i s1, dk1))"
| "siteWorkingDirectorySet dk (SITE_HTTP i s) path =
     bindr (httpSiteSchemeWorkingDirectorySet s path) (\<lambda>(r, e, s1). Inr (r, SITE_HTTP i s1, leaveErrno e dk))"

text \<open>A directory listing of either kind of site; that of a file site may have been freed.\<close>

datatype Listing = FileListing "PlatformDir option" | HttpListing HttpSiteDirectoryListing

fun siteDirectoryListingOpen :: "int \<Rightarrow> Disk \<Rightarrow> Site \<Rightarrow> string \<Rightarrow> (Listing option \<times> Site) res" where
  "siteDirectoryListingOpen now dk (SITE_FILE i s) path =
     bindr (fileSiteSchemeDirectoryListingOpen dk s path)
       (\<lambda>d. Inr (map_option (\<lambda>x. FileListing (Some x)) d, SITE_FILE i s))"
| "siteDirectoryListingOpen now dk (SITE_HTTP i s) path =
     bindr (httpSiteSchemeDirectoryListingOpen now s path) (\<lambda>(l, s1). Inr (map_option HttpListing l, SITE_HTTP i s1))"

text \<open>A listing of the other kind than the site is an access to a structure of the wrong type.\<close>

fun siteDirectoryListingEntryStat ::
    "Disk \<Rightarrow> Site \<Rightarrow> Listing \<Rightarrow> SiteFileMeta \<Rightarrow> SiteFileMeta \<Rightarrow> (ClientErr option \<times> SiteFileMeta \<times> Site) res" where
  "siteDirectoryListingEntryStat dk (SITE_FILE i s) (FileListing (Some d)) entry meta =
     bindr (fileSiteSchemeDirectoryListingEntryStat dk d entry meta) (\<lambda>(e, m). Inr (e, m, SITE_FILE i s))"
| "siteDirectoryListingEntryStat dk (SITE_FILE i s) (FileListing None) entry meta = Inl UseAfterFree"
| "siteDirectoryListingEntryStat dk (SITE_HTTP i s) (HttpListing l) entry meta =
     bindr (httpSiteSchemeDirectoryListingEntryStat s l entry meta (dkErrno dk)) (\<lambda>(e, m, s1). Inr (e, m, SITE_HTTP i s1))"
| "siteDirectoryListingEntryStat dk _ _ entry meta = Inl OutOfBounds"

fun siteDirectoryListingRead :: "Disk \<Rightarrow> Site \<Rightarrow> Listing \<Rightarrow> (SiteFileMeta option \<times> Listing) res" where
  "siteDirectoryListingRead dk (SITE_FILE i s) (FileListing d) =
     bindr (fileSiteSchemeDirectoryListingRead dk d) (\<lambda>(m, d1). Inr (m, FileListing d1))"
| "siteDirectoryListingRead dk (SITE_HTTP i s) (HttpListing l) =
     (case httpSiteSchemeDirectoryListingRead l of (m, l1) \<Rightarrow> Inr (m, HttpListing l1))"
| "siteDirectoryListingRead dk _ _ = Inl OutOfBounds"

text \<open>
  The case of a file site lacks its \<open>break\<close>. What \<open>httpSiteSchemeFileClose\<close> then looks at lies behind
  the socket address, and so behind the whole file site, in bytes of the union that \<open>siteNew\<close> cleared:
  it finds no open file.
\<close>

fun siteFileClose :: "Site \<Rightarrow> Site" where
  "siteFileClose (SITE_FILE i s) = SITE_FILE i (fileSiteSchemeFileClose s)"
| "siteFileClose (SITE_HTTP i s) = SITE_HTTP i (httpSiteSchemeFileClose s)"

fun siteFileAtEnd :: "Site \<Rightarrow> int res" where
  "siteFileAtEnd (SITE_FILE i s) = bindr (fileSiteSchemeFileAtEnd s) (\<lambda>b. Inr (if b then 1 else 0))"
| "siteFileAtEnd (SITE_HTTP i s) = Inr (httpSiteSchemeFileAtEnd s)"

fun siteFileOpenMeta :: "Site \<Rightarrow> SiteFileMeta option" where
  "siteFileOpenMeta (SITE_FILE i s) = (if fsFile s \<noteq> None then Some (fsMeta s) else None)"
| "siteFileOpenMeta (SITE_HTTP i s) = map_option hoMeta (hsFile s)"

fun siteStatOpenMeta :: "Disk \<Rightarrow> Site \<Rightarrow> string \<Rightarrow> (SiteFileMeta option \<times> Site) res" where
  "siteStatOpenMeta dk (SITE_FILE i s) path = bindr (fileSiteSchemeStatOpenMeta dk s path) (\<lambda>m. Inr (m, SITE_FILE i s))"
| "siteStatOpenMeta dk (SITE_HTTP i s) path = bindr (httpSiteSchemeStatOpenMeta s path) (\<lambda>(m, s1). Inr (m, SITE_HTTP i s1))"

text \<open>The bytes read; \<open>None\<close> is -1.\<close>

fun siteFileRead :: "Disk \<Rightarrow> Site \<Rightarrow> nat \<Rightarrow> (string option \<times> Site) res" where
  "siteFileRead dk (SITE_FILE i s) n = bindr (fileSiteSchemeFileRead dk s n) (\<lambda>(d, s1). Inr (Some d, SITE_FILE i s1))"
| "siteFileRead dk (SITE_HTTP i s) n = bindr (httpSiteSchemeFileRead s n) (\<lambda>(d, s1). Inr (d, SITE_HTTP i s1))"

fun siteFileOpenRead :: "Disk \<Rightarrow> Site \<Rightarrow> string \<Rightarrow> int \<Rightarrow> int \<Rightarrow> (ClientErr option \<times> Site \<times> Disk) res" where
  "siteFileOpenRead dk (SITE_FILE i s) path start end0 =
     bindr (fileSiteSchemeFileOpenRead dk s path start end0) (\<lambda>(e, s1, dk1). Inr (e, SITE_FILE i s1, dk1))"
| "siteFileOpenRead dk (SITE_HTTP i s) path start end0 =
     bindr (httpSiteSchemeFileOpenRead s path start end0) (\<lambda>(e, s1). Inr (e, SITE_HTTP i s1, dk))"

fun siteFileOpenAppend :: "Disk \<Rightarrow> Site \<Rightarrow> string \<Rightarrow> int \<Rightarrow> int \<Rightarrow> (ClientErr option \<times> Site \<times> Disk) res" where
  "siteFileOpenAppend dk (SITE_FILE i s) path start end0 =
     bindr (fileSiteSchemeFileOpenAppend dk s path start end0) (\<lambda>(e, s1, dk1). Inr (e, SITE_FILE i s1, dk1))"
| "siteFileOpenAppend dk (SITE_HTTP i s) path start end0 = Inr (httpSiteSchemeFileOpenWrite s path, SITE_HTTP i s, dk)"

fun siteFileOpenWrite :: "Disk \<Rightarrow> Site \<Rightarrow> string \<Rightarrow> (ClientErr option \<times> Site \<times> Disk) res" where
  "siteFileOpenWrite dk (SITE_FILE i s) path =
     bindr (fileSiteSchemeFileOpenWrite dk s path) (\<lambda>(e, s1, dk1). Inr (e, SITE_FILE i s1, dk1))"
| "siteFileOpenWrite dk (SITE_HTTP i s) path = Inr (httpSiteSchemeFileOpenWrite s path, SITE_HTTP i s, dk)"

text \<open>The number of bytes written; \<open>None\<close> is -1.\<close>

fun siteFileWrite :: "Disk \<Rightarrow> Site \<Rightarrow> string \<Rightarrow> (nat option \<times> Site \<times> Disk) res" where
  "siteFileWrite dk (SITE_FILE i s) d =
     bindr (fileSiteSchemeFileWrite dk s d) (\<lambda>(n, s1, dk1). Inr (Some n, SITE_FILE i s1, dk1))"
| "siteFileWrite dk (SITE_HTTP i s) d =
     (case httpSiteSchemeFileWrite s d of (n, e) \<Rightarrow> Inr (n, SITE_HTTP i s, dk\<lparr>dkErrno := e\<rparr>))"

section \<open>The array of sites\<close>

text \<open>
  A pointer to a site is the block of the array at the time and the index in it. \<open>realloc\<close> ends the
  life of the block, as the C standard has it; \<open>saBlock\<close> counts the blocks.
\<close>

type_synonym SitePtr = "nat \<times> nat"

record SiteArray =
  saActiveRead :: int
  saActiveWrite :: int
  saArray :: "Site list"
  saBlock :: nat

abbreviation saLen :: "SiteArray \<Rightarrow> int" where "saLen self \<equiv> int (length (saArray self))"

definition sitePtr :: "SiteArray \<Rightarrow> int \<Rightarrow> SitePtr option" where
  "sitePtr self i = (if i < 0 \<or> saLen self \<le> i then None else Some (saBlock self, nat i))"

definition siteAt :: "SiteArray \<Rightarrow> SitePtr option \<Rightarrow> Site res" where
  "siteAt self p =
     (case p of
        None \<Rightarrow> Inl NullDereference
      | Some (b, i) \<Rightarrow>
          if b \<noteq> saBlock self then Inl UseAfterFree
          else if i < length (saArray self) then Inr (saArray self ! i) else Inl OutOfBounds)"

definition setSiteAt :: "SiteArray \<Rightarrow> SitePtr option \<Rightarrow> Site \<Rightarrow> SiteArray" where
  "setSiteAt self p s =
     (case p of
        None \<Rightarrow> self
      | Some (b, i) \<Rightarrow> if b = saBlock self then self\<lparr>saArray := (saArray self)[i := s]\<rparr> else self)"

definition siteArrayActiveGet :: "SiteArray \<Rightarrow> SitePtr option" where
  "siteArrayActiveGet self = sitePtr self (saActiveRead self)"

definition siteArrayActiveGetNth :: "SiteArray \<Rightarrow> int" where
  "siteArrayActiveGetNth self =
     (if saActiveRead self < 0 \<or> saLen self \<le> saActiveRead self then -1 else saActiveRead self)"

definition siteArrayActiveGetWrite :: "SiteArray \<Rightarrow> SitePtr option" where
  "siteArrayActiveGetWrite self = sitePtr self (saActiveWrite self)"

definition siteArrayActiveGetWriteNth :: "SiteArray \<Rightarrow> int" where
  "siteArrayActiveGetWriteNth self =
     (if saActiveWrite self < 0 \<or> saLen self \<le> saActiveWrite self then -1 else saActiveWrite self)"

definition siteArrayGet :: "SiteArray \<Rightarrow> int \<Rightarrow> SitePtr option" where
  "siteArrayGet self id0 = sitePtr self id0"

text \<open>The loop of \<open>SiteArrayGetByUriHostNth\<close>: a file site needs no address, an HTTP site the same one.\<close>

fun hostLoop :: "resolver \<Rightarrow> SiteType \<Rightarrow> string option \<Rightarrow> int \<Rightarrow> Site list \<Rightarrow> int res" where
  "hostLoop env type desired i [] = Inr (-1)"
| "hostLoop env type desired i (SITE_FILE k s # ss) =
     (if type = TYPE_FILE then Inr i else hostLoop env type desired (i + 1) ss)"
| "hostLoop env type desired i (SITE_HTTP k s # ss) =
     (if type = TYPE_HTTP then
        (case uriDetailsGetHostAddr env (uriDetailsNewFrom (hsFullUri s)) of
           None \<Rightarrow> hostLoop env type desired (i + 1) ss
         | Some a \<Rightarrow>
             (case desired of
                None \<Rightarrow> Inl NullDereference
              | Some d \<Rightarrow> if d = a then Inr i else hostLoop env type desired (i + 1) ss))
      else hostLoop env type desired (i + 1) ss)"

definition SiteArrayGetByUriHostNth :: "resolver \<Rightarrow> SiteArray \<Rightarrow> string \<Rightarrow> int res" where
  "SiteArrayGetByUriHostNth env self uri =
     (let details = uriDetailsNewFrom (Some uri) in
      case uriDetailsGetScheme details of
        SCHEME_FILE \<Rightarrow> hostLoop env TYPE_FILE None 0 (saArray self)
      | SCHEME_HTTP \<Rightarrow> hostLoop env TYPE_HTTP (uriDetailsGetHostAddr env details) 0 (saArray self)
      | _ \<Rightarrow> Inr (-1))"

definition siteArrayGetByUriHost :: "resolver \<Rightarrow> SiteArray \<Rightarrow> string \<Rightarrow> SitePtr option res" where
  "siteArrayGetByUriHost env self uri = bindr (SiteArrayGetByUriHostNth env self uri) (\<lambda>i. Inr (sitePtr self i))"

definition siteArrayGetFromInputNth :: "resolver \<Rightarrow> SiteArray \<Rightarrow> string \<Rightarrow> int res" where
  "siteArrayGetFromInputNth env self input =
     (case strtol input of (idx, erange, _) \<Rightarrow>
        if isdigitC (chC input 0) \<and> \<not> erange \<and> 0 \<le> idx \<and> idx < saLen self then Inr idx
        else SiteArrayGetByUriHostNth env self input)"

definition siteArrayGetFromInput :: "resolver \<Rightarrow> SiteArray \<Rightarrow> string \<Rightarrow> SitePtr option res" where
  "siteArrayGetFromInput env self input = bindr (siteArrayGetFromInputNth env self input) (\<lambda>i. Inr (sitePtr self i))"

definition siteArrayActiveSetNth :: "SiteArray \<Rightarrow> int \<Rightarrow> ClientErr option \<times> SiteArray" where
  "siteArrayActiveSetNth self n =
     (if saLen self \<le> n then (Some ErrInvalidSite, self) else (None, self\<lparr>saActiveRead := n\<rparr>))"

definition siteArrayActiveSetWriteNth :: "SiteArray \<Rightarrow> int \<Rightarrow> ClientErr option \<times> SiteArray" where
  "siteArrayActiveSetWriteNth self n =
     (if saLen self \<le> n then (Some ErrInvalidSite, self) else (None, self\<lparr>saActiveWrite := n\<rparr>))"

definition siteIndex :: "SiteArray \<Rightarrow> Site \<Rightarrow> nat option" where
  "siteIndex self site = find (\<lambda>i. SiteCompare (saArray self ! i) site) [0..<length (saArray self)]"

definition siteArrayActiveSet :: "SiteArray \<Rightarrow> Site \<Rightarrow> SiteArray" where
  "siteArrayActiveSet self site =
     (case siteIndex self site of None \<Rightarrow> self | Some i \<Rightarrow> snd (siteArrayActiveSetNth self (int i)))"

text \<open>This one sets the active site for reading too.\<close>

definition siteArrayActiveSetWrite :: "SiteArray \<Rightarrow> Site \<Rightarrow> SiteArray" where
  "siteArrayActiveSetWrite self site =
     (case siteIndex self site of None \<Rightarrow> self | Some i \<Rightarrow> snd (siteArrayActiveSetNth self (int i)))"

definition siteArrayNthMounted :: "SiteArray \<Rightarrow> int \<Rightarrow> bool" where
  "siteArrayNthMounted self n \<longleftrightarrow> \<not> (n < 0 \<or> saLen self \<le> n)"

definition siteArrayAdd :: "SiteArray \<Rightarrow> Site \<Rightarrow> SiteArray" where
  "siteArrayAdd self site = self\<lparr>saArray := saArray self @ [site], saBlock := saBlock self + 1\<rparr>"

definition siteArrayInit :: "nat \<Rightarrow> Disk \<Rightarrow> resolver \<Rightarrow> SiteArray res" where
  "siteArrayInit fresh dk env =
     bindr (siteNew fresh dk 0 [] env TYPE_FILE None)
       (\<lambda>(e, s). case s of
          None \<Rightarrow> Inl Uninitialised
        | Some file \<Rightarrow> Inr (siteArrayAdd \<lparr>saActiveRead = 0, saActiveWrite = 0, saArray = [], saBlock = 0\<rparr> file))"

definition siteArrayRemoveNth :: "SiteArray \<Rightarrow> int \<Rightarrow> SiteArray res" where
  "siteArrayRemoveNth self n =
     (let reset = (\<lambda>s. s\<lparr>saActiveRead := (if saActiveRead s = n then -1 else saActiveRead s),
                        saActiveWrite := (if saActiveWrite s = n then -1 else saActiveWrite s)\<rparr>)
      in if n \<le> saLen self - 1 then
           (if n < 0 then Inl OutOfBounds
            else Inr (reset (self\<lparr>saArray := take (nat n) (saArray self) @ drop (nat n + 1) (saArray self),
                                  saBlock := saBlock self + 1\<rparr>)))
         else Inr (reset self))"

definition siteArrayRemove :: "SiteArray \<Rightarrow> Site \<Rightarrow> SiteArray res" where
  "siteArrayRemove self site =
     (case siteIndex self site of None \<Rightarrow> Inr self | Some i \<Rightarrow> siteArrayRemoveNth self (int i))"

section \<open>Resolving what the user types\<close>

definition workingDetails :: "SiteArray \<Rightarrow> SitePtr option \<Rightarrow> UriDetails res" where
  "workingDetails self p = bindr (siteAt self p) (\<lambda>s. Inr (uriDetailsNewFrom (siteWorkingDirectoryGet s)))"

definition siteArrayUserPathResolve :: "SiteArray \<Rightarrow> string \<Rightarrow> bool \<Rightarrow> string option res" where
  "siteArrayUserPathResolve array path forWriting =
     (if isdigitC (chC path 0) \<and> strchr (drop 1 path) (CHR '':'') \<noteq> None then
        (case strtol path of (l, erange, k) \<Rightarrow>
           if erange \<or> siteArrayGet array l = None then Inr None
           else bindr (workingDetails array (siteArrayGet array l)) (\<lambda>details.
                  case uriDetailsCreateStringBase details of
                    None \<Rightarrow> Inr None
                  | Some r \<Rightarrow>
                      let c = drop k path in
                      Inr (if chC c 0 = CHR '':'' \<and> chC c 1 \<noteq> NUL then Some (r @ drop 1 c) else None)))
      else if strstr path ''://'' \<noteq> None then
        (let details = uriDetailsNewFrom (Some path) in
         Inr (if uPath details \<noteq> None then uriDetailsCreateString details else None))
      else
        (case (if forWriting then siteArrayActiveGetWrite array else siteArrayActiveGet array) of
           None \<Rightarrow> Inr None
         | Some site \<Rightarrow>
             bindr (workingDetails array (Some site)) (\<lambda>d.
               case uPath d of
                 None \<Rightarrow> Inr None
               | Some cur \<Rightarrow>
                   bindr (uriPathAbsoluteAppend cur path) (\<lambda>p.
                     Inr (case p of None \<Rightarrow> None | Some np \<Rightarrow> uriDetailsCreateString (d\<lparr>uPath := Some np\<rparr>))))))"

text \<open>The site of the result, and the path stored in \<open>*sitePath\<close>.\<close>

definition siteArrayUserPathResolveToQueue ::
    "resolver \<Rightarrow> SiteArray \<Rightarrow> string \<Rightarrow> bool \<Rightarrow> (SitePtr option \<times> string option) res" where
  "siteArrayUserPathResolveToQueue env array path forWriting =
     bindr (siteArrayUserPathResolve array path forWriting) (\<lambda>a.
       case a of
         None \<Rightarrow> Inr (None, None)
       | Some full \<Rightarrow>
           let d = uriDetailsNewFrom (Some full) in
           (case uriDetailsGetHostAddr env d of
              Some host \<Rightarrow> bindr (siteArrayGetByUriHost env array host) (\<lambda>s. Inr (s, uPath d))
            | None \<Rightarrow> Inr (None, None)))"

end
