(* ===== verification/Queue.thy ===== *)
theory Queue
  imports Site
begin

text \<open>
  \<open>src/client/queue.c\<close>: the list of downloads the user asked for, searching it, and the three ways to
  carry a download out. The callbacks that report progress only print and are left out.
\<close>

section \<open>Entries\<close>

definition QUEUE_STATE_QUEUED :: "8 word" where "QUEUE_STATE_QUEUED = 1"
definition QUEUE_STATE_FINISHED :: "8 word" where "QUEUE_STATE_FINISHED = 4"
definition QUEUE_STATE_FAILED :: "8 word" where "QUEUE_STATE_FAILED = 8"
definition QUEUE_TYPE_RECURSIVE :: "8 word" where "QUEUE_TYPE_RECURSIVE = 16"

record QueueEntry =
  qeSourceSite :: "SitePtr option"
  qeDestinationSite :: "SitePtr option"
  qeSourcePath :: "string option"
  qeDestinationPath :: "string option"
  qeState :: "8 word"

text \<open>An array of entries; \<open>NULL\<close>, as the empty queue is stored, is \<open>None\<close>.\<close>

type_synonym QueueEntryArray = "QueueEntry list option"

text \<open>\<open>strcmp\<close> of two paths that may be \<open>NULL\<close>.\<close>

definition samePath :: "string option \<Rightarrow> string option \<Rightarrow> bool res" where
  "samePath a b = (case (a, b) of (Some x, Some y) \<Rightarrow> Inr (x = y) | _ \<Rightarrow> Inl NullDereference)"

fun findEntry :: "nat \<Rightarrow> QueueEntry list \<Rightarrow> QueueEntry \<Rightarrow> nat option res" where
  "findEntry i [] entry = Inr None"
| "findEntry i (it # es) entry =
     (if qeDestinationSite it = qeDestinationSite entry \<and> qeSourceSite it = qeSourceSite entry then
        bindr (samePath (qeDestinationPath it) (qeDestinationPath entry)) (\<lambda>d.
          if \<not> d then findEntry (i + 1) es entry
          else bindr (samePath (qeSourcePath it) (qeSourcePath entry)) (\<lambda>s.
                 if s then Inr (Some i) else findEntry (i + 1) es entry))
      else findEntry (i + 1) es entry)"

text \<open>The index, or \<open>None\<close> for -1. \<open>NULL\<close> as the array is dereferenced.\<close>

definition queueEntryArrayFindNth :: "QueueEntryArray \<Rightarrow> QueueEntry \<Rightarrow> nat option res" where
  "queueEntryArrayFindNth array entry = (case array of None \<Rightarrow> Inl NullDereference | Some es \<Rightarrow> findEntry 0 es entry)"

definition EntrySearch :: "QueueEntryArray \<Rightarrow> QueueEntry \<Rightarrow> QueueEntry option res" where
  "EntrySearch array entry =
     bindr (queueEntryArrayFindNth array entry)
       (\<lambda>i. Inr (case (array, i) of (Some es, Some k) \<Rightarrow> Some (es ! k) | _ \<Rightarrow> None))"

definition queueEntryNewFromPath ::
    "resolver \<Rightarrow> SiteArray \<Rightarrow> string \<Rightarrow> string option \<Rightarrow> (ClientErr option \<times> QueueEntry option) res" where
  "queueEntryNewFromPath env array source destination =
     bindr (siteArrayUserPathResolve array source False) (\<lambda>s. case s of
       None \<Rightarrow> Inr (Some ErrAddressNotUnderstood, None)
     | Some src \<Rightarrow>
         bindr (case destination of None \<Rightarrow> Inr None | Some d \<Rightarrow> siteArrayUserPathResolve array d True) (\<lambda>dst.
         bindr (siteArrayGetByUriHost env array src) (\<lambda>srcSite.
         bindr (case dst of Some d \<Rightarrow> siteArrayGetByUriHost env array d
                          | None \<Rightarrow> Inr (siteArrayActiveGetWrite array)) (\<lambda>dstSite.
         bindr (case dst of Some d \<Rightarrow> Inr (uriDetailsNewFrom (Some d)) | None \<Rightarrow> workingDetails array dstSite) (\<lambda>dd.
           Inr (None, Some \<lparr>qeSourceSite = srcSite, qeDestinationSite = dstSite,
                            qeSourcePath = uPath (uriDetailsNewFrom (Some src)), qeDestinationPath = uPath dd,
                            qeState = QUEUE_STATE_QUEUED\<rparr>))))))"

text \<open>
  Removing the only entry frees its paths, and then again with the array. (A path that is \<open>NULL\<close> can
  be freed any number of times.)
\<close>

definition queueEntryArrayRemove :: "QueueEntryArray \<Rightarrow> QueueEntry \<Rightarrow> (ClientErr option \<times> QueueEntryArray) res" where
  "queueEntryArrayRemove array entry =
     (case array of
        None \<Rightarrow> Inr (Some (Message ''No such entry''), None)
      | Some es \<Rightarrow>
          bindr (queueEntryArrayFindNth array entry) (\<lambda>f. case f of
            None \<Rightarrow> Inr (Some (Message ''No such entry''), array)
          | Some i \<Rightarrow>
              if length es - 1 \<noteq> 0 then Inr (None, Some (take i es @ drop (i + 1) es))
              else if qeSourcePath (es ! i) = None \<and> qeDestinationPath (es ! i) = None then Inr (None, None)
              else Inl UseAfterFree))"

definition queueEntryArrayAppend :: "QueueEntryArray \<Rightarrow> QueueEntry \<Rightarrow> (ClientErr option \<times> QueueEntryArray) res" where
  "queueEntryArrayAppend array entry =
     (case array of
        None \<Rightarrow> Inr (None, Some [entry])
      | Some es \<Rightarrow>
          bindr (EntrySearch array entry) (\<lambda>f.
            Inr (None, if f \<noteq> None then array else Some (es @ [entry]))))"

definition queueEntryGetUri :: "SiteArray \<Rightarrow> SitePtr option \<Rightarrow> string option \<Rightarrow> string option res" where
  "queueEntryGetUri sites site path =
     bindr (workingDetails sites site) (\<lambda>d. Inr (uriDetailsCreateString (d\<lparr>uPath := path\<rparr>)))"

text \<open>Whether the address of one end of an entry contains the text.\<close>

definition uriMatches :: "SiteArray \<Rightarrow> SitePtr option \<Rightarrow> string option \<Rightarrow> string \<Rightarrow> bool res" where
  "uriMatches sites site path search =
     bindr (queueEntryGetUri sites site path)
       (\<lambda>u. Inr (case u of Some uri \<Rightarrow> platformStringFindNeedle uri search \<noteq> None | None \<Rightarrow> False))"

fun searchLoop :: "SiteArray \<Rightarrow> QueueEntry list \<Rightarrow> string \<Rightarrow> QueueEntryArray \<Rightarrow> (ClientErr option \<times> QueueEntryArray) res" where
  "searchLoop sites [] search found = Inr (None, found)"
| "searchLoop sites (e # es) search found =
     bindr (uriMatches sites (qeSourceSite e) (qeSourcePath e) search) (\<lambda>s.
     bindr (if s then Inr True else uriMatches sites (qeDestinationSite e) (qeDestinationPath e) search) (\<lambda>hit.
       if hit then
         bindr (queueEntryArrayAppend found e) (\<lambda>(err, found1).
           if err \<noteq> None then Inr (err, found1) else searchLoop sites es search found1)
       else searchLoop sites es search found))"

text \<open>\<open>errnoSet\<close> says whether \<open>errno\<close> is set at the time: the function does not clear it.\<close>

definition queueEntryArraySearch ::
    "bool \<Rightarrow> SiteArray \<Rightarrow> QueueEntryArray \<Rightarrow> QueueEntryArray \<Rightarrow> string \<Rightarrow> (ClientErr option \<times> QueueEntryArray) res" where
  "queueEntryArraySearch errnoSet sites array found search =
     (case strtol search of (n, erange, _) \<Rightarrow>
        let i = u64 n in
        (case array of
           None \<Rightarrow> Inl NullDereference
         | Some es \<Rightarrow>
             if i \<noteq> 0 \<and> \<not> errnoSet \<and> \<not> erange then
               (if i < length es then queueEntryArrayAppend found (es ! i) else Inr (None, found))
             else searchLoop sites es search found))"

section \<open>The world of a download\<close>

text \<open>The mounted sites and the disk. The operations of \<open>site.c\<close> on the site a pointer leads to:\<close>

record World =
  wSites :: SiteArray
  wDisk :: Disk

definition putSite :: "World \<Rightarrow> SitePtr option \<Rightarrow> Site \<Rightarrow> Disk \<Rightarrow> World" where
  "putSite w p s dk = w\<lparr>wSites := setSiteAt (wSites w) p s, wDisk := dk\<rparr>"

definition wStat :: "SitePtr option \<Rightarrow> string \<Rightarrow> World \<Rightarrow> (SiteFileMeta option \<times> World) res" where
  "wStat p path w =
     bindr (siteAt (wSites w) p) (\<lambda>s. bindr (siteStatOpenMeta (wDisk w) s path) (\<lambda>(m, s1). Inr (m, putSite w p s1 (wDisk w))))"

definition wOpenRead :: "SitePtr option \<Rightarrow> string \<Rightarrow> World \<Rightarrow> (ClientErr option \<times> World) res" where
  "wOpenRead p path w =
     bindr (siteAt (wSites w) p)
       (\<lambda>s. bindr (siteFileOpenRead (wDisk w) s path (-1) (-1)) (\<lambda>(e, s1, dk). Inr (e, putSite w p s1 dk)))"

definition wOpenWrite :: "SitePtr option \<Rightarrow> string \<Rightarrow> World \<Rightarrow> (ClientErr option \<times> World) res" where
  "wOpenWrite p path w =
     bindr (siteAt (wSites w) p)
       (\<lambda>s. bindr (siteFileOpenWrite (wDisk w) s path) (\<lambda>(e, s1, dk). Inr (e, putSite w p s1 dk)))"

definition wOpenMeta :: "SitePtr option \<Rightarrow> World \<Rightarrow> SiteFileMeta option res" where
  "wOpenMeta p w = bindr (siteAt (wSites w) p) (\<lambda>s. Inr (siteFileOpenMeta s))"

definition wRead :: "SitePtr option \<Rightarrow> World \<Rightarrow> (string option \<times> World) res" where
  "wRead p w =
     bindr (siteAt (wSites w) p)
       (\<lambda>s. bindr (siteFileRead (wDisk w) s SB_DATA_SIZE) (\<lambda>(d, s1). Inr (d, putSite w p s1 (wDisk w))))"

definition wWrite :: "SitePtr option \<Rightarrow> string \<Rightarrow> World \<Rightarrow> (nat option \<times> World) res" where
  "wWrite p d w =
     bindr (siteAt (wSites w) p)
       (\<lambda>s. bindr (siteFileWrite (wDisk w) s d) (\<lambda>(n, s1, dk). Inr (n, putSite w p s1 dk)))"

definition wAtEnd :: "SitePtr option \<Rightarrow> World \<Rightarrow> int res" where
  "wAtEnd p w = bindr (siteAt (wSites w) p) siteFileAtEnd"

definition wClose :: "SitePtr option \<Rightarrow> World \<Rightarrow> World res" where
  "wClose p w = bindr (siteAt (wSites w) p) (\<lambda>s. Inr (putSite w p (siteFileClose s) (wDisk w)))"

section \<open>Downloads\<close>

text \<open>
  The loop that copies. It ends at a read of no bytes, or at a failed read at the end of the file; the
  result says whether the copy counts as complete. A write that takes only part of the bytes counts as
  done. \<open>fuel\<close> bounds the number of reads.
\<close>

fun copyLoop ::
    "('w \<Rightarrow> (string option \<times> 'w) res) \<Rightarrow> ('w \<Rightarrow> int res) \<Rightarrow> (string \<Rightarrow> 'w \<Rightarrow> (nat option \<times> 'w) res) \<Rightarrow>
     nat \<Rightarrow> 'w \<Rightarrow> (bool \<times> 'w) res" where
  "copyLoop rd atEnd wr fuel w =
     bindr (rd w) (\<lambda>(i, w1).
       case i of
         None \<Rightarrow> bindr (atEnd w1) (\<lambda>e. Inr (e \<noteq> 0, w1))
       | Some d \<Rightarrow>
           if d = [] then Inr (True, w1)
           else bindr (wr d w1) (\<lambda>(n, w2).
                  case n of
                    None \<Rightarrow> Inr (False, w2)
                  | Some _ \<Rightarrow> (case fuel of 0 \<Rightarrow> Inl EndlessLoop | Suc k \<Rightarrow> copyLoop rd atEnd wr k w2)))"

declare copyLoop.simps [simp del]

text \<open>How many bytes the open file of a site can still give: every read that gives any takes some of them.\<close>

definition readBudget :: "SitePtr option \<Rightarrow> World \<Rightarrow> nat" where
  "readBudget p w =
     (case siteAt (wSites w) p of
        Inr (SITE_HTTP i s) \<Rightarrow> length (rbData (hsSocket s)) + length (rbRest (hsSocket s))
      | Inr (SITE_FILE i s) \<Rightarrow> (case fsFile s of Some f \<Rightarrow> length (diskContent (wDisk w) (pfPath f)) | None \<Rightarrow> 0)
      | Inl f \<Rightarrow> 0)"

text \<open>
  The part the three functions have in common, from the opening of the source on. After a failed copy
  the files are closed twice, which the second time does nothing.
\<close>

definition downloadBody :: "QueueEntry \<Rightarrow> World \<Rightarrow> (ClientErr option \<times> QueueEntry \<times> World) res" where
  "downloadBody entry w =
     (case (qeSourcePath entry, qeDestinationPath entry) of
        (Some fromPath, Some toPath) \<Rightarrow>
          (let from = qeSourceSite entry; to = qeDestinationSite entry in
           bindr (wOpenRead from fromPath w) (\<lambda>(e, w1).
             if e \<noteq> None then Inr (e, entry, w1)
             else bindr (wOpenMeta from w1) (\<lambda>m.
               case m of
                 None \<Rightarrow> bindr (wClose from w1) (\<lambda>w2. Inr (Some ErrHeaderNotFound, entry, w2))
               | Some meta \<Rightarrow>
                   if smType meta = SITE_FILE_TYPE_UNKNOWN \<or> smName meta = None then
                     bindr (wClose from w1) (\<lambda>w2. Inr (Some ErrHeaderNotFound, entry, w2))
                   else if smType meta \<noteq> SITE_FILE_TYPE_FILE then
                     bindr (wClose from w1) (\<lambda>w2. Inr (Some (StrError EISDIR), entry, w2))
                   else bindr (wOpenWrite to toPath w1) (\<lambda>(e, w2).
                     if e \<noteq> None then bindr (wClose from w2) (\<lambda>w3. Inr (e, entry, w3))
                     else bindr (copyLoop (wRead from) (wAtEnd from) (wWrite to) (readBudget from w2) w2) (\<lambda>(ok, w3).
                            bindr (wClose from w3) (\<lambda>w4.
                            bindr (wClose to w4) (\<lambda>w5.
                              if ok then
                                Inr (None, entry\<lparr>qeState := (qeState entry OR QUEUE_STATE_FINISHED) AND NOT QUEUE_STATE_QUEUED\<rparr>, w5)
                              else
                                Inr (Some (StrError (dkErrno (wDisk w5))),
                                     entry\<lparr>qeState := (qeState entry OR QUEUE_STATE_FAILED) AND NOT QUEUE_STATE_QUEUED\<rparr>, w5))))))))
      | _ \<Rightarrow> Inl NullDereference)"

text \<open>What all three begin with: the entry is still to do, and the status of the destination.\<close>

definition withDestination ::
    "QueueEntry \<Rightarrow> World \<Rightarrow> (SiteFileMeta \<Rightarrow> World \<Rightarrow> (ClientErr option \<times> QueueEntry \<times> World) res) \<Rightarrow>
     (ClientErr option \<times> QueueEntry \<times> World) res" where
  "withDestination entry w k =
     (if qeState entry AND QUEUE_STATE_QUEUED = 0 then Inr (Some ErrQueueEntryNotReady, entry, w)
      else (case qeDestinationPath entry of
              None \<Rightarrow> Inl NullDereference
            | Some toPath \<Rightarrow>
                bindr (wStat (qeDestinationSite entry) toPath w) (\<lambda>(m, w1).
                  case m of None \<Rightarrow> Inr (Some ErrUnableToResolvePath, entry, w1) | Some meta \<Rightarrow> k meta w1)))"

definition queueEntryDownloadNoClobber :: "QueueEntry \<Rightarrow> World \<Rightarrow> (ClientErr option \<times> QueueEntry \<times> World) res" where
  "queueEntryDownloadNoClobber entry w =
     withDestination entry w (\<lambda>toMeta w1.
       if smType toMeta \<noteq> SITE_FILE_TYPE_NOTHING then Inr (Some (StrError EEXIST), entry, w1)
       else downloadBody entry w1)"

definition queueEntryDownloadMirror :: "QueueEntry \<Rightarrow> World \<Rightarrow> (ClientErr option \<times> QueueEntry \<times> World) res" where
  "queueEntryDownloadMirror entry w = withDestination entry w (\<lambda>toMeta w1. downloadBody entry w1)"

definition queueEntryDownloadUpdate :: "QueueEntry \<Rightarrow> World \<Rightarrow> (ClientErr option \<times> QueueEntry \<times> World) res" where
  "queueEntryDownloadUpdate entry w =
     withDestination entry w (\<lambda>toMeta w1.
       if smType toMeta = SITE_FILE_TYPE_NOTHING then downloadBody entry w1
       else (case qeSourcePath entry of
               None \<Rightarrow> Inl NullDereference
             | Some fromPath \<Rightarrow>
                 bindr (wStat (qeSourceSite entry) fromPath w1) (\<lambda>(m, w2).
                   case m of
                     None \<Rightarrow> downloadBody entry w2
                   | Some fromMeta \<Rightarrow>
                       if smType fromMeta = SITE_FILE_TYPE_NOTHING then downloadBody entry w2
                       else (case (smModifiedDate toMeta, smModifiedDate fromMeta) of
                               (Some t, Some f) \<Rightarrow>
                                 if 0 \<le> platformTimeStructCompare t f then
                                   Inr (None, entry\<lparr>qeState := (qeState entry OR QUEUE_STATE_FINISHED) AND NOT QUEUE_STATE_QUEUED\<rparr>, w2)
                                 else downloadBody entry w2
                             | _ \<Rightarrow> Inl NullDereference))))"

section \<open>The contract between the ends of a download\<close>

text \<open>
  What the copying loop relies on: the source gives what is left of the file in order and, as long as
  there is any, some of it at every call; the destination takes what there is room for. Neither
  disturbs the other.
\<close>

locale file_transfer =
  fixes left :: "'w \<Rightarrow> string"
    and stored :: "'w \<Rightarrow> string"
    and room :: "'w \<Rightarrow> nat"
    and good :: "'w \<Rightarrow> bool"
    and rd :: "'w \<Rightarrow> (string option \<times> 'w) res"
    and wr :: "string \<Rightarrow> 'w \<Rightarrow> (nat option \<times> 'w) res"
  assumes rd_moves: "good w \<Longrightarrow> \<exists>d w1. rd w = Inr (Some d, w1) \<and> good w1 \<and> left w = d @ left w1 \<and> (left w \<noteq> [] \<longrightarrow> d \<noteq> []) \<and>
                      stored w1 = stored w \<and> room w1 = room w"
    and wr_moves: "good w \<Longrightarrow> \<exists>n w1. wr d w = Inr (Some n, w1) \<and> good w1 \<and> stored w1 = stored w @ take (room w) d \<and>
                      left w1 = left w \<and> room w1 = room w - length d"
begin

lemma copyLoop_copies:
  "good w \<Longrightarrow> length (left w) \<le> fuel \<Longrightarrow>
   \<exists>w1. copyLoop rd atEnd wr fuel w = Inr (True, w1) \<and> good w1 \<and> left w1 = [] \<and> stored w1 = stored w @ take (room w) (left w)"
proof (induction fuel arbitrary: w)
  case 0
  then obtain w1 where "rd w = Inr (Some [], w1)" "good w1" "left w1 = []" "stored w1 = stored w" "left w = []"
    using rd_moves [OF "0.prems"(1)] by auto
  then show ?case by (simp add: copyLoop.simps)
next
  case (Suc k)
  obtain d w1 where 1: "rd w = Inr (Some d, w1)" "good w1" "left w = d @ left w1" "left w \<noteq> [] \<longrightarrow> d \<noteq> []"
    "stored w1 = stored w" "room w1 = room w" using rd_moves [OF Suc.prems(1)] by blast
  show ?case
  proof (cases "d = []")
    case True
    with 1 show ?thesis by (auto simp: copyLoop.simps)
  next
    case False
    obtain n w2 where 2: "wr d w1 = Inr (Some n, w2)" "good w2" "stored w2 = stored w1 @ take (room w1) d" "left w2 = left w1"
      "room w2 = room w1 - length d" using wr_moves [OF 1(2)] by blast
    have "length (left w2) \<le> k" using 1(3) 2(4) Suc.prems(2) False by (cases d) auto
    from Suc.IH [OF 2(2) this] obtain w3 where 3: "copyLoop rd atEnd wr k w2 = Inr (True, w3)" "good w3" "left w3 = []"
      "stored w3 = stored w2 @ take (room w2) (left w2)" by blast
    have "copyLoop rd atEnd wr (Suc k) w = Inr (True, w3)"
      using 1(1) 2(1) 3(1) False by (simp add: copyLoop.simps [of _ _ _ "Suc k"])
    with 1 2 3 show ?thesis by auto
  qed
qed

end

section \<open>From an HTTP site to a file\<close>

definition incoming :: "SitePtr option \<Rightarrow> World \<Rightarrow> string" where
  "incoming p w = (case siteAt (wSites w) p of Inr (SITE_HTTP k s) \<Rightarrow> bodyLeft s | _ \<Rightarrow> [])"

definition storedAt :: "string \<Rightarrow> World \<Rightarrow> string" where
  "storedAt path w = diskContent (wDisk w) path"

definition roomLeft :: "World \<Rightarrow> nat" where
  "roomLeft w = dkRoom (wDisk w)"

text \<open>The file site has the file open for writing, at its end.\<close>

definition sinkReady :: "string \<Rightarrow> Disk \<Rightarrow> FileSite \<Rightarrow> bool" where
  "sinkReady path dk fs \<longleftrightarrow>
     (\<exists>pf c t. fsFile fs = Some pf \<and> pfPath pf = path \<and> pfWrites pf \<and> \<not> pfAppends pf \<and>
        dkNode dk path = Some (FileNode c t) \<and> pfPos pf = length c)"

definition transferReady :: "SitePtr option \<Rightarrow> SitePtr option \<Rightarrow> string \<Rightarrow> World \<Rightarrow> bool" where
  "transferReady p q path w \<longleftrightarrow>
     (\<exists>i j k s m fs. p = Some (saBlock (wSites w), i) \<and> q = Some (saBlock (wSites w), j) \<and> i \<noteq> j \<and>
        i < length (saArray (wSites w)) \<and> j < length (saArray (wSites w)) \<and>
        saArray (wSites w) ! i = SITE_HTTP k s \<and> httpReady (hsSocket s) \<and>
        saArray (wSites w) ! j = SITE_FILE m fs \<and> sinkReady path (wDisk w) fs)"

lemma siteAt_set [simp]:
  "siteAt (setSiteAt sites p s) q = (if p = q \<and> (\<exists>x. siteAt sites q = Inr x) then Inr s else siteAt sites q)"
  by (auto simp: siteAt_def setSiteAt_def nth_list_update split: option.splits prod.splits)

lemma sink_writes:
  assumes "sinkReady path dk fs"
  shows "\<exists>n fs1 dk1. fileSiteSchemeFileWrite dk fs d = Inr (n, fs1, dk1) \<and> sinkReady path dk1 fs1 \<and>
           diskContent dk1 path = diskContent dk path @ take (dkRoom dk) d \<and> dkRoom dk1 = dkRoom dk - length d"
  using assms by (auto simp: sinkReady_def fileSiteSchemeFileWrite_def platformFileWrite_def diskContent_def Let_def min_def)

lemma wRead_http:
  assumes "transferReady p q path w"
  shows "\<exists>d w1. wRead p w = Inr (Some d, w1) \<and> transferReady p q path w1 \<and> incoming p w = d @ incoming p w1 \<and>
           (incoming p w \<noteq> [] \<longrightarrow> d \<noteq> []) \<and> storedAt path w1 = storedAt path w \<and> roomLeft w1 = roomLeft w"
proof -
  from assms obtain i j k s m fs where w: "p = Some (saBlock (wSites w), i)" "q = Some (saBlock (wSites w), j)" "i \<noteq> j"
    "i < length (saArray (wSites w))" "j < length (saArray (wSites w))" "saArray (wSites w) ! i = SITE_HTTP k s"
    "httpReady (hsSocket s)" "saArray (wSites w) ! j = SITE_FILE m fs" "sinkReady path (wDisk w) fs"
    by (auto simp: transferReady_def)
  have at: "siteAt (wSites w) p = Inr (SITE_HTTP k s)" using w by (simp add: siteAt_def)
  from httpRead_ready [OF w(7), of SB_DATA_SIZE] obtain d s1 where r: "httpSiteSchemeFileRead s SB_DATA_SIZE = Inr (Some d, s1)"
    "httpReady (hsSocket s1)" "bodyLeft s = d @ bodyLeft s1" "bodyLeft s \<noteq> [] \<longrightarrow> d \<noteq> []" by (auto simp: SB_DATA_SIZE_def)
  let ?w = "putSite w p (SITE_HTTP k s1) (wDisk w)"
  have "wRead p w = Inr (Some d, ?w)" using at r(1) by (simp add: wRead_def)
  moreover have "transferReady p q path ?w"
    using w r(2) by (auto simp: transferReady_def putSite_def setSiteAt_def)
  moreover have "incoming p w = bodyLeft s" "incoming p ?w = bodyLeft s1"
    using at by (auto simp: incoming_def putSite_def)
  moreover have "storedAt path ?w = storedAt path w" "roomLeft ?w = roomLeft w" by (simp_all add: storedAt_def roomLeft_def putSite_def)
  ultimately show ?thesis using r(3,4) by auto
qed

lemma wWrite_file:
  assumes "transferReady p q path w"
  shows "\<exists>n w1. wWrite q d w = Inr (Some n, w1) \<and> transferReady p q path w1 \<and> storedAt path w1 = storedAt path w @ take (roomLeft w) d \<and>
           incoming p w1 = incoming p w \<and> roomLeft w1 = roomLeft w - length d"
proof -
  from assms obtain i j k s m fs where w: "p = Some (saBlock (wSites w), i)" "q = Some (saBlock (wSites w), j)" "i \<noteq> j"
    "i < length (saArray (wSites w))" "j < length (saArray (wSites w))" "saArray (wSites w) ! i = SITE_HTTP k s"
    "httpReady (hsSocket s)" "saArray (wSites w) ! j = SITE_FILE m fs" "sinkReady path (wDisk w) fs"
    by (auto simp: transferReady_def)
  have at: "siteAt (wSites w) q = Inr (SITE_FILE m fs)" "siteAt (wSites w) p = Inr (SITE_HTTP k s)" using w by (simp_all add: siteAt_def)
  from sink_writes [OF w(9), of d] obtain n fs1 dk1 where r: "fileSiteSchemeFileWrite (wDisk w) fs d = Inr (n, fs1, dk1)"
    "sinkReady path dk1 fs1" "diskContent dk1 path = diskContent (wDisk w) path @ take (dkRoom (wDisk w)) d"
    "dkRoom dk1 = dkRoom (wDisk w) - length d" by blast
  let ?w = "putSite w q (SITE_FILE m fs1) dk1"
  have "wWrite q d w = Inr (Some n, ?w)" using at r(1) by (simp add: wWrite_def)
  moreover have "transferReady p q path ?w"
    using w r(2) by (auto simp: transferReady_def putSite_def setSiteAt_def)
  moreover have "incoming p ?w = incoming p w" using at w(1-3) by (auto simp: incoming_def putSite_def)
  ultimately show ?thesis using r(3,4) by (auto simp: storedAt_def roomLeft_def putSite_def)
qed

interpretation http_to_file: file_transfer "incoming p" "storedAt path" roomLeft "transferReady p q path" "wRead p" "wWrite q"
  for p q path
  by unfold_locales (use wRead_http wWrite_file in blast)+

section \<open>Downloads are complete\<close>

lemma openWrite_sink:
  assumes "ResolveToSystemPath (fsFullUri fs) toPath = Inr (Some path)" "dkRefuse dk path ''wb'' = None"
    "case dkNode dk path of None \<Rightarrow> True | Some nd \<Rightarrow> \<exists>c t. nd = FileNode c t"
  shows "\<exists>fs1 dk1. fileSiteSchemeFileOpenWrite dk fs toPath = Inr (None, fs1, dk1) \<and> sinkReady path dk1 fs1 \<and>
           diskContent dk1 path = [] \<and> dkRoom dk1 = dkRoom dk"
proof -
  let ?dk = "dk\<lparr>dkNode := (dkNode dk)(path \<mapsto> FileNode [] (dkNow dk))\<rparr>"
  let ?f = "\<lparr>pfPath = path, pfPos = 0, pfWrites = True, pfAppends = False, pfEof = False\<rparr>"
  let ?fs = "fs\<lparr>fsFile := Some ?f, fsMeta := FillFileMeta ?dk path emptyMeta\<rparr>"
  have "platformFileOpen dk path ''wb'' = (Some ?f, ?dk)"
    using assms(2,3) by (auto simp: platformFileOpen_def Let_def split: option.splits)
  then have "fileSiteSchemeFileOpenWrite dk fs toPath = Inr (None, ?fs, ?dk)"
    using assms(1) by (simp add: fileSiteSchemeFileOpenWrite_def FileOpen_def fileSiteSchemeFileClose_def Let_def)
  then show ?thesis by (simp add: sinkReady_def diskContent_def)
qed

text \<open>
  The setting of a download that can succeed: the source is an HTTP site whose connection will answer
  with a response that carries its length and is an attachment, and the destination is a file site on
  which the path can be opened for writing.
\<close>

definition fetchable :: "QueueEntry \<Rightarrow> World \<Rightarrow> string \<Rightarrow> string \<Rightarrow> nat \<Rightarrow> HttpResponseHeader \<Rightarrow> bool" where
  "fetchable entry w path rest t hr \<longleftrightarrow>
     (\<exists>i j k s m fs cur rp fromPath toPath.
        qeSourceSite entry = Some (saBlock (wSites w), i) \<and> qeDestinationSite entry = Some (saBlock (wSites w), j) \<and> i \<noteq> j \<and>
        i < length (saArray (wSites w)) \<and> j < length (saArray (wSites w)) \<and>
        saArray (wSites w) ! i = SITE_HTTP k s \<and> saArray (wSites w) ! j = SITE_FILE m fs \<and>
        qeSourcePath entry = Some fromPath \<and> qeDestinationPath entry = Some toPath \<and>
        askable s rest \<and> lengthResponse rest t hr \<and>
        uPath (uriDetailsNewFrom (hsFullUri s)) = Some cur \<and> uriPathAbsoluteAppend cur fromPath = Inr (Some rp) \<and>
        hrProtocol hr AND HTTP_CONTENT_ATTACHMENT \<noteq> 0 \<and> openName rp (hrFileName hr) \<noteq> None \<and>
        ResolveToSystemPath (fsFullUri fs) toPath = Inr (Some path) \<and> dkRefuse (wDisk w) path ''wb'' = None \<and>
        (case dkNode (wDisk w) path of None \<Rightarrow> True | Some nd \<Rightarrow> \<exists>c t. nd = FileNode c t))"

lemma wClose_keeps:
  assumes "siteAt (wSites w) p = Inr s"
  shows "\<exists>w1. wClose p w = Inr w1 \<and> wDisk w1 = wDisk w \<and> (\<forall>q x. siteAt (wSites w) q = Inr x \<longrightarrow> (\<exists>y. siteAt (wSites w1) q = Inr y))"
  using assms by (auto simp: wClose_def putSite_def)

lemma downloadBody_stores:
  assumes "fetchable entry w path rest t hr"
  shows "\<exists>w1. downloadBody entry w =
           Inr (None, entry\<lparr>qeState := (qeState entry OR QUEUE_STATE_FINISHED) AND NOT QUEUE_STATE_QUEUED\<rparr>, w1) \<and>
           diskContent (wDisk w1) path = take (dkRoom (wDisk w)) (drop (t + 4) rest)"
proof -
  from assms obtain i j k s m fs cur rp fromPath toPath where a:
    "qeSourceSite entry = Some (saBlock (wSites w), i)" "qeDestinationSite entry = Some (saBlock (wSites w), j)" "i \<noteq> j"
    "i < length (saArray (wSites w))" "j < length (saArray (wSites w))"
    "saArray (wSites w) ! i = SITE_HTTP k s" "saArray (wSites w) ! j = SITE_FILE m fs"
    "qeSourcePath entry = Some fromPath" "qeDestinationPath entry = Some toPath"
    "askable s rest" "lengthResponse rest t hr"
    "uPath (uriDetailsNewFrom (hsFullUri s)) = Some cur" "uriPathAbsoluteAppend cur fromPath = Inr (Some rp)"
    "hrProtocol hr AND HTTP_CONTENT_ATTACHMENT \<noteq> 0" "openName rp (hrFileName hr) \<noteq> None"
    "ResolveToSystemPath (fsFullUri fs) toPath = Inr (Some path)" "dkRefuse (wDisk w) path ''wb'' = None"
    "case dkNode (wDisk w) path of None \<Rightarrow> True | Some nd \<Rightarrow> \<exists>c t. nd = FileNode c t"
    unfolding fetchable_def by blast
  let ?p = "qeSourceSite entry" and ?q = "qeDestinationSite entry"
  have at: "siteAt (wSites w) ?p = Inr (SITE_HTTP k s)" "siteAt (wSites w) ?q = Inr (SITE_FILE m fs)" "?p \<noteq> ?q"
    using a(1-7) by (simp_all add: siteAt_def)
  obtain s1 f where o: "httpSiteSchemeFileOpenRead s fromPath (-1) (-1) = Inr (None, s1)" "httpReady (hsSocket s1)"
    "bodyLeft s1 = drop (t + 4) rest" "hsFile s1 = Some f" "smName (hoMeta f) = openName rp (hrFileName hr)"
    "smType (hoMeta f) = SITE_FILE_TYPE_FILE"
    using openRead_ready [OF a(10-13), of "-1" "-1"] a(14) by auto
  let ?w1 = "putSite w ?p (SITE_HTTP k s1) (wDisk w)"
  have w1: "wOpenRead ?p fromPath w = Inr (None, ?w1)" using at(1) o(1) by (simp add: wOpenRead_def)
  have at1: "siteAt (wSites ?w1) ?p = Inr (SITE_HTTP k s1)" "siteAt (wSites ?w1) ?q = Inr (SITE_FILE m fs)"
    using at by (auto simp: putSite_def)
  have meta: "wOpenMeta ?p ?w1 = Inr (Some (hoMeta f))" using at1(1) o(4) by (simp add: wOpenMeta_def)
  obtain fs1 dk1 where wr: "fileSiteSchemeFileOpenWrite (wDisk w) fs toPath = Inr (None, fs1, dk1)" "sinkReady path dk1 fs1"
    "diskContent dk1 path = []" "dkRoom dk1 = dkRoom (wDisk w)" using openWrite_sink [OF a(16-18)] by blast
  let ?w2 = "putSite ?w1 ?q (SITE_FILE m fs1) dk1"
  have w2: "wOpenWrite ?q toPath ?w1 = Inr (None, ?w2)" using at1(2) wr(1) by (simp add: wOpenWrite_def putSite_def)
  have at2: "siteAt (wSites ?w2) ?p = Inr (SITE_HTTP k s1)" "siteAt (wSites ?w2) ?q = Inr (SITE_FILE m fs1)"
    using at1 at(3) by (auto simp: putSite_def)
  have ready: "transferReady ?p ?q path ?w2"
    unfolding transferReady_def using a(1-7) o(2) wr(2)
    by (intro exI [of _ i] exI [of _ j] exI [of _ k] exI [of _ s1] exI [of _ m] exI [of _ fs1])
      (simp add: putSite_def setSiteAt_def)
  have inc: "incoming ?p ?w2 = drop (t + 4) rest" using at2(1) o(3) by (simp add: incoming_def)
  have budget: "length (incoming ?p ?w2) \<le> readBudget ?p ?w2" using at2(1) by (simp add: incoming_def readBudget_def bodyLeft_def)
  obtain w3 where w3: "copyLoop (wRead ?p) (wAtEnd ?p) (wWrite ?q) (readBudget ?p ?w2) ?w2 = Inr (True, w3)"
    "transferReady ?p ?q path w3" "storedAt path w3 = storedAt path ?w2 @ take (roomLeft ?w2) (incoming ?p ?w2)"
    using http_to_file.copyLoop_copies [OF ready budget, of "wAtEnd ?p"] by blast
  obtain x y where "siteAt (wSites w3) ?p = Inr x" "siteAt (wSites w3) ?q = Inr y"
    using w3(2) by (auto simp: transferReady_def siteAt_def)
  then obtain w4 y4 where w4: "wClose ?p w3 = Inr w4" "wDisk w4 = wDisk w3" "siteAt (wSites w4) ?q = Inr y4"
    using wClose_keeps by metis
  then obtain w5 where w5: "wClose ?q w4 = Inr w5" "wDisk w5 = wDisk w4" using wClose_keeps by metis
  have "downloadBody entry w = Inr (None, entry\<lparr>qeState := (qeState entry OR QUEUE_STATE_FINISHED) AND NOT QUEUE_STATE_QUEUED\<rparr>, w5)"
    using a(8,9,15) w1 meta o(5,6) w2 w3(1) w4(1) w5(1) by (auto simp: downloadBody_def Let_def)
  moreover have "diskContent (wDisk w5) path = take (dkRoom (wDisk w)) (drop (t + 4) rest)"
    using w3(3) w4(2) w5(2) wr(3,4) inc by (simp add: storedAt_def roomLeft_def putSite_def)
  ultimately show ?thesis by blast
qed

text \<open>The status of the destination leaves sites and disk as they are.\<close>

lemma stat_file:
  assumes "fetchable entry w path rest t hr"
  shows "\<exists>toPath. qeDestinationPath entry = Some toPath \<and> wStat (qeDestinationSite entry) toPath w = Inr (Some (FillFileMeta (wDisk w) path emptyMeta), w)"
proof -
  from assms obtain i j k s m fs toPath where a: "qeDestinationSite entry = Some (saBlock (wSites w), j)"
    "j < length (saArray (wSites w))" "saArray (wSites w) ! j = SITE_FILE m fs" "qeDestinationPath entry = Some toPath"
    "ResolveToSystemPath (fsFullUri fs) toPath = Inr (Some path)" unfolding fetchable_def by blast
  have "siteAt (wSites w) (qeDestinationSite entry) = Inr (SITE_FILE m fs)" using a by (simp add: siteAt_def)
  moreover have "setSiteAt (wSites w) (qeDestinationSite entry) (SITE_FILE m fs) = wSites w"
    using a(1-3) list_update_id [of "saArray (wSites w)" j] by (simp add: setSiteAt_def)
  ultimately show ?thesis using a(4,5) by (simp add: wStat_def fileSiteSchemeStatOpenMeta_def putSite_def)
qed

lemma mirror_stores:
  assumes "fetchable entry w path rest t hr" "qeState entry AND QUEUE_STATE_QUEUED \<noteq> 0"
  shows "\<exists>w1. queueEntryDownloadMirror entry w =
           Inr (None, entry\<lparr>qeState := (qeState entry OR QUEUE_STATE_FINISHED) AND NOT QUEUE_STATE_QUEUED\<rparr>, w1) \<and>
           diskContent (wDisk w1) path = take (dkRoom (wDisk w)) (drop (t + 4) rest)"
proof -
  from stat_file [OF assms(1)] obtain toPath where s: "qeDestinationPath entry = Some toPath"
    "wStat (qeDestinationSite entry) toPath w = Inr (Some (FillFileMeta (wDisk w) path emptyMeta), w)" by blast
  with assms(2) have "queueEntryDownloadMirror entry w = downloadBody entry w"
    by (simp add: queueEntryDownloadMirror_def withDestination_def)
  with downloadBody_stores [OF assms(1)] show ?thesis by simp
qed

text \<open>
  C2. A download in mirror mode: whatever pieces the response arrives in, the file on the disk holds
  the body of the response afterwards, byte for byte, and the entry counts as finished. The copying
  ends by itself.
\<close>

theorem queueEntryDownloadMirror_complete:
  assumes "fetchable entry w path rest t hr" "qeState entry AND QUEUE_STATE_QUEUED \<noteq> 0"
    "length (drop (t + 4) rest) \<le> dkRoom (wDisk w)"
  shows "\<exists>entry1 w1. queueEntryDownloadMirror entry w = Inr (None, entry1, w1) \<and>
           diskContent (wDisk w1) path = drop (t + 4) rest \<and>
           qeState entry1 = (qeState entry OR QUEUE_STATE_FINISHED) AND NOT QUEUE_STATE_QUEUED"
  using mirror_stores [OF assms(1,2)] assms(3) by (metis (no_types, lifting) QueueEntry.select_convs(5) QueueEntry.surjective QueueEntry.update_convs(5) take_all)

text \<open>
  The same download on a disk that gets full: the file ends where the room ended, and the entry
  still counts as finished, because a count of bytes less than asked for is not noticed.
\<close>

theorem queueEntryDownloadMirror_disk_full:
  assumes "fetchable entry w path rest t hr" "qeState entry AND QUEUE_STATE_QUEUED \<noteq> 0"
    "dkRoom (wDisk w) < length (drop (t + 4) rest)"
  shows "\<exists>entry1 w1. queueEntryDownloadMirror entry w = Inr (None, entry1, w1) \<and>
           diskContent (wDisk w1) path = take (dkRoom (wDisk w)) (drop (t + 4) rest) \<and>
           diskContent (wDisk w1) path \<noteq> drop (t + 4) rest"
proof -
  have "take (dkRoom (wDisk w)) (drop (t + 4) rest) \<noteq> drop (t + 4) rest"
    using assms(3) by (metis length_take min.absorb4 nat_neq_iff)
  with mirror_stores [OF assms(1,2)] show ?thesis by auto
qed

section \<open>An example\<close>

definition exampleReply :: string where
  "exampleReply = ''HTTP/1.1 200 OK'' @ HTTP_EOL @ ''Content-Length: 5'' @ HTTP_EOL @
     ''Content-Disposition: attachment; filename=_x'' @ HTTP_EOL @ HTTP_EOL @ ''hello''"

definition exampleHeader :: HttpResponseHeader where
  "exampleHeader = \<lparr>hrModifiedDate = None, hrLength = 5, hrFileName = Some ''x'', hrProtocol = HTTP_CONTENT_ATTACHMENT\<rparr>"

lemma example_needles:
  "platformStringFindNeedle (take 82 exampleReply) ''Transfer-Encoding'' = None"
  "platformStringFindNeedle (take 82 exampleReply) ''content-length'' = Some 17"
  "platformStringFindNeedle (take 82 exampleReply) ''Last-Modified'' = None"
  "platformStringFindNeedle (take 82 exampleReply) ''Content-Disposition'' = Some 36"
  "platformStringFindNeedle ''attachment; filename=_x'' ''attachment'' = Some 0"
  "platformStringFindNeedle ''attachment; filename=_x'' ''filename'' = Some 12"
  unfolding platformStringFindNeedle_upper by code_simp+

lemma example_marks:
  "strchr_from (take 82 exampleReply) 17 (CHR '':'') = Some 31" "strchr_from (take 82 exampleReply) 31 CR = Some 34"
  "strchr_from (take 82 exampleReply) 36 (CHR '':'') = Some 55" "strchr_from (take 82 exampleReply) 55 CR = Some 80"
  "chC (take 82 exampleReply) 35 = LF" "chC (take 82 exampleReply) 81 = LF"
  by code_simp+

lemma example_values:
  "(let s1 = 31 + 1 + length (takeWhile (\<lambda>c. c = CHR '' '') (drop (31 + 1) (take 82 exampleReply)))
    in substr (take 82 exampleReply) s1 34) = ''5''"
  "(let s1 = 55 + 1 + length (takeWhile (\<lambda>c. c = CHR '' '') (drop (55 + 1) (take 82 exampleReply)))
    in substr (take 82 exampleReply) s1 80) = ''attachment; filename=_x''"
  by code_simp+

lemma example_fields:
  "ioHttpResponseHeaderFind (take 82 exampleReply) ''Transfer-Encoding'' = None"
  "ioHttpResponseHeaderFind (take 82 exampleReply) ''content-length'' = Some ''5''"
  "ioHttpResponseHeaderFind (take 82 exampleReply) ''Last-Modified'' = None"
  "ioHttpResponseHeaderFind (take 82 exampleReply) ''Content-Disposition'' = Some ''attachment; filename=_x''"
  using example_values by (simp_all add: ioHttpResponseHeaderFind_def example_needles example_marks)

lemma example_length: "HttpGetContentLength (take 82 exampleReply) 0 = (None, 5)"
  by (simp only: HttpGetContentLength_def example_fields option.case) code_simp

lemma example_disposition:
  "populateDisposition ''attachment; filename=_x'' (emptyResponseHeader\<lparr>hrLength := 5\<rparr>) = Inr exampleHeader"
proof -
  have "dispositionName ''attachment; filename=_x'' 12 None = Inr (Some ''x'')" by code_simp
  then show ?thesis
    by (simp add: populateDisposition_def Let_def example_needles emptyResponseHeader_def exampleHeader_def
        HTTP_CONTENT_ATTACHMENT_def)
qed

lemma example_response: "lengthResponse exampleReply 80 exampleHeader"
proof -
  have "strstr exampleReply (HTTP_EOL @ HTTP_EOL) = Some 80" "NUL \<notin> set (take 84 exampleReply)"
    "ioHttpResponseHeaderEssential (take 82 exampleReply) \<noteq> None" "drop 84 exampleReply = ''hello''" "length exampleReply = 89"
    by code_simp+
  moreover have "HeadersPopulate (take 82 exampleReply) emptyResponseHeader = Inr exampleHeader"
    using example_disposition
    by (simp add: HeadersPopulate_def example_fields example_length emptyResponseHeader_def)
  ultimately show ?thesis
    by (simp add: lengthResponse_def exampleHeader_def HTTP_CONTENT_ATTACHMENT_def HTTP_CHUCKED_MODE_def)
qed

text \<open>An HTTP site that answers in three pieces, and a file site on a disk without files.\<close>

definition exampleHttpSite :: HttpSite where
  "exampleHttpSite = \<lparr>hsFullUri = Some ''http://h/'', hsFile = None,
     hsSocket = exampleBuffer (exampleLink [take 10 exampleReply, [], drop 10 exampleReply])\<rparr>"

definition exampleDisk :: "nat \<Rightarrow> Disk" where
  "exampleDisk room = \<lparr>dkNode = Map.empty, dkRealpath = Some, dkRefuse = (\<lambda>_ _. None), dkStatErr = (\<lambda>_. ENOENT),
     dkCwd = Some ''/d'', dkRoom = room, dkErrno = ENOENT, dkNow = emptyTime\<rparr>"

definition exampleWorld :: "nat \<Rightarrow> World" where
  "exampleWorld room =
     \<lparr>wSites = \<lparr>saActiveRead = 0, saActiveWrite = 1,
                saArray = [SITE_HTTP 0 exampleHttpSite,
                           SITE_FILE 1 \<lparr>fsFullUri = Some ''file:///d'', fsFile = None, fsMeta = emptyMeta\<rparr>],
                saBlock = 0\<rparr>,
      wDisk = exampleDisk room\<rparr>"

definition exampleEntry :: QueueEntry where
  "exampleEntry = \<lparr>qeSourceSite = Some (0, 0), qeDestinationSite = Some (0, 1), qeSourcePath = Some ''/x'',
     qeDestinationPath = Some ''/d/x'', qeState = QUEUE_STATE_QUEUED\<rparr>"

lemma example_fetchable: "fetchable exampleEntry (exampleWorld room) ''/d/x'' exampleReply 80 exampleHeader"
proof -
  have p: "uPath (uriDetailsNewFrom (Some ''http://h/'')) = Some ''/''" by code_simp
  have a: "uriPathAbsoluteAppend ''/'' ''/x'' = Inr (Some ''/x'')" "uriPathAbsoluteAppend ''/d'' ''/d/x'' = Inr (Some ''/d/x'')"
    by (simp_all add: uriPathAbsoluteAppend_def chC_def)
  have n: "openName ''/x'' (Some ''x'') \<noteq> None" by (simp add: openName_def split: option.split)
  have k: "askable exampleHttpSite exampleReply"
    by (simp add: askable_def exampleHttpSite_def reusable_def exampleLink_def stRest_def)
  show ?thesis
    unfolding fetchable_def
    by (rule exI [of _ 0], rule exI [of _ 1], rule exI [of _ 0], rule exI [of _ exampleHttpSite], rule exI [of _ 1],
        rule exI [of _ "\<lparr>fsFullUri = Some ''file:///d'', fsFile = None, fsMeta = emptyMeta\<rparr>"], rule exI [of _ "''/''"],
        rule exI [of _ "''/x''"], rule exI [of _ "''/x''"], rule exI [of _ "''/d/x''"])
      (use p a n k example_response in \<open>simp add: exampleEntry_def exampleWorld_def exampleHttpSite_def exampleHeader_def
        HTTP_CONTENT_ATTACHMENT_def ResolveToSystemPath_def platformPathFileSchemePathToSystem_def exampleDisk_def\<close>)
qed

lemma queueEntryDownloadMirror_complete_witness:
  "\<exists>entry1 w1. queueEntryDownloadMirror exampleEntry (exampleWorld 100) = Inr (None, entry1, w1) \<and>
     diskContent (wDisk w1) ''/d/x'' = ''hello''"
proof -
  have d: "drop (80 + 4) exampleReply = ''hello''" by code_simp
  from queueEntryDownloadMirror_complete [OF example_fetchable, of 100] show ?thesis
    unfolding d by (auto simp: exampleEntry_def exampleWorld_def exampleDisk_def QUEUE_STATE_QUEUED_def)
qed

lemma queueEntryDownloadMirror_disk_full_witness:
  "\<exists>entry1 w1. queueEntryDownloadMirror exampleEntry (exampleWorld 2) = Inr (None, entry1, w1) \<and>
     diskContent (wDisk w1) ''/d/x'' = ''he''"
proof -
  have d: "drop (80 + 4) exampleReply = ''hello''" by code_simp
  from queueEntryDownloadMirror_disk_full [OF example_fetchable, of 2] show ?thesis
    unfolding d by (auto simp: exampleEntry_def exampleWorld_def exampleDisk_def QUEUE_STATE_QUEUED_def)
qed

section \<open>Updates go the wrong way\<close>

text \<open>
  C36. An update of a file that exists on both sides: when the source is as old as the destination or
  newer, nothing is downloaded and the entry counts as finished; only when the source is older is the
  destination replaced by it.
\<close>

theorem queueEntryDownloadUpdate_older_only:
  assumes "qeState entry AND QUEUE_STATE_QUEUED \<noteq> 0" "qeDestinationPath entry = Some toPath" "qeSourcePath entry = Some fromPath"
    "wStat (qeDestinationSite entry) toPath w = Inr (Some toMeta, w1)" "smType toMeta \<noteq> SITE_FILE_TYPE_NOTHING"
    "wStat (qeSourceSite entry) fromPath w1 = Inr (Some fromMeta, w2)" "smType fromMeta \<noteq> SITE_FILE_TYPE_NOTHING"
    "smModifiedDate toMeta = Some td" "smModifiedDate fromMeta = Some fd" "validTime td" "validTime fd"
  shows "queueEntryDownloadUpdate entry w =
           (if timeKey td \<le> timeKey fd
            then Inr (None, entry\<lparr>qeState := (qeState entry OR QUEUE_STATE_FINISHED) AND NOT QUEUE_STATE_QUEUED\<rparr>, w2)
            else downloadBody entry w2)"
  using assms platformTimeStructCompare_order [OF assms(10,11)]
  by (auto simp: queueEntryDownloadUpdate_def withDestination_def sgn_if)

text \<open>A disk with an old and a new file.\<close>

definition twoFiles :: World where
  "twoFiles =
     \<lparr>wSites = \<lparr>saActiveRead = 0, saActiveWrite = 0,
                saArray = [SITE_FILE 0 \<lparr>fsFullUri = Some ''file:///'', fsFile = None, fsMeta = emptyMeta\<rparr>], saBlock = 0\<rparr>,
      wDisk = (exampleDisk 100)\<lparr>dkNode := [''/old'' \<mapsto> FileNode ''1994'' epoch1994,
                                         ''/new'' \<mapsto> FileNode ''1995'' (epoch1994\<lparr>tm_year := 95\<rparr>)]\<rparr>\<rparr>"

lemma queueEntryDownloadUpdate_older_only_witness:
  "queueEntryDownloadUpdate \<lparr>qeSourceSite = Some (0, 0), qeDestinationSite = Some (0, 0), qeSourcePath = Some ''/new'',
       qeDestinationPath = Some ''/old'', qeState = QUEUE_STATE_QUEUED\<rparr> twoFiles =
     Inr (None, \<lparr>qeSourceSite = Some (0, 0), qeDestinationSite = Some (0, 0), qeSourcePath = Some ''/new'',
       qeDestinationPath = Some ''/old'', qeState = QUEUE_STATE_FINISHED\<rparr>, twoFiles)"
proof -
  let ?e = "\<lparr>qeSourceSite = Some (0, 0), qeDestinationSite = Some (0, 0), qeSourcePath = Some ''/new'',
       qeDestinationPath = Some ''/old'', qeState = QUEUE_STATE_QUEUED\<rparr>"
  let ?m = "\<lambda>p. FillFileMeta (wDisk twoFiles) p emptyMeta"
  have s: "wStat (Some (0, 0)) p twoFiles = Inr (Some (?m p), twoFiles)" if "p = ''/old'' \<or> p = ''/new''" for p
    using that by (auto simp: wStat_def siteAt_def twoFiles_def fileSiteSchemeStatOpenMeta_def ResolveToSystemPath_def
        uriPathAbsoluteAppend_def chC_def platformPathFileSchemePathToSystem_def putSite_def setSiteAt_def)
  have m: "smType (?m ''/old'') = SITE_FILE_TYPE_FILE" "smModifiedDate (?m ''/old'') = Some epoch1994"
    "smType (?m ''/new'') = SITE_FILE_TYPE_FILE" "smModifiedDate (?m ''/new'') = Some (epoch1994\<lparr>tm_year := 95\<rparr>)"
    by (simp_all add: FillFileMeta_def Let_def platformFileStat_def diskFiles_def twoFiles_def platformFileStatIsFile_def)
  have v: "validTime epoch1994" "validTime (epoch1994\<lparr>tm_year := 95\<rparr>)" "timeKey epoch1994 \<le> timeKey (epoch1994\<lparr>tm_year := 95\<rparr>)"
    by (simp_all add: validTime_def timeKey_def epoch1994_def)
  show ?thesis
    using queueEntryDownloadUpdate_older_only [of ?e "''/old''" "''/new''" twoFiles "?m ''/old''" twoFiles "?m ''/new''" twoFiles
        epoch1994 "epoch1994\<lparr>tm_year := 95\<rparr>"] s m v
    by (simp add: QUEUE_STATE_QUEUED_def QUEUE_STATE_FINISHED_def)
qed

section \<open>The array of entries\<close>

text \<open>Entries are kept apart by their sites and paths; the queue holds none twice.\<close>

definition entryKey :: "QueueEntry \<Rightarrow> SitePtr option \<times> SitePtr option \<times> string option \<times> string option" where
  "entryKey e = (qeDestinationSite e, qeSourceSite e, qeDestinationPath e, qeSourcePath e)"

definition wholeEntry :: "QueueEntry \<Rightarrow> bool" where
  "wholeEntry e \<longleftrightarrow> qeDestinationPath e \<noteq> None \<and> qeSourcePath e \<noteq> None"

definition queueOk :: "QueueEntryArray \<Rightarrow> bool" where
  "queueOk q \<longleftrightarrow> (case q of None \<Rightarrow> True | Some es \<Rightarrow> es \<noteq> [] \<and> distinct (map entryKey es) \<and> (\<forall>e \<in> set es. wholeEntry e))"

lemma findEntry_find:
  assumes "\<forall>e \<in> set es. wholeEntry e" "wholeEntry entry"
  shows "findEntry i es entry =
           Inr (map_option ((+) i) (find (\<lambda>k. entryKey (es ! k) = entryKey entry) [0..<length es]))"
  using assms
proof (induction es arbitrary: i)
  case (Cons e es)
  have shift: "find (\<lambda>k. entryKey ((e # es) ! k) = entryKey entry) (map Suc ks) =
      map_option Suc (find (\<lambda>k. entryKey (es ! k) = entryKey entry) ks)" for ks
    by (induction ks) auto
  have u: "[0..<length (e # es)] = 0 # map Suc [0..<length es]"
    by (simp add: upt_conv_Cons map_Suc_upt del: upt_Suc)
  have c: "map_option ((+) i) (map_option Suc x) = map_option ((+) (i + 1)) x" for x by (cases x) simp_all
  have k: "entryKey e = entryKey entry \<longleftrightarrow> qeDestinationSite e = qeDestinationSite entry \<and> qeSourceSite e = qeSourceSite entry \<and>
      qeDestinationPath e = qeDestinationPath entry \<and> qeSourcePath e = qeSourcePath entry" by (auto simp: entryKey_def)
  obtain d1 s1 d2 s2 where p: "qeDestinationPath e = Some d1" "qeSourcePath e = Some s1"
    "qeDestinationPath entry = Some d2" "qeSourcePath entry = Some s2"
    using Cons.prems by (auto simp: wholeEntry_def)
  have "findEntry i (e # es) entry = (if entryKey e = entryKey entry then Inr (Some i) else findEntry (i + 1) es entry)"
    by (simp add: p k samePath_def)
  moreover have "findEntry (i + 1) es entry =
      Inr (map_option ((+) (i + 1)) (find (\<lambda>k. entryKey (es ! k) = entryKey entry) [0..<length es]))"
    by (rule Cons.IH) (use Cons.prems in auto)
  moreover have "find (\<lambda>k. entryKey ((e # es) ! k) = entryKey entry) [0..<length (e # es)] =
      (if entryKey e = entryKey entry then Some 0
       else map_option Suc (find (\<lambda>k. entryKey (es ! k) = entryKey entry) [0..<length es]))"
    unfolding u using shift [of "[0..<length es]"] by simp
  ultimately show ?case by (simp only: c split: if_splits) (auto simp: option.map_comp o_def)
qed simp

lemma EntrySearch_in:
  assumes "\<forall>e \<in> set es. wholeEntry e" "wholeEntry entry"
  shows "\<exists>f. EntrySearch (Some es) entry = Inr f \<and> (f \<noteq> None \<longleftrightarrow> entryKey entry \<in> entryKey ` set es)"
proof (cases "find (\<lambda>k. entryKey (es ! k) = entryKey entry) [0..<length es]")
  case None
  then have "\<forall>k<length es. entryKey (es ! k) \<noteq> entryKey entry" by (auto simp: find_None_iff)
  then have "entryKey entry \<notin> entryKey ` set es" by (auto simp: in_set_conv_nth)
  with None findEntry_find [OF assms, of 0] show ?thesis by (simp add: EntrySearch_def queueEntryArrayFindNth_def)
next
  case (Some k)
  then have "k < length es" "entryKey (es ! k) = entryKey entry" by (auto simp: find_Some_iff)
  then have "entryKey entry \<in> entryKey ` set es" by (metis image_eqI nth_mem)
  with Some findEntry_find [OF assms, of 0] show ?thesis by (simp add: EntrySearch_def queueEntryArrayFindNth_def)
qed

text \<open>
  Appending keeps the queue free of duplicates, keeps what is in it in its order, and the entry is
  in the queue afterwards.
\<close>

theorem queueEntryArrayAppend_invariant:
  assumes "queueOk q" "wholeEntry entry"
  shows "\<exists>q1. queueEntryArrayAppend q entry = Inr (None, Some q1) \<and> queueOk (Some q1) \<and>
           prefix (case q of None \<Rightarrow> [] | Some es \<Rightarrow> es) q1 \<and> entryKey entry \<in> entryKey ` set q1 \<and>
           entryKey ` set q1 = insert (entryKey entry) (entryKey ` set (case q of None \<Rightarrow> [] | Some es \<Rightarrow> es))"
proof (cases q)
  case None
  with assms(2) show ?thesis by (simp add: queueEntryArrayAppend_def queueOk_def)
next
  case (Some es)
  with assms(1) have es: "es \<noteq> []" "distinct (map entryKey es)" "\<forall>e \<in> set es. wholeEntry e" by (simp_all add: queueOk_def)
  obtain f where f: "EntrySearch (Some es) entry = Inr f" "f \<noteq> None \<longleftrightarrow> entryKey entry \<in> entryKey ` set es"
    using EntrySearch_in [OF es(3) assms(2)] by blast
  show ?thesis
  proof (cases "f = None")
    case True
    with f es Some assms(2) show ?thesis by (auto simp: queueEntryArrayAppend_def queueOk_def)
  next
    case False
    with f es Some show ?thesis by (auto simp: queueEntryArrayAppend_def queueOk_def)
  qed
qed

lemma queueEntryArrayAppend_invariant_witness:
  "\<exists>q1. queueEntryArrayAppend (Some [exampleEntry]) (exampleEntry\<lparr>qeSourcePath := Some ''/y''\<rparr>) = Inr (None, Some q1) \<and> queueOk (Some q1)"
  using queueEntryArrayAppend_invariant [of "Some [exampleEntry]" "exampleEntry\<lparr>qeSourcePath := Some ''/y''\<rparr>"]
  by (auto simp: queueOk_def wholeEntry_def exampleEntry_def)

text \<open>
  Removing an entry of a queue of several takes out that entry and leaves the others in their
  order; removing the only one frees its paths twice.
\<close>

theorem queueEntryArrayRemove_one:
  assumes "queueOk (Some es)" "k < length es"
  shows "queueEntryArrayRemove (Some es) (es ! k) =
           (if length es = 1 then Inl UseAfterFree else Inr (None, Some (take k es @ drop (k + 1) es)))"
proof -
  have es: "distinct (map entryKey es)" "\<forall>e \<in> set es. wholeEntry e" using assms(1) by (simp_all add: queueOk_def)
  have w: "wholeEntry (es ! k)" using es(2) assms(2) by simp
  have "find (\<lambda>j. entryKey (es ! j) = entryKey (es ! k)) [0..<length es] = Some k"
  proof -
    have "entryKey (es ! j) \<noteq> entryKey (es ! k)" if "j < k" for j
      using es(1) assms(2) that by (auto simp: distinct_conv_nth)
    with assms(2) show ?thesis
      by (intro find_Some_iff [THEN iffD2] exI [of _ k]) auto
  qed
  with findEntry_find [OF es(2) w, of 0] have "queueEntryArrayFindNth (Some es) (es ! k) = Inr (Some k)"
    by (simp add: queueEntryArrayFindNth_def)
  moreover have "length es = 1 \<longleftrightarrow> length es - 1 = 0" using assms(2) by auto
  ultimately show ?thesis using w by (auto simp: queueEntryArrayRemove_def wholeEntry_def)
qed

lemma queueEntryArrayRemove_one_witness:
  "queueEntryArrayRemove (Some [exampleEntry]) exampleEntry = Inl UseAfterFree"
  using queueEntryArrayRemove_one [of "[exampleEntry]" 0] by (simp add: queueOk_def wholeEntry_def exampleEntry_def)

end
