(* ===== verification/Newth_To_Newth.thy ===== *)
theory Newth_To_Newth
  imports Server Queue
begin

text \<open>
  The server and the client together: the header the server writes in front of a file is one the client
  understands, so what the server sends is what the client stores.
\<close>

section \<open>Searching in lines\<close>

lemma prefix_separator: "c \<notin> set n \<Longrightarrow> prefix n (a @ c # b) \<longleftrightarrow> prefix n a"
proof (induction a arbitrary: n)
  case Nil
  then show ?case by (cases n) auto
next
  case (Cons x a)
  then show ?case by (cases n) auto
qed

lemma sublist_separator: "c \<notin> set n \<Longrightarrow> sublist n (a @ c # b) \<longleftrightarrow> sublist n a \<or> sublist n b"
proof (induction a)
  case Nil
  then show ?case using prefix_separator [of c n "[]" b] by (auto simp: sublist_Cons_right)
next
  case (Cons x a)
  then show ?case using prefix_separator [of c n "x # a" b] by (auto simp: sublist_Cons_right)
qed

lemma strstr_separator:
  "c \<notin> set n \<Longrightarrow> \<not> sublist n a \<Longrightarrow> strstr (a @ c # b) n = map_option (\<lambda>i. Suc (length a) + i) (strstr b n)"
proof (induction a)
  case Nil
  then show ?case using prefix_separator [of c n "[]" b] by (cases n) (auto intro: map_option_cong)
next
  case (Cons x a)
  then show ?case using prefix_separator [of c n "x # a" b]
    by (auto simp: sublist_Cons_right option.map_comp comp_def)
qed

lemma strstr_skip: "n \<noteq> [] \<Longrightarrow> hd n \<notin> set a \<Longrightarrow> strstr (a @ b) n = map_option (\<lambda>i. length a + i) (strstr b n)"
proof (induction a)
  case Nil
  then show ?case by (simp add: option.map_ident)
next
  case (Cons x a)
  then have "\<not> prefix n (x # a @ b)" by (cases n) auto
  with Cons show ?case by (simp add: option.map_comp comp_def)
qed

section \<open>Fields of a header\<close>

text \<open>A field is looked for without its case, so nowhere else in the lines in front of it.\<close>

lemma field_missing: "\<not> sublist (upperS needle) (upperS h) \<Longrightarrow> ioHttpResponseHeaderFind h needle = None"
  using strstr_None [of "upperS h" "upperS needle"] by (auto simp: ioHttpResponseHeaderFind_def platformStringFindNeedle_upper)

lemma spaces_end: "takeWhile (\<lambda>c. c = CHR '' '') (v @ CR # b) = takeWhile (\<lambda>c. c = CHR '' '') v"
  by (induction v) auto

lemma field_value:
  assumes "\<not> sublist (upperS needle) (upperS a)" "LF \<notin> set (upperS needle)" "upperS name = upperS needle" "needle \<noteq> []"
    and "CHR '':'' \<notin> set name" "CR \<notin> set v" "h = a @ LF # name @ '': '' @ v @ CR # LF # b"
  shows "ioHttpResponseHeaderFind h needle = Some (dropWhile (\<lambda>c. c = CHR '' '') v)"
proof -
  let ?r = "name @ '': '' @ v @ CR # LF # b"
  have lf: "toupperC LF = LF" by (simp add: toupperC_def islowerC_def)
  have "strstr (upperS ?r) (upperS needle) = Some 0" using assms(3) by (intro strstr_hit) simp
  moreover have "upperS h = upperS a @ LF # upperS ?r" using lf by (simp add: assms(7) upperS_def)
  ultimately have f: "platformStringFindNeedle h needle = Some (length a + 1)"
    using strstr_separator [OF assms(2,1), of "upperS ?r"] assms(4) by (simp add: platformStringFindNeedle_upper)
  have d: "drop (length a + 1) h = ?r" by (simp add: assms(7))
  have s: "strchr_from h (length a + 1) (CHR '':'') = Some (length a + 1 + length name)"
    using strchr_append [OF assms(5), of "CHR '' '' # v @ CR # LF # b"] unfolding strchr_from_def d by simp
  have d2: "drop (length a + 1 + length name) h = '': '' @ v @ CR # LF # b" by (simp add: assms(7))
  have "CR \<notin> set ('': '' @ v)" using assms(6) by simp
  from strchr_append [OF this, of "LF # b"]
  have e: "strchr_from h (length a + 1 + length name) CR = Some (length a + 1 + length name + 2 + length v)"
    unfolding strchr_from_def d2 by simp
  have lf2: "chC h (length a + 1 + length name + 2 + length v + 1) = LF" by (simp add: assms(7) chC_def nth_append)
  have d3: "drop (length a + 1 + length name + 1) h = CHR '' '' # v @ CR # LF # b"
    using arg_cong [OF d2, of "drop 1"] by (simp add: add.commute)
  let ?k = "length (takeWhile (\<lambda>c. c = CHR '' '') v)"
  have tw: "takeWhile (\<lambda>c. c = CHR '' '') (CHR '' '' # v @ CR # LF # b) = CHR '' '' # takeWhile (\<lambda>c. c = CHR '' '') v"
    using spaces_end by simp
  have "substr h (length a + 1 + length name + 1 + Suc ?k) (length a + 1 + length name + 2 + length v) = drop ?k v"
  proof -
    have "drop (length a + 1 + length name + 1 + Suc ?k) h = drop (Suc ?k + 1) (drop (length a + 1 + length name) h)"
      by (simp add: ac_simps)
    also have "\<dots> = drop ?k (v @ CR # LF # b)" unfolding d2 by simp
    finally show ?thesis using length_takeWhile_le [of "\<lambda>c. c = CHR '' ''" v] by (simp add: substr_def)
  qed
  then show ?thesis
    unfolding ioHttpResponseHeaderFind_def f option.case s e lf2 d3 tw Let_def by (simp add: dropWhile_eq_drop)
qed

section \<open>The header of a file\<close>

text \<open>
  What the name of the file and the clock of the server must not contain: a character the header is taken apart
  at, or the dash that all the names of fields have.
\<close>

definition plainText :: "string \<Rightarrow> bool" where
  "plainText s \<longleftrightarrow> CHR ''-'' \<notin> set s \<and> DQUOTE \<notin> set s \<and> CR \<notin> set s \<and> NUL \<notin> set s"

definition headerLines :: "Env \<Rightarrow> string \<Rightarrow> PlatformFileStat \<Rightarrow> string list" where
  "headerLines env web st =
     [HTTP_RES @ '' 200 OK''] @ (if envNoReuse env then [''Connection: close''] else []) @ [''Date: '' @ envNow env,
      ''Content-Disposition: filename='' @ [DQUOTE] @ lastElement web @ [DQUOTE], ''Last-Modified: '' @ dateText (st_mtime st),
      ''Accept-Ranges: bytes'', ''Content-Length: '' @ show_nat (st_size st)]"

lemma fileHeaderText_lines:
  assumes "st_size st < 2 ^ 63"
  shows "fileHeaderText env web st True 0 0 = concat (map (\<lambda>l. l @ HTTP_EOL) (headerLines env web st)) @ HTTP_EOL"
proof -
  have "int (st_size st) mod 2 ^ 64 = int (st_size st)" using assms by simp
  then have "showOffset (int (st_size st)) = show_nat (st_size st)" by (simp only: showOffset_def nat_int)
  then show ?thesis
    by (simp add: fileHeaderText_def headerLines_def responseLine_def noReuseLine_def dateLine_def fileNameLine_def httpHeaderGetResponse_def)
qed

lemma digits_plain: "\<forall>c\<in>set s. isdigitC c \<Longrightarrow> plainText s"
  by (auto simp: plainText_def isdigitC_def)

lemma dateText_plain:
  assumes "validTime t"
  shows "plainText (dateText t) \<and> length (dateText t) \<le> 29"
proof -
  have "plainText (dayNames ! w)" if "w < 7" for w
  proof -
    have "\<forall>w\<in>set [0..<7]. plainText (dayNames ! w)" unfolding plainText_def by code_simp
    with that show ?thesis by auto
  qed
  moreover have "plainText (monthNames ! w)" if "w < 12" for w
  proof -
    have "\<forall>w\<in>set [0..<12]. plainText (monthNames ! w)" unfolding plainText_def by code_simp
    with that show ?thesis by auto
  qed
  moreover have "plainText (show_nat n)" for n using show_nat_digits by (rule digits_plain)
  moreover have "plainText (two_digits n)" if "0 \<le> n" "n < 100" for n
  proof -
    have "nat n div 10 < 10" using that by auto
    then have "\<forall>c\<in>set (two_digits n). isdigitC c" by (simp add: two_digits_def isdigit_dec_digit)
    then show ?thesis by (rule digits_plain)
  qed
  moreover have "nat (tm_wday t) < 7" "nat (tm_mon t) < 12" using assms by (auto simp: validTime_def)
  ultimately have "plainText (dateText t)"
    unfolding dateText_def platformTimeStructToStr_Some [OF assms] using assms by (simp add: plainText_def validTime_def)
  moreover have "length (dateText t) \<le> 29"
    using platformTimeStructToStr_Some [OF assms] by (auto simp: dateText_def platformTimeStructToStr_def Let_def split: if_splits)
  ultimately show ?thesis by simp
qed

lemma upper_names:
  "upperS ''Transfer-Encoding'' = ''TRANSFER-ENCODING''" "upperS ''content-length'' = ''CONTENT-LENGTH''"
  "upperS ''Content-Length'' = ''CONTENT-LENGTH''" "upperS ''Last-Modified'' = ''LAST-MODIFIED''"
  "upperS ''Content-Disposition'' = ''CONTENT-DISPOSITION''" "upperS ''Accept-Ranges'' = ''ACCEPT-RANGES''"
  "upperS ''filename'' = ''FILENAME''" "upperS ''attachment'' = ''ATTACHMENT''"
  by (simp_all add: upperS_def toupperC_def islowerC_def char_of_eq_iff)

lemma toupper_same: "\<not> isupperC c \<Longrightarrow> toupperC d = c \<longleftrightarrow> d = c \<and> \<not> islowerC d"
proof (cases "islowerC d")
  case True
  then have "code (toupperC d) = code d - 32" "97 \<le> code d" "code d \<le> 122" using code_toupperC [of d] by (simp_all add: islowerC_def)
  then have "isupperC (toupperC d)" unfolding isupperC_def by linarith
  with True show "\<not> isupperC c \<Longrightarrow> toupperC d = c \<longleftrightarrow> d = c \<and> \<not> islowerC d" by auto
qed (simp add: toupperC_def)

lemma dash_free:
  assumes "CHR ''-'' \<in> set n" "CHR ''-'' \<notin> set s"
  shows "\<not> sublist n (upperS s)"
proof
  assume "sublist n (upperS s)"
  then have "CHR ''-'' \<in> set (upperS s)" using assms(1) set_mono_sublist by blast
  then obtain d where d: "d \<in> set s" "toupperC d = CHR ''-''" by (auto simp: upperS_def)
  have "\<not> isupperC (CHR ''-'')" by (simp add: isupperC_def)
  from toupper_same [OF this, of d] d assms(2) show False by simp
qed

lemma upper_marks: "toupperC LF = LF" "toupperC CR = CR" "toupperC (CHR '':'') = CHR '':''" "toupperC DQUOTE = DQUOTE"
  by (simp_all add: toupperC_def islowerC_def)

lemma sublist_line:
  "LF \<notin> set n \<Longrightarrow> sublist n (upperS (a @ LF # b)) \<longleftrightarrow> sublist n (upperS a) \<or> sublist n (upperS b)"
  "CHR '':'' \<notin> set n \<Longrightarrow> sublist n (upperS (a @ CHR '':'' # b)) \<longleftrightarrow> sublist n (upperS a) \<or> sublist n (upperS b)"
  "DQUOTE \<notin> set n \<Longrightarrow> sublist n (upperS (a @ DQUOTE # b)) \<longleftrightarrow> sublist n (upperS a) \<or> sublist n (upperS b)"
  using sublist_separator [of LF n "upperS a" "upperS b"] sublist_separator [of "CHR '':''" n "upperS a" "upperS b"]
    sublist_separator [of DQUOTE n "upperS a" "upperS b"] by (simp_all add: upperS_def upper_marks)

text \<open>The name of a field with its value, and the lines of the header around it.\<close>

definition fieldText :: "string \<Rightarrow> string \<Rightarrow> string" where
  "fieldText name v = name @ CHR '':'' # CHR '' '' # v @ [CR]"

lemma sublist_field:
  "CHR '':'' \<notin> set n \<Longrightarrow> CHR ''-'' \<in> set n \<Longrightarrow> CHR ''-'' \<notin> set v \<Longrightarrow>
   sublist n (upperS (fieldText name v)) \<longleftrightarrow> sublist n (upperS name)"
  using dash_free [of n "CHR '' '' # v @ [CR]"] by (simp add: fieldText_def sublist_line(2) del: upperS_append)

lemma other_names:
  "\<not> sublist ''TRANSFER-ENCODING'' ''CONTENT-DISPOSITION''" "\<not> sublist ''TRANSFER-ENCODING'' ''LAST-MODIFIED''"
  "\<not> sublist ''TRANSFER-ENCODING'' ''ACCEPT-RANGES''" "\<not> sublist ''TRANSFER-ENCODING'' ''CONTENT-LENGTH''"
  "\<not> sublist ''LAST-MODIFIED'' ''CONTENT-DISPOSITION''" "\<not> sublist ''CONTENT-LENGTH'' ''CONTENT-DISPOSITION''"
  "\<not> sublist ''CONTENT-LENGTH'' ''LAST-MODIFIED''" "\<not> sublist ''CONTENT-LENGTH'' ''ACCEPT-RANGES''"
  by (simp_all add: sublist_Cons_right)

text \<open>The header in pieces: what comes before the first field with a dash, and the four fields.\<close>

definition headStart :: "Env \<Rightarrow> string" where
  "headStart env = HTTP_RES @ '' 200 OK'' @ HTTP_EOL @ (if envNoReuse env then ''Connection: close'' @ HTTP_EOL else []) @
     ''Date: '' @ envNow env @ [CR]"

definition quoted :: "string \<Rightarrow> string" where
  "quoted name = ''filename='' @ DQUOTE # name @ [DQUOTE]"

lemma header_pieces:
  "concat (map (\<lambda>l. l @ HTTP_EOL) (headerLines env web st)) =
     headStart env @ LF # fieldText ''Content-Disposition'' (quoted (lastElement web)) @
     LF # fieldText ''Last-Modified'' (dateText (st_mtime st)) @
     LF # fieldText ''Accept-Ranges'' ''bytes'' @ LF # fieldText ''Content-Length'' (show_nat (st_size st)) @ [LF]"
  by (simp add: headerLines_def headStart_def fieldText_def quoted_def)

lemma lines_end:
  assumes "ls \<noteq> []" "\<forall>l\<in>set ls. l \<noteq> [] \<and> CR \<notin> set l"
  shows "strstr (concat (map (\<lambda>l. l @ HTTP_EOL) ls) @ HTTP_EOL @ z) (HTTP_EOL @ HTTP_EOL) =
    Some (length (concat (map (\<lambda>l. l @ HTTP_EOL) ls)) - 2)"
  using assms
proof (induction ls)
  case (Cons l ls)
  let ?x = "concat (map (\<lambda>l. l @ HTTP_EOL) ls) @ HTTP_EOL @ z" and ?e = "HTTP_EOL @ HTTP_EOL"
  have skip: "strstr (l @ CR # LF # ?x) ?e = map_option (\<lambda>i. length l + i) (strstr (CR # LF # ?x) ?e)"
    using Cons.prems(2) by (intro strstr_skip) auto
  show ?case
  proof (cases ls)
    case Nil
    with skip show ?thesis by simp
  next
    case (Cons l2 ls2)
    with Cons.prems obtain c k where l2: "l2 = c # k" "c \<noteq> CR" by (cases l2) auto
    have "2 \<le> length (concat (map (\<lambda>l. l @ HTTP_EOL) ls))" using Cons by simp
    moreover have "strstr (CR # LF # ?x) ?e = map_option (\<lambda>i. Suc (Suc i)) (strstr ?x ?e)"
      using Cons l2 by (simp add: option.map_comp comp_def)
    ultimately show ?thesis using skip Cons.IH Cons.prems Cons by simp
  qed
qed simp

lemma quotedName_end: "DQUOTE \<notin> set name \<Longrightarrow> quotedName (name @ [DQUOTE]) = name"
  by (induction name rule: quotedName.induct) auto

lemma disposition_quoted:
  assumes "plainText name" "name \<noteq> []" "platformStringFindNeedle name ''attachment'' = None"
  shows "populateDisposition (quoted name) self =
    Inr (self\<lparr>hrProtocol := hrProtocol self OR HTTP_CONTENT_ATTACHMENT, hrFileName := Some name\<rparr>)"
proof -
  have "\<not> sublist ''ATTACHMENT'' (upperS name)"
    using assms(3) strstr_None [of "upperS name" "''ATTACHMENT''"] by (simp add: platformStringFindNeedle_upper upper_names)
  moreover have e: "upperS ''filename='' = ''FILENAME=''" "\<not> sublist ''ATTACHMENT'' ''FILENAME=''"
    using upper_names(7) by (simp_all add: upperS_def sublist_Cons_right toupperC_def islowerC_def)
  moreover have "sublist ''ATTACHMENT'' (upperS (quoted name)) \<longleftrightarrow>
      sublist ''ATTACHMENT'' (upperS ''filename='') \<or> sublist ''ATTACHMENT'' (upperS name) \<or> sublist ''ATTACHMENT'' (upperS [])"
    unfolding quoted_def using sublist_line(3) [of "''ATTACHMENT''" "''filename=''" "name @ [DQUOTE]"]
      sublist_line(3) [of "''ATTACHMENT''" name "[]"] by (simp only: list.set) simp
  moreover have "upperS [] = []" by (simp add: upperS_def)
  ultimately have "\<not> sublist ''ATTACHMENT'' (upperS (quoted name))" by simp
  then have a: "platformStringFindNeedle (quoted name) ''attachment'' = None"
    using strstr_None [of "upperS (quoted name)" "''ATTACHMENT''"] by (simp add: platformStringFindNeedle_upper upper_names)
  have "strstr (upperS (quoted name)) (upperS ''filename'') = Some 0"
    by (rule strstr_hit) (simp add: quoted_def upperS_def)
  then have f: "platformStringFindNeedle (quoted name) ''filename'' = Some 0" by (simp add: platformStringFindNeedle_upper)
  have "strchr (quoted name) (CHR ''='') = Some 8" by (simp add: quoted_def)
  then have "dispositionName (quoted name) 0 (hrFileName self) = Inr (Some name)"
    using quotedName_end [of name] assms(1,2) by (simp add: dispositionName_def strchr_from_def quoted_def plainText_def)
  then show ?thesis by (simp add: populateDisposition_def a f)
qed

lemma field_text_value:
  assumes "h = a @ LF # fieldText name v @ LF # b" "\<not> sublist (upperS needle) (upperS a)" "LF \<notin> set (upperS needle)"
    "upperS name = upperS needle" "needle \<noteq> []" "CHR '':'' \<notin> set name" "CR \<notin> set v"
  shows "ioHttpResponseHeaderFind h needle = Some (dropWhile (\<lambda>c. c = CHR '' '') v)"
  using assms by (intro field_value [of needle a name v h b]) (auto simp: fieldText_def)

lemma header_fields:
  assumes "validTime (st_mtime st)" "plainText (envNow env)" "plainText (lastElement web)" "lastElement web \<noteq> []"
    and "h = concat (map (\<lambda>l. l @ HTTP_EOL) (headerLines env web st))"
  shows "ioHttpResponseHeaderFind h ''Transfer-Encoding'' = None"
    "ioHttpResponseHeaderFind h ''content-length'' = Some (show_nat (st_size st))"
    "\<exists>v. ioHttpResponseHeaderFind h ''Last-Modified'' = Some v"
    "ioHttpResponseHeaderFind h ''Content-Disposition'' = Some (quoted (lastElement web))"
proof -
  let ?cd = "fieldText ''Content-Disposition'' (quoted (lastElement web))" and ?lm = "fieldText ''Last-Modified'' (dateText (st_mtime st))"
    and ?ar = "fieldText ''Accept-Ranges'' ''bytes''" and ?cl = "fieldText ''Content-Length'' (show_nat (st_size st))"
  have h: "h = headStart env @ LF # ?cd @ LF # ?lm @ LF # ?ar @ LF # ?cl @ [LF]" using assms(5) header_pieces by simp
  have pl: "plainText (dateText (st_mtime st))" "plainText (show_nat (st_size st))"
    using dateText_plain [OF assms(1)] digits_plain [OF show_nat_digits] by simp_all
  have q: "CHR ''-'' \<notin> set (quoted (lastElement web))" "CR \<notin> set (quoted (lastElement web))"
    using assms(3) by (simp_all add: quoted_def plainText_def)
  have st: "CHR ''-'' \<notin> set (headStart env)" using assms(2) by (auto simp: headStart_def plainText_def HTTP_RES_def)
  have cr: "CR \<notin> set (dateText (st_mtime st))" "CR \<notin> set (show_nat (st_size st))" using pl by (simp_all add: plainText_def)
  have dash: "CHR ''-'' \<notin> set (dateText (st_mtime st))" "CHR ''-'' \<notin> set (show_nat (st_size st))" "CHR ''-'' \<notin> set ''bytes''"
    using pl by (simp_all add: plainText_def)
  let ?N = "\<lambda>n. CHR '':'' \<notin> set n \<and> CHR ''-'' \<in> set n \<and> LF \<notin> set n"
  have cd: "sublist n (upperS (headStart env @ LF # ?cd)) \<longleftrightarrow> sublist n ''CONTENT-DISPOSITION''" if "?N n" for n
    using that dash_free [OF _ st, of n] sublist_field [OF _ _ q(1), of n]
    by (simp add: sublist_line(1) upper_names del: upperS_append)
  have lm: "sublist n (upperS ((headStart env @ LF # ?cd) @ LF # ?lm)) \<longleftrightarrow>
      sublist n ''CONTENT-DISPOSITION'' \<or> sublist n ''LAST-MODIFIED''" if "?N n" for n
    using that cd [OF that] sublist_field [OF _ _ dash(1), of n]
      sublist_line(1) [of n "headStart env @ LF # ?cd" ?lm] by (simp only: upper_names simp_thms disj_assoc)
  have ar: "sublist n (upperS (((headStart env @ LF # ?cd) @ LF # ?lm) @ LF # ?ar)) \<longleftrightarrow>
      sublist n ''CONTENT-DISPOSITION'' \<or> sublist n ''LAST-MODIFIED'' \<or> sublist n ''ACCEPT-RANGES''" if "?N n" for n
    using that lm [OF that] sublist_field [OF _ _ dash(3), of n]
      sublist_line(1) [of n "(headStart env @ LF # ?cd) @ LF # ?lm" ?ar] by (simp only: upper_names simp_thms disj_assoc)
  have cl: "sublist n (upperS ((((headStart env @ LF # ?cd) @ LF # ?lm) @ LF # ?ar) @ LF # ?cl)) \<longleftrightarrow>
      sublist n ''CONTENT-DISPOSITION'' \<or> sublist n ''LAST-MODIFIED'' \<or> sublist n ''ACCEPT-RANGES'' \<or> sublist n ''CONTENT-LENGTH''"
    if "?N n" for n
    using that ar [OF that] sublist_field [OF _ _ dash(2), of n]
      sublist_line(1) [of n "((headStart env @ LF # ?cd) @ LF # ?lm) @ LF # ?ar" ?cl] by (simp only: upper_names simp_thms disj_assoc)
  show "ioHttpResponseHeaderFind h ''Transfer-Encoding'' = None"
  proof (rule field_missing)
    have e: "h = (((((headStart env @ LF # ?cd) @ LF # ?lm) @ LF # ?ar) @ LF # ?cl) @ LF # [])" using h by simp
    have n: "?N ''TRANSFER-ENCODING''" by simp
    show "\<not> sublist (upperS ''Transfer-Encoding'') (upperS h)"
      unfolding e upper_names using cl [OF n] sublist_line(1) [of "''TRANSFER-ENCODING''"
        "(((headStart env @ LF # ?cd) @ LF # ?lm) @ LF # ?ar) @ LF # ?cl" "[]"] n other_names(1-4) by (simp add: upperS_def)
  qed
  have n: "?N ''CONTENT-LENGTH''" "?N ''LAST-MODIFIED''" "?N ''CONTENT-DISPOSITION''" by simp_all
  show "ioHttpResponseHeaderFind h ''content-length'' = Some (show_nat (st_size st))"
  proof -
    have "dropWhile (\<lambda>c. c = CHR '' '') (show_nat (st_size st)) = show_nat (st_size st)"
      using show_nat_digits [of "st_size st"] by (cases "show_nat (st_size st)") (auto simp: isdigitC_def)
    with field_text_value [of h "((headStart env @ LF # ?cd) @ LF # ?lm) @ LF # ?ar" "''Content-Length''" "show_nat (st_size st)" "[]"
        "''content-length''"] h ar [OF n(1)] other_names n cr show ?thesis by (simp add: upper_names del: upperS_append)
  qed
  show "\<exists>v. ioHttpResponseHeaderFind h ''Last-Modified'' = Some v"
    using field_text_value [of h "headStart env @ LF # ?cd" "''Last-Modified''" "dateText (st_mtime st)" "?ar @ LF # ?cl @ [LF]"
        "''Last-Modified''"] h cd [OF n(2)] other_names n cr by (simp add: upper_names del: upperS_append)
  show "ioHttpResponseHeaderFind h ''Content-Disposition'' = Some (quoted (lastElement web))"
  proof -
    have "\<not> sublist (upperS ''Content-Disposition'') (upperS (headStart env))"
      unfolding upper_names using dash_free [OF _ st] by simp
    moreover have "dropWhile (\<lambda>c. c = CHR '' '') (quoted (lastElement web)) = quoted (lastElement web)" by (simp add: quoted_def)
    ultimately show ?thesis
      using field_text_value [of h "headStart env" "''Content-Disposition''" "quoted (lastElement web)" "?lm @ LF # ?ar @ LF # ?cl @ [LF]"
        "''Content-Disposition''"] h q n by (simp add: upper_names del: upperS_append)
  qed
qed

text \<open>The header of a file with a plain name is the header of a response with its length.\<close>

definition plainFileName :: "string \<Rightarrow> bool" where
  "plainFileName name \<longleftrightarrow> plainText name \<and> name \<noteq> [] \<and> length name \<le> 3000 \<and> platformStringFindNeedle name ''attachment'' = None"

lemma header_understood:
  assumes "validTime (st_mtime st)" "st_size st < 2 ^ 62" "plainText (envNow env)" "length (envNow env) \<le> 29"
    "plainFileName (lastElement web)" "length content = st_size st" "rest = fileHeaderText env web st True 0 0 @ content"
  shows "\<exists>t hr. lengthResponse rest t hr \<and> drop (t + 4) rest = content \<and> hrProtocol hr AND HTTP_CONTENT_ATTACHMENT \<noteq> 0 \<and>
    hrFileName hr = Some (lastElement web)"
proof -
  let ?ls = "headerLines env web st" and ?name = "lastElement web"
  let ?h = "concat (map (\<lambda>l. l @ HTTP_EOL) ?ls)"
  define t where "t = length ?h - 2"
  have name: "plainText ?name" "?name \<noteq> []" "length ?name \<le> 3000" "platformStringFindNeedle ?name ''attachment'' = None"
    using assms(5) by (simp_all add: plainFileName_def)
  have rest: "rest = ?h @ HTTP_EOL @ content" using fileHeaderText_lines [of st env web] assms(2,7) by simp
  have date: "plainText (dateText (st_mtime st))" "length (dateText (st_mtime st)) \<le> 29" using dateText_plain [OF assms(1)] by simp_all
  have digits: "plainText (show_nat (st_size st))" by (rule digits_plain [OF show_nat_digits])
  have "length (show_nat (st_size st)) \<le> 19" using assms(2) by (intro show_nat_length) simp_all
  then have len: "17 \<le> length ?h" "length ?h \<le> 4000"
    using assms(4) name(3) date(2) by (simp_all add: headerLines_def HTTP_RES_def)
  then have t2: "t + 2 = length ?h" by (simp add: t_def)
  have lines: "\<forall>l\<in>set ?ls. l \<noteq> [] \<and> CR \<notin> set l" and nul: "NUL \<notin> set ?h"
    using assms(3) name(1) date(1) digits by (auto simp: headerLines_def plainText_def HTTP_RES_def)
  have tk: "take (t + 2) rest = ?h" "take (t + 4) rest = ?h @ HTTP_EOL" "drop (t + 4) rest = content"
  proof -
    have t4: "t + 4 = length (?h @ HTTP_EOL)" using t2 by simp
    show "take (t + 2) rest = ?h" unfolding t2 rest by simp
    show "take (t + 4) rest = ?h @ HTTP_EOL" "drop (t + 4) rest = content" unfolding t4 rest by simp_all
  qed
  have s: "strstr rest (HTTP_EOL @ HTTP_EOL) = Some t"
    using lines_end [OF _ lines, of content] by (simp add: rest t_def headerLines_def)
  obtain r where h1: "?h = (HTTP_RES @ '' 200 OK'') @ HTTP_EOL @ r" by (auto simp: headerLines_def)
  have "strstr ?h HTTP_EOL = Some (length (HTTP_RES @ '' 200 OK''))"
    unfolding h1 by (subst strstr_skip) (simp_all add: HTTP_RES_def)
  then have ess: "ioHttpResponseHeaderEssential ?h \<noteq> None"
    unfolding ioHttpResponseHeaderEssential_def by (simp add: h1 HTTP_RES_def)
  note f = header_fields [OF assms(1,3) name(1,2) refl]
  obtain v where v: "ioHttpResponseHeaderFind ?h ''Last-Modified'' = Some v" using f(3) by blast
  have cl: "snd (HttpGetContentLength ?h 0) = int (st_size st)"
    using HttpGetContentLength_value [OF f(2), of 0] assms(2) by simp
  have "\<exists>hr. HeadersPopulate ?h emptyResponseHeader = Inr hr \<and> hrProtocol hr = HTTP_CONTENT_ATTACHMENT \<and>
      hrLength hr = int (st_size st) \<and> hrFileName hr = Some ?name"
    by (simp add: HeadersPopulate_def f(1,4) v disposition_quoted [OF name(1,2,4)] emptyResponseHeader_def cl)
  then obtain hr where hr: "HeadersPopulate ?h emptyResponseHeader = Inr hr" "hrProtocol hr = HTTP_CONTENT_ATTACHMENT"
    "hrLength hr = int (st_size st)" "hrFileName hr = Some ?name" by blast
  have "lengthResponse rest t hr"
    using s tk nul ess hr len t2 assms(2,6) by (simp add: lengthResponse_def HTTP_CONTENT_ATTACHMENT_def HTTP_CHUCKED_MODE_def rest)
  then show ?thesis using hr tk by (intro exI [of _ t] exI [of _ hr]) (simp add: HTTP_CONTENT_ATTACHMENT_def)
qed

section \<open>From the server to the client\<close>

text \<open>
  A request the server takes in one piece, with neither of the fields that make it answer with less than the
  whole file.
\<close>

definition simpleRequest :: "string \<Rightarrow> bool" where
  "simpleRequest request \<longleftrightarrow> NUL \<notin> set request \<and> length request < BUFSIZ - 1 \<and>
     \<not> sublist ''Range'' request \<and> \<not> sublist ''If-Modified-Since'' request"

text \<open>The regular file \<open>fp\<close>, with a plain name, that the server has for \<open>web\<close>.\<close>

definition servesFile :: "Env \<Rightarrow> string \<Rightarrow> string \<Rightarrow> PlatformFileStat \<Rightarrow> string \<Rightarrow> bool" where
  "servesFile env web path st fp \<longleftrightarrow>
     chC web 0 = CHR ''/'' \<and> platformPathWebToSystem (globalRootPath env) web = Inr (0, Some path) \<and>
     envFiles env path = Some st \<and> st_isreg st \<and> \<not> st_isdir st \<and> envContent env path = Some fp \<and> st_size st = length fp \<and>
     st_size st < 2 ^ 62 \<and> validTime (st_mtime st) \<and> plainText (envNow env) \<and> length (envNow env) \<le> 29 \<and>
     plainFileName (lastElement web) \<and> envAlloc env"

lemma handleConnection_get:
  assumes "ioHttpRequestGenerateGet rp (Some (y @ HTTP_EOL)) = Inr request" "simpleRequest request"
    and "CHR '' '' \<notin> set rp" "hexConvertStringToAscii rp = Inr web" "servesFile env web path st fp"
  shows "handleConnection env s [RData request] sv = boolNat (handleFile env s (butlast request) web path httpGet st sv)"
    "httpHeaderReadRange (butlast request) 0 0 n = (True, 0, 0)"
proof -
  have req: "request = ''GET'' @ '' '' @ rp @ '' '' @ HTTP_RES @ HTTP_EOL @ (y @ HTTP_EOL) @ HTTP_EOL"
    using assms(1) unfolding ioHttpRequestGenerateGet_def ioHttpRequestGenerateSend_eq by simp
  let ?b = "''GET '' @ rp @ '' '' @ HTTP_RES @ HTTP_EOL @ y @ HTTP_EOL @ [CR]"
  have b: "butlast request = ?b" by (simp add: req butlast_append)
  have ends: "endsRequest request" unfolding endsRequest_def suffix_def
    by (rule exI [of _ "''GET'' @ '' '' @ rp @ '' '' @ HTTP_RES @ HTTP_EOL @ y"]) (simp add: req)
  have len: "length request < BUFSIZ - 1" and nul: "NUL \<notin> set request" using assms(2) by (simp_all add: simpleRequest_def)
  have "request \<noteq> []" using req by simp
  then have rl: "recvLoop [RData request] 0 [] = EndMessage 50 request" using len ends by (simp add: Let_def)
  have tw: "takeWhile (\<lambda>c. c \<noteq> NUL) ?b = ?b"
    using nul in_set_butlastD [of NUL request] unfolding takeWhile_eq_all_conv b [symmetric] by metis
  have sub: "sublist (butlast request) request" by (simp add: prefix_imp_sublist prefixeq_butlast)
  then have nr: "strstr ?b ''Range'' = None" "strstr ?b ''If-Modified-Since'' = None"
    using assms(2) sublist_order.order_trans unfolding b [symmetric] strstr_None simpleRequest_def by blast+
  then show "httpHeaderReadRange (butlast request) 0 0 n = (True, 0, 0)" by (simp add: b httpHeaderReadRange_def)
  have sp: "strchr ?b (CHR '' '') = Some 3" by simp
  have sp2: "strchr_from ?b (3 + 1) (CHR '' '') = Some (4 + length rp)"
    using strchr_append [OF assms(3), of "HTTP_RES @ HTTP_EOL @ y @ HTTP_EOL @ [CR]"] by (simp add: strchr_from_def)
  have "substr ?b (3 + 1) (4 + length rp) = rp" by (simp add: substr_def)
  then have uri: "httpClientReadUri ?b = Inr (Some web)"
    unfolding httpClientReadUri_def sp sp2 option.case using assms(4) by simp
  have get: "httpClientReadType ?b = httpGet" by (simp add: httpClientReadType_def toupperC_def islowerC_def)
  have date: "httpHeaderReadIfModifiedSince ?b noTime = Inr (True, noTime)"
    unfolding httpHeaderReadIfModifiedSince_def nr by simp
  have "handlePath env s ?b web sv = boolNat (handleFile env s ?b web path httpGet st sv)"
    using assms(5) date get by (simp add: handlePath_def servesFile_def platformFileStat_def platformFileStatIsDirectory_def
        platformFileStatIsFile_def)
  then show "handleConnection env s [RData request] sv = boolNat (handleFile env s (butlast request) web path httpGet st sv)"
    using assms(5) unfolding handleConnection_def rl RecvEnd.case Let_def b tw uri by (simp add: servesFile_def)
qed

text \<open>
  The request is read, and the routine that was started for it ends without the mark of a failure, in whatever way
  its turns interleave with the rest of the server; then \<open>net\<close> is the state of the network.
\<close>

definition answered :: "Env \<Rightarrow> nat \<Rightarrow> string \<Rightarrow> Server \<Rightarrow> Net \<Rightarrow> bool" where
  "answered env s request sv net \<longleftrightarrow>
     (\<exists>sv1 fs D0 r1 net1 D1 r2 D2. handleConnection env s [RData request] sv = Inr (0, sv1) \<and>
        \<not> sbFail (rBuffer (last (raArray (svRoutines sv1)))) \<and>
        fileRun fs (last (raArray (svRoutines sv1)), svNet sv1, D0) (r1, net1, D1) \<and>
        routineTurn fs r1 net1 D1 = Inr (Gone r2, net, D2) \<and> rState r2 AND STATE_FAIL = 0)"

text \<open>
  An entry of the queue from an HTTP site to a file site, for which the client asks with \<open>request\<close>, and on whose
  connection \<open>rest\<close> arrives, in any pieces; \<open>dest\<close> is the file it is stored in.
\<close>

definition fetching :: "QueueEntry \<Rightarrow> World \<Rightarrow> string \<Rightarrow> string \<Rightarrow> string \<Rightarrow> string \<Rightarrow> bool" where
  "fetching entry w dest rp request rest \<longleftrightarrow>
     (\<exists>i j k s m fs cur fromPath toPath.
        qeSourceSite entry = Some (saBlock (wSites w), i) \<and> qeDestinationSite entry = Some (saBlock (wSites w), j) \<and> i \<noteq> j \<and>
        i < length (saArray (wSites w)) \<and> j < length (saArray (wSites w)) \<and>
        saArray (wSites w) ! i = SITE_HTTP k s \<and> saArray (wSites w) ! j = SITE_FILE m fs \<and>
        qeSourcePath entry = Some fromPath \<and> qeDestinationPath entry = Some toPath \<and> askable s rest \<and>
        uPath (uriDetailsNewFrom (hsFullUri s)) = Some cur \<and> uriPathAbsoluteAppend cur fromPath = Inr (Some rp) \<and>
        ioHttpRequestGenerateGet rp (hostLines (uriDetailsNewFrom (hsFullUri s))) = Inr request \<and>
        ResolveToSystemPath (fsFullUri fs) toPath = Inr (Some dest) \<and> dkRefuse (wDisk w) dest ''wb'' = None \<and>
        (case dkNode (wDisk w) dest of None \<Rightarrow> True | Some nd \<Rightarrow> \<exists>c t. nd = FileNode c t))"

lemma openName_named: "openName rp (Some f) \<noteq> None"
  by (simp add: openName_def split: option.split)

lemma fetching_fetchable:
  assumes "fetching entry w dest rp request rest" "lengthResponse rest t hr" "hrProtocol hr AND HTTP_CONTENT_ATTACHMENT \<noteq> 0"
    "hrFileName hr = Some f"
  shows "fetchable entry w dest rest t hr"
  using assms openName_named unfolding fetching_def fetchable_def by metis

lemma fetching_request:
  assumes "fetching entry w dest rp request rest"
  shows "\<exists>y. ioHttpRequestGenerateGet rp (Some (y @ HTTP_EOL)) = Inr request"
proof -
  have "\<exists>y. hostLines d = Some (y @ HTTP_EOL)" for d
    by (auto simp: hostLines_def GenerateConnectionHeader_def platformHeapStringAppend_def split: option.split)
  with assms show ?thesis unfolding fetching_def by metis
qed

lemma answered_wire:
  assumes "answered env s request sv net" "ioHttpRequestGenerateGet rp (Some (y @ HTTP_EOL)) = Inr request" "simpleRequest request"
    and "CHR '' '' \<notin> set rp" "hexConvertStringToAscii rp = Inr web" "servesFile env web path st fp" "chWire (svNet sv s) = []"
  shows "chWire (net s) = fileHeaderText env web st True 0 0 @ fp"
proof -
  note get = handleConnection_get [OF assms(2-6)]
  have ff: "envContent env path = Some fp" "length (envNow env) \<le> 29" "validTime (st_mtime st)" "st_size st \<le> length fp"
    "envAlloc env" "st_size st = length fp" using assms(6) by (simp_all add: servesFile_def)
  from assms(1) obtain sv1 fs D0 r1 net1 D1 r2 D2 where run: "handleConnection env s [RData request] sv = Inr (0, sv1)"
    "\<not> sbFail (rBuffer (last (raArray (svRoutines sv1))))"
    "fileRun fs (last (raArray (svRoutines sv1)), svNet sv1, D0) (r1, net1, D1)"
    "routineTurn fs r1 net1 D1 = Inr (Gone r2, net, D2)" "rState r2 AND STATE_FAIL = 0"
    unfolding answered_def by blast
  from run(1) get(1) have "handleFile env s (butlast request) web path httpGet st sv = Inr (False, sv1)"
    by (auto simp: boolNat_def res_simps split: if_split_asm)
  from file_response_wire [OF ff(1) get(2) _ ff(2-5) this refl run(2-5)] assms(7) ff(6) show ?thesis by simp
qed

text \<open>
  C1. Newth talks to Newth: when the request of the client for an entry of its queue reaches the server, the
  server has the file and its routine ends without a failure, and what it sent arrives at the client, in any
  pieces, then the download ends without an error and the file on the disk of the client is the file of the
  server, byte for byte.
\<close>

theorem newth_to_newth:
  assumes "fetching entry w dest rp request (chWire (net s))" "simpleRequest request"
    and "CHR '' '' \<notin> set rp" "hexConvertStringToAscii rp = Inr web" "servesFile env web path st fp"
    and "chWire (svNet sv s) = []" "answered env s request sv net"
    and "qeState entry AND QUEUE_STATE_QUEUED \<noteq> 0" "length fp \<le> dkRoom (wDisk w)"
  shows "\<exists>entry1 w1. queueEntryDownloadMirror entry w = Inr (None, entry1, w1) \<and> diskContent (wDisk w1) dest = fp"
proof -
  from fetching_request [OF assms(1)] obtain y where "ioHttpRequestGenerateGet rp (Some (y @ HTTP_EOL)) = Inr request" by blast
  from answered_wire [OF assms(7) this assms(2-6)] have wire: "chWire (net s) = fileHeaderText env web st True 0 0 @ fp" .
  have "validTime (st_mtime st)" "st_size st < 2 ^ 62" "plainText (envNow env)" "length (envNow env) \<le> 29"
    "plainFileName (lastElement web)" "length fp = st_size st" using assms(5) by (simp_all add: servesFile_def)
  from header_understood [OF this wire] obtain t hr where r: "lengthResponse (chWire (net s)) t hr" "drop (t + 4) (chWire (net s)) = fp"
    "hrProtocol hr AND HTTP_CONTENT_ATTACHMENT \<noteq> 0" "hrFileName hr = Some (lastElement web)" by blast
  from mirror_stores [OF fetching_fetchable [OF assms(1) r(1,3,4)] assms(8)] r(2) assms(9) show ?thesis by auto
qed

text \<open>
  A name the condition excludes: a file whose name speaks of an attachment is not taken for one.
\<close>

theorem attachment_name_refused: "populateDisposition (quoted ''attachment.txt'') self = Inr self"
proof -
  have "platformStringFindNeedle (quoted ''attachment.txt'') ''attachment'' = Some 10"
    "platformStringFindNeedle (quoted ''attachment.txt'') ''filename'' = Some 0" by code_simp+
  then show ?thesis by (simp add: populateDisposition_def)
qed

subsection \<open>An example\<close>

definition exampleGet :: string where
  "exampleGet = ''GET /f HTTP/1.1'' @ HTTP_EOL @ (''Host: h'' @ HTTP_EOL @ ''Connection: Keep-Alive'' @ HTTP_EOL) @ HTTP_EOL"

text \<open>The client of \<open>exampleWorld\<close>, on whose connection \<open>wire\<close> arrives in two pieces.\<close>

definition transferWorld :: "string \<Rightarrow> World" where
  "transferWorld wire = (exampleWorld 100)\<lparr>wSites := (wSites (exampleWorld 100))\<lparr>saArray :=
     [SITE_HTTP 0 (exampleHttpSite\<lparr>hsSocket := exampleBuffer (exampleLink [take 10 wire, drop 10 wire])\<rparr>),
      SITE_FILE 1 \<lparr>fsFullUri = Some ''file:///d'', fsFile = None, fsMeta = emptyMeta\<rparr>]\<rparr>\<rparr>"

lemma transfer_fetching:
  "fetching (exampleEntry\<lparr>qeSourcePath := Some ''/f''\<rparr>) (transferWorld wire) ''/d/x'' ''/f'' exampleGet wire"
proof -
  have u: "uriDetailsNewFrom (Some ''http://h/'') =
      \<lparr>uScheme = Some ''http'', uHost = Some ''h'', uPath = Some ''/'', uPort = None, uQuery = None\<rparr>" by code_simp
  have a: "uriPathAbsoluteAppend ''/'' ''/f'' = Inr (Some ''/f'')" "uriPathAbsoluteAppend ''/d'' ''/d/x'' = Inr (Some ''/d/x'')"
    by (simp_all add: uriPathAbsoluteAppend_def chC_def)
  have "hostLines (uriDetailsNewFrom (Some ''http://h/'')) = Some (''Host: h'' @ HTTP_EOL @ ''Connection: Keep-Alive'' @ HTTP_EOL)"
    by (simp add: u hostLines_def GenerateHostHeader_def GenerateConnectionHeader_def platformHeapStringAppend_def)
  then have r: "ioHttpRequestGenerateGet ''/f'' (hostLines (uriDetailsNewFrom (Some ''http://h/''))) = Inr exampleGet"
    unfolding ioHttpRequestGenerateGet_def ioHttpRequestGenerateSend_eq by (simp add: exampleGet_def HTTP_RES_def)
  have k: "askable (exampleHttpSite\<lparr>hsSocket := exampleBuffer (exampleLink [take 10 wire, drop 10 wire])\<rparr>) wire"
    by (simp add: askable_def reusable_def exampleLink_def stRest_def)
  show ?thesis
    unfolding fetching_def
    by (rule exI [of _ 0], rule exI [of _ 1], rule exI [of _ 0],
        rule exI [of _ "exampleHttpSite\<lparr>hsSocket := exampleBuffer (exampleLink [take 10 wire, drop 10 wire])\<rparr>"], rule exI [of _ 1],
        rule exI [of _ "\<lparr>fsFullUri = Some ''file:///d'', fsFile = None, fsMeta = emptyMeta\<rparr>"], rule exI [of _ "''/''"],
        rule exI [of _ "''/f''"], rule exI [of _ "''/d/x''"])
      (use u a r k in \<open>simp add: exampleEntry_def transferWorld_def exampleWorld_def exampleHttpSite_def
        ResolveToSystemPath_def platformPathFileSchemePathToSystem_def exampleDisk_def\<close>)
qed

lemma transfer_serves: "servesFile exampleEnv ''/f'' ''/srv/f'' exampleStat ''abcdef''"
proof -
  have "platformPathWebToSystem (globalRootPath exampleEnv) ''/f'' = Inr (0, Some ''/srv/f'')"
    by (simp add: exampleEnv_def platformPathWebToSystem_def FILENAME_MAX_def platformPathCombine_plain chC_def)
  moreover have "platformStringFindNeedle ''f'' ''attachment'' = None"
    by (simp add: platformStringFindNeedle_def platformStringFindNeedleRaw_def)
  ultimately show ?thesis
    by (simp add: servesFile_def exampleEnv_def exampleStat_def exampleTime_valid plainText_def plainFileName_def lastElement_def)
qed

lemma transfer_simple: "simpleRequest exampleGet"
proof -
  have "strstr exampleGet ''Range'' = None" "strstr exampleGet ''If-Modified-Since'' = None" by (simp_all add: exampleGet_def)
  then have "\<not> sublist ''Range'' exampleGet" "\<not> sublist ''If-Modified-Since'' exampleGet" by (simp_all only: strstr_None not_False_eq_True)
  moreover have "NUL \<notin> set exampleGet" "length exampleGet < BUFSIZ - 1" by (simp_all add: exampleGet_def BUFSIZ_def)
  ultimately show ?thesis by (simp add: simpleRequest_def)
qed

lemma transfer_answered: "\<exists>net. answered exampleEnv 4 exampleGet (plainServer []) net"
proof -
  have g: "ioHttpRequestGenerateGet ''/f'' (Some ((''Host: h'' @ HTTP_EOL @ ''Connection: Keep-Alive'') @ HTTP_EOL)) = Inr exampleGet"
    unfolding ioHttpRequestGenerateGet_def ioHttpRequestGenerateSend_eq by (simp add: exampleGet_def HTTP_RES_def)
  have h: "hexConvertStringToAscii ''/f'' = Inr ''/f''" by code_simp
  have sp: "CHR '' '' \<notin> set ''/f''" by simp
  note get = handleConnection_get [OF g transfer_simple sp h transfer_serves]
  from example_file_run obtain sv1 r1 net1 D1 r2 D2 where run:
    "handleFile exampleEnv 4 exampleRequest ''/f'' ''/srv/f'' httpGet exampleStat (plainServer []) = Inr (False, sv1)"
    "\<not> sbFail (rBuffer (last (raArray (svRoutines sv1))))"
    "fileRun (\<lambda>_. None) (last (raArray (svRoutines sv1)), svNet sv1, {}) (r1, net1, D1)"
    "routineTurn (\<lambda>_. None) r1 net1 D1 = Inr (Gone r2, net1, D2)" "rState r2 AND STATE_FAIL = 0" by blast
  have "handleFile exampleEnv 4 (butlast exampleGet) ''/f'' ''/srv/f'' httpGet exampleStat (plainServer []) = Inr (False, sv1)"
    using run(1) unfolding handleFile_def get(2) exampleRequest_no_range .
  then have "handleConnection exampleEnv 4 [RData exampleGet] (plainServer []) = Inr (0, sv1)"
    using get(1) by (simp add: boolNat_def)
  with run(2-5) show ?thesis unfolding answered_def by blast
qed

lemma newth_to_newth_witness:
  "\<exists>wire entry1 w1. queueEntryDownloadMirror (exampleEntry\<lparr>qeSourcePath := Some ''/f''\<rparr>) (transferWorld wire) = Inr (None, entry1, w1) \<and>
     diskContent (wDisk w1) ''/d/x'' = ''abcdef''"
proof -
  obtain net where a: "answered exampleEnv 4 exampleGet (plainServer []) net" using transfer_answered by blast
  have h: "hexConvertStringToAscii ''/f'' = Inr ''/f''" by code_simp
  have "chWire (svNet (plainServer []) 4) = []" by (simp add: plainServer_def)
  from newth_to_newth [OF transfer_fetching transfer_simple _ h transfer_serves this a] show ?thesis
    by (auto simp: exampleEntry_def transferWorld_def exampleWorld_def exampleDisk_def QUEUE_STATE_QUEUED_def)
qed

end
