(* ===== verification/Platform_Dates.thy ===== *)
theory Platform_Dates
  imports Dos_Sys Newth_To_Newth
begin

text \<open>
  What the server and the client rely on when they deal with dates: the part of \<open>src/platform/platform.h\<close> that
  prints, reads and compares them. The three layers provide it, and a date that one of them prints is understood by
  another. What the server prints as the date of a file it also understands when it is asked what changed since.
\<close>

section \<open>The interface\<close>

text \<open>
  On valid dates, what is printed is read back as the same date, whatever was in the structure that is read into,
  and dates are compared by a number.
\<close>

locale platform_dates =
  fixes toStr :: "'t \<Rightarrow> string option"
    and fromStr :: "string \<Rightarrow> 't \<Rightarrow> bool \<times> 't"
    and compare :: "'t \<Rightarrow> 't \<Rightarrow> int"
    and valid :: "'t \<Rightarrow> bool"
    and key :: "'t \<Rightarrow> int"
  assumes prints: "valid t \<Longrightarrow> \<exists>s. toStr t = Some s"
    and reads: "valid t \<Longrightarrow> toStr t = Some s \<Longrightarrow> fromStr s u = (False, t)"
    and order: "valid a \<Longrightarrow> valid b \<Longrightarrow> compare a b = sgn (key b - key a)"
begin

lemma same_date: "valid t \<Longrightarrow> toStr t = Some s \<Longrightarrow> compare (snd (fromStr s u)) t = 0"
  by (simp add: reads order)

lemma not_modified_since: "valid a \<Longrightarrow> valid b \<Longrightarrow> toStr b = Some s \<Longrightarrow> compare (snd (fromStr s u)) a \<le> 0 \<longleftrightarrow> key a \<le> key b"
  by (auto simp: reads order sgn_if)

lemma printed_alike: "valid a \<Longrightarrow> valid b \<Longrightarrow> toStr a = toStr b \<Longrightarrow> a = b"
  using prints [of a] reads [of a] reads [of b] by (metis prod.inject)

lemma compare_swap: "valid a \<Longrightarrow> valid b \<Longrightarrow> compare b a = - compare a b"
  by (simp add: order flip: sgn_minus)

lemma compare_trans: "valid a \<Longrightarrow> valid b \<Longrightarrow> valid c \<Longrightarrow> compare a b \<le> 0 \<Longrightarrow> compare b c \<le> 0 \<Longrightarrow> compare a c \<le> 0"
  by (auto simp: order sgn_if split: if_split_asm)

end

text \<open>Two layers that print the same dates alike: \<open>conv\<close> is the same date in the structure of the other one.\<close>

locale date_exchange =
  one: platform_dates toStr1 fromStr1 compare1 valid1 key1 + two: platform_dates toStr2 fromStr2 compare2 valid2 key2
  for toStr1 :: "'a \<Rightarrow> string option" and fromStr1 and compare1 and valid1 and key1
    and toStr2 :: "'b \<Rightarrow> string option" and fromStr2 and compare2 and valid2 and key2 +
  fixes conv :: "'a \<Rightarrow> 'b"
  assumes conv: "valid1 t \<Longrightarrow> valid2 (conv t) \<and> toStr2 (conv t) = toStr1 t \<and> key2 (conv t) = key1 t"
begin

lemma understood: "valid1 t \<Longrightarrow> toStr1 t = Some s \<Longrightarrow> fromStr2 s u = (False, conv t)"
  using two.reads conv by simp

lemma sent_back: "valid1 t \<Longrightarrow> toStr2 (conv t) = Some s \<Longrightarrow> fromStr1 s u = (False, t)"
  using one.reads conv by simp

lemma compared_alike: "valid1 a \<Longrightarrow> valid1 b \<Longrightarrow> compare2 (conv a) (conv b) = compare1 a b"
  using conv [of a] conv [of b] by (simp add: one.order two.order)

end

section \<open>The three layers\<close>

definition exchangeable :: "PlatformTimeStruct \<Rightarrow> bool" where
  "exchangeable t \<longleftrightarrow> validTime t \<and> 1000 \<le> tm_year t + 1900"

definition validSystemTime :: "SystemTime \<Rightarrow> bool" where
  "validSystemTime x \<longleftrightarrow> (\<exists>t. exchangeable t \<and> x = systemTime t)"

definition systemTimeKey :: "SystemTime \<Rightarrow> int" where
  "systemTimeKey x =
     (((((uint (wYear x) - 1900) * 12 + uint (wMonth x) - 1) * 31 + uint (wDay x)) * 24 + uint (wHour x)) * 60 + uint (wMinute x)) * 60 +
     uint (wSecond x)"

definition toStr_win :: "SystemTime \<Rightarrow> string option" where
  "toStr_win x = (case platformTimeStructToStr_win x of Inr s \<Rightarrow> Some s | Inl _ \<Rightarrow> None)"

interpretation posix: platform_dates platformTimeStructToStr platformTimeGetFromHttpStr platformTimeStructCompare exchangeable timeKey
proof
  show "\<exists>s. platformTimeStructToStr t = Some s" if "exchangeable t" for t
    using that platformTimeStructToStr_Some by (auto simp: exchangeable_def)
  show "platformTimeGetFromHttpStr s u = (False, t)" if "exchangeable t" "platformTimeStructToStr t = Some s" for t s u
    using that platformTime_roundtrip [of t u] by (auto simp: exchangeable_def)
  show "platformTimeStructCompare a b = sgn (timeKey b - timeKey a)" if "exchangeable a" "exchangeable b" for a b
    using that platformTimeStructCompare_order by (simp add: exchangeable_def)
qed

lemma systemTime_date:
  assumes "exchangeable t"
  shows "\<exists>s. platformTimeStructToStr t = Some s \<and> platformTimeStructToStr_win (systemTime t) = Inr s \<and>
    platformTimeGetFromHttpStr_win s u = (False, systemTime t)"
  using platform_dates_agree [of t t u] assms by (auto simp: exchangeable_def)

lemma systemTime_key:
  assumes "exchangeable t"
  shows "systemTimeKey (systemTime t) = timeKey t"
proof -
  have "validTime t"
    using assms by (simp add: exchangeable_def)
  then have "uint (wYear (systemTime t)) = tm_year t + 1900 \<and> uint (wMonth (systemTime t)) = tm_mon t + 1 \<and>
      uint (wDay (systemTime t)) = tm_mday t \<and> uint (wHour (systemTime t)) = tm_hour t \<and>
      uint (wMinute (systemTime t)) = tm_min t \<and> uint (wSecond (systemTime t)) = tm_sec t"
    by (auto simp: validTime_def systemTime_def uint_small simp del: of_int_add)
  then show ?thesis
    by (simp add: systemTimeKey_def timeKey_def)
qed

interpretation windows: platform_dates toStr_win platformTimeGetFromHttpStr_win platformTimeStructCompare_win validSystemTime systemTimeKey
proof
  show "\<exists>s. toStr_win x = Some s" if "validSystemTime x" for x
    using that systemTime_date by (fastforce simp: validSystemTime_def toStr_win_def)
  show "platformTimeGetFromHttpStr_win s u = (False, x)" if "validSystemTime x" "toStr_win x = Some s" for x s u
    using that systemTime_date [where u = u] by (fastforce simp: validSystemTime_def toStr_win_def)
  show "platformTimeStructCompare_win a b = sgn (systemTimeKey b - systemTimeKey a)" if "validSystemTime a" "validSystemTime b" for a b
    using that compare_systemTime systemTime_key posix.order by (auto simp: validSystemTime_def exchangeable_def)
qed

interpretation dos: platform_dates platformTimeStructToStr_dos platformTimeGetFromHttpStr_dos platformTimeStructCompare_dos exchangeable timeKey
  unfolding platformTimeStructToStr_dos_def platformTimeGetFromHttpStr_dos_def platformTimeStructCompare_dos_def
  by (rule posix.platform_dates_axioms)

interpretation posix_windows: date_exchange platformTimeStructToStr platformTimeGetFromHttpStr platformTimeStructCompare exchangeable timeKey
    toStr_win platformTimeGetFromHttpStr_win platformTimeStructCompare_win validSystemTime systemTimeKey systemTime
proof
  show "validSystemTime (systemTime t) \<and> toStr_win (systemTime t) = platformTimeStructToStr t \<and> systemTimeKey (systemTime t) = timeKey t"
    if "exchangeable t" for t
    using systemTime_date [OF that, where u = "systemTime t"] systemTime_key [OF that] that by (auto simp: validSystemTime_def toStr_win_def)
qed

interpretation dos_windows: date_exchange platformTimeStructToStr_dos platformTimeGetFromHttpStr_dos platformTimeStructCompare_dos exchangeable
    timeKey toStr_win platformTimeGetFromHttpStr_win platformTimeStructCompare_win validSystemTime systemTimeKey systemTime
  using posix_windows.date_exchange_axioms
  unfolding platformTimeStructToStr_dos_def platformTimeGetFromHttpStr_dos_def platformTimeStructCompare_dos_def .

section \<open>A date goes to another platform and back\<close>

text \<open>
  C21. A date means the same everywhere: what a POSIX system or DOS prints is read on Windows as the same date, sent
  back from there as the same text and understood at home, and two dates compare on Windows as they do at home.
\<close>

theorem dates_cross_platforms:
  assumes "exchangeable t" "exchangeable t2" "platformTimeStructToStr t = Some s" "platformTimeGetFromHttpStr_win s u = (e, x)"
  shows "\<not> e \<and> platformTimeStructToStr_win x = Inr s \<and> platformTimeGetFromHttpStr s v = (False, t) \<and>
    platformTimeStructToStr_dos t = Some s \<and> platformTimeGetFromHttpStr_dos s w = (False, t) \<and>
    platformTimeStructCompare_win x (systemTime t2) = platformTimeStructCompare t t2"
proof -
  have x: "\<not> e" "x = systemTime t"
    using posix_windows.understood [OF assms(1,3), of u] assms(4) by auto
  moreover have "platformTimeStructToStr_win (systemTime t) = Inr s"
    using systemTime_date [OF assms(1)] assms(3) by auto
  moreover have "platformTimeStructToStr_dos t = Some s"
    using assms(3) by (simp add: platformTimeStructToStr_dos_def)
  ultimately show ?thesis
    using posix.reads [OF assms(1,3)] dos.reads [OF assms(1)] posix_windows.compared_alike [OF assms(1,2)] by simp
qed

lemma dates_cross_platforms_witness:
  "\<exists>s x. platformTimeStructToStr epoch1994 = Some s \<and> platformTimeGetFromHttpStr_win s (systemTime epoch1994) = (False, x) \<and>
    platformTimeStructToStr_win x = Inr s \<and> platformTimeStructCompare_win x (systemTime epoch1994) = 0"
proof -
  have v: "exchangeable epoch1994"
    by (simp add: exchangeable_def validTime_def epoch1994_def)
  obtain s where s: "platformTimeStructToStr epoch1994 = Some s"
    using posix.prints [OF v] by blast
  obtain e x where x: "platformTimeGetFromHttpStr_win s (systemTime epoch1994) = (e, x)"
    by fastforce
  show ?thesis
    using dates_cross_platforms [OF v v s x] s x posix.order [OF v v] by auto
qed

section \<open>A date that is asked for again\<close>

text \<open>The characters that \<open>ValidHttpDateStr\<close> looks at are in every date of a year of four digits.\<close>

lemma length_names:
  "w < 7 \<Longrightarrow> length (dayNames ! w) = 3" "m < 12 \<Longrightarrow> length (monthNames ! m) = 3"
proof -
  have "\<forall>w\<in>set [0..<7]. length (dayNames ! w) = 3" "\<forall>m\<in>set [0..<12]. length (monthNames ! m) = 3"
    by code_simp+
  then show "w < 7 \<Longrightarrow> length (dayNames ! w) = 3" "m < 12 \<Longrightarrow> length (monthNames ! m) = 3"
    by auto
qed

lemma printed_date_valid:
  assumes "exchangeable t" "platformTimeStructToStr t = Some s"
  shows "ValidHttpDateStr (s @ r) = Inr True" "length s = 29"
proof -
  have v: "validTime t" "nat (tm_wday t) < 7" "nat (tm_mon t) < 12" "length (show_nat (nat (tm_year t + 1900))) = 4"
    using assms(1) show_nat_four [of "nat (tm_year t + 1900)"] by (auto simp: exchangeable_def validTime_def)
  obtain d0 d1 d2 where d: "dayNames ! nat (tm_wday t) = [d0, d1, d2]"
    using length_names(1) [OF v(2)] by (auto simp: eval_nat_numeral length_Suc_conv)
  obtain m0 m1 m2 where m: "monthNames ! nat (tm_mon t) = [m0, m1, m2]"
    using length_names(2) [OF v(3)] by (auto simp: eval_nat_numeral length_Suc_conv)
  obtain y0 y1 y2 y3 where y: "show_nat (nat (tm_year t + 1900)) = [y0, y1, y2, y3]"
    using v(4) by (auto simp: eval_nat_numeral length_Suc_conv simp del: show_nat.simps)
  have s: "s = [d0, d1, d2] @ '', '' @ two_digits (tm_mday t) @ '' '' @ [m0, m1, m2] @ '' '' @ [y0, y1, y2, y3] @ '' '' @
      two_digits (tm_hour t) @ '':'' @ two_digits (tm_min t) @ '':'' @ two_digits (tm_sec t) @ '' GMT''"
    using platformTimeStructToStr_Some [OF v(1)] assms(2) by (simp only: d m y option.inject)
  show "length s = 29"
    using s by (simp add: two_digits_def)
  show "ValidHttpDateStr (s @ r) = Inr True"
    using s by (simp add: two_digits_def ValidHttpDateStr_def rdC_def)
qed

lemma printed_date_start:
  assumes "exchangeable t" "platformTimeStructToStr t = Some s"
  shows "s \<noteq> [] \<and> CR \<notin> set s \<and> hd s \<notin> {CHR '' '', CHR '':'', TAB, CR, LF}"
proof -
  have v: "validTime t" "nat (tm_wday t) < 7"
    using assms(1) by (auto simp: exchangeable_def validTime_def)
  have "\<forall>w\<in>set [0..<7]. dayNames ! w \<noteq> [] \<and> hd (dayNames ! w) \<notin> {CHR '' '', CHR '':'', TAB, CR, LF}"
    by code_simp
  with v(2) have "dayNames ! nat (tm_wday t) \<noteq> [] \<and> hd (dayNames ! nat (tm_wday t)) \<notin> {CHR '' '', CHR '':'', TAB, CR, LF}"
    by auto
  moreover have "CR \<notin> set s"
    using dateText_plain [OF v(1)] assms(2) by (simp add: dateText_def plainText_def)
  ultimately show ?thesis
    using platformTimeStructToStr_Some [OF v(1)] assms(2) by auto
qed

lemma conditional_header:
  assumes "exchangeable t" "platformTimeStructToStr t = Some s" "strstr header ''If-Modified-Since'' = Some p"
    "drop (p + 17) header = '': '' @ s @ CR # rest"
  shows "httpHeaderReadIfModifiedSince header tm = Inr (False, t)"
proof -
  have "httpHeaderDataClamp (drop (p + 17) header) = (s @ CR # rest, length s)"
    using httpHeaderDataClamp_value [of s rest] printed_date_start [OF assms(1,2)] assms(4) by simp
  moreover have "ValidHttpDateStr (s @ CR # rest) = Inr True" "length s = 29"
    by (rule printed_date_valid [OF assms(1,2)])+
  ultimately show ?thesis
    using assms(3) posix.reads [OF assms(1,2)] by (simp add: httpHeaderReadIfModifiedSince_def READ_DATE_MAX_def)
qed

text \<open>
  C23. A request for what has changed since a date, as the server prints dates, is answered with 304 exactly when the
  file has not been modified after it; otherwise it is answered as a request without a date.
\<close>

theorem conditional_request:
  assumes "exchangeable t" "platformTimeStructToStr t = Some s" "strstr header ''If-Modified-Since'' = Some p"
    "drop (p + 17) header = '': '' @ s @ CR # rest"
    "platformPathWebToSystem (globalRootPath env) web = Inr (0, Some path)" "envFiles env path = Some st" "validTime (st_mtime st)"
  shows "handlePath env sock header web sv =
    (if timeKey (st_mtime st) \<le> timeKey t then notModified env sock web (httpClientReadType header) sv
     else if st_isdir st then boolNat (handleDir env sock web path (httpClientReadType header) st sv)
     else if st_isreg st then boolNat (handleFile env sock header web path (httpClientReadType header) st sv)
     else Inr (typeValue (httpClientReadType header), sv))"
proof (rule handlePath_not_modified)
  show "httpHeaderReadIfModifiedSince header noTime = Inr (False, t)"
    by (rule conditional_header [OF assms(1-4)])
  show "validTime t"
    using assms(1) by (simp add: exchangeable_def)
qed (fact assms(5-7))+

lemma conditional_request_witness:
  "handlePath exampleEnv 4 exampleDated ''/f'' (plainServer []) = notModified exampleEnv 4 ''/f'' httpGet (plainServer [])"
proof -
  have "platformPathWebToSystem (globalRootPath exampleEnv) ''/f'' = Inr (0, Some ''/srv/f'')"
    "envFiles exampleEnv ''/srv/f'' = Some exampleStat"
    by (simp_all add: exampleEnv_def platformPathWebToSystem_def FILENAME_MAX_def platformPathCombine_plain chC_def)
  moreover have "httpClientReadType exampleDated = httpGet"
    by (simp add: httpClientReadType_def exampleDated_def toupperC_def islowerC_def)
  moreover have "validTime (st_mtime exampleStat)" "exchangeable exampleTime"
    by (simp_all add: exampleStat_def exampleTime_valid exchangeable_def) (simp add: exampleTime_def)
  moreover have "platformTimeStructToStr exampleTime = Some ''Sun, 06 Nov 1994 08:49:37 GMT''"
    by code_simp
  moreover have "strstr exampleDated ''If-Modified-Since'' = Some 17"
    "drop (17 + 17) exampleDated = '': '' @ ''Sun, 06 Nov 1994 08:49:37 GMT'' @ CR # LF # HTTP_EOL"
    by code_simp+
  ultimately show ?thesis
    using conditional_request exampleStat_newer by simp
qed

end
