(* ===== verification/Client_Memory.thy ===== *)
theory Client_Memory
  imports Newth_Prelude
begin

text \<open>
  What the client frees: \<open>siteFileMetaFree\<close> and \<open>siteDirectoryEntryFree\<close> of \<open>src/client/site.c\<close> and the functions
  that free a queue in \<open>src/client/queue.c\<close>. A block is the address of its first byte; the heap is the set of the
  blocks that are allocated, and freeing any other address is a fault.
\<close>

type_synonym Heap = "nat set"

definition release :: "nat \<Rightarrow> Heap \<Rightarrow> Heap res" where
  "release p h = (if p \<in> h then Inr (h - {p}) else Inl UseAfterFree)"

definition releaseUnlessNull :: "nat option \<Rightarrow> Heap \<Rightarrow> Heap res" where
  "releaseUnlessNull p h = (case p of None \<Rightarrow> Inr h | Some x \<Rightarrow> release x h)"

section \<open>Metadata of a file\<close>

text \<open>The name has a block of its own, or is a part of the path.\<close>

record MetaBlocks =
  mbName :: "nat option"
  mbPath :: "nat option"
  mbPathLength :: nat
  mbDate :: "nat option"

definition ownName :: "MetaBlocks \<Rightarrow> bool" where
  "ownName m \<longleftrightarrow>
     (case (mbName m, mbPath m) of
        (Some n, Some p) \<Rightarrow> n < p \<or> p + mbPathLength m + 1 < n
      | (Some n, None) \<Rightarrow> True
      | _ \<Rightarrow> False)"

definition siteFileMetaFree :: "MetaBlocks \<Rightarrow> Heap \<Rightarrow> Heap res" where
  "siteFileMetaFree m h =
     bindr (if ownName m then releaseUnlessNull (mbName m) h else Inr h) (\<lambda>h1.
     bindr (releaseUnlessNull (mbPath m) h1) (releaseUnlessNull (mbDate m)))"

definition siteDirectoryEntryFree :: "nat \<Rightarrow> MetaBlocks \<Rightarrow> Heap \<Rightarrow> Heap res" where
  "siteDirectoryEntryFree e m h = bindr (siteFileMetaFree m h) (release e)"

section \<open>The queue\<close>

record EntryBlocks =
  ebSource :: "nat option"
  ebDestination :: "nat option"

text \<open>An array: its own block, the block of its entries if there is one, and the entries.\<close>

record ArrayBlocks =
  abArray :: nat
  abEntry :: "nat option"
  abEntries :: "EntryBlocks list"

definition queueEntryFree :: "EntryBlocks \<Rightarrow> Heap \<Rightarrow> Heap res" where
  "queueEntryFree e h = bindr (releaseUnlessNull (ebDestination e) h) (releaseUnlessNull (ebSource e))"

fun freeEntries :: "EntryBlocks list \<Rightarrow> Heap \<Rightarrow> Heap res" where
  "freeEntries [] h = Inr h"
| "freeEntries (e # es) h = bindr (queueEntryFree e h) (freeEntries es)"

definition queueEntryArrayFreeArrayOnly :: "ArrayBlocks option \<Rightarrow> Heap \<Rightarrow> (ArrayBlocks option \<times> Heap) res" where
  "queueEntryArrayFreeArrayOnly array h =
     (case array of
        None \<Rightarrow> Inr (None, h)
      | Some a \<Rightarrow> bindr (releaseUnlessNull (abEntry a) h) (\<lambda>h1. bindr (release (abArray a) h1) (\<lambda>h2. Inr (None, h2))))"

definition queueEntryArrayFree :: "ArrayBlocks option \<Rightarrow> Heap \<Rightarrow> (ArrayBlocks option \<times> Heap) res" where
  "queueEntryArrayFree array h =
     (case array of
        None \<Rightarrow> Inr (None, h)
      | Some a \<Rightarrow>
          bindr (if abEntry a \<noteq> None then freeEntries (abEntries a) h else Inr h) (queueEntryArrayFreeArrayOnly (Some a)))"

section \<open>Every block is freed once\<close>

lemma release_Inr [simp]: "p \<in> h \<Longrightarrow> release p h = Inr (h - {p})"
  by (simp add: release_def)

definition blocks :: "nat option list \<Rightarrow> nat list" where
  "blocks ps = concat (map (\<lambda>p. case p of None \<Rightarrow> [] | Some x \<Rightarrow> [x]) ps)"

lemma blocks_simps [simp]: "blocks [] = []" "blocks (None # ps) = blocks ps" "blocks (Some x # ps) = x # blocks ps"
  by (simp_all add: blocks_def)

lemma releaseUnlessNull_blocks:
  "set (blocks [p]) \<subseteq> h \<Longrightarrow> releaseUnlessNull p h = Inr (h - set (blocks [p]))"
  by (auto simp: releaseUnlessNull_def split: option.split)

text \<open>What the metadata owns: the name when it is not a part of the path.\<close>

definition metaOwned :: "MetaBlocks \<Rightarrow> nat list" where
  "metaOwned m = blocks [if ownName m then mbName m else None, mbPath m, mbDate m]"

text \<open>Freeing the metadata of a file frees each of its blocks once and no other.\<close>

theorem siteFileMetaFree_owned:
  assumes "distinct (metaOwned m)" "set (metaOwned m) \<subseteq> h"
  shows "siteFileMetaFree m h = Inr (h - set (metaOwned m))"
  using assms
  by (cases "mbName m"; cases "mbPath m"; cases "mbDate m")
     (auto simp: siteFileMetaFree_def metaOwned_def releaseUnlessNull_def ownName_def)

definition entryOwned :: "EntryBlocks \<Rightarrow> nat list" where
  "entryOwned e = blocks [ebDestination e, ebSource e]"

lemma queueEntryFree_owned:
  "distinct (entryOwned e) \<Longrightarrow> set (entryOwned e) \<subseteq> h \<Longrightarrow> queueEntryFree e h = Inr (h - set (entryOwned e))"
  by (cases "ebDestination e"; cases "ebSource e") (auto simp: queueEntryFree_def entryOwned_def releaseUnlessNull_def)

lemma freeEntries_owned:
  "distinct (concat (map entryOwned es)) \<Longrightarrow> set (concat (map entryOwned es)) \<subseteq> h \<Longrightarrow>
   freeEntries es h = Inr (h - set (concat (map entryOwned es)))"
proof (induction es arbitrary: h)
  case (Cons e es)
  have "queueEntryFree e h = Inr (h - set (entryOwned e))"
    using Cons.prems by (intro queueEntryFree_owned) auto
  moreover have "freeEntries es (h - set (entryOwned e)) = Inr (h - set (entryOwned e) - set (concat (map entryOwned es)))"
    using Cons.prems by (intro Cons.IH) auto
  ultimately show ?case
    by (simp add: set_diff_eq)
qed simp

definition arrayOwned :: "ArrayBlocks \<Rightarrow> nat list" where
  "arrayOwned a = concat (map entryOwned (abEntries a)) @ blocks [abEntry a] @ [abArray a]"

text \<open>Freeing a queue frees the paths of all its entries, its entries and itself, each once.\<close>

theorem queueEntryArrayFree_owned:
  assumes "distinct (arrayOwned a)" "set (arrayOwned a) \<subseteq> h" "abEntry a \<noteq> None"
  shows "queueEntryArrayFree (Some a) h = Inr (None, h - set (arrayOwned a))"
proof -
  obtain e where e: "abEntry a = Some e"
    using assms(3) by blast
  let ?E = "set (concat (map entryOwned (abEntries a)))"
  have "freeEntries (abEntries a) h = Inr (h - ?E)"
    using assms by (intro freeEntries_owned) (auto simp: arrayOwned_def)
  moreover have "queueEntryArrayFreeArrayOnly (Some a) (h - ?E) = Inr (None, h - ?E - {e} - {abArray a})"
    using assms(1,2) e by (auto simp: queueEntryArrayFreeArrayOnly_def releaseUnlessNull_def arrayOwned_def)
  moreover have "h - ?E - {e} - {abArray a} = h - set (arrayOwned a)"
    by (auto simp: arrayOwned_def e)
  ultimately show ?thesis
    using e by (simp add: queueEntryArrayFree_def)
qed

text \<open>
  A list of entries that were found shares the paths with the queue: freed like a queue it would free them too, and
  the queue would free them once more; so only its arrays are freed.
\<close>

theorem found_shares_paths:
  assumes "s \<in> h" "a \<noteq> s" "q \<noteq> s" "a \<noteq> q" "fa \<noteq> s" "fe \<noteq> s" "fa \<noteq> fe" "{a, q, fa, fe} \<subseteq> h" "{a, q} \<inter> {fa, fe} = {}"
    and "queue = \<lparr>abArray = q, abEntry = Some a, abEntries = [\<lparr>ebSource = Some s, ebDestination = None\<rparr>]\<rparr>"
    and "found = \<lparr>abArray = fa, abEntry = Some fe, abEntries = abEntries queue\<rparr>"
  shows "bindr (queueEntryArrayFreeArrayOnly (Some found) h) (\<lambda>(_, h1). queueEntryArrayFree (Some queue) h1) =
           Inr (None, h - {fa, fe, s, a, q})"
    and "bindr (queueEntryArrayFree (Some found) h) (\<lambda>(_, h1). queueEntryArrayFree (Some queue) h1) = Inl UseAfterFree"
  using assms
  by (auto simp: queueEntryArrayFree_def queueEntryArrayFreeArrayOnly_def releaseUnlessNull_def queueEntryFree_def release_def)

end
