(* ===== verification/Dl.thy ===== *)
theory Dl
  imports Queue
begin

text \<open>
  \<open>src/cli/dl.c\<close>: the command line of the client. \<open>InteractiveMode\<close> reads a line, \<open>ProcessCommand\<close> carries
  it out on the array of sites and the queue. What the commands print is part of the state; the call backs
  that show the progress of a download are left out, and so is the variant with GNU readline.
\<close>

section \<open>State\<close>

text \<open>
  What a command depends on: the resolver of host names, \<open>strerror (3)\<close>, what a command of the system
  answers and does to the disk, the time, and whether an earlier call left \<open>errno\<close> set.
\<close>

record CliEnv =
  ceResolver :: resolver
  ceStrerror :: "Errno \<Rightarrow> string"
  ceExec :: "string list \<Rightarrow> Disk \<Rightarrow> string option \<times> Disk"
  ceNow :: int
  ceErrnoSet :: bool

text \<open>
  The sites and the disk, the queue, everything printed so far, what the connections of the next sites
  will answer (one list for each \<open>MOUNT\<close>), the number for the next site, the commands of the system
  that were run, and whether the program has ended.
\<close>

record Cli =
  clWorld :: World
  clQueue :: QueueEntryArray
  clOut :: string
  clConnects :: "Attempt list list"
  clFresh :: nat
  clRan :: "string list list"
  clExit :: bool

abbreviation clSites :: "Cli \<Rightarrow> SiteArray" where "clSites c \<equiv> wSites (clWorld c)"

definition setSites :: "SiteArray \<Rightarrow> Cli \<Rightarrow> Cli" where
  "setSites a c = c\<lparr>clWorld := (clWorld c)\<lparr>wSites := a\<rparr>\<rparr>"

definition say :: "string \<Rightarrow> Cli \<Rightarrow> Cli" where
  "say s c = c\<lparr>clOut := clOut c @ s\<rparr>"

definition putsLine :: "string \<Rightarrow> Cli \<Rightarrow> Cli" where
  "putsLine s c = say (s @ [LF]) c"

text \<open>\<open>puts\<close> of a pointer that may be \<open>NULL\<close>, and of a message if there is one.\<close>

definition putsPtr :: "string option \<Rightarrow> Cli \<Rightarrow> Cli res" where
  "putsPtr s c = (case s of None \<Rightarrow> Inl NullDereference | Some t \<Rightarrow> Inr (putsLine t c))"

definition putsErr :: "CliEnv \<Rightarrow> ClientErr option \<Rightarrow> Cli \<Rightarrow> Cli" where
  "putsErr env e c = (case e of None \<Rightarrow> c | Some m \<Rightarrow> putsLine (errText (ceStrerror env) m) c)"

text \<open>Numbers and fields of \<open>printf\<close>: \<open>%ld\<close>, \<open>%<n>s\<close> and \<open>%-<n>s\<close>.\<close>

definition showLong :: "int \<Rightarrow> string" where
  "showLong i = (if i < 0 then ''-'' @ show_nat (nat (- i)) else show_nat (nat i))"

definition padLeft :: "nat \<Rightarrow> string \<Rightarrow> string" where
  "padLeft n s = replicate (n - length s) (CHR '' '') @ s"

definition padRight :: "nat \<Rightarrow> string \<Rightarrow> string" where
  "padRight n s = s @ replicate (n - length s) (CHR '' '')"

text \<open>The width of a number, which for the number 0 is 0.\<close>

fun GetLongWidth :: "nat \<Rightarrow> nat" where
  "GetLongWidth number = (if 0 < number then GetLongWidth (number div 10) + 1 else 0)"

declare GetLongWidth.simps [simp del]

section \<open>Copying\<close>

text \<open>
  The target of a copy: the last element of the source in the working directory of the site for
  writing.
\<close>

definition copyTarget :: "SiteArray \<Rightarrow> SitePtr option \<Rightarrow> string \<Rightarrow> string option res" where
  "copyTarget array w s =
     (case uriPathLast s of
        None \<Rightarrow> Inr None
      | Some l \<Rightarrow>
          bindr (workingDetails array w) (\<lambda>u.
          bindr (case uPath u of None \<Rightarrow> Inr None | Some cur \<Rightarrow> uriPathAbsoluteAppend cur l) (\<lambda>p.
            Inr (if p = None then None else uriDetailsCreateString (u\<lparr>uPath := p\<rparr>)))))"

text \<open>The part of \<open>Copy\<close> and \<open>XCopy\<close> they have in common, with the name and the state of the entry.\<close>

definition copyEntry :: "CliEnv \<Rightarrow> string \<Rightarrow> 8 word \<Rightarrow> string list \<Rightarrow> Cli \<Rightarrow> Cli res" where
  "copyEntry env verb st args c =
     (if 2 < length args then Inr (putsLine (verb @ '' from/to not yet implemented'') c)
      else
        bindr (siteArrayUserPathResolve (clSites c) (args ! 1) False) (\<lambda>src. case src of
          None \<Rightarrow> Inr (putsErr env (Some ErrUnableToResolvePath) c)
        | Some s \<Rightarrow>
            let w = siteArrayActiveGetWrite (clSites c) in
            if w = None then Inr (putsErr env (Some ErrUnableToGetSystemsWorkingDirectory) c)
            else bindr (copyTarget (clSites c) w s) (\<lambda>dst. case dst of
              None \<Rightarrow> Inr (putsErr env (Some ErrUnableToGetSystemsWorkingDirectory) c)
            | Some d \<Rightarrow>
                bindr (queueEntryNewFromPath (ceResolver env) (clSites c) s (Some d)) (\<lambda>(e, entry). case (e, entry) of
                  (None, Some ent) \<Rightarrow>
                    bindr (queueEntryArrayAppend (clQueue c) (ent\<lparr>qeState := st\<rparr>)) (\<lambda>(e, q).
                      if e \<noteq> None then Inr (putsErr env e (c\<lparr>clQueue := q\<rparr>))
                      else (case q of
                              None \<Rightarrow> Inl NullDereference
                            | Some es \<Rightarrow>
                                Inr (say (''QUEUE #'' @ showLong (int (length es) - 1) @ '': '' @ verb @ '' '' @ s @ '' > '' @
                                          d @ [LF]) (c\<lparr>clQueue := q\<rparr>))))
                | _ \<Rightarrow> Inr (putsErr env e c)))))"

definition Copy :: "CliEnv \<Rightarrow> string list \<Rightarrow> Cli \<Rightarrow> Cli res" where
  "Copy env args c = copyEntry env ''COPY'' QUEUE_STATE_QUEUED args c"

definition XCopy :: "CliEnv \<Rightarrow> string list \<Rightarrow> Cli \<Rightarrow> Cli res" where
  "XCopy env args c = copyEntry env ''XCOPY'' (QUEUE_STATE_QUEUED OR QUEUE_TYPE_RECURSIVE) args c"

section \<open>Listing directories\<close>

text \<open>How many entries a listing has left.\<close>

fun entriesLeft :: "Listing \<Rightarrow> nat" where
  "entriesLeft (FileListing (Some d)) = length (pd_left d)"
| "entriesLeft (FileListing None) = 0"
| "entriesLeft (HttpListing l) = length (hdEntry l) - hdIdx l"

lemma readEntries_left:
  "readEntries dk path es = Inr (Some m, d) \<Longrightarrow> entriesLeft (FileListing d) < length es"
proof (induction es)
  case (Cons e es)
  then show ?case by (auto simp: Let_def res_simps less_Suc_eq split: if_splits)
qed simp

lemma listing_left:
  "siteDirectoryListingRead dk s l = Inr (Some m, l1) \<Longrightarrow> entriesLeft l1 < entriesLeft l"
  by (induction dk s l rule: siteDirectoryListingRead.induct)
    (auto simp: res_simps fileSiteSchemeDirectoryListingRead_def httpSiteSchemeDirectoryListingRead_def
      split: option.splits if_splits dest!: readEntries_left)

declare bindr_cong [fundef_cong]

text \<open>The line for one entry; an entry without a name has none.\<close>

definition entryLine :: "SiteFileMeta \<Rightarrow> string res" where
  "entryLine meta =
     (case smName meta of
        None \<Rightarrow> Inr []
      | Some name \<Rightarrow>
          bindr (case smModifiedDate meta of
                   None \<Rightarrow> Inr ''???, ?? ??? ???? ??:??:?? GMT''
                 | Some t \<Rightarrow> (case platformTimeStructToStr t of None \<Rightarrow> Inl BufferOverflow | Some s \<Rightarrow> Inr s)) (\<lambda>timeStr.
          Inr (case smType meta of
                 SITE_FILE_TYPE_DIRECTORY \<Rightarrow> padRight 30 timeStr @ '' '' @ padLeft 12 ''<DIR>'' @ '' '' @ name @ [LF]
               | SITE_FILE_TYPE_FILE \<Rightarrow> padRight 30 timeStr @ '' '' @ padLeft 12 (showLong (smLength meta)) @ '' '' @ name @ [LF]
               | _ \<Rightarrow> padRight 30 ''<???>'' @ '' '' @ padLeft 12 ''<???>'' @ '' '' @ name @ [LF])))"

function dosLoop :: "SitePtr option \<Rightarrow> Listing \<Rightarrow> World \<Rightarrow> (string \<times> World) res" where
  "dosLoop p l w =
     bindr (siteAt (wSites w) p) (\<lambda>s.
     bindr (siteDirectoryListingRead (wDisk w) s l) (\<lambda>(entry, l1).
       case entry of
         None \<Rightarrow> Inr ([], w)
       | Some en \<Rightarrow>
           bindr (siteDirectoryListingEntryStat (wDisk w) s l1 en emptyMeta) (\<lambda>(e, meta, s1).
           bindr (if e = None then entryLine meta else Inr []) (\<lambda>t.
           bindr (dosLoop p l1 (putSite w p s1 (wDisk w))) (\<lambda>(ts, w2). Inr (t @ ts, w2))))))"
  by pat_completeness auto
termination by (relation "measure (\<lambda>(p, l, w). entriesLeft l)") (auto dest: listing_left)

declare dosLoop.simps [simp del]

definition openListing :: "CliEnv \<Rightarrow> SitePtr option \<Rightarrow> string \<Rightarrow> World \<Rightarrow> (Listing option \<times> World) res" where
  "openListing env p path w =
     bindr (siteAt (wSites w) p) (\<lambda>s.
     bindr (siteDirectoryListingOpen (ceNow env) (wDisk w) s path) (\<lambda>(l, s1). Inr (l, putSite w p s1 (wDisk w))))"

text \<open>\<open>path = None\<close> is \<open>NULL\<close>, and stands for the working directory.\<close>

definition PrintDirectoryFilesDosLike :: "CliEnv \<Rightarrow> SitePtr option \<Rightarrow> string option \<Rightarrow> Cli \<Rightarrow> Cli res" where
  "PrintDirectoryFilesDosLike env site path0 c =
     (let path = (case path0 of None \<Rightarrow> ''.'' | Some p \<Rightarrow> p) in
      bindr (openListing env site path (clWorld c)) (\<lambda>(dir, w1). case dir of
        None \<Rightarrow> Inr (c\<lparr>clWorld := w1\<rparr>)
      | Some l \<Rightarrow>
          bindr (workingDetails (wSites w1) site) (\<lambda>details.
          bindr (case uPath details of
                   None \<Rightarrow> Inr None
                 | Some cur \<Rightarrow> bindr (uriPathAbsoluteAppend cur path) (\<lambda>t.
                     Inr (uriDetailsCreateString (details\<lparr>uPath := (if t = None then Some cur else t)\<rparr>)))) (\<lambda>pathRes.
          bindr (dosLoop site l w1) (\<lambda>(t, w2).
            Inr (say ('' Site: '' @ showLong (siteArrayActiveGetNth (clSites c)) @ [LF] @ '' Path: '' @ [SQUOTE] @
                      (case pathRes of None \<Rightarrow> ''Unknown'' | Some r \<Rightarrow> r) @ [SQUOTE, LF, LF] @ t @ [LF])
                   (c\<lparr>clWorld := w2\<rparr>)))))))"

text \<open>Reading a listing does not change the site.\<close>

function unixLoop :: "Disk \<Rightarrow> Site \<Rightarrow> Listing \<Rightarrow> string res" where
  "unixLoop dk s l =
     bindr (siteDirectoryListingRead dk s l) (\<lambda>(entry, l1).
       case entry of
         None \<Rightarrow> Inr []
       | Some en \<Rightarrow>
           (case smName en of
              None \<Rightarrow> Inl NullDereference
            | Some name \<Rightarrow>
                bindr (unixLoop dk s l1) (\<lambda>t.
                  Inr ((if strchr name (CHR '' '') \<noteq> None then [SQUOTE] @ name @ [SQUOTE] @ ''   '' else name @ ''   '') @ t))))"
  by pat_completeness auto
termination by (relation "measure (\<lambda>(dk, s, l). entriesLeft l)") (auto dest: listing_left)

declare unixLoop.simps [simp del]

definition PrintDirectoryFilesUnixLike :: "CliEnv \<Rightarrow> SitePtr option \<Rightarrow> string option \<Rightarrow> Cli \<Rightarrow> Cli res" where
  "PrintDirectoryFilesUnixLike env site path0 c =
     bindr (openListing env site (case path0 of None \<Rightarrow> ''.'' | Some p \<Rightarrow> p) (clWorld c)) (\<lambda>(dir, w1). case dir of
        None \<Rightarrow> Inr (c\<lparr>clWorld := w1\<rparr>)
      | Some l \<Rightarrow>
          bindr (siteAt (wSites w1) site) (\<lambda>s.
          bindr (unixLoop (wDisk w1) s l) (\<lambda>t. Inr (say ('' '' @ t @ [LF]) (c\<lparr>clWorld := w1\<rparr>)))))"

section \<open>Mounting\<close>

text \<open>The kind of site a scheme stands for.\<close>

definition mountType :: "UriScheme \<Rightarrow> SiteType option" where
  "mountType scheme =
     (case scheme of
        SCHEME_HTTP \<Rightarrow> Some TYPE_HTTP
      | SCHEME_HTTPS \<Rightarrow> Some TYPE_HTTP
      | SCHEME_FILE \<Rightarrow> Some TYPE_FILE
      | _ \<Rightarrow> None)"

text \<open>
  \<open>siteNew\<close> uses the next list of connection attempts; the memory of the new structure was cleared. The
  site is compared by its bytes, so that the new one is the active one afterwards.
\<close>

definition MountSite :: "CliEnv \<Rightarrow> string \<Rightarrow> Cli \<Rightarrow> (ClientErr option \<times> Cli) res" where
  "MountSite env parameter c =
     (let details = uriDetailsNewFrom (Some parameter) in
      if uHost details = None then Inr (Some ErrAddressNotUnderstood, c)
      else (case mountType (uriDetailsGetScheme details) of
              None \<Rightarrow> Inr (Some ErrSchemeNotRecognized, c)
            | Some type \<Rightarrow>
                let attempts = (case clConnects c of [] \<Rightarrow> [] | as # _ \<Rightarrow> as);
                    c1 = c\<lparr>clConnects := drop 1 (clConnects c), clFresh := clFresh c + 1\<rparr> in
                bindr (siteNew (clFresh c) (wDisk (clWorld c)) 0 attempts (ceResolver env) type (Some parameter)) (\<lambda>(e, site).
                  case (e, site) of
                    (None, Some s) \<Rightarrow> Inr (None, setSites (siteArrayActiveSet (siteArrayAdd (clSites c) s) s) c1)
                  | _ \<Rightarrow> Inr (e, c1))))"

text \<open>One line of the list of sites.\<close>

definition mountLine :: "int \<Rightarrow> int \<Rightarrow> nat \<Rightarrow> Site \<Rightarrow> string res" where
  "mountLine a b i s =
     (case siteWorkingDirectoryGet s of
        None \<Rightarrow> Inl NullDereference
      | Some u \<Rightarrow> Inr ((if int i = b then ''+'' else '' '') @ (if int i = a then ''>'' else '' '') @ showLong (int i) @ '':'' @
                       [TAB] @ u @ [LF]))"

fun mountLines :: "int \<Rightarrow> int \<Rightarrow> nat \<Rightarrow> Site list \<Rightarrow> string res" where
  "mountLines a b i [] = Inr []"
| "mountLines a b i (s # ss) =
     bindr (mountLine a b i s) (\<lambda>t. bindr (mountLines a b (i + 1) ss) (\<lambda>ts. Inr (t @ ts)))"

text \<open>With no site left the array starts anew; the new site is not listed yet.\<close>

definition MountList :: "CliEnv \<Rightarrow> Cli \<Rightarrow> Cli res" where
  "MountList env c =
     (if saArray (clSites c) = [] then
        bindr (siteArrayInit (clFresh c) (wDisk (clWorld c)) (ceResolver env))
          (\<lambda>a. Inr (setSites a (c\<lparr>clFresh := clFresh c + 1\<rparr>)))
      else
        bindr (mountLines (siteArrayActiveGetNth (clSites c)) (siteArrayActiveGetWriteNth (clSites c)) 0 (saArray (clSites c)))
          (\<lambda>t. Inr (say t c)))"

section \<open>The queue\<close>

definition QueueClear :: "Cli \<Rightarrow> Cli" where
  "QueueClear c = c\<lparr>clQueue := None\<rparr>"

text \<open>The addresses of both ends of an entry, or \<open>None\<close> when one of them has none.\<close>

definition entryUris :: "SiteArray \<Rightarrow> QueueEntry \<Rightarrow> (string \<times> string) option res" where
  "entryUris sites e =
     bindr (queueEntryGetUri sites (qeSourceSite e) (qeSourcePath e)) (\<lambda>src. case src of
       None \<Rightarrow> Inr None
     | Some s \<Rightarrow>
         bindr (queueEntryGetUri sites (qeDestinationSite e) (qeDestinationPath e)) (\<lambda>dst. case dst of
           None \<Rightarrow> Inr None
         | Some d \<Rightarrow> Inr (Some (s, d))))"

definition listLine :: "nat \<Rightarrow> nat \<Rightarrow> int \<Rightarrow> QueueEntry \<Rightarrow> (string \<times> string) option \<Rightarrow> string" where
  "listLine width i j e uris =
     (case uris of
        None \<Rightarrow> showLong (int i) @ '': data corruption'' @ [LF]
      | Some (s, d) \<Rightarrow>
          '' '' @ padLeft width (showLong j) @ '': '' @ (if qeState e AND QUEUE_TYPE_RECURSIVE \<noteq> 0 then ''XCOPY'' else ''COPY'') @
          '' '' @ s @ '' > '' @ d @ [LF])"

fun listAll :: "SiteArray \<Rightarrow> nat \<Rightarrow> nat \<Rightarrow> QueueEntry list \<Rightarrow> string res" where
  "listAll sites width i [] = Inr []"
| "listAll sites width i (e # es) =
     bindr (entryUris sites e) (\<lambda>u. bindr (listAll sites width (i + 1) es) (\<lambda>t. Inr (listLine width i (int i) e u @ t)))"

text \<open>With a mask, the entries of the mask are listed with their numbers in the queue.\<close>

fun listMasked :: "SiteArray \<Rightarrow> nat \<Rightarrow> QueueEntryArray \<Rightarrow> nat \<Rightarrow> QueueEntry list \<Rightarrow> string res" where
  "listMasked sites width array i [] = Inr []"
| "listMasked sites width array i (e # es) =
     bindr (entryUris sites e) (\<lambda>u.
     bindr (if u = None then Inr 0
            else bindr (queueEntryArrayFindNth array e) (\<lambda>f. Inr (case f of None \<Rightarrow> -1 | Some k \<Rightarrow> int k))) (\<lambda>j.
     bindr (listMasked sites width array (i + 1) es) (\<lambda>t. Inr (listLine width i j e u @ t))))"

definition QueueList :: "QueueEntryArray \<Rightarrow> QueueEntryArray \<Rightarrow> string \<Rightarrow> Cli \<Rightarrow> Cli res" where
  "QueueList entryArray maskArray noEntries c =
     (case entryArray of
        None \<Rightarrow> Inr (putsLine noEntries c)
      | Some es \<Rightarrow>
          (case maskArray of
             None \<Rightarrow> bindr (listAll (clSites c) (GetLongWidth (length es)) 0 es) (\<lambda>t. Inr (say t c))
           | Some ms \<Rightarrow>
               if ms = [] then Inr (putsLine noEntries c)
               else bindr (listMasked (clSites c) (GetLongWidth (length es)) entryArray 0 ms) (\<lambda>t. Inr (say t c))))"

text \<open>
  The loop of \<open>QUEUE START\<close>, \<open>MIRROR\<close> and \<open>UPDATE\<close>, with the way to download. An entry whose ends have no
  address is skipped.
\<close>

fun runEntries ::
    "(QueueEntry \<Rightarrow> World \<Rightarrow> (ClientErr option \<times> QueueEntry \<times> World) res) \<Rightarrow> CliEnv \<Rightarrow> nat \<Rightarrow> nat \<Rightarrow> QueueEntry list \<Rightarrow> World \<Rightarrow>
     (QueueEntry list \<times> World \<times> string) res" where
  "runEntries download env width i [] w = Inr ([], w, [])"
| "runEntries download env width i (e # es) w =
     bindr (entryUris (wSites w) e) (\<lambda>u.
     bindr (case u of
              None \<Rightarrow> Inr (e, w, [])
            | Some (s, d) \<Rightarrow>
                bindr (download e w) (\<lambda>(err, e1, w1).
                  Inr (e1, w1, padLeft width (showLong (int i)) @ '': '' @ s @ '' -> '' @ d @ [LF] @
                         (case err of None \<Rightarrow> []
                          | Some m \<Rightarrow> padLeft width (showLong (int i)) @ '': '' @ errText (ceStrerror env) m @ [LF]))))
       (\<lambda>(e1, w1, t).
     bindr (runEntries download env width (i + 1) es w1) (\<lambda>(es1, w2, ts). Inr (e1 # es1, w2, t @ ts))))"

definition runQueue ::
    "(QueueEntry \<Rightarrow> World \<Rightarrow> (ClientErr option \<times> QueueEntry \<times> World) res) \<Rightarrow> CliEnv \<Rightarrow> Cli \<Rightarrow> Cli res" where
  "runQueue download env c =
     (case clQueue c of
        None \<Rightarrow> Inr (putsErr env (Some ErrNoQueue) c)
      | Some es \<Rightarrow>
          bindr (runEntries download env (GetLongWidth (length es)) 0 es (clWorld c)) (\<lambda>(es1, w, t).
            Inr (say t (c\<lparr>clQueue := Some es1, clWorld := w\<rparr>))))"

definition QueueStart :: "CliEnv \<Rightarrow> Cli \<Rightarrow> Cli res" where
  "QueueStart env c = runQueue queueEntryDownloadNoClobber env c"

definition QueueMirror :: "CliEnv \<Rightarrow> Cli \<Rightarrow> Cli res" where
  "QueueMirror env c = runQueue queueEntryDownloadMirror env c"

definition QueueUpdate :: "CliEnv \<Rightarrow> Cli \<Rightarrow> Cli res" where
  "QueueUpdate env c = runQueue queueEntryDownloadUpdate env c"

text \<open>Searching for several texts, one after the other; a number out of range leaves \<open>errno\<close> set.\<close>

fun searchAll :: "bool \<Rightarrow> SiteArray \<Rightarrow> QueueEntryArray \<Rightarrow> QueueEntryArray \<Rightarrow> string list \<Rightarrow> (ClientErr option \<times> QueueEntryArray) res" where
  "searchAll errnoSet sites array found [] = Inr (None, found)"
| "searchAll errnoSet sites array found (s # ss) =
     bindr (queueEntryArraySearch errnoSet sites array found s) (\<lambda>(e, found1).
       if e \<noteq> None then Inr (e, found1)
       else searchAll (errnoSet \<or> fst (snd (strtol s))) sites array found1 ss)"

definition queueFind :: "CliEnv \<Rightarrow> string list \<Rightarrow> Cli \<Rightarrow> Cli res" where
  "queueFind env texts c =
     bindr (searchAll (ceErrnoSet env) (clSites c) (clQueue c) None texts) (\<lambda>(e, found).
       if e \<noteq> None then Inr (putsErr env e c)
       else QueueList (clQueue c) found ''No results found'' c)"

fun removeAll :: "QueueEntryArray \<Rightarrow> QueueEntry list \<Rightarrow> QueueEntryArray res" where
  "removeAll array [] = Inr array"
| "removeAll array (e # es) = bindr (queueEntryArrayRemove array e) (\<lambda>(_, array1). removeAll array1 es)"

definition queueRemove :: "CliEnv \<Rightarrow> string list \<Rightarrow> Cli \<Rightarrow> Cli res" where
  "queueRemove env texts c =
     bindr (searchAll (ceErrnoSet env) (clSites c) (clQueue c) None texts) (\<lambda>(e, found).
       if e \<noteq> None then Inr (putsErr env e c)
       else (case found of
               None \<Rightarrow> Inl NullDereference
             | Some fs \<Rightarrow> bindr (removeAll (clQueue c) fs) (\<lambda>q. Inr (c\<lparr>clQueue := q\<rparr>))))"

section \<open>Running a command of the system\<close>

text \<open>
  The arguments are pointers into one block that holds them one behind the other; \<open>StripBang\<close> moves
  the block by one byte and the pointers behind the first with it.
\<close>

definition argvBlock :: "string list \<Rightarrow> string" where
  "argvBlock args = concat (map (\<lambda>s. s @ [NUL]) args)"

fun argvPtrs :: "nat \<Rightarrow> string list \<Rightarrow> nat list" where
  "argvPtrs p [] = []"
| "argvPtrs p (s # ss) = p # argvPtrs (p + length s + 1) ss"

definition cstrAt :: "string \<Rightarrow> nat \<Rightarrow> string" where
  "cstrAt m p = takeWhile (\<lambda>c. c \<noteq> NUL) (drop p m)"

definition StripBang :: "string \<Rightarrow> nat list \<Rightarrow> string \<times> nat list" where
  "StripBang m args =
     (let args1 = take 1 args @ map (\<lambda>p. p - 1) (drop 1 args);
          i = length args - 1;
          e = args1 ! i + length (cstrAt m (args1 ! i + 1)) + 1;
          p = args1 ! 0
      in (take p m @ take (e - p) (drop (p + 1) m) @ drop e m, args1))"

definition bangArgs :: "string list \<Rightarrow> string list" where
  "bangArgs args =
     (if chC (args ! 0) 1 \<noteq> NUL then (case StripBang (argvBlock args) (argvPtrs 0 args) of (m, ps) \<Rightarrow> map (cstrAt m) ps)
      else drop 1 args)"

definition runSystem :: "CliEnv \<Rightarrow> string list \<Rightarrow> Cli \<Rightarrow> Cli" where
  "runSystem env args c =
     (case ceExec env args (wDisk (clWorld c)) of (m, dk) \<Rightarrow>
        let c1 = c\<lparr>clRan := clRan c @ [args], clWorld := (clWorld c)\<lparr>wDisk := dk\<rparr>\<rparr> in
        case m of None \<Rightarrow> c1 | Some t \<Rightarrow> putsLine t c1)"

section \<open>Commands\<close>

definition invalidId :: "Cli \<Rightarrow> Cli res" where
  "invalidId c = Inr (putsLine (''Invalid site. See currently valid sites with '' @ [SQUOTE] @ ''MOUNT'' @ [SQUOTE]) c)"

definition notFound :: "Cli \<Rightarrow> Cli res" where
  "notFound c = Inr (putsLine (''Command not found. See valid commands with '' @ [SQUOTE] @ ''?'' @ [SQUOTE]) c)"

text \<open>The word in any case of letters, as the chains of \<open>toupper\<close> compare it up to its NUL.\<close>

definition isWord :: "string \<Rightarrow> string \<Rightarrow> bool" where
  "isWord a w \<longleftrightarrow> upperS a = w"

text \<open>The word in any case of letters, but with any first character: what is left of a check behind a missing \<open>break\<close>.\<close>

definition isTail :: "string \<Rightarrow> string \<Rightarrow> bool" where
  "isTail a w \<longleftrightarrow> a \<noteq> [] \<and> upperS (drop 1 a) = w"

text \<open>
  The test for \<open>XCOPY\<close> forgets the second character, and so reads on in the block of the arguments
  when the first argument has only one.
\<close>

definition isXCopy :: "string list \<Rightarrow> bool" where
  "isXCopy args \<longleftrightarrow>
     (let ch = (\<lambda>k. toupperC (chC (argvBlock args) k)) in
      (ch 1 = CHR ''C'' \<and> chC (argvBlock args) 2 = NUL) \<or>
      (ch 2 = CHR ''O'' \<and> ch 3 = CHR ''P'' \<and> ch 4 = CHR ''Y'' \<and> chC (argvBlock args) 5 = NUL))"

text \<open>\<open>PrintHelp\<close> and \<open>QueueHelp\<close>.\<close>

definition helpText :: string where
  "helpText =
     '' ?            - Show this printout          #|>...      - Change active site'' @ [LF] @
     '' ! ...        - Run system command          +(>|!|#)    - Change default writing site'' @ [LF] @
     '' COPY ...     - Queue file(s) for download  EXIT        - Close the program'' @ [LF] @
     '' DIR|LS (...) - Full|Slim directory info    MOUNT (...) - Mount URI as site'' @ [LF] @
     '' PWD (#)      - Print site current path     QUEUE (...) - List enqueued tasks'' @ [LF] @
     '' UMOUNT #     - Unmount site                XCOPY ...   - Queue subdirectorie(s) for download'' @ [LF]"

definition PrintHelp :: "Cli \<Rightarrow> Cli" where
  "PrintHelp c = putsLine ('' # = id, ... = parameter(s), () = parameter is optional.'' @
                           '' All commands are case-insensitive.'' @ [LF]) (putsLine helpText c)"

definition QueueHelp :: "Cli \<Rightarrow> Cli" where
  "QueueHelp c =
     say (concat (map (\<lambda>(a, b). '' '' @ padRight 20 a @ '' - '' @ b @ [LF])
       [(''QUEUE LIST'', ''List all queue entries''),
        (''QUEUE FIND (#|...)'', ''List queue entries by queue id or uri matching''),
        (''QUEUE LOAD'', ''Load queue from a local file''),
        (''QUEUE SAVE'', ''Save queue to a local file''),
        (''QUEUE CLEAR'', ''Remove all entries from the queue''),
        (''QUEUE REMOVE (#|...)'', ''Remove entries by queue id or uri matching''),
        (''QUEUE START'', ''Download queue entries, do not overwrite existing''),
        (''QUEUE UPDATE'', ''Download queue entries, overwrite existing if newer''),
        (''QUEUE MIRROR'', ''Download queue entries, overwrite existing'')])) c"

text \<open>Changing the active site, and unmounting the site a pointer leads to.\<close>

definition activate :: "CliEnv \<Rightarrow> int \<Rightarrow> Cli \<Rightarrow> Cli res" where
  "activate env l c = (case siteArrayActiveSetNth (clSites c) l of (e, a) \<Rightarrow> Inr (putsErr env e (setSites a c)))"

definition activateWrite :: "CliEnv \<Rightarrow> int \<Rightarrow> Cli \<Rightarrow> Cli res" where
  "activateWrite env l c = (case siteArrayActiveSetWriteNth (clSites c) l of (e, a) \<Rightarrow> Inr (putsErr env e (setSites a c)))"

definition unmount :: "SitePtr option \<Rightarrow> Cli \<Rightarrow> Cli res" where
  "unmount p c =
     bindr (siteAt (clSites c) p) (\<lambda>s.
     bindr (siteArrayRemove (setSiteAt (clSites c) p (siteFree s)) (siteFree s)) (\<lambda>a. Inr (setSites a c)))"

definition printDirectory :: "SitePtr option \<Rightarrow> Cli \<Rightarrow> Cli res" where
  "printDirectory p c = bindr (siteAt (clSites c) p) (\<lambda>s. putsPtr (siteWorkingDirectoryGet s) c)"

definition plusCommand :: "CliEnv \<Rightarrow> string \<Rightarrow> Cli \<Rightarrow> Cli res" where
  "plusCommand env a c =
     (if length a = 1 then
        (case siteArrayActiveGetWrite (clSites c) of None \<Rightarrow> invalidId c | Some p \<Rightarrow> printDirectory (Some p) c)
      else if a ! 1 = CHR ''!'' then
        (let l = siteArrayActiveGetWriteNth (clSites c) in
         case siteArrayActiveSetWriteNth (clSites c) (siteArrayActiveGetNth (clSites c)) of
           (None, s1) \<Rightarrow> Inr (setSites (snd (siteArrayActiveSetNth s1 l)) c)
         | (Some e, s1) \<Rightarrow> Inr (putsErr env (Some e) (setSites s1 c)))
      else if a ! 1 = CHR ''>'' then activateWrite env (siteArrayActiveGetNth (clSites c)) c
      else bindr (siteArrayGetFromInputNth (ceResolver env) (clSites c) (drop 1 a)) (\<lambda>l.
             if l \<noteq> -1 then activateWrite env l c else invalidId c))"

text \<open>Commands without a parameter, by their first character.\<close>

definition noParameter :: "CliEnv \<Rightarrow> string \<Rightarrow> Cli \<Rightarrow> Cli res" where
  "noParameter env a c =
     (let f = toupperC (chC a 0) in
      if f = CHR ''!'' then Inr (runSystem env [drop 1 a] c)
      else if f = CHR ''?'' then Inr (PrintHelp c)
      else if f = CHR ''>'' then
        (if chC a 1 \<noteq> NUL then
           bindr (siteArrayGetFromInputNth (ceResolver env) (clSites c) (drop 1 a)) (\<lambda>l.
             if l \<noteq> -1 then activate env l c else invalidId c)
         else Inr c)
      else if f = CHR ''+'' then plusCommand env a c
      else if isWord a ''DIR'' then
        (case siteArrayActiveGet (clSites c) of None \<Rightarrow> invalidId c | Some p \<Rightarrow> PrintDirectoryFilesDosLike env (Some p) None c)
      else if isWord a ''EXIT'' then Inr (c\<lparr>clExit := True\<rparr>)
      else if isWord a ''LS'' then
        (case siteArrayActiveGet (clSites c) of None \<Rightarrow> invalidId c | Some p \<Rightarrow> PrintDirectoryFilesUnixLike env (Some p) None c)
      else if isWord a ''MOUNT'' then MountList env c
      else if isWord a ''PWD'' then printDirectory (siteArrayActiveGet (clSites c)) c
      else if isWord a ''QUEUE'' then Inr (QueueHelp c)
      else if isWord a ''UMOUNT'' then
        (case siteArrayActiveGet (clSites c) of None \<Rightarrow> Inr c | Some p \<Rightarrow> unmount (Some p) c)
      else if isdigitC f then
        (case strtol a of (l, erange, _) \<Rightarrow> if erange then Inr c else activate env l c)
      else notFound c)"

definition changeDirectory :: "CliEnv \<Rightarrow> string \<Rightarrow> Cli \<Rightarrow> Cli res" where
  "changeDirectory env path c =
     (let p = siteArrayActiveGet (clSites c) in
      bindr (siteAt (clSites c) p) (\<lambda>s.
      bindr (siteWorkingDirectorySet (wDisk (clWorld c)) s path) (\<lambda>(r, s1, dk).
        let c1 = c\<lparr>clWorld := putSite (clWorld c) p s1 dk\<rparr> in
        Inr (if r \<noteq> 0 then putsLine (ceStrerror env (dkErrno dk)) c1 else c1))))"

definition printDirectoryOf :: "string \<Rightarrow> Cli \<Rightarrow> Cli res" where
  "printDirectoryOf a c =
     (case strtol a of (l, erange, _) \<Rightarrow>
        if erange then invalidId c
        else if siteArrayNthMounted (clSites c) l then printDirectory (sitePtr (clSites c) l) c
        else invalidId c)"

definition queueCommand :: "CliEnv \<Rightarrow> string \<Rightarrow> Cli \<Rightarrow> Cli res" where
  "queueCommand env a c =
     (if isWord a ''CLEAR'' then Inr (QueueClear c)
      else if isWord a ''LIST'' then QueueList (clQueue c) None ''No queue entries'' c
      else if isWord a ''MIRROR'' then QueueMirror env c
      else if isWord a ''START'' then QueueStart env c
      else if isWord a ''UPDATE'' then QueueUpdate env c
      else notFound c)"

text \<open>
  Commands with one parameter. The case of \<open>Q\<close> falls through to that of \<open>U\<close> when the word is not \<open>QUEUE\<close>,
  so that \<open>QMOUNT\<close> unmounts.
\<close>

definition oneParameter :: "CliEnv \<Rightarrow> string list \<Rightarrow> Cli \<Rightarrow> Cli res" where
  "oneParameter env args c =
     (let a = args ! 0; b = args ! 1; f = toupperC (chC a 0) in
      if f = CHR ''!'' then Inr (runSystem env (bangArgs args) c)
      else if isWord a ''CD'' then changeDirectory env b c
      else if isWord a ''CP'' \<or> isWord a ''COPY'' then Copy env args c
      else if isWord a ''DIR'' then PrintDirectoryFilesDosLike env (siteArrayActiveGet (clSites c)) (Some b) c
      else if isWord a ''LS'' then PrintDirectoryFilesUnixLike env (siteArrayActiveGet (clSites c)) (Some b) c
      else if isWord a ''MOUNT'' then bindr (MountSite env b c) (\<lambda>(e, c1). Inr (putsErr env e c1))
      else if isWord a ''PWD'' then printDirectoryOf b c
      else if isWord a ''QUEUE'' then queueCommand env b c
      else if (f = CHR ''Q'' \<or> f = CHR ''U'') \<and> isTail a ''MOUNT'' then
        bindr (siteArrayGetFromInput (ceResolver env) (clSites c) b) (\<lambda>p. case p of
          None \<Rightarrow> invalidId c
        | Some q \<Rightarrow> unmount (Some q) c)
      else if f = CHR ''X'' \<and> isXCopy args then XCopy env args c
      else notFound c)"

text \<open>Commands with more. The case of \<open>F\<close> falls through to that of \<open>R\<close>.\<close>

definition manyParameters :: "CliEnv \<Rightarrow> string list \<Rightarrow> Cli \<Rightarrow> Cli res" where
  "manyParameters env args c =
     (let a = args ! 0; b = args ! 1; f = toupperC (chC a 0); g = toupperC (chC b 0) in
      if f = CHR ''!'' then Inr (runSystem env (bangArgs args) c)
      else if isWord a ''CP'' \<or> isWord a ''COPY'' then Copy env args c
      else if isWord a ''QUEUE'' then
        (if isWord b ''FIND'' then queueFind env (drop 2 args) c
         else if (g = CHR ''F'' \<or> g = CHR ''R'') \<and> isTail b ''EMOVE'' then queueRemove env (drop 2 args) c
         else notFound c)
      else if f = CHR ''X'' \<and> isXCopy args then XCopy env args c
      else notFound c)"

definition ProcessCommand :: "CliEnv \<Rightarrow> string list \<Rightarrow> Cli \<Rightarrow> Cli res" where
  "ProcessCommand env args c =
     (case args of
        [] \<Rightarrow> Inr c
      | [a] \<Rightarrow> noParameter env a c
      | [a, b] \<Rightarrow> oneParameter env args c
      | a # b # d # _ \<Rightarrow> if chC d 0 = CHR ''-'' then oneParameter env args c else manyParameters env args c)"

section \<open>The loop\<close>

definition BUFSIZ :: nat where "BUFSIZ = 8192"

text \<open>\<open>fgets\<close> gives the text up to the end of the line, but never more than fits the buffer.\<close>

definition fgetsLine :: "string \<Rightarrow> string" where
  "fgetsLine input =
     (let l = takeWhile (\<lambda>c. c \<noteq> LF) input in
      take (BUFSIZ - 1) (if length l < length input then l @ [LF] else l))"

definition CleanInput :: "string \<Rightarrow> string" where
  "CleanInput input = takeWhile (\<lambda>c. c \<noteq> LF) input"

lemma fgetsLine_less: "input \<noteq> [] \<Longrightarrow> length (drop (length (fgetsLine input)) input) < length input"
proof -
  assume a: "input \<noteq> []"
  then have "fgetsLine input \<noteq> []" by (cases input) (auto simp: fgetsLine_def Let_def BUFSIZ_def)
  with a show ?thesis by simp
qed

text \<open>The arguments of a line, up to the first \<open>NULL\<close>; an empty line has none.\<close>

definition lineArgs :: "string \<Rightarrow> string list option res" where
  "lineArgs line =
     bindr (platformArgvConvertString (Some (takeWhile (\<lambda>c. c \<noteq> NUL) (CleanInput line)))) (\<lambda>r.
       Inr (map_option (\<lambda>args. map the (takeWhile (\<lambda>x. x \<noteq> None) args)) r))"

text \<open>
  The program ends with the command \<open>EXIT\<close> only: at the end of the input the loop goes on forever, and
  prints its prompt every time. \<open>env\<close> gives the surroundings of the commands one after the other.
\<close>

function interactiveLoop :: "(nat \<Rightarrow> CliEnv) \<Rightarrow> string \<Rightarrow> Cli \<Rightarrow> Cli res" where
  "interactiveLoop env input c =
     (if input = [] then Inl EndlessLoop
      else
        let line = fgetsLine input;
            c1 = say (showLong (siteArrayActiveGetNth (clSites c)) @ '' # '') c in
        bindr (lineArgs line) (\<lambda>r.
        bindr (case r of None \<Rightarrow> Inr c1 | Some args \<Rightarrow> ProcessCommand (env 0) args c1) (\<lambda>c2.
          if clExit c2 then Inr c2 else interactiveLoop (\<lambda>k. env (k + 1)) (drop (length line) input) c2)))"
  by pat_completeness auto
termination
  by (relation "measure (\<lambda>(env, input, c). length input)") (use fgetsLine_less in auto)

declare interactiveLoop.simps [simp del]

definition InteractiveMode :: "(nat \<Rightarrow> CliEnv) \<Rightarrow> string \<Rightarrow> Cli \<Rightarrow> Cli res" where
  "InteractiveMode env input c =
     bindr (siteArrayInit (clFresh c) (wDisk (clWorld c)) (ceResolver (env 0))) (\<lambda>a.
       interactiveLoop env input (setSites a (c\<lparr>clFresh := clFresh c + 1\<rparr>)))"

end
