(* ===== verification/Queue_Frames.thy ===== *)
theory Queue_Frames
  imports Queue
begin

text \<open>
  What the operations of \<open>site.c\<close> and \<open>queue.c\<close> leave alone: the array of sites keeps its sites and its
  selections, and the disk keeps its files, except for the one that is open for writing.
\<close>

section \<open>Frames\<close>

fun siteId :: "Site \<Rightarrow> nat" where
  "siteId (SITE_FILE i s) = i"
| "siteId (SITE_HTTP i s) = i"

definition sameSites :: "SiteArray \<Rightarrow> SiteArray \<Rightarrow> bool" where
  "sameSites a b \<longleftrightarrow>
     saBlock a = saBlock b \<and> map siteId (saArray a) = map siteId (saArray b) \<and>
     saActiveRead a = saActiveRead b \<and> saActiveWrite a = saActiveWrite b"

text \<open>The files of the disk outside the paths \<open>P\<close> are the same.\<close>

definition sameFiles :: "string set \<Rightarrow> Disk \<Rightarrow> Disk \<Rightarrow> bool" where
  "sameFiles P dk dk1 \<longleftrightarrow> (\<forall>path. path \<notin> P \<longrightarrow> dkNode dk1 path = dkNode dk path)"

definition worldKeeps :: "string set \<Rightarrow> World \<Rightarrow> World \<Rightarrow> bool" where
  "worldKeeps P w w1 \<longleftrightarrow> sameSites (wSites w) (wSites w1) \<and> sameFiles P (wDisk w) (wDisk w1)"

lemma worldKeeps_refl [simp]: "worldKeeps P w w"
  by (simp add: worldKeeps_def sameSites_def sameFiles_def)

lemma worldKeeps_trans: "worldKeeps P w w1 \<Longrightarrow> worldKeeps P w1 w2 \<Longrightarrow> worldKeeps P w w2"
  by (auto simp: worldKeeps_def sameSites_def sameFiles_def)

lemma worldKeeps_mono: "worldKeeps P w w1 \<Longrightarrow> P \<subseteq> Q \<Longrightarrow> worldKeeps Q w w1"
  by (auto simp: worldKeeps_def sameFiles_def)

text \<open>A site is put back under its own number.\<close>

lemma putSite_keeps:
  assumes "siteAt (wSites w) p = Inr s" "siteId s1 = siteId s" "sameFiles P (wDisk w) dk"
  shows "worldKeeps P w (putSite w p s1 dk)"
proof -
  from assms(1) obtain b i where p: "p = Some (b, i)" "b = saBlock (wSites w)" "i < length (saArray (wSites w))"
    "saArray (wSites w) ! i = s" by (auto simp: siteAt_def split: option.splits if_splits)
  have "map siteId ((saArray (wSites w))[i := s1]) = map siteId (saArray (wSites w))"
    using p assms(2) by (simp add: map_update) (metis length_map list_update_id nth_map)
  with p assms(3) show ?thesis by (simp add: worldKeeps_def sameSites_def putSite_def setSiteAt_def)
qed

lemma sameFiles_refl [simp]: "sameFiles P dk dk"
  by (simp add: sameFiles_def)

lemma sameFiles_errno [simp]: "sameFiles P dk (dk\<lparr>dkErrno := e\<rparr>)"
  by (simp add: sameFiles_def)

lemma sameFiles_mono: "sameFiles P dk dk1 \<Longrightarrow> P \<subseteq> Q \<Longrightarrow> sameFiles Q dk dk1"
  by (auto simp: sameFiles_def)

section \<open>Files that are open\<close>

lemma open_rb:
  "platformFileOpen dk p ''rb'' = (f, dk1) \<Longrightarrow> sameFiles P dk dk1 \<and> (\<forall>x. f = Some x \<longrightarrow> \<not> pfWrites x)"
  by (auto simp: platformFileOpen_def Let_def split: option.splits Node.splits)

lemma open_wb:
  "platformFileOpen dk p ''wb'' = (f, dk1) \<Longrightarrow> sameFiles {p} dk dk1 \<and> (\<forall>x. f = Some x \<longrightarrow> pfPath x = p)"
  by (auto simp: platformFileOpen_def Let_def sameFiles_def split: option.splits Node.splits)

lemma FileOpen_cases:
  assumes "FileOpen dk s path mode = Inr (e, s1, dk1)"
  obtains full where "ResolveToSystemPath (fsFullUri s) path = Inr full" "fsFullUri s1 = fsFullUri s"
    "full = None \<and> dk1 = dk \<and> fsFile s1 = None \<or> (\<exists>p. full = Some p \<and> platformFileOpen dk p mode = (fsFile s1, dk1))"
proof -
  from assms obtain full where full: "ResolveToSystemPath (fsFullUri s) path = Inr full"
    by (auto simp: FileOpen_def Let_def fileSiteSchemeFileClose_def res_simps)
  show thesis
  proof (cases full)
    case None
    with assms full show thesis by (intro that [of None]) (auto simp: FileOpen_def Let_def fileSiteSchemeFileClose_def)
  next
    case (Some p)
    obtain f dk2 where "platformFileOpen dk p mode = (f, dk2)" by (cases "platformFileOpen dk p mode")
    with assms full Some show thesis
      by (intro that [of full]) (auto simp: FileOpen_def Let_def fileSiteSchemeFileClose_def split: option.splits)
  qed
qed

lemma FileOpen_rb:
  assumes "FileOpen dk s path ''rb'' = Inr (e, s1, dk1)"
  shows "sameFiles P dk dk1 \<and> fsFullUri s1 = fsFullUri s \<and> (\<forall>x. fsFile s1 = Some x \<longrightarrow> \<not> pfWrites x)"
  using assms by (elim FileOpen_cases) (auto dest: open_rb)

lemma FileOpen_wb:
  assumes "FileOpen dk s path ''wb'' = Inr (e, s1, dk1)" "ResolveToSystemPath (fsFullUri s) path = Inr full"
  shows "sameFiles (set_option full) dk dk1 \<and> (\<forall>x. fsFile s1 = Some x \<longrightarrow> full = Some (pfPath x))"
  using assms(1) by (elim FileOpen_cases) (use assms(2) in \<open>auto dest: open_wb\<close>)

lemma openRead_file:
  assumes "fileSiteSchemeFileOpenRead dk s path a b = Inr (e, s1, dk1)"
  shows "sameFiles P dk dk1 \<and> fsFullUri s1 = fsFullUri s \<and> (\<forall>x. fsFile s1 = Some x \<longrightarrow> \<not> pfWrites x)"
  using assms
  by (auto simp: fileSiteSchemeFileOpenRead_def platformFileSeek_def res_simps split: prod.splits if_splits option.splits
      dest!: FileOpen_rb [of _ _ _ _ _ _ P])

lemma write_file:
  assumes "platformFileWrite dk d f = (n, f1, dk1)"
  shows "sameFiles (if pfWrites f then {pfPath f} else {}) dk dk1 \<and> pfPath f1 = pfPath f \<and> pfWrites f1 = pfWrites f"
  using assms by (auto simp: platformFileWrite_def Let_def sameFiles_def split: option.splits Node.splits if_splits)

lemma read_file:
  "platformFileRead dk n f = (d, f1) \<Longrightarrow> pfPath f1 = pfPath f \<and> pfWrites f1 = pfWrites f"
  by (auto simp: platformFileRead_def Let_def split: option.splits Node.splits if_splits)

text \<open>If the site has a file open for writing, it is one of \<open>P\<close>.\<close>

fun writesWithin :: "string set \<Rightarrow> Site \<Rightarrow> bool" where
  "writesWithin P (SITE_FILE i s) \<longleftrightarrow> (\<forall>f. fsFile s = Some f \<longrightarrow> pfWrites f \<longrightarrow> pfPath f \<in> P)"
| "writesWithin P (SITE_HTTP i s) \<longleftrightarrow> True"

lemma siteFileRead_frame:
  "siteFileRead dk s n = Inr (d, s1) \<Longrightarrow> siteId s1 = siteId s \<and> (writesWithin P s \<longrightarrow> writesWithin P s1)"
  by (cases s) (auto simp: res_simps fileSiteSchemeFileRead_def split: option.splits prod.splits dest: read_file)

lemma siteFileOpenRead_frame:
  "siteFileOpenRead dk s path a b = Inr (e, s1, dk1) \<Longrightarrow>
     siteId s1 = siteId s \<and> sameFiles P dk dk1 \<and> writesWithin P s1"
  by (cases s) (auto simp: res_simps dest!: openRead_file [of _ _ _ _ _ _ _ _ P])

lemma siteStatOpenMeta_frame: "siteStatOpenMeta dk s path = Inr (m, s1) \<Longrightarrow> siteId s1 = siteId s"
  by (cases s) (auto simp: res_simps)

lemma siteFileWrite_frame:
  "siteFileWrite dk s d = Inr (n, s1, dk1) \<Longrightarrow> writesWithin P s \<Longrightarrow>
     siteId s1 = siteId s \<and> sameFiles P dk dk1 \<and> writesWithin P s1"
  by (cases s)
    (auto simp: res_simps fileSiteSchemeFileWrite_def split: option.splits prod.splits if_splits dest!: write_file
      intro: sameFiles_mono)

lemma siteFileClose_frame [simp]: "siteId (siteFileClose s) = siteId s" "writesWithin P (siteFileClose s)"
  by (cases s; simp add: fileSiteSchemeFileClose_def)+

section \<open>Downloads\<close>

definition writesAt :: "string set \<Rightarrow> SitePtr option \<Rightarrow> World \<Rightarrow> bool" where
  "writesAt P q w \<longleftrightarrow> (\<forall>s. siteAt (wSites w) q = Inr s \<longrightarrow> writesWithin P s)"

lemma writesAt_put:
  "siteAt (wSites w) p = Inr s0 \<Longrightarrow> writesAt P q w \<Longrightarrow> (p = q \<Longrightarrow> writesWithin P s) \<Longrightarrow> writesAt P q (putSite w p s dk)"
  by (auto simp: writesAt_def putSite_def)

lemma wStat_frame: "wStat p path w = Inr (m, w1) \<Longrightarrow> worldKeeps P w w1"
  by (auto simp: wStat_def res_simps intro!: putSite_keeps dest: siteStatOpenMeta_frame)

lemma wOpenRead_frame: "wOpenRead p path w = Inr (e, w1) \<Longrightarrow> worldKeeps P w w1"
  by (auto simp: wOpenRead_def res_simps intro!: putSite_keeps dest: siteFileOpenRead_frame)

lemma wRead_frame:
  "wRead p w = Inr (d, w1) \<Longrightarrow> writesAt P q w \<Longrightarrow> worldKeeps P w w1 \<and> writesAt P q w1"
  by (auto simp: wRead_def res_simps intro!: putSite_keeps writesAt_put dest: siteFileRead_frame)
    (auto simp: writesAt_def dest: siteFileRead_frame)

lemma wWrite_frame:
  "wWrite q d w = Inr (n, w1) \<Longrightarrow> writesAt P q w \<Longrightarrow> worldKeeps P w w1 \<and> writesAt P q w1"
  by (auto simp: wWrite_def res_simps writesAt_def putSite_def intro!: putSite_keeps [unfolded putSite_def] dest!: siteFileWrite_frame)

lemma wClose_frame: "wClose p w = Inr w1 \<Longrightarrow> worldKeeps P w w1"
  by (auto simp: wClose_def res_simps intro!: putSite_keeps)

lemma copyLoop_cases:
  assumes "copyLoop rd atEnd wr fuel w = Inr (ok, w1)"
  obtains (ends) d where "rd w = Inr (d, w1)"
  | (fails) d w2 x where "rd w = Inr (d, w2)" "wr x w2 = Inr (None, w1)"
  | (goes_on) d w2 x n w3 k where "rd w = Inr (d, w2)" "wr x w2 = Inr (n, w3)" "fuel = Suc k" "copyLoop rd atEnd wr k w3 = Inr (ok, w1)"
proof -
  note step = assms [unfolded copyLoop.simps [of rd atEnd wr fuel w]]
  from step obtain d w2 where r: "rd w = Inr (d, w2)" by (auto simp: res_simps)
  show thesis
  proof (cases "d = None \<or> d = Some []")
    case True
    with step r show thesis by (intro ends [of d]) (auto simp: res_simps)
  next
    case False
    then obtain x where d: "d = Some x" "x \<noteq> []" by auto
    with step r obtain n w3 where w: "wr x w2 = Inr (n, w3)" by (auto simp: res_simps)
    with step r d show thesis
      by (cases n; cases fuel) (auto intro: fails [OF r] goes_on [OF r w])
  qed
qed

lemma copyLoop_invariant:
  assumes "J w" "copyLoop rd atEnd wr fuel w = Inr (ok, w1)"
    and "\<And>w d w1. J w \<Longrightarrow> rd w = Inr (d, w1) \<Longrightarrow> J w1" "\<And>w d n w1. J w \<Longrightarrow> wr d w = Inr (n, w1) \<Longrightarrow> J w1"
  shows "J w1"
  using assms(1,2)
proof (induction fuel arbitrary: w)
  case 0
  from 0(2) show ?case by (rule copyLoop_cases) (use 0(1) assms(3,4) in blast)+
next
  case (Suc fuel)
  from Suc.prems(2) show ?case
  proof (rule copyLoop_cases)
    fix d w2 x n w3 k
    assume "rd w = Inr (d, w2)" "wr x w2 = Inr (n, w3)" "Suc fuel = Suc k" "copyLoop rd atEnd wr k w3 = Inr (ok, w1)"
    with Suc assms(3,4) show ?thesis by blast
  qed (use Suc.prems(1) assms(3,4) in blast)+
qed

text \<open>The path the destination of an entry stands for.\<close>

definition targetPath :: "QueueEntry \<Rightarrow> World \<Rightarrow> string set" where
  "targetPath entry w =
     (case (siteAt (wSites w) (qeDestinationSite entry), qeDestinationPath entry) of
        (Inr (SITE_FILE i s), Some to) \<Rightarrow>
          (case ResolveToSystemPath (fsFullUri s) to of Inr (Some p) \<Rightarrow> {p} | _ \<Rightarrow> {})
      | _ \<Rightarrow> {})"

lemma targetPath_openRead:
  assumes "wOpenRead p path w = Inr (e, w1)"
  shows "targetPath entry w1 = targetPath entry w"
proof -
  from assms obtain s s1 dk1 where s: "siteAt (wSites w) p = Inr s" "siteFileOpenRead (wDisk w) s path (-1) (-1) = Inr (e, s1, dk1)"
    "w1 = putSite w p s1 dk1" by (auto simp: wOpenRead_def res_simps)
  show ?thesis
  proof (cases "qeDestinationSite entry = p")
    case True
    show ?thesis
    proof (cases s)
      case (SITE_FILE i fs)
      with s(2) obtain fs1 where "s1 = SITE_FILE i fs1" "fsFullUri fs1 = fsFullUri fs"
        by (auto simp: res_simps dest: openRead_file [where P = UNIV])
      with True SITE_FILE s(1,3) show ?thesis by (simp add: targetPath_def putSite_def split: option.split)
    next
      case (SITE_HTTP i hs)
      with s(2) obtain hs1 where "s1 = SITE_HTTP i hs1" by (auto simp: res_simps)
      with True SITE_HTTP s(1,3) show ?thesis by (simp add: targetPath_def putSite_def split: option.split)
    qed
  next
    case False
    then show ?thesis using s(3) by (simp add: targetPath_def putSite_def)
  qed
qed

lemma wOpenWrite_frame:
  assumes "wOpenWrite q path w = Inr (e, w1)" "qeDestinationSite entry = q" "qeDestinationPath entry = Some path"
  shows "worldKeeps (targetPath entry w) w w1 \<and> writesAt (targetPath entry w) q w1"
proof -
  from assms obtain s s1 dk1 where s: "siteAt (wSites w) q = Inr s" "siteFileOpenWrite (wDisk w) s path = Inr (e, s1, dk1)"
    "w1 = putSite w q s1 dk1" by (auto simp: wOpenWrite_def res_simps)
  have "siteId s1 = siteId s \<and> sameFiles (targetPath entry w) (wDisk w) dk1 \<and> writesWithin (targetPath entry w) s1"
  proof (cases s)
    case (SITE_FILE i fs)
    with s(2) obtain fs1 where f: "s1 = SITE_FILE i fs1" "FileOpen (wDisk w) fs path ''wb'' = Inr (e, fs1, dk1)"
      by (auto simp: res_simps fileSiteSchemeFileOpenWrite_def)
    from f(2) obtain full where r: "ResolveToSystemPath (fsFullUri fs) path = Inr full" by (rule FileOpen_cases)
    have "targetPath entry w = set_option full" using assms(2,3) s(1) SITE_FILE r by (auto simp: targetPath_def split: option.split)
    with FileOpen_wb [OF f(2) r] f(1) SITE_FILE show ?thesis by auto
  next
    case (SITE_HTTP i hs)
    with s(2) show ?thesis by auto
  qed
  with s(1,3) show ?thesis using putSite_keeps [of w q s s1] by (auto simp: writesAt_def putSite_def)
qed

lemma downloadBody_cases:
  assumes "downloadBody entry w = Inr (e, entry1, w1)"
  obtains (ends_open) fromPath e1 where "wOpenRead (qeSourceSite entry) fromPath w = Inr (e1, w1)"
  | (ends_closed) fromPath e1 w2 where "wOpenRead (qeSourceSite entry) fromPath w = Inr (e1, w2)" "wClose (qeSourceSite entry) w2 = Inr w1"
  | (refused) fromPath toPath e1 w2 e2 w3 where "wOpenRead (qeSourceSite entry) fromPath w = Inr (e1, w2)"
      "qeDestinationPath entry = Some toPath" "wOpenWrite (qeDestinationSite entry) toPath w2 = Inr (e2, w3)"
      "wClose (qeSourceSite entry) w3 = Inr w1"
  | (copied) fromPath toPath e1 w2 e2 w3 ok w4 w5 where "wOpenRead (qeSourceSite entry) fromPath w = Inr (e1, w2)"
      "qeDestinationPath entry = Some toPath" "wOpenWrite (qeDestinationSite entry) toPath w2 = Inr (e2, w3)"
      "copyLoop (wRead (qeSourceSite entry)) (wAtEnd (qeSourceSite entry)) (wWrite (qeDestinationSite entry))
         (readBudget (qeSourceSite entry) w3) w3 = Inr (ok, w4)"
      "wClose (qeSourceSite entry) w4 = Inr w5" "wClose (qeDestinationSite entry) w5 = Inr w1"
proof -
  from assms obtain fromPath toPath where paths: "qeSourcePath entry = Some fromPath" "qeDestinationPath entry = Some toPath"
    by (auto simp: downloadBody_def split: option.splits)
  note step = assms [unfolded downloadBody_def Let_def paths option.case prod.case]
  from step obtain e1 w2 where o: "wOpenRead (qeSourceSite entry) fromPath w = Inr (e1, w2)" by (auto simp: res_simps)
  note step = step [unfolded o bindr.simps prod.case]
  show thesis
  proof (cases "e1 = None")
    case False
    with step o show thesis by (auto intro: ends_open)
  next
    case True
    with step obtain m where m: "wOpenMeta (qeSourceSite entry) w2 = Inr m" by (auto simp: res_simps)
    note step = step [unfolded m bindr.simps True, simplified]
    show thesis
    proof (cases "\<exists>meta. m = Some meta \<and> smType meta = SITE_FILE_TYPE_FILE \<and> smName meta \<noteq> None")
      case False
      with step o show thesis by (auto simp: res_simps split: option.splits if_splits intro: ends_closed)
    next
      case True
      then obtain meta where "m = Some meta" "smType meta = SITE_FILE_TYPE_FILE" "smName meta \<noteq> None" by blast
      note step = step [unfolded this(1) option.case, simplified this(2,3), simplified]
      from step obtain e2 w3 where wr: "wOpenWrite (qeDestinationSite entry) toPath w2 = Inr (e2, w3)" by (auto simp: res_simps)
      note step = step [unfolded wr bindr.simps prod.case]
      show thesis
      proof (cases "e2 = None")
        case False
        with step o wr paths(2) show thesis by (auto simp: res_simps intro: refused)
      next
        case True
        with step o wr paths(2) show thesis by (auto simp: res_simps intro: copied split: if_splits)
      qed
    qed
  qed
qed

lemma downloadBody_frame:
  assumes "downloadBody entry w = Inr (e, entry1, w1)"
  shows "worldKeeps (targetPath entry w) w w1"
  using assms
proof (cases rule: downloadBody_cases)
  case ends_open
  then show ?thesis by (rule wOpenRead_frame)
next
  case ends_closed
  then show ?thesis by (metis wOpenRead_frame wClose_frame worldKeeps_trans)
next
  case refused
  then show ?thesis
    using wOpenWrite_frame [OF refused(3) refl refused(2)] targetPath_openRead [OF refused(1), of entry]
    by (metis wOpenRead_frame wClose_frame worldKeeps_trans)
next
  case (copied fromPath toPath e1 w2 e2 w3 ok w4 w5)
  let ?T = "targetPath entry w"
  from wOpenWrite_frame [OF copied(3) refl copied(2)] targetPath_openRead [OF copied(1), of entry]
  have w: "worldKeeps ?T w2 w3" "writesAt ?T (qeDestinationSite entry) w3" by simp_all
  have "worldKeeps ?T w3 w4 \<and> writesAt ?T (qeDestinationSite entry) w4"
    by (rule copyLoop_invariant [where J = "\<lambda>v. worldKeeps ?T w3 v \<and> writesAt ?T (qeDestinationSite entry) v", OF _ copied(4)])
      (use w(2) in \<open>auto intro: worldKeeps_trans dest: wRead_frame [where P = ?T and q = "qeDestinationSite entry"]
         wWrite_frame [where P = ?T]\<close>)
  with wOpenRead_frame [OF copied(1), of ?T] w(1) wClose_frame [OF copied(5), of ?T] wClose_frame [OF copied(6), of ?T]
  show ?thesis by (metis worldKeeps_trans)
qed

text \<open>The state is the only thing of an entry that changes.\<close>

lemma withDestination_frame:
  assumes "withDestination entry w k = Inr (e, entry1, w1)"
    and "\<And>m w2. wStat (qeDestinationSite entry) (the (qeDestinationPath entry)) w = Inr (Some m, w2) \<Longrightarrow>
           k m w2 = Inr (e, entry1, w1) \<Longrightarrow> worldKeeps P w2 w1"
  shows "worldKeeps P w w1"
proof (cases "qeState entry AND QUEUE_STATE_QUEUED = 0")
  case True
  with assms(1) show ?thesis by (simp add: withDestination_def)
next
  case False
  with assms(1) obtain to m w2 where to: "qeDestinationPath entry = Some to"
    and st: "wStat (qeDestinationSite entry) to w = Inr (m, w2)"
    by (auto simp: withDestination_def res_simps split: option.splits)
  show ?thesis
  proof (cases m)
    case None
    with assms(1) False to st wStat_frame [OF st, of P] show ?thesis by (simp add: withDestination_def)
  next
    case (Some x)
    with assms(1) False to st have "k x w2 = Inr (e, entry1, w1)" by (simp add: withDestination_def)
    with assms(2) [of x w2] to st Some have "worldKeeps P w2 w1" by simp
    with wStat_frame [OF st] show ?thesis by (rule worldKeeps_trans)
  qed
qed

text \<open>A status of no file says that there is none.\<close>

lemma stat_nothing:
  assumes "wStat (qeDestinationSite entry) to w = Inr (Some m, w1)" "smType m = SITE_FILE_TYPE_NOTHING" "qeDestinationPath entry = Some to"
    "path \<in> targetPath entry w1"
  shows "dkNode (wDisk w1) path = None"
proof -
  from assms(1) obtain s s1 where s: "siteAt (wSites w) (qeDestinationSite entry) = Inr s" "siteStatOpenMeta (wDisk w) s to = Inr (Some m, s1)"
    "w1 = putSite w (qeDestinationSite entry) s1 (wDisk w)" by (auto simp: wStat_def res_simps)
  show ?thesis
  proof (cases s)
    case (SITE_FILE i fs)
    with s(2) obtain p where p: "ResolveToSystemPath (fsFullUri fs) to = Inr (Some p)" "m = FillFileMeta (wDisk w) p emptyMeta" "s1 = s"
      by (auto simp: res_simps fileSiteSchemeStatOpenMeta_def)
    then have "targetPath entry w1 = {p}" using s SITE_FILE assms(3) by (simp add: targetPath_def putSite_def)
    moreover have "dkNode (wDisk w) p = None"
      using assms(2) p(2) by (auto simp: FillFileMeta_def Let_def platformFileStat_def diskFiles_def split: option.splits if_splits)
    ultimately show ?thesis using assms(4) s(3) by (simp add: putSite_def)
  next
    case (SITE_HTTP i hs)
    with s(1,2,3) assms(4) show ?thesis by (auto simp: targetPath_def putSite_def res_simps)
  qed
qed

lemma noClobber_frame:
  assumes "queueEntryDownloadNoClobber entry w = Inr (e, entry1, w1)"
  shows "worldKeeps {path. dkNode (wDisk w) path = None} w w1"
  using assms unfolding queueEntryDownloadNoClobber_def
proof (rule withDestination_frame)
  fix m w2
  assume st: "wStat (qeDestinationSite entry) (the (qeDestinationPath entry)) w = Inr (Some m, w2)"
    and k: "(if smType m \<noteq> SITE_FILE_TYPE_NOTHING then Inr (Some (StrError EEXIST), entry, w2) else downloadBody entry w2) =
       Inr (e, entry1, w1)"
  show "worldKeeps {path. dkNode (wDisk w) path = None} w2 w1"
  proof (cases "smType m = SITE_FILE_TYPE_NOTHING")
    case True
    have "targetPath entry w2 \<subseteq> {path. dkNode (wDisk w) path = None}"
    proof
      fix path
      assume p: "path \<in> targetPath entry w2"
      then obtain to where "qeDestinationPath entry = Some to" by (cases "qeDestinationPath entry") (auto simp: targetPath_def split: sum.splits Site.split_asm)
      with stat_nothing [OF _ True _ p, of to w] st have "dkNode (wDisk w2) path = None" by simp
      with wStat_frame [OF st, of "{}"] show "path \<in> {path. dkNode (wDisk w) path = None}" by (simp add: worldKeeps_def sameFiles_def)
    qed
    with True k downloadBody_frame [of entry w2 e entry1 w1] show ?thesis by (auto intro: worldKeeps_mono)
  qed (use k in simp)
qed

end
