(* ===== verification/Dl_Frames.thy ===== *)
theory Dl_Frames
  imports Dl Queue_Frames
begin

text \<open>
  The commands of the command line keep the array of sites well formed, and all but the two that are
  meant to leave every existing file alone.
\<close>

section \<open>Well formed states\<close>

text \<open>
  The type invariant of the command line: every site has a number of its own, below that of the next
  one, and a selection is -1 or the index of a site (of one that may have been unmounted).
\<close>

definition cliOk :: "Cli \<Rightarrow> bool" where
  "cliOk c \<longleftrightarrow>
     distinct (map siteId (saArray (clSites c))) \<and> (\<forall>i \<in> set (map siteId (saArray (clSites c))). i < clFresh c) \<and>
     -1 \<le> saActiveRead (clSites c) \<and> -1 \<le> saActiveWrite (clSites c)"

definition noFile :: "Cli \<Rightarrow> string set" where
  "noFile c = {path. dkNode (wDisk (clWorld c)) path = None}"

text \<open>What a command may do: it keeps the invariant, and every file that exists.\<close>

definition cliKeeps :: "Cli \<Rightarrow> Cli \<Rightarrow> bool" where
  "cliKeeps c c1 \<longleftrightarrow> (cliOk c \<longrightarrow> cliOk c1) \<and> sameFiles (noFile c) (wDisk (clWorld c)) (wDisk (clWorld c1))"

lemma cliOk_sites:
  assumes "cliOk c" "sameSites (clSites c) (clSites c1)" "clFresh c1 = clFresh c"
  shows "cliOk c1"
  using assms by (simp add: cliOk_def sameSites_def del: set_map)

lemma cliKeepsI:
  assumes "worldKeeps (noFile c) (clWorld c) (clWorld c1)" "clFresh c1 = clFresh c"
  shows "cliKeeps c c1"
  using assms cliOk_sites by (auto simp: cliKeeps_def worldKeeps_def)

lemma cliKeeps_same [simp]: "clWorld c1 = clWorld c \<Longrightarrow> clFresh c1 = clFresh c \<Longrightarrow> cliKeeps c c1"
  by (rule cliKeepsI) simp_all

lemma core_simps [simp]:
  "clWorld (say t c) = clWorld c" "clFresh (say t c) = clFresh c" "clQueue (say t c) = clQueue c"
  "clWorld (putsLine t c) = clWorld c" "clFresh (putsLine t c) = clFresh c" "clQueue (putsLine t c) = clQueue c"
  "clWorld (putsErr env e c) = clWorld c" "clFresh (putsErr env e c) = clFresh c" "clQueue (putsErr env e c) = clQueue c"
  "clWorld (setSites a c) = (clWorld c)\<lparr>wSites := a\<rparr>" "clFresh (setSites a c) = clFresh c" "clQueue (setSites a c) = clQueue c"
  by (simp_all add: say_def putsLine_def putsErr_def setSites_def split: option.split)

text \<open>New sites and new selections.\<close>

lemma cliKeeps_setSites:
  assumes "cliOk c \<Longrightarrow> distinct (map siteId (saArray a)) \<and> (\<forall>s \<in> set (saArray a). siteId s < clFresh c1) \<and>
             -1 \<le> saActiveRead a \<and> -1 \<le> saActiveWrite a"
    "wDisk (clWorld c1) = wDisk (clWorld c)" "clSites c1 = a"
  shows "cliKeeps c c1"
  using assms by (auto simp: cliKeeps_def cliOk_def)

lemma activeSet_fields:
  "siteArrayActiveSetNth a l = (e, b) \<Longrightarrow> saArray b = saArray a \<and> saActiveWrite b = saActiveWrite a \<and>
     (saActiveRead b = saActiveRead a \<or> saActiveRead b = l)"
  "siteArrayActiveSetWriteNth a l = (e, b) \<Longrightarrow> saArray b = saArray a \<and> saActiveRead b = saActiveRead a \<and>
     (saActiveWrite b = saActiveWrite a \<or> saActiveWrite b = l)"
  by (auto simp: siteArrayActiveSetNth_def siteArrayActiveSetWriteNth_def split: if_splits)

lemma activate_keeps: "-1 \<le> l \<Longrightarrow> activate env l c = Inr c1 \<Longrightarrow> cliKeeps c c1"
  by (rule cliKeeps_setSites [OF _ _ refl]) (auto simp: activate_def cliOk_def split: prod.splits dest!: activeSet_fields)

lemma activateWrite_keeps: "-1 \<le> l \<Longrightarrow> activateWrite env l c = Inr c1 \<Longrightarrow> cliKeeps c c1"
  by (rule cliKeeps_setSites [OF _ _ refl]) (auto simp: activateWrite_def cliOk_def split: prod.splits dest!: activeSet_fields)

lemma hostLoop_bound: "hostLoop env type d i ss = Inr k \<Longrightarrow> 0 \<le> i \<Longrightarrow> -1 \<le> k \<and> k < i + int (length ss)"
  by (induction env type d i ss rule: hostLoop.induct) (fastforce split: if_splits option.splits)+

lemma input_bound: "siteArrayGetFromInputNth env a input = Inr k \<Longrightarrow> -1 \<le> k"
  by (auto simp: siteArrayGetFromInputNth_def SiteArrayGetByUriHostNth_def Let_def split: prod.splits if_splits UriScheme.splits
      dest: hostLoop_bound)

lemma siteFree_id [simp]: "siteId (siteFree s) = siteId s"
  by (cases s) simp_all

lemma remove_keeps:
  assumes "siteArrayRemove a s = Inr b" "distinct (map siteId (saArray a))" "-1 \<le> saActiveRead a" "-1 \<le> saActiveWrite a"
  shows "distinct (map siteId (saArray b)) \<and> set (saArray b) \<subseteq> set (saArray a) \<and> -1 \<le> saActiveRead b \<and> -1 \<le> saActiveWrite b"
proof (cases "siteIndex a s")
  case None
  with assms show ?thesis by (simp add: siteArrayRemove_def)
next
  case (Some i)
  have "distinct (map siteId (take i (saArray a) @ drop (i + 1) (saArray a)))"
    using assms(2) by (auto simp: take_map [symmetric] drop_map [symmetric] dest: in_set_takeD in_set_dropD)
      (metis Suc_n_not_le_n disjoint_iff nle_le set_take_disj_set_drop_if_distinct)
  moreover have "set (take i (saArray a) @ drop (i + 1) (saArray a)) \<subseteq> set (saArray a)"
    using set_take_subset set_drop_subset by fastforce
  ultimately show ?thesis
    using assms Some by (auto simp: siteArrayRemove_def siteArrayRemoveNth_def Let_def split: if_splits)
qed

section \<open>Every command keeps them\<close>

lemma siteNew_id: "siteNew fresh dk junk at env type path = Inr (e, Some s) \<Longrightarrow> siteId s = fresh"
  by (auto simp: siteNew_def res_simps split: SiteType.splits prod.splits)

lemma siteNew_some: "siteNew fresh dk junk at env type path \<noteq> Inr (None, None)"
proof -
  have r: "recvBufferNewFromUriDetails junk at env d o1 \<noteq> (None, None)" for d o1
    by (auto simp: recvBufferNewFromUriDetails_def recvBufferNewFromSocketAddress_def split: prod.split option.split sum.split bool.split)
  show ?thesis
  proof
    assume n: "siteNew fresh dk junk at env type path = Inr (None, None)"
    then obtain p where "type = TYPE_HTTP" "path = Some p" "httpSiteSchemeNew junk at env path = Inr (None, None)"
      by (auto simp: siteNew_def httpSiteSchemeNew_def elim!: bindrE split: SiteType.splits prod.splits option.split_asm)
    with r show False
      by (auto simp: httpSiteSchemeNew_def Let_def elim!: bindrE split: splits_asm)
  qed
qed

lemma siteDirectoryListingOpen_id: "siteDirectoryListingOpen now dk s path = Inr (l, s1) \<Longrightarrow> siteId s1 = siteId s"
  by (cases s) (auto simp: res_simps)

lemma siteDirectoryListingEntryStat_id: "siteDirectoryListingEntryStat dk s l en m = Inr (e, m1, s1) \<Longrightarrow> siteId s1 = siteId s"
  by (induction dk s l en m rule: siteDirectoryListingEntryStat.induct) (auto simp: res_simps)

lemma openListing_keeps: "openListing env p path w = Inr (l, w1) \<Longrightarrow> worldKeeps P w w1"
  by (auto simp: openListing_def res_simps intro!: putSite_keeps dest: siteDirectoryListingOpen_id)

lemma dosLoop_keeps: "dosLoop p l w = Inr (t, w1) \<Longrightarrow> worldKeeps P w w1"
proof (induction p l w arbitrary: t w1 rule: dosLoop.induct)
  case (1 p l w)
  from 1(2) [unfolded dosLoop.simps [of p l w]] obtain s en l1 where s: "siteAt (wSites w) p = Inr s"
    "siteDirectoryListingRead (wDisk w) s l = Inr (en, l1)" by (auto simp: res_simps)
  show ?case
  proof (cases en)
    case None
    with 1(2) s show ?thesis by (simp add: dosLoop.simps [of p l w])
  next
    case (Some m)
    with 1(2) [unfolded dosLoop.simps [of p l w]] s obtain e meta s1 t1 t2 where r:
      "siteDirectoryListingEntryStat (wDisk w) s l1 m emptyMeta = Inr (e, meta, s1)"
      "(if e = None then entryLine meta else Inr []) = Inr t1"
      "dosLoop p l1 (putSite w p s1 (wDisk w)) = Inr (t2, w1)" by (auto simp: res_simps)
    have "worldKeeps P (putSite w p s1 (wDisk w)) w1" by (rule 1(1) [OF s(1) s(2) refl Some r(1) refl refl r(2,3)])
    moreover have "worldKeeps P w (putSite w p s1 (wDisk w))"
      using siteDirectoryListingEntryStat_id [OF r(1)] s(1) by (auto intro: putSite_keeps)
    ultimately show ?thesis by (rule worldKeeps_trans [rotated])
  qed
qed

lemma cliKeeps_listing:
  assumes "openListing env p path (clWorld c) = Inr (l, w)" "w1 = w \<or> dosLoop p d w = Inr (t, w1)"
    "clWorld c1 = w1" "clFresh c1 = clFresh c"
  shows "cliKeeps c c1"
proof (rule cliKeepsI)
  have "worldKeeps (noFile c) (clWorld c) w" using assms(1) by (rule openListing_keeps)
  moreover have "worldKeeps (noFile c) w w1" using assms(2) dosLoop_keeps by auto
  ultimately show "worldKeeps (noFile c) (clWorld c) (clWorld c1)" using assms(3) worldKeeps_trans by blast
qed (rule assms(4))

lemma PrintDirectoryFilesDosLike_keeps:
  assumes "PrintDirectoryFilesDosLike env p path c = Inr c1"
  shows "cliKeeps c c1"
proof -
  let ?path = "case path of None \<Rightarrow> ''.'' | Some p \<Rightarrow> p"
  from assms obtain l w where o: "openListing env p ?path (clWorld c) = Inr (l, w)"
    by (auto simp: PrintDirectoryFilesDosLike_def Let_def elim!: bindrE)
  show ?thesis
  proof (cases l)
    case None
    with assms o show ?thesis by (auto simp: PrintDirectoryFilesDosLike_def intro: cliKeeps_listing [OF o])
  next
    case (Some d)
    with assms o obtain t w1 where "dosLoop p d w = Inr (t, w1)" "clWorld c1 = w1" "clFresh c1 = clFresh c"
      by (auto simp: PrintDirectoryFilesDosLike_def Let_def elim!: bindrE)
    with cliKeeps_listing [OF o] show ?thesis by blast
  qed
qed

lemma PrintDirectoryFilesUnixLike_keeps:
  assumes "PrintDirectoryFilesUnixLike env p path c = Inr c1"
  shows "cliKeeps c c1"
proof -
  let ?path = "case path of None \<Rightarrow> ''.'' | Some p \<Rightarrow> p"
  from assms obtain l w where o: "openListing env p ?path (clWorld c) = Inr (l, w)"
    by (auto simp: PrintDirectoryFilesUnixLike_def elim!: bindrE)
  with assms have "clWorld c1 = w \<and> clFresh c1 = clFresh c"
    by (cases l) (auto simp: PrintDirectoryFilesUnixLike_def elim!: bindrE)
  with cliKeeps_listing [OF o] show ?thesis by blast
qed

lemma copyEntry_keeps: "copyEntry env verb st args c = Inr c1 \<Longrightarrow> cliKeeps c c1"
  by (auto simp: copyEntry_def Let_def elim!: bindrE split: splits_asm)

lemma MountSite_cases:
  assumes "MountSite env par c = Inr (e, c1)"
  obtains (refused) "c1 = c" "e \<noteq> None" | (failed) "e \<noteq> None" "clWorld c1 = clWorld c" "clFresh c1 = clFresh c + 1"
  | (mounted) s c2 where "e = None" "siteId s = clFresh c" "c1 = setSites (siteArrayActiveSet (siteArrayAdd (clSites c) s) s) c2"
      "clWorld c2 = clWorld c" "clFresh c2 = clFresh c + 1" "clQueue c2 = clQueue c"
proof -
  let ?d = "uriDetailsNewFrom (Some par)"
  let ?t = "mountType (uriDetailsGetScheme ?d)"
  show thesis
  proof (cases "uHost ?d = None \<or> ?t = None")
    case True
    with assms show thesis by (intro refused) (auto simp: MountSite_def Let_def split: if_split_asm)
  next
    case False
    then obtain ty where ty: "uHost ?d \<noteq> None" "?t = Some ty" by blast
    note step = assms [unfolded MountSite_def Let_def ty(2) option.case, simplified ty(1), simplified]
    from step obtain e2 site where n: "siteNew (clFresh c) (wDisk (clWorld c)) 0 (case clConnects c of [] \<Rightarrow> [] | as # _ \<Rightarrow> as)
        (ceResolver env) ty (Some par) = Inr (e2, site)" by (auto elim!: bindrE)
    show thesis
    proof (cases "e2 = None \<and> site \<noteq> None")
      case True
      then obtain s where s: "e2 = None" "site = Some s" by auto
      from step n s siteNew_id [of _ _ _ _ _ _ _ e2 s] show thesis by (intro mounted [of s "c\<lparr>clConnects := drop 1 (clConnects c), clFresh := clFresh c + 1\<rparr>"]) auto
    next
      case False
      with siteNew_some n have "e2 \<noteq> None" by metis
      with step n show thesis by (intro failed) (auto split: option.split_asm)
    qed
  qed
qed

lemma MountSite_keeps:
  assumes "MountSite env par c = Inr (e, c1)"
  shows "cliKeeps c c1"
  using assms
proof (cases rule: MountSite_cases)
  case failed
  then show ?thesis by (auto simp: cliKeeps_def cliOk_def)
next
  case (mounted s c2)
  then show ?thesis
    by (intro cliKeeps_setSites)
      (auto simp: cliOk_def siteArrayActiveSet_def siteArrayAdd_def siteArrayActiveSetNth_def split: option.splits)
qed simp

lemma MountList_keeps:
  assumes "MountList env c = Inr c1"
  shows "cliKeeps c c1"
proof (cases "saArray (clSites c) = []")
  case True
  with assms obtain e s where "siteNew (clFresh c) (wDisk (clWorld c)) 0 [] (ceResolver env) TYPE_FILE None = Inr (e, Some s)"
    "c1 = setSites (siteArrayAdd \<lparr>saActiveRead = 0, saActiveWrite = 0, saArray = [], saBlock = 0\<rparr> s) (c\<lparr>clFresh := clFresh c + 1\<rparr>)"
    by (auto simp: MountList_def siteArrayInit_def elim!: bindrE split: option.split_asm)
  with siteNew_id [OF this(1)] show ?thesis by (auto simp: cliKeeps_def cliOk_def siteArrayAdd_def)
next
  case False
  with assms show ?thesis by (auto simp: MountList_def elim!: bindrE)
qed

lemma unmount_keeps:
  assumes "unmount p c = Inr c1"
  shows "cliKeeps c c1"
proof -
  from assms obtain s b where s: "siteAt (clSites c) p = Inr s"
    "siteArrayRemove (setSiteAt (clSites c) p (siteFree s)) (siteFree s) = Inr b" "c1 = setSites b c" by (auto simp: unmount_def res_simps)
  let ?a = "setSiteAt (clSites c) p (siteFree s)"
  have "sameSites (clSites c) ?a"
    using putSite_keeps [of "clWorld c" p s "siteFree s" UNIV "wDisk (clWorld c)"] s(1) by (simp add: worldKeeps_def putSite_def)
  then have a: "map siteId (saArray ?a) = map siteId (saArray (clSites c))" "saActiveRead ?a = saActiveRead (clSites c)"
    "saActiveWrite ?a = saActiveWrite (clSites c)" by (simp_all add: sameSites_def)
  show ?thesis
  proof (rule cliKeeps_setSites)
    assume "cliOk c"
    with a remove_keeps [OF s(2)] have "distinct (map siteId (saArray b))" "set (saArray b) \<subseteq> set (saArray ?a)"
      "-1 \<le> saActiveRead b" "-1 \<le> saActiveWrite b" by (simp_all add: cliOk_def)
    moreover have "\<forall>i \<in> set (map siteId (saArray ?a)). i < clFresh c" using \<open>cliOk c\<close> a(1) by (simp add: cliOk_def del: set_map)
    ultimately show "distinct (map siteId (saArray b)) \<and> (\<forall>s \<in> set (saArray b). siteId s < clFresh c1) \<and>
        -1 \<le> saActiveRead b \<and> -1 \<le> saActiveWrite b" using s(3) by auto
  qed (simp_all add: s(3))
qed

lemma changeDirectory_keeps:
  assumes "changeDirectory env path c = Inr c1"
  shows "cliKeeps c c1"
proof -
  let ?p = "siteArrayActiveGet (clSites c)"
  from assms obtain s r s1 dk where s: "siteAt (clSites c) ?p = Inr s" "siteWorkingDirectorySet (wDisk (clWorld c)) s path = Inr (r, s1, dk)"
    "clWorld c1 = putSite (clWorld c) ?p s1 dk" "clFresh c1 = clFresh c"
    by (auto simp: changeDirectory_def Let_def elim!: bindrE split: splits_asm)
  from s(2) have "siteId s1 = siteId s" "\<And>P. sameFiles P (wDisk (clWorld c)) dk"
    by (cases s; auto simp: fileSiteSchemeWorkingDirectorySet_def Let_def leaveErrno_def sameFiles_def elim!: bindrE
        split: splits_asm option.split sum.split)+
  with s show ?thesis by (intro cliKeepsI) (simp_all add: putSite_keeps)
qed

text \<open>Existing files and the array of sites survive.\<close>

definition worldSaves :: "World \<Rightarrow> World \<Rightarrow> bool" where
  "worldSaves w w1 \<longleftrightarrow> worldKeeps {path. dkNode (wDisk w) path = None} w w1"

lemma worldSaves_refl [simp]: "worldSaves w w"
  by (simp add: worldSaves_def)

lemma worldSaves_trans: "worldSaves w w1 \<Longrightarrow> worldSaves w1 w2 \<Longrightarrow> worldSaves w w2"
  by (auto simp: worldSaves_def worldKeeps_def sameSites_def sameFiles_def)

lemma runEntries_preserves:
  assumes "runEntries download env width i es w = Inr (es1, w1, t)"
    and "\<And>e w err e1 w1. download e w = Inr (err, e1, w1) \<Longrightarrow> R w w1"
    and "\<And>w. R w w" "\<And>w w1 w2. R w w1 \<Longrightarrow> R w1 w2 \<Longrightarrow> R w w2"
  shows "R w w1"
  using assms(1)
proof (induction es arbitrary: i w es1 t)
  case Nil
  then show ?case using assms(3) by simp
next
  case (Cons e es)
  from Cons.prems obtain u where u: "entryUris (wSites w) e = Inr u" by (auto elim!: bindrE)
  show ?case
  proof (cases u)
    case None
    with Cons.prems u obtain es2 t2 where "runEntries download env width (i + 1) es w = Inr (es2, w1, t2)"
      by (auto elim!: bindrE)
    then show ?thesis by (rule Cons.IH)
  next
    case (Some sd)
    with Cons.prems u obtain err e1 w2 es2 t2 where "download e w = Inr (err, e1, w2)"
      "runEntries download env width (i + 1) es w2 = Inr (es2, w1, t2)" by (cases sd) (auto elim!: bindrE)
    then show ?thesis using assms(2,4) Cons.IH by blast
  qed
qed

lemma runQueue_preserves:
  assumes "runQueue download env c = Inr c1"
    and "\<And>e w err e1 w1. download e w = Inr (err, e1, w1) \<Longrightarrow> R w w1"
    and "\<And>w. R w w" "\<And>w w1 w2. R w w1 \<Longrightarrow> R w1 w2 \<Longrightarrow> R w w2"
  shows "R (clWorld c) (clWorld c1) \<and> clFresh c1 = clFresh c"
proof (cases "clQueue c")
  case None
  with assms(1,3) show ?thesis by (auto simp: runQueue_def)
next
  case (Some es)
  with assms(1) obtain es1 w t where "runEntries download env (GetLongWidth (length es)) 0 es (clWorld c) = Inr (es1, w, t)"
    "clWorld c1 = w" "clFresh c1 = clFresh c" by (auto simp: runQueue_def elim!: bindrE)
  with runEntries_preserves [OF this(1), of R] assms(2-4) show ?thesis by blast
qed

lemma QueueStart_keeps: "QueueStart env c = Inr c1 \<Longrightarrow> cliKeeps c c1"
  unfolding QueueStart_def
  by (drule runQueue_preserves [where R = worldSaves])
    (auto simp: worldSaves_def noFile_def dest: noClobber_frame intro: cliKeepsI worldSaves_trans [unfolded worldSaves_def])

text \<open>The other two keep the sites.\<close>

lemma downloadBody_sites: "downloadBody entry w = Inr (e, entry1, w1) \<Longrightarrow> worldKeeps UNIV w w1"
  using downloadBody_frame worldKeeps_mono by blast

lemma mirror_sites: "queueEntryDownloadMirror entry w = Inr (e, entry1, w1) \<Longrightarrow> worldKeeps UNIV w w1"
  unfolding queueEntryDownloadMirror_def by (erule withDestination_frame) (rule downloadBody_sites)

lemma update_sites:
  assumes "queueEntryDownloadUpdate entry w = Inr (e, entry1, w1)"
  shows "worldKeeps UNIV w w1"
  using assms unfolding queueEntryDownloadUpdate_def
proof (rule withDestination_frame)
  fix m w2
  assume k: "(if smType m = SITE_FILE_TYPE_NOTHING then downloadBody entry w2
     else (case qeSourcePath entry of
             None \<Rightarrow> Inl NullDereference
           | Some fromPath \<Rightarrow>
               bindr (wStat (qeSourceSite entry) fromPath w2) (\<lambda>(m1, w2).
                 case m1 of
                   None \<Rightarrow> downloadBody entry w2
                 | Some fromMeta \<Rightarrow>
                     if smType fromMeta = SITE_FILE_TYPE_NOTHING then downloadBody entry w2
                     else (case (smModifiedDate m, smModifiedDate fromMeta) of
                             (Some t, Some f) \<Rightarrow>
                               if 0 \<le> platformTimeStructCompare t f then
                                 Inr (None, entry\<lparr>qeState := (qeState entry OR QUEUE_STATE_FINISHED) AND NOT QUEUE_STATE_QUEUED\<rparr>, w2)
                               else downloadBody entry w2
                           | _ \<Rightarrow> Inl NullDereference)))) = Inr (e, entry1, w1)"
  show "worldKeeps UNIV w2 w1"
  proof (cases "smType m = SITE_FILE_TYPE_NOTHING")
    case True
    with k downloadBody_sites show ?thesis by simp
  next
    case False
    with k obtain fp m1 w3 where st: "wStat (qeSourceSite entry) fp w2 = Inr (m1, w3)"
      "w1 = w3 \<or> downloadBody entry w3 = Inr (e, entry1, w1)"
      by (auto elim!: bindrE split: splits_asm)
    with wStat_frame [OF st(1), of UNIV] downloadBody_sites show ?thesis by (auto intro: worldKeeps_trans)
  qed
qed

lemma runQueue_typed:
  assumes "runQueue download env c = Inr c1"
    "\<And>e w err e1 w1. download e w = Inr (err, e1, w1) \<Longrightarrow> worldKeeps UNIV w w1"
  shows "cliOk c \<longrightarrow> cliOk c1"
proof -
  have "worldKeeps UNIV (clWorld c) (clWorld c1) \<and> clFresh c1 = clFresh c"
    by (rule runQueue_preserves [OF assms(1)]) (use assms(2) worldKeeps_trans in auto)
  then show ?thesis using cliOk_sites by (simp add: worldKeeps_def)
qed

lemma search_keeps:
  "queueFind env texts c = Inr c1 \<Longrightarrow> cliKeeps c c1" "queueRemove env texts c = Inr c1 \<Longrightarrow> cliKeeps c c1"
  by (auto simp: queueFind_def queueRemove_def QueueList_def elim!: bindrE split: splits_asm)

lemma printDirectory_keeps: "printDirectory p c = Inr c1 \<Longrightarrow> cliKeeps c c1"
  by (auto simp: printDirectory_def putsPtr_def elim!: bindrE split: splits_asm)

lemma answer_keeps: "invalidId c = Inr c1 \<Longrightarrow> cliKeeps c c1" "notFound c = Inr c1 \<Longrightarrow> cliKeeps c c1"
  by (auto simp: invalidId_def notFound_def)

text \<open>What the user types as a site, if it is one.\<close>

lemma input_activates:
  "bindr (siteArrayGetFromInputNth r a x) (\<lambda>l. if l \<noteq> -1 then activate env l c else invalidId c) = Inr c1 \<Longrightarrow> cliKeeps c c1"
  "bindr (siteArrayGetFromInputNth r a x) (\<lambda>l. if l \<noteq> -1 then activateWrite env l c else invalidId c) = Inr c1 \<Longrightarrow> cliKeeps c c1"
  by (auto elim!: bindrE split: if_split_asm simp: activate_keeps [OF input_bound] activateWrite_keeps [OF input_bound] answer_keeps)

lemma plusCommand_keeps:
  assumes "plusCommand env a c = Inr c1"
  shows "cliKeeps c c1"
proof (cases "length a \<noteq> 1 \<and> a ! 1 = CHR ''!''")
  case True
  obtain e s1 where s: "siteArrayActiveSetWriteNth (clSites c) (siteArrayActiveGetNth (clSites c)) = (e, s1)" by fastforce
  obtain e2 s2 where s2: "siteArrayActiveSetNth s1 (siteArrayActiveGetWriteNth (clSites c)) = (e2, s2)" by fastforce
  from True assms s s2 have "clSites c1 = (if e = None then s2 else s1)" "wDisk (clWorld c1) = wDisk (clWorld c)" "clFresh c1 = clFresh c"
    by (auto simp: plusCommand_def Let_def split: option.split_asm)
  then show ?thesis using activeSet_fields(2) [OF s] activeSet_fields(1) [OF s2]
    by (intro cliKeeps_setSites)
      (auto simp: cliOk_def siteArrayActiveGetNth_def siteArrayActiveGetWriteNth_def split: if_splits)
next
  case False
  have g: "-1 \<le> siteArrayActiveGetNth (clSites c)" by (auto simp: siteArrayActiveGetNth_def)
  consider "length a = 1" | "length a \<noteq> 1" "a ! 1 = CHR ''>''" | "length a \<noteq> 1" "a ! 1 \<noteq> CHR ''>''" by blast
  then show ?thesis
  proof cases
    case 1
    with assms show ?thesis
      using printDirectory_keeps answer_keeps by (auto simp: plusCommand_def split: option.split_asm)
  next
    case 2
    with assms activateWrite_keeps [OF g] show ?thesis by (simp add: plusCommand_def)
  next
    case 3
    with False assms input_activates(2) show ?thesis by (simp add: plusCommand_def)
  qed
qed

lemma runSystem_typed: "cliOk c \<longrightarrow> cliOk (runSystem env args c)"
  by (auto simp: runSystem_def cliOk_def Let_def split: prod.split option.split)

section \<open>The dispatch\<close>

text \<open>The commands that may replace files: the two ways to download that do, and a command of the system.\<close>

definition overwrites :: "string list \<Rightarrow> bool" where
  "overwrites args \<longleftrightarrow>
     (args \<noteq> [] \<and> chC (args ! 0) 0 = CHR ''!'') \<or>
     (2 \<le> length args \<and> isWord (args ! 0) ''QUEUE'' \<and> (isWord (args ! 1) ''MIRROR'' \<or> isWord (args ! 1) ''UPDATE''))"

lemma toupperC_bang [simp]: "toupperC c = CHR ''!'' \<longleftrightarrow> c = CHR ''!''"
proof
  assume "toupperC c = CHR ''!''"
  then have "code (toupperC c) = (33 :: nat)" by simp
  then have "code c = (33 :: nat)" by (auto simp: toupperC_def islowerC_def split: if_splits)
  also have "... = code (CHR ''!'')" by simp
  finally show "c = CHR ''!''" by (simp only: of_char_eq_iff)
qed (simp add: toupperC_def islowerC_def)

lemma strtol_digit:
  assumes "isdigitC (toupperC (chC a 0))" "strtol a = (l, er, k)"
  shows "0 \<le> l"
proof -
  from assms(1) have d: "isdigitC (chC a 0)" by (auto simp: toupperC_def islowerC_def isdigitC_def split: if_splits)
  then obtain x r where a: "a = x # r" "isdigitC x" by (cases a) (auto simp: chC_def isdigitC_def)
  then have "\<not> isspaceC x" "x \<noteq> CHR ''-''" by (auto simp: isdigitC_def isspaceC_def)
  with assms(2) a show ?thesis by (auto simp: strtol_def Let_def LONG_MAX_def LONG_MIN_def split: if_splits)
qed

lemmas command_keeps = PrintDirectoryFilesDosLike_keeps PrintDirectoryFilesUnixLike_keeps MountList_keeps printDirectory_keeps
  unmount_keeps answer_keeps plusCommand_keeps changeDirectory_keeps search_keeps QueueStart_keeps input_activates

lemma noParameter_keeps:
  assumes "noParameter env a c = Inr c1" "chC a 0 \<noteq> CHR ''!''"
  shows "cliKeeps c c1"
proof -
  let ?f = "toupperC (chC a 0)"
  consider "isdigitC ?f" "activate env (fst (strtol a)) c = Inr c1" | "c1 = c"
    | "bindr (siteArrayGetFromInputNth (ceResolver env) (clSites c) (drop 1 a))
         (\<lambda>l. if l \<noteq> -1 then activate env l c else invalidId c) = Inr c1"
    | "clWorld c1 = clWorld c" "clFresh c1 = clFresh c"
    | p where "PrintDirectoryFilesDosLike env p None c = Inr c1 \<or> PrintDirectoryFilesUnixLike env p None c = Inr c1 \<or>
         printDirectory p c = Inr c1 \<or> unmount p c = Inr c1"
    | "plusCommand env a c = Inr c1 \<or> MountList env c = Inr c1 \<or> invalidId c = Inr c1 \<or> notFound c = Inr c1"
    using assms unfolding noParameter_def Let_def
    by (auto simp: PrintHelp_def QueueHelp_def split: if_split_asm option.split_asm prod.split_asm)
  then show ?thesis
  proof cases
    case 1
    then show ?thesis using strtol_digit [OF 1(1)] by (cases "strtol a") (auto intro: activate_keeps [of "fst (strtol a)"])
  qed (auto intro: command_keeps)
qed


lemma queueCommand_keeps:
  assumes "queueCommand env a c = Inr c1" "\<not> isWord a ''MIRROR''" "\<not> isWord a ''UPDATE''"
  shows "cliKeeps c c1"
  using assms QueueStart_keeps answer_keeps
  by (auto simp: queueCommand_def QueueClear_def QueueList_def elim!: bindrE split: splits_asm)

lemma printDirectoryOf_keeps: "printDirectoryOf a c = Inr c1 \<Longrightarrow> cliKeeps c c1"
  by (auto simp: printDirectoryOf_def split: splits_asm intro: command_keeps)

text \<open>The commands both longer forms have in common.\<close>

lemma shared_keeps:
  "Copy env args c = Inr c1 \<Longrightarrow> cliKeeps c c1" "XCopy env args c = Inr c1 \<Longrightarrow> cliKeeps c c1"
  "bindr (MountSite env b c) (\<lambda>(e, c2). Inr (putsErr env e c2)) = Inr c1 \<Longrightarrow> cliKeeps c c1"
  "bindr (siteArrayGetFromInput r a b) (\<lambda>p. case p of None \<Rightarrow> invalidId c | Some q \<Rightarrow> unmount (Some q) c) = Inr c1 \<Longrightarrow> cliKeeps c c1"
proof -
  assume "bindr (MountSite env b c) (\<lambda>(e, c2). Inr (putsErr env e c2)) = Inr c1"
  then obtain e c2 where m: "MountSite env b c = Inr (e, c2)" "c1 = putsErr env e c2" by (auto elim!: bindrE)
  with MountSite_keeps [OF m(1)] show "cliKeeps c c1" by (simp add: cliKeeps_def cliOk_def)
qed (auto simp: Copy_def XCopy_def elim!: bindrE split: splits_asm intro: copyEntry_keeps command_keeps)

lemma oneParameter_cases:
  assumes "oneParameter env args c = Inr c1" "chC (args ! 0) 0 \<noteq> CHR ''!''"
  obtains "isWord (args ! 0) ''QUEUE''" "queueCommand env (args ! 1) c = Inr c1" | "cliKeeps c c1"
  using assms unfolding oneParameter_def Let_def
  by (auto split: if_split_asm intro: command_keeps shared_keeps printDirectoryOf_keeps)

lemma manyParameters_keeps:
  assumes "manyParameters env args c = Inr c1" "chC (args ! 0) 0 \<noteq> CHR ''!''"
  shows "cliKeeps c c1"
  using assms unfolding manyParameters_def Let_def
  by (auto split: if_split_asm intro: command_keeps shared_keeps)

lemma ProcessCommand_cases:
  assumes "ProcessCommand env args c = Inr c1"
  obtains "args = []" "c1 = c" | "length args = 1" "noParameter env (args ! 0) c = Inr c1"
  | "2 \<le> length args" "oneParameter env args c = Inr c1" | "3 \<le> length args" "manyParameters env args c = Inr c1"
  using assms unfolding ProcessCommand_def
  by (cases args rule: remdups_adj.cases; cases "drop 2 args") (auto split: if_split_asm list.split_asm)

lemma command_saves:
  assumes "ProcessCommand env args c = Inr c1" "\<not> overwrites args"
  shows "cliKeeps c c1"
  using assms(1)
proof (cases rule: ProcessCommand_cases)
  case 2
  with assms(2) noParameter_keeps show ?thesis by (cases args) (auto simp: overwrites_def)
next
  case 3
  then have "chC (args ! 0) 0 \<noteq> CHR ''!''" using assms(2) by (cases args) (auto simp: overwrites_def)
  with 3(2) show ?thesis
  proof (cases rule: oneParameter_cases)
    case 1
    with assms(2) 3(1) queueCommand_keeps show ?thesis by (auto simp: overwrites_def)
  qed
next
  case 4
  with assms(2) manyParameters_keeps show ?thesis by (cases args) (auto simp: overwrites_def)
qed simp

end
