(* ===== verification/Dl_Sessions.thy ===== *)
theory Dl_Sessions
  imports Dl_Frames
begin

text \<open>
  What holds of whole sessions at the command line, from the text the user types to the disk, and where
  its commands go wrong.
\<close>

section \<open>Sessions\<close>

lemma command_typed:
  assumes "ProcessCommand env args c = Inr c1" "cliOk c"
  shows "cliOk c1"
proof (cases "overwrites args")
  case False
  with command_saves [OF assms(1)] assms(2) show ?thesis by (simp add: cliKeeps_def)
next
  case True
  then consider "args \<noteq> []" "chC (args ! 0) 0 = CHR ''!''" | "2 \<le> length args" "isWord (args ! 0) ''QUEUE''"
      "isWord (args ! 1) ''MIRROR'' \<or> isWord (args ! 1) ''UPDATE''" "chC (args ! 0) 0 \<noteq> CHR ''!''"
    by (cases "chC (args ! 0) 0 = CHR ''!''") (auto simp: overwrites_def)
  then show ?thesis
  proof cases
    case 1
    have "\<exists>as. c1 = runSystem env as c" using assms(1)
      by (cases rule: ProcessCommand_cases)
        (use 1 in \<open>auto simp: noParameter_def oneParameter_def manyParameters_def Let_def\<close>)
    with assms(2) runSystem_typed show ?thesis by blast
  next
    case 2
    from assms(1) show ?thesis
    proof (cases rule: ProcessCommand_cases)
      case 3
      from 3(2) 2(4) show ?thesis
      proof (cases rule: oneParameter_cases)
        case 1
        with 2(3) consider "QueueMirror env c = Inr c1" | "QueueUpdate env c = Inr c1"
          by (auto simp: queueCommand_def isWord_def)
        then show ?thesis
        proof cases
          case 1
          with runQueue_typed [OF _ mirror_sites] assms(2) show ?thesis by (auto simp: QueueMirror_def)
        next
          case 2
          with runQueue_typed [OF _ update_sites] assms(2) show ?thesis by (auto simp: QueueUpdate_def)
        qed
      qed (use assms(2) in \<open>simp add: cliKeeps_def\<close>)
    next
      case 4
      with manyParameters_keeps [OF 4(2) 2(4)] assms(2) show ?thesis by (simp add: cliKeeps_def)
    qed (use 2 assms(2) in auto)
  qed
qed

text \<open>The commands of a text the user types.\<close>

function typedCommands :: "string \<Rightarrow> string list list" where
  "typedCommands input =
     (if input = [] then []
      else (case lineArgs (fgetsLine input) of Inr (Some args) \<Rightarrow> [args] | _ \<Rightarrow> []) @
           typedCommands (drop (length (fgetsLine input)) input))"
  by pat_completeness auto
termination
  by (relation "measure length") (use fgetsLine_less in auto)

declare typedCommands.simps [simp del]

text \<open>A relation that every command of the session respects holds of the whole session.\<close>

lemma session_induct:
  assumes "interactiveLoop env input c = Inr c1" "J c"
    and "\<And>env args c c1. args \<in> set (typedCommands input) \<Longrightarrow> J c \<Longrightarrow> ProcessCommand env args c = Inr c1 \<Longrightarrow> J c1"
    and "\<And>c t. J c \<Longrightarrow> J (say t c)"
  shows "J c1 \<and> clExit c1"
  using assms(1-3)
proof (induction env input c rule: interactiveLoop.induct)
  case (1 env input c)
  let ?line = "fgetsLine input"
  let ?c1 = "say (showLong (siteArrayActiveGetNth (clSites c)) @ '' # '') c"
  note step = 1(2) [unfolded interactiveLoop.simps [of env input c] Let_def]
  from step have ne: "input \<noteq> []" by auto
  from step ne obtain r c2 where r: "lineArgs ?line = Inr r"
    "(case r of None \<Rightarrow> Inr ?c1 | Some args \<Rightarrow> ProcessCommand (env 0) args ?c1) = Inr c2"
    "(if clExit c2 then Inr c2 else interactiveLoop (\<lambda>k. env (k + 1)) (drop (length ?line) input) c2) = Inr c1"
    by (auto simp: res_simps)
  have sub: "set (typedCommands input) = (case r of Some args \<Rightarrow> {args} | None \<Rightarrow> {}) \<union>
      set (typedCommands (drop (length ?line) input))"
    using ne r(1) by (subst typedCommands.simps) (auto split: option.split)
  have J: "J c2"
  proof (cases r)
    case None
    with r(2) assms(4) [OF 1(3), of "showLong (siteArrayActiveGetNth (clSites c)) @ '' # ''"] show ?thesis by simp
  next
    case (Some args)
    with sub have "args \<in> set (typedCommands input)" by simp
    with 1(3,4) Some r(2) assms(4) show ?thesis by (metis option.case(2))
  qed
  show ?case
  proof (cases "clExit c2")
    case True
    with r(3) J show ?thesis by simp
  next
    case False
    with 1(1) [OF ne refl refl r(1,2) False] r(3) J 1(4) sub show ?thesis by auto
  qed
qed

lemma say_ok [simp]: "cliOk (say t c) = cliOk c"
  by (simp add: cliOk_def)

lemma init_ok:
  assumes "siteArrayInit (clFresh c) dk env = Inr a"
  shows "cliOk (setSites a (c\<lparr>clFresh := clFresh c + 1\<rparr>))"
  using assms
  by (auto simp: siteArrayInit_def siteArrayAdd_def cliOk_def elim!: bindrE split: option.split_asm dest!: siteNew_id)


text \<open>
  C3. No command but \<open>QUEUE MIRROR\<close>, \<open>QUEUE UPDATE\<close> and a command of the system changes or removes a file
  that exists: in a session without them every file is afterwards what it was before, whatever else is
  mounted, listed, queued and downloaded with \<open>QUEUE START\<close>.
\<close>

theorem session_keeps_files:
  assumes "InteractiveMode env input c = Inr c1" "\<forall>args \<in> set (typedCommands input). \<not> overwrites args"
    "dkNode (wDisk (clWorld c)) path = Some nd"
  shows "dkNode (wDisk (clWorld c1)) path = Some nd"
proof -
  from assms(1) obtain a where a: "interactiveLoop env input (setSites a (c\<lparr>clFresh := clFresh c + 1\<rparr>)) = Inr c1"
    by (auto simp: InteractiveMode_def elim!: bindrE)
  have "dkNode (wDisk (clWorld c1)) path = Some nd \<and> clExit c1"
  proof (rule session_induct [where J = "\<lambda>c. dkNode (wDisk (clWorld c)) path = Some nd", OF a])
    fix env args c c1
    assume "args \<in> set (typedCommands input)" "dkNode (wDisk (clWorld c)) path = Some nd" "ProcessCommand env args c = Inr c1"
    with assms(2) command_saves show "dkNode (wDisk (clWorld c1)) path = Some nd"
      by (fastforce simp: cliKeeps_def sameFiles_def noFile_def)
  qed (simp_all add: assms(3))
  then show ?thesis ..
qed

text \<open>A session of two files and one word.\<close>

definition exampleEnv :: CliEnv where
  "exampleEnv = \<lparr>ceResolver = \<lparr>resolve = (\<lambda>_. None), inet_addr = (\<lambda>_. 0), inet_pton6 = (\<lambda>_. None), ipv6 = False\<rparr>,
     ceStrerror = (\<lambda>_. ''error''), ceExec = (\<lambda>_ dk. (None, dk)), ceNow = 0, ceErrnoSet = False\<rparr>"

definition exampleCli :: "World \<Rightarrow> Cli" where
  "exampleCli w = \<lparr>clWorld = w, clQueue = None, clOut = [], clConnects = [], clFresh = 7, clRan = [], clExit = False\<rparr>"

lemma example_line: "lineArgs (fgetsLine (''exit'' @ [LF])) = Inr (Some [''exit''])"
  by code_simp

lemma example_session: "\<exists>c1. InteractiveMode (\<lambda>_. exampleEnv) (''exit'' @ [LF]) (exampleCli twoFiles) = Inr c1"
proof -
  have w: "isWord ''exit'' ''EXIT''" "\<not> isWord ''exit'' ''DIR''" "toupperC (chC ''exit'' 0) = CHR ''E''"
    by code_simp+
  then have "ProcessCommand env [''exit''] c = Inr (c\<lparr>clExit := True\<rparr>)" for env c
    by (simp add: ProcessCommand_def noParameter_def)
  then have "\<exists>c1. interactiveLoop env (''exit'' @ [LF]) c = Inr c1" for env c
    using example_line by (subst interactiveLoop.simps) (simp add: Let_def)
  then show ?thesis
    by (simp add: InteractiveMode_def siteArrayInit_def siteNew_def fileSiteSchemeNew_def exampleCli_def twoFiles_def
        exampleDisk_def UpdateFileUri_def)
qed


lemma session_keeps_files_witness:
  "\<exists>c1. InteractiveMode (\<lambda>_. exampleEnv) (''exit'' @ [LF]) (exampleCli twoFiles) = Inr c1 \<and>
     dkNode (wDisk (clWorld c1)) ''/old'' = Some (FileNode ''1994'' epoch1994)"
proof -
  have l: "length (fgetsLine (''exit'' @ [LF])) = 5" by code_simp
  have t: "typedCommands (''exit'' @ [LF]) = [[''exit'']]"
    by (subst typedCommands.simps, simp only: example_line l) (simp add: typedCommands.simps [of "[]"])
  have f: "dkNode (wDisk (clWorld (exampleCli twoFiles))) ''/old'' = Some (FileNode ''1994'' epoch1994)"
    by (simp add: exampleCli_def twoFiles_def)
  from example_session obtain c1 where c1:
    "InteractiveMode (\<lambda>_. exampleEnv) (''exit'' @ [LF]) (exampleCli twoFiles) = Inr c1" by blast
  from session_keeps_files [OF c1 _ f] c1 t show ?thesis by (simp add: overwrites_def chC_def)
qed

section \<open>From the command to the disk\<close>



section \<open>The arguments of a command of the system\<close>

lemma argvBlock_simps [simp]: "argvBlock [] = []" "argvBlock (s # ss) = s @ NUL # argvBlock ss"
  by (simp_all add: argvBlock_def)

lemma length_argvPtrs [simp]: "length (argvPtrs p ss) = length ss"
  by (induction ss arbitrary: p) auto

lemma argvPtrs_shift: "map (\<lambda>p. p - 1) (argvPtrs (Suc p) ss) = argvPtrs p ss"
  by (induction ss arbitrary: p) auto

lemma cstrAt_here: "NUL \<notin> set s \<Longrightarrow> cstrAt (pre @ s @ NUL # z) (length pre) = s"
  unfolding cstrAt_def by (simp add: takeWhile_tail) (metis takeWhile_eq_all_conv)

lemma cstrAt_block:
  "\<forall>s \<in> set ss. NUL \<notin> set s \<Longrightarrow> map (cstrAt (pre @ argvBlock ss @ z)) (argvPtrs (length pre) ss) = ss"
proof (induction ss arbitrary: pre)
  case (Cons s ss)
  from Cons.IH [of "pre @ s @ [NUL]"] Cons.prems cstrAt_here [of s pre "argvBlock ss @ z"] show ?case by simp
qed simp

lemma argvPtrs_last:
  "ss \<noteq> [] \<Longrightarrow> argvPtrs p ss ! (length ss - 1) + length (last ss) + 1 = p + length (argvBlock ss)"
proof (induction ss arbitrary: p)
  case (Cons s ss)
  then show ?case
  proof (cases "ss = []")
    case False
    with Cons.IH [of "p + length s + 1"] show ?thesis by (cases ss) auto
  qed simp
qed simp

text \<open>
  The arguments of a command of the system: \<open>StripBang\<close> shifts the block of the arguments by one byte
  and the pointers with it, and every argument stays what it was, only the exclamation mark is gone.
\<close>

theorem bangArgs_correct:
  assumes "\<forall>a \<in> set (s # ss). NUL \<notin> set a" "s \<noteq> []"
  shows "bangArgs (s # ss) = (if length s = 1 then ss else drop 1 s # ss)"
proof -
  obtain x r where s: "s = x # r" using assms(2) by (cases s) auto
  show ?thesis
  proof (cases "r = []")
    case True
    with s show ?thesis by (simp add: bangArgs_def chC_def)
  next
    case False
    let ?m = "argvBlock (s # ss)"
    have p: "take 1 (argvPtrs 0 (s # ss)) @ map (\<lambda>p. p - 1) (drop 1 (argvPtrs 0 (s # ss))) = argvPtrs 0 (r # ss)"
      using argvPtrs_shift [of "length s" ss] s by simp
    let ?i = "length (s # ss) - 1"
    have e: "argvPtrs 0 (r # ss) ! ?i + length (cstrAt ?m (argvPtrs 0 (r # ss) ! ?i + 1)) + 1 = length (argvBlock (r # ss))"
    proof -
      have "map (cstrAt ([x] @ argvBlock (r # ss))) (argvPtrs 1 (r # ss)) = r # ss"
        using cstrAt_block [of "r # ss" "[x]" "[]"] assms(1) s by simp
      then have "cstrAt ?m (argvPtrs 1 (r # ss) ! ?i) = (r # ss) ! ?i"
        using s nth_map [of ?i "argvPtrs 1 (r # ss)" "cstrAt ?m"] by (simp del: argvPtrs.simps)
      moreover have "argvPtrs 1 (r # ss) ! ?i = argvPtrs 0 (r # ss) ! ?i + 1"
        using argvPtrs_shift [of 0 "r # ss"] nth_map [of ?i "argvPtrs 1 (r # ss)" "\<lambda>p. p - 1"]
          argvPtrs_last [of "r # ss" 1] argvPtrs_last [of "r # ss" 0] by (simp del: argvPtrs.simps)
      moreover have "(r # ss) ! ?i = last (r # ss)" by (simp add: last_conv_nth)
      ultimately show ?thesis using argvPtrs_last [of "r # ss" 0] by simp
    qed
    have "StripBang ?m (argvPtrs 0 (s # ss)) = (argvBlock (r # ss) @ [NUL], argvPtrs 0 (r # ss))"
    proof -
      have "StripBang ?m (argvPtrs 0 (s # ss)) =
          (take (length (argvBlock (r # ss))) (drop 1 ?m) @ drop (length (argvBlock (r # ss))) ?m, argvPtrs 0 (r # ss))"
        using e unfolding StripBang_def Let_def p by (simp del: argvBlock_simps)
      moreover have "drop (length (argvBlock (r # ss))) ?m = [NUL]"
      proof -
        have "\<exists>b. argvBlock as = b @ [NUL]" if "as \<noteq> []" for as :: "string list"
          using that by (induction as) (auto, metis append_Nil append_Cons append_assoc argvBlock_simps(1))
        then obtain b where b: "argvBlock (r # ss) = b @ [NUL]" by blast
        then have "?m = (x # b) @ [NUL]" using s by simp
        moreover have "length (x # b) = length (argvBlock (r # ss))" using b by simp
        ultimately show ?thesis by (metis append_eq_conv_conj)
      qed
      ultimately show ?thesis using s by simp
    qed
    moreover have "map (cstrAt (argvBlock (r # ss) @ [NUL])) (argvPtrs 0 (r # ss)) = r # ss"
      using cstrAt_block [of "r # ss" "[]" "[NUL]"] assms(1) s by simp
    moreover have "r ! 0 \<noteq> NUL" using False assms(1) s by (cases r) auto
    ultimately show ?thesis using s False by (auto simp: bangArgs_def chC_def)
  qed
qed

lemma bangArgs_correct_witness: "bangArgs [''!ls'', ''-l'', ''x''] = [''ls'', ''-l'', ''x'']"
  using bangArgs_correct [of "''!ls''" "[''-l'', ''x'']"] by simp


section \<open>Where the commands go wrong\<close>

text \<open>A text that occurs in no address of the queue and is not a number is searched for in vain.\<close>

lemma search_misses:
  assumes "\<forall>e \<in> set es. uriMatches sites (qeSourceSite e) (qeSourcePath e) text = Inr False \<and>
                        uriMatches sites (qeDestinationSite e) (qeDestinationPath e) text = Inr False"
  shows "searchLoop sites es text found = Inr (None, found)"
  using assms by (induction es) auto

text \<open>
  A text that occurs in no address of the queue, and that is no number: \<open>QUEUE FIND\<close> lists the whole
  queue instead of saying that nothing was found, and \<open>QUEUE REMOVE\<close> follows a \<open>NULL\<close> pointer.
\<close>

theorem queue_search_misses:
  assumes "clQueue c = Some es" "fst (strtol text) = 0" "chC text 0 \<noteq> CHR ''-''"
    "\<forall>e \<in> set es. uriMatches (clSites c) (qeSourceSite e) (qeSourcePath e) text = Inr False \<and>
                   uriMatches (clSites c) (qeDestinationSite e) (qeDestinationPath e) text = Inr False"
  shows "ProcessCommand env [''queue'', ''find'', text] c = ProcessCommand env [''queue'', ''list''] c \<and>
         ProcessCommand env [''queue'', ''remove'', text] c = Inl NullDereference"
proof -
  have w: "isWord ''queue'' ''QUEUE''" "isWord ''find'' ''FIND''" "isWord ''list'' ''LIST''" "\<not> isWord ''remove'' ''FIND''"
    "isTail ''remove'' ''EMOVE''" "toupperC (chC ''remove'' 0) = CHR ''R''" "toupperC (chC ''queue'' 0) = CHR ''Q''"
    "chC ''queue'' 0 \<noteq> CHR ''!''" "\<not> isWord ''queue'' ''CP''" "\<not> isWord ''queue'' ''COPY''" "\<not> isWord ''queue'' ''CD''" "\<not> isWord ''queue'' ''DIR''"
    "\<not> isWord ''queue'' ''LS''" "\<not> isWord ''queue'' ''MOUNT''" "\<not> isWord ''queue'' ''PWD''" "\<not> isWord ''list'' ''CLEAR''"
    by code_simp+
  obtain er k where "strtol text = (0, er, k)" using assms(2) by (cases "strtol text") auto
  then have "queueEntryArraySearch b (clSites c) (clQueue c) None text = Inr (None, None)" for b
    using assms(1,4) search_misses by (simp add: queueEntryArraySearch_def u64_def)
  then have "searchAll b (clSites c) (clQueue c) None [text] = Inr (None, None)" for b by simp
  then show ?thesis
    using assms(1,3) w
    by (simp_all add: ProcessCommand_def manyParameters_def oneParameter_def Let_def queueFind_def queueRemove_def queueCommand_def
        QueueList_def del: searchAll.simps)
qed

lemma queue_search_misses_witness:
  "ProcessCommand exampleEnv [''queue'', ''remove'', ''zzz''] ((exampleCli (exampleWorld 9))\<lparr>clQueue := Some [exampleEntry]\<rparr>) =
     Inl NullDereference"
proof -
  let ?c = "(exampleCli (exampleWorld 9))\<lparr>clQueue := Some [exampleEntry]\<rparr>"
  have u: "uriDetailsNewFrom (Some ''http://h/'') = \<lparr>uScheme = Some ''http'', uHost = Some ''h'', uPath = Some ''/'', uPort = None, uQuery = None\<rparr>"
    "uriDetailsNewFrom (Some ''file:///d'') = \<lparr>uScheme = Some ''file'', uHost = Some [], uPath = Some ''/d'', uPort = None, uQuery = None\<rparr>"
    "fst (strtol ''zzz'') = 0" "chC ''zzz'' 0 \<noteq> CHR ''-''"
    by code_simp+
  have n: "platformStringFindNeedle ''http://h/x'' ''zzz'' = None" "platformStringFindNeedle ''file:///d/x'' ''zzz'' = None"
    unfolding platformStringFindNeedle_upper by code_simp+
  have "\<forall>e \<in> set [exampleEntry]. uriMatches (clSites ?c) (qeSourceSite e) (qeSourcePath e) ''zzz'' = Inr False \<and>
          uriMatches (clSites ?c) (qeDestinationSite e) (qeDestinationPath e) ''zzz'' = Inr False"
    by (simp add: uriMatches_def queueEntryGetUri_def workingDetails_def siteAt_def exampleCli_def exampleWorld_def exampleEntry_def
        exampleHttpSite_def httpSiteSchemeWorkingDirectoryGet_def fileSiteSchemeWorkingDirectoryGet_def u uriDetailsCreateString_def n)
  with queue_search_misses [of ?c "[exampleEntry]" "''zzz''" exampleEnv] u show ?thesis by simp
qed

text \<open>
  C34. A pointer into the array of sites does not survive the next \<open>MOUNT\<close>: the array moves, and the entries
  of the queue are left with pointers into the old one, so that listing the queue or starting it reads
  freed memory.
\<close>

theorem mount_invalidates_queue:
  assumes "MountSite env par c = Inr (None, c1)" "clQueue c = Some (e # es)" "siteAt (clSites c) (qeSourceSite e) = Inr s"
  shows "QueueList (clQueue c1) None none c1 = Inl UseAfterFree \<and> QueueStart env c1 = Inl UseAfterFree"
proof -
  have "clQueue c1 = clQueue c \<and> siteAt (clSites c1) (qeSourceSite e) = Inl UseAfterFree"
    using assms(1)
  proof (cases rule: MountSite_cases)
    case (mounted s c2)
    then show ?thesis using assms(3) by (auto simp: siteAt_def siteArrayActiveSet_def siteArrayActiveSetNth_def siteArrayAdd_def
        split: option.split_asm if_split_asm option.split)
  qed simp_all
  then show ?thesis
    using assms(2) by (simp add: QueueList_def QueueStart_def runQueue_def entryUris_def queueEntryGetUri_def workingDetails_def)
qed

text \<open>A directory of the disk is mounted while an entry waits.\<close>

definition mountCli :: Cli where
  "mountCli = (exampleCli (exampleWorld 9))\<lparr>clQueue := Some [exampleEntry],
     clWorld := (exampleWorld 9)\<lparr>wDisk := (exampleDisk 9)\<lparr>dkNode := [''/d'' \<mapsto> DirNode [] emptyTime]\<rparr>\<rparr>\<rparr>"

lemma example_mount: "\<exists>c1. MountSite exampleEnv ''file:///d'' mountCli = Inr (None, c1)"
proof -
  have u: "uriDetailsNewFrom (Some ''file:///d'') = \<lparr>uScheme = Some ''file'', uHost = Some [], uPath = Some ''/d'', uPort = None, uQuery = None\<rparr>"
    "uriDetailsGetScheme \<lparr>uScheme = Some ''file'', uHost = Some [], uPath = Some ''/d'', uPort = None, uQuery = None\<rparr> = SCHEME_FILE"
    "platformPathFileSchemeToSystem ''file:///d'' = Some ''/d''"
    by code_simp+
  show ?thesis
    by (simp add: MountSite_def u mountType_def siteNew_def fileSiteSchemeNew_def Let_def exampleDisk_def platformFileStat_def
        diskFiles_def platformFileStatIsDirectory_def mountCli_def)
qed

lemma mount_invalidates_queue_witness:
  "\<exists>c1. MountSite exampleEnv ''file:///d'' mountCli = Inr (None, c1) \<and> QueueStart exampleEnv c1 = Inl UseAfterFree"
proof -
  obtain c1 where c1: "MountSite exampleEnv ''file:///d'' mountCli = Inr (None, c1)" using example_mount by blast
  have "clQueue mountCli = Some [exampleEntry]" "siteAt (clSites mountCli) (qeSourceSite exampleEntry) = Inr (SITE_HTTP 0 exampleHttpSite)"
    by (simp_all add: siteAt_def exampleWorld_def exampleEntry_def mountCli_def)
  from mount_invalidates_queue [OF c1 this] c1 show ?thesis by blast
qed

text \<open>
  Unmounting a site in front of the active one leaves the number of the active one as it is: the site
  behind it becomes the active one.
\<close>

theorem siteArrayRemoveNth_shifts_active:
  assumes "0 \<le> n" "n < saActiveRead a" "saActiveRead a + 1 < saLen a"
  shows "\<exists>b. siteArrayRemoveNth a n = Inr b \<and> siteAt b (siteArrayActiveGet b) = Inr (saArray a ! nat (saActiveRead a + 1))"
  using assms
  by (auto simp: siteArrayRemoveNth_def Let_def siteArrayActiveGet_def sitePtr_def siteAt_def nth_append min_def)
    (auto simp: nat_add_distrib algebra_simps)

section \<open>Mounting selects\<close>

lemma compare_id:
  assumes "SiteCompare x s" "siteWorkingDirectoryGet s \<noteq> None"
  shows "siteId x = siteId s"
  using assms by (induction x s rule: SiteCompare.induct)
    (auto simp: fileSiteSchemeWorkingDirectoryGet_def emptyFileSite_def)

lemma siteIndex_new:
  assumes "\<forall>x \<in> set (saArray a). siteId x \<noteq> siteId s" "siteWorkingDirectoryGet s \<noteq> None"
  shows "siteIndex (siteArrayAdd a s) s = Some (length (saArray a))"
proof -
  have "SiteCompare s s" by (cases s) simp_all
  moreover have "\<not> SiteCompare (saArray a ! i) s" if "i < length (saArray a)" for i
    using compare_id [OF _ assms(2)] assms(1) that nth_mem by blast
  ultimately show ?thesis
    by (auto simp: siteIndex_def siteArrayAdd_def find_Some_iff nth_append intro!: exI [of _ "length (saArray a)"])
qed

text \<open>
  A successful \<open>MOUNT\<close> adds one site behind the others, with a number no other site has, and makes it the
  active one; the site for writing stays selected.
\<close>

theorem MountSite_selects:
  assumes "MountSite env par c = Inr (None, c1)" "cliOk c"
  shows "\<exists>s. saArray (clSites c1) = saArray (clSites c) @ [s] \<and> siteId s \<notin> siteId ` set (saArray (clSites c)) \<and>
           saActiveWrite (clSites c1) = saActiveWrite (clSites c) \<and>
           (siteWorkingDirectoryGet s = None \<or> siteAt (clSites c1) (siteArrayActiveGet (clSites c1)) = Inr s)"
  using assms(1)
proof (cases rule: MountSite_cases)
  case (mounted s c2)
  have fresh: "\<forall>x \<in> set (saArray (clSites c)). siteId x \<noteq> siteId s" using assms(2) mounted(2) by (auto simp: cliOk_def)
  show ?thesis
  proof (cases "siteWorkingDirectoryGet s = None")
    case False
    with siteIndex_new [OF fresh] mounted fresh show ?thesis
      by (intro exI [of _ s])
        (auto simp: siteArrayActiveSet_def siteArrayActiveSetNth_def siteArrayAdd_def siteArrayActiveGet_def sitePtr_def siteAt_def)
  next
    case True
    with mounted fresh show ?thesis
      by (intro exI [of _ s]) (auto simp: siteArrayActiveSet_def siteArrayActiveSetNth_def siteArrayAdd_def split: option.split)
  qed
qed simp_all

lemma MountSite_selects_witness:
  "\<exists>c1 s. MountSite exampleEnv ''file:///d'' mountCli = Inr (None, c1) \<and> saArray (clSites c1) = saArray (clSites mountCli) @ [s]"
proof -
  obtain c1 where c1: "MountSite exampleEnv ''file:///d'' mountCli = Inr (None, c1)" using example_mount by blast
  have "cliOk mountCli" by (simp add: cliOk_def mountCli_def exampleCli_def exampleWorld_def)
  from MountSite_selects [OF c1 this] c1 show ?thesis by blast
qed

end
