(* ===== verification/Dl_Readline.thy ===== *)
theory Dl_Readline
  imports Dl_Sessions
begin

text \<open>
  The rest of \<open>src/cli/dl.c\<close>: the call backs that show how far a download is, the loop of the builds with GNU
  readline, and \<open>main\<close>.
\<close>

section \<open>Progress\<close>

text \<open>The variable \<open>total\<close> and what goes to the terminal and to the standard error.\<close>

record Progress =
  pgTotal :: int
  pgOut :: string
  pgErr :: string

function offsetWidth :: "nat \<Rightarrow> nat" where
  "offsetWidth n = (if 0 < n then 1 + offsetWidth (n div 10) else 0)"
  by pat_completeness auto
termination by (relation "measure id") auto

declare offsetWidth.simps [simp del]

definition GetOffsetWidth :: "int \<Rightarrow> nat" where
  "GetOffsetWidth number = offsetWidth (nat number)"

text \<open>\<open>%0*lu\<close> and \<open>%lu\<close> of an offset.\<close>

definition offsetText :: "nat \<Rightarrow> int \<Rightarrow> string" where
  "offsetText width n = (let s = show_nat (nat (n mod 2 ^ 64)) in replicate (width - length s) (CHR ''0'') @ s)"

definition ProgressDumb :: "int \<Rightarrow> Progress \<Rightarrow> Progress" where
  "ProgressDumb sofar p = p\<lparr>pgErr := pgErr p @ ''.''\<rparr>"

definition StateDumb :: "Progress \<Rightarrow> Progress" where
  "StateDumb p = p\<lparr>pgErr := pgErr p @ [LF], pgTotal := 0\<rparr>"

definition ProgressSmart :: "int \<Rightarrow> Progress \<Rightarrow> Progress" where
  "ProgressSmart sofar p =
     p\<lparr>pgOut := pgOut p @
        (if pgTotal p \<noteq> 0 then
           (let width = GetOffsetWidth (pgTotal p) in offsetText width sofar @ offsetText width (pgTotal p) @ [CR])
         else offsetText 0 sofar @ [CR])\<rparr>"

definition StateSmart :: "Progress \<Rightarrow> Progress" where
  "StateSmart p = p\<lparr>pgOut := pgOut p @ CHR 0x1B # ''[2K'' @ [CR], pgTotal := 0\<rparr>"

definition TotalSize :: "int \<Rightarrow> Progress \<Rightarrow> Progress" where
  "TotalSize n p = p\<lparr>pgTotal := n\<rparr>"

section \<open>The loop with readline\<close>

text \<open>The prompt is printed into a block whose size counts the digits of the active site.\<close>

function digitsLoop :: "nat \<Rightarrow> nat \<Rightarrow> nat" where
  "digitsLoop n digits = (if 9 < n then digitsLoop (n div 10) (digits + 1) else digits)"
  by pat_completeness auto
termination by (relation "measure fst") auto

declare digitsLoop.simps [simp del]

definition promptText :: "int \<Rightarrow> string res" where
  "promptText nth_site =
     (let digits = digitsLoop (nat nth_site) (if nth_site < 0 then 2 else 1); text = showLong nth_site @ '' # '' in
      if length ''%ld # '' + digits + 1 < length text + 1 then Inl BufferOverflow else Inr text)"

text \<open>
  The lines that \<open>readline\<close> gives, without their ends. Behind the last one it gives \<open>NULL\<close>, and the loop
  asks again and again.
\<close>

fun readlineLoop :: "(nat \<Rightarrow> CliEnv) \<Rightarrow> string list \<Rightarrow> Cli \<Rightarrow> Cli res" where
  "readlineLoop env [] c = Inl EndlessLoop"
| "readlineLoop env (input # inputs) c =
     bindr (promptText (siteArrayActiveGetNth (clSites c))) (\<lambda>prompt.
     let c1 = say prompt c in
     bindr (platformArgvConvertString (Some input)) (\<lambda>r.
     bindr (case r of None \<Rightarrow> Inr c1
            | Some args \<Rightarrow> ProcessCommand (env 0) (map the (takeWhile (\<lambda>x. x \<noteq> None) args)) c1) (\<lambda>c2.
       if clExit c2 then Inr c2 else readlineLoop (\<lambda>k. env (k + 1)) inputs c2)))"

definition InteractiveMode_readline :: "(nat \<Rightarrow> CliEnv) \<Rightarrow> string list \<Rightarrow> Cli \<Rightarrow> Cli res" where
  "InteractiveMode_readline env inputs c =
     bindr (siteArrayInit (clFresh c) (wDisk (clWorld c)) (ceResolver (env 0))) (\<lambda>a.
       readlineLoop env inputs (setSites a (c\<lparr>clFresh := clFresh c + 1\<rparr>)))"

text \<open>
  \<open>main\<close>: \<open>ipStack\<close> is the answer of \<open>platformIpStackInit\<close>, \<open>terminal\<close> the variable \<open>TERM\<close>, \<open>tty\<close> whether both
  ends are a terminal. The result is the exit code and whether the call backs for a smart terminal are used.
\<close>

definition dlMain ::
    "string option \<Rightarrow> string option \<Rightarrow> bool \<Rightarrow> (nat \<Rightarrow> CliEnv) \<Rightarrow> string \<Rightarrow> Cli \<Rightarrow> (nat \<times> bool \<times> Cli) res" where
  "dlMain ipStack terminal tty env input c =
     (case ipStack of
        Some err \<Rightarrow> Inr (1, False, putsLine err c)
      | None \<Rightarrow>
          let smart = (terminal \<noteq> None \<and> terminal \<noteq> Some ''dumb'') in
          if tty then bindr (InteractiveMode env input c) (\<lambda>c1. Inr (0, smart, c1)) else Inr (0, smart, c))"

section \<open>What holds of them\<close>

lemma digitsLoop_length: "digitsLoop n d + 1 = d + length (show_nat n)"
proof (induction n d rule: digitsLoop.induct)
  case (1 n d)
  show ?case
  proof (cases "9 < n")
    case True
    with 1 show ?thesis
      by (subst digitsLoop.simps, subst show_nat.simps) simp
  next
    case False
    then show ?thesis
      by (subst digitsLoop.simps, subst show_nat.simps) simp
  qed
qed

lemma show_small: "n < 10 \<Longrightarrow> length (show_nat n) = 1"
  by (simp add: show_nat.simps)

lemma promptText_fits: "promptText (siteArrayActiveGetNth a) = Inr (showLong (siteArrayActiveGetNth a) @ '' # '')"
proof (cases "siteArrayActiveGetNth a < 0")
  case True
  then have "siteArrayActiveGetNth a = -1"
    by (auto simp: siteArrayActiveGetNth_def split: if_split_asm)
  then show ?thesis
    using show_small [of 1] by (simp add: promptText_def showLong_def Let_def digitsLoop.simps)
next
  case False
  then show ?thesis
    using digitsLoop_length [of "nat (siteArrayActiveGetNth a)" 1] by (simp add: promptText_def showLong_def Let_def)
qed

text \<open>A line that a line of the other loop can hold.\<close>

definition plainLine :: "string \<Rightarrow> bool" where
  "plainLine l \<longleftrightarrow> LF \<notin> set l \<and> NUL \<notin> set l \<and> length l + 1 < BUFSIZ"

definition typed :: "string list \<Rightarrow> string" where
  "typed inputs = concat (map (\<lambda>l. l @ [LF]) inputs)"

lemma takeWhile_line: "x \<notin> set l \<Longrightarrow> takeWhile (\<lambda>c. c \<noteq> x) (l @ x # r) = l"
  by (induction l) auto

lemma fgetsLine_typed:
  assumes "plainLine l"
  shows "fgetsLine (l @ LF # r) = l @ [LF]"
proof -
  have "takeWhile (\<lambda>c. c \<noteq> LF) (l @ LF # r) = l" "length (l @ [LF]) \<le> BUFSIZ - 1"
    using assms takeWhile_line by (auto simp: plainLine_def)
  then show ?thesis
    by (simp add: fgetsLine_def Let_def)
qed

lemma lineArgs_typed:
  assumes "plainLine l"
  shows "lineArgs (l @ [LF]) =
    bindr (platformArgvConvertString (Some l)) (\<lambda>r. Inr (map_option (\<lambda>args. map the (takeWhile (\<lambda>x. x \<noteq> None) args)) r))"
proof -
  have "takeWhile (\<lambda>c. c \<noteq> NUL) (CleanInput (l @ [LF])) = l"
    using assms takeWhile_line [of LF l "[]"] by (auto simp: CleanInput_def plainLine_def takeWhile_eq_all_conv)
  then show ?thesis
    by (simp add: lineArgs_def)
qed

lemma readlineLoop_same:
  "\<forall>l\<in>set inputs. plainLine l \<Longrightarrow> readlineLoop env inputs c = interactiveLoop env (typed inputs) c"
proof (induction env inputs c rule: readlineLoop.induct)
  case (1 env c)
  then show ?case
    by (simp add: typed_def interactiveLoop.simps)
next
  case (2 env l inputs c)
  have t: "typed (l # inputs) = l @ LF # typed inputs"
    by (simp add: typed_def)
  have l: "plainLine l" and ls: "\<forall>l\<in>set inputs. plainLine l"
    using 2(2) by simp_all
  note line = fgetsLine_typed [OF l, of "typed inputs"]
  have d: "drop (length (l @ [LF])) (l @ LF # typed inputs) = typed inputs"
    by simp
  let ?P = "platformArgvConvertString (Some l)"
  let ?c1 = "say (showLong (siteArrayActiveGetNth (clSites c)) @ '' # '') c"
  show ?case
  proof (cases ?P)
    case (Inl e)
    then show ?thesis
      by (subst interactiveLoop.simps) (simp add: t line promptText_fits lineArgs_typed [OF l] Let_def)
  next
    case (Inr r)
    let ?Q = "case r of None \<Rightarrow> Inr ?c1 | Some args \<Rightarrow> ProcessCommand (env 0) (map the (takeWhile (\<lambda>x. x \<noteq> None) args)) ?c1"
    have IH: "readlineLoop (\<lambda>k. env (k + 1)) inputs c2 = interactiveLoop (\<lambda>k. env (k + 1)) (typed inputs) c2"
      if "?Q = Inr c2" "\<not> clExit c2" for c2
      using 2(1) [OF promptText_fits refl Inr that ls] .
    have "readlineLoop env (l # inputs) c =
        bindr ?Q (\<lambda>c2. if clExit c2 then Inr c2 else readlineLoop (\<lambda>k. env (k + 1)) inputs c2)"
      by (simp add: promptText_fits Inr Let_def)
    also have "\<dots> = bindr ?Q (\<lambda>c2. if clExit c2 then Inr c2 else interactiveLoop (\<lambda>k. env (k + 1)) (typed inputs) c2)"
      using IH by (intro bindr_cong refl) auto
    also have "\<dots> = interactiveLoop env (typed (l # inputs)) c"
      unfolding t
      by (cases r) (simp_all add: interactiveLoop.simps [of env "l @ LF # typed inputs" c] line lineArgs_typed [OF l] Inr Let_def cong: if_cong)
    finally show ?thesis .
  qed
qed

text \<open>
  C35. The two builds of the client are one program: whatever lines are typed, the loop with readline does and prints
  what the loop without it does on the same text.
\<close>

theorem readline_same:
  assumes "\<forall>l\<in>set inputs. plainLine l"
  shows "InteractiveMode_readline env inputs c = InteractiveMode env (typed inputs) c"
  unfolding InteractiveMode_readline_def InteractiveMode_def readlineLoop_same [OF assms] ..

lemma readline_same_witness:
  "\<exists>c1. InteractiveMode_readline (\<lambda>_. exampleEnv) [''exit''] (exampleCli twoFiles) = Inr c1 \<and>
        InteractiveMode (\<lambda>_. exampleEnv) (''exit'' @ [LF]) (exampleCli twoFiles) = Inr c1"
  using readline_same [of "[''exit'']" "\<lambda>_. exampleEnv" "exampleCli twoFiles"] example_session
  by (simp add: plainLine_def BUFSIZ_def typed_def)

lemma offsetWidth_length: "0 < n \<Longrightarrow> offsetWidth n = length (show_nat n)"
proof (induction n rule: offsetWidth.induct)
  case (1 n)
  show ?case
  proof (cases "n < 10")
    case True
    with 1(2) show ?thesis
      by (subst offsetWidth.simps, subst show_nat.simps) (simp add: offsetWidth.simps)
  next
    case False
    with 1 show ?thesis
      by (subst offsetWidth.simps, subst show_nat.simps) simp
  qed
qed

lemma show_nat_mono: "m \<le> n \<Longrightarrow> length (show_nat m) \<le> length (show_nat n)"
proof (induction n arbitrary: m rule: show_nat.induct)
  case (1 n)
  show ?case
  proof (cases "n < 10")
    case True
    with 1(2) show ?thesis
      by (subst show_nat.simps, subst (2) show_nat.simps) simp
  next
    case False
    show ?thesis
    proof (cases "m < 10")
      case True
      with False show ?thesis
        by (subst show_nat.simps, subst (2) show_nat.simps) simp
    next
      case m: False
      from 1(1) [OF False div_le_mono [OF 1(2)]] False m show ?thesis
        by (subst show_nat.simps, subst (2) show_nat.simps) simp
    qed
  qed
qed

text \<open>
  A line of progress overwrites the last one: all that are shown for a download have the same length, and begin
  anew behind the carriage return.
\<close>

theorem progress_overwrites:
  assumes "0 \<le> sofar" "sofar \<le> pgTotal p" "0 < pgTotal p" "pgTotal p < 2 ^ 63"
  shows "\<exists>l. pgOut (ProgressSmart sofar p) = pgOut p @ l @ [CR] \<and> length l = 2 * GetOffsetWidth (pgTotal p)"
proof -
  have m: "sofar mod 2 ^ 64 = sofar" "pgTotal p mod 2 ^ 64 = pgTotal p"
    using assms by (simp_all add: mod_pos_pos_trivial)
  have "length (show_nat (nat sofar)) \<le> length (show_nat (nat (pgTotal p)))"
    using assms by (intro show_nat_mono) simp
  then show ?thesis
    using assms offsetWidth_length [of "nat (pgTotal p)"] m
    by (simp add: ProgressSmart_def offsetText_def GetOffsetWidth_def Let_def)
qed

end
